(* ===== verification/Prelude.thy ===== *)
theory Prelude
  imports Complex_Main "HOL-Library.AList" "HOL-Library.Word"
begin

text \<open>
  Shared vocabulary of the development.

  \<^item> A JavaScript \<open>Map\<close> iterates in insertion order, keeps the position of a key
    that is overwritten and appends a new one. This is what \<^const>\<open>AList.update\<close>
    and \<^const>\<open>AList.delete\<close> of the library do on association lists, so a \<open>Map\<close> is
    the type \<open>('k, 'v) jmap\<close> here, read with \<^const>\<open>map_of\<close>.
  \<^item> A JavaScript \<open>Set\<close> whose order is observable is a duplicate-free list, grown with
    \<open>jset_add\<close>; one whose order is not observable is a HOL set.
  \<^item> \<open>keyed_store\<close> is the contract the components rely on when they keep records
    under string keys; \<open>invariant_machine\<close> is the contract of a component whose
    operations all keep an invariant, and lifts it to runs.
\<close>

type_synonym ('k, 'v) jmap = "('k \<times> 'v) list"
type_synonym 'a jset = "'a list"
type_synonym byte = "8 word"

named_theorems jmap_simps \<open>lookup after an update or a delete of an insertion-ordered map\<close>

abbreviation jget :: "('k, 'v) jmap \<Rightarrow> 'k \<Rightarrow> 'v option" where
  "jget m k \<equiv> map_of m k"

abbreviation jput :: "'k \<Rightarrow> 'v \<Rightarrow> ('k, 'v) jmap \<Rightarrow> ('k, 'v) jmap" where
  "jput k v m \<equiv> AList.update k v m"

abbreviation jdel :: "'k \<Rightarrow> ('k, 'v) jmap \<Rightarrow> ('k, 'v) jmap" where
  "jdel k m \<equiv> AList.delete k m"

definition jhas :: "('k, 'v) jmap \<Rightarrow> 'k \<Rightarrow> bool" where
  "jhas m k \<longleftrightarrow> map_of m k \<noteq> None"

definition jset_add :: "'a \<Rightarrow> 'a jset \<Rightarrow> 'a jset" where
  "jset_add x xs = (if x \<in> set xs then xs else xs @ [x])"

definition jset_del :: "'a \<Rightarrow> 'a jset \<Rightarrow> 'a jset" where
  "jset_del x xs = filter (\<lambda>y. y \<noteq> x) xs"

abbreviation jwf :: "('k, 'v) jmap \<Rightarrow> bool" where
  "jwf m \<equiv> distinct (map fst m)"

text \<open>Lookups stay lookups: they are not turned into membership in the list.\<close>

declare map_of_eq_Some_iff [simp del] Some_eq_map_of_iff [simp del]

lemma jget_put [simp, jmap_simps]: "jget (jput k v m) k' = (if k' = k then Some v else jget m k')"
  by (simp add: update_conv)

lemma jget_del [simp, jmap_simps]: "jget (jdel k m) k' = (if k' = k then None else jget m k')"
  by (simp add: delete_conv')

lemma jhas_put [simp, jmap_simps]: "jhas (jput k v m) k' \<longleftrightarrow> k' = k \<or> jhas m k'"
  by (simp add: jhas_def)

lemma jhas_del [simp, jmap_simps]: "jhas (jdel k m) k' \<longleftrightarrow> k' \<noteq> k \<and> jhas m k'"
  by (simp add: jhas_def)

lemma jhas_keys: "jhas m k \<longleftrightarrow> k \<in> fst ` set m"
  by (auto simp: jhas_def map_of_eq_None_iff)

lemma jwf_put [simp, intro]: "jwf m \<Longrightarrow> jwf (jput k v m)"
  by (simp add: distinct_update)

lemma jwf_del [simp, intro]: "jwf m \<Longrightarrow> jwf (jdel k m)"
  by (simp add: distinct_delete)

lemma jwf_filter [simp, intro]: "jwf m \<Longrightarrow> jwf (filter P m)"
  by (simp add: distinct_map_filter)

lemma jget_filter:
  "jwf m \<Longrightarrow> jget (filter P m) k = (case jget m k of Some v \<Rightarrow> if P (k, v) then Some v else None | None \<Rightarrow> None)"
proof (induction m)
  case Nil
  then show ?case by simp
next
  case (Cons kv m)
  obtain a b where kv: "kv = (a, b)" by (cases kv)
  from Cons.prems kv have notin: "a \<notin> fst ` set m" by simp
  then have "map_of m a = None" by (simp add: map_of_eq_None_iff)
  with Cons kv show ?case by (auto split: option.splits)
qed

lemma jset_add_set [simp]: "set (jset_add x xs) = insert x (set xs)"
  by (auto simp: jset_add_def)

lemma jset_add_distinct [simp]: "distinct (jset_add x xs) = distinct xs"
  by (simp add: jset_add_def)

lemma jset_del_set [simp]: "set (jset_del x xs) = set xs - {x}"
  by (auto simp: jset_del_def)

lemma jset_del_distinct [simp, intro]: "distinct xs \<Longrightarrow> distinct (jset_del x xs)"
  by (simp add: jset_del_def)

section \<open>The contract of a keyed store\<close>

locale keyed_store =
  fixes lookup :: "'m \<Rightarrow> 'k \<Rightarrow> 'v option"
    and store :: "'k \<Rightarrow> 'v \<Rightarrow> 'm \<Rightarrow> 'm"
    and remove :: "'k \<Rightarrow> 'm \<Rightarrow> 'm"
    and ok :: "'m \<Rightarrow> bool"
  assumes lookup_store: "ok m \<Longrightarrow> lookup (store k v m) k' = (if k' = k then Some v else lookup m k')"
    and lookup_remove: "ok m \<Longrightarrow> lookup (remove k m) k' = (if k' = k then None else lookup m k')"
    and ok_store: "ok m \<Longrightarrow> ok (store k v m)"
    and ok_remove: "ok m \<Longrightarrow> ok (remove k m)"
begin

lemma store_other: "ok m \<Longrightarrow> k' \<noteq> k \<Longrightarrow> lookup (store k v m) k' = lookup m k'"
  by (simp add: lookup_store)

lemma remove_after_store:
  "ok m \<Longrightarrow> lookup m k = None \<Longrightarrow> lookup (remove k (store k v m)) = lookup m"
  by (auto simp: lookup_store lookup_remove ok_store)

lemma store_all_values:
  assumes "ok m" and "\<And>k' v'. lookup m k' = Some v' \<Longrightarrow> P k' v'" and "P k v"
    and "lookup (store k v m) k' = Some v'"
  shows "P k' v'"
  using assms by (auto simp: lookup_store split: if_splits)

lemma remove_all_values:
  assumes "ok m" and "\<And>k' v'. lookup m k' = Some v' \<Longrightarrow> P k' v'"
    and "lookup (remove k m) k' = Some v'"
  shows "P k' v'"
  using assms by (auto simp: lookup_remove split: if_splits)

end

text \<open>The lookup laws of a \<open>Map\<close> hold of any list; only its iteration needs the keys distinct.\<close>

interpretation jmap: keyed_store map_of AList.update AList.delete "\<lambda>_. True"
  by unfold_locales auto

interpretation jmap_wf: keyed_store map_of AList.update AList.delete "\<lambda>m. distinct (map fst m)"
  by unfold_locales auto

section \<open>The contract of a component with an invariant\<close>

locale invariant_machine =
  fixes step :: "'e \<Rightarrow> 's \<Rightarrow> 's"
    and inv :: "'s \<Rightarrow> bool"
    and admissible :: "'e \<Rightarrow> bool"
  assumes step_inv: "inv s \<Longrightarrow> admissible e \<Longrightarrow> inv (step e s)"
begin

lemma run_inv: "inv s \<Longrightarrow> \<forall>e \<in> set es. admissible e \<Longrightarrow> inv (fold step es s)"
  by (induction es arbitrary: s) (auto intro: step_inv)

end

section \<open>Big-endian numbers\<close>

definition be_nat :: "byte list \<Rightarrow> nat" where
  "be_nat bs = foldl (\<lambda>a b. a * 256 + unat b) 0 bs"

lemma be_nat_snoc: "be_nat (bs @ [b]) = be_nat bs * 256 + unat b"
  by (simp add: be_nat_def)

primrec be_bytes :: "nat \<Rightarrow> nat \<Rightarrow> byte list" where
  "be_bytes 0 v = []"
| "be_bytes (Suc n) v = be_bytes n (v div 256) @ [word_of_nat (v mod 256)]"

lemma be_bytes_length [simp]: "length (be_bytes n v) = n"
  by (induction n arbitrary: v) auto

lemma be_nat_bytes: "v < 256 ^ n \<Longrightarrow> be_nat (be_bytes n v) = v"
proof (induction n arbitrary: v)
  case 0
  then show ?case by (simp add: be_nat_def)
next
  case (Suc n)
  then have "v div 256 < 256 ^ n" by (simp add: less_mult_imp_div_less mult.commute)
  with Suc.IH have "be_nat (be_bytes n (v div 256)) = v div 256" by simp
  moreover have "unat (word_of_nat (v mod 256) :: byte) = v mod 256"
    by (simp add: unat_of_nat)
  ultimately show ?case by (simp add: be_nat_snoc)
qed

end
