(* ===== verification/WebSocket.thy ===== *)
theory WebSocket
  imports Prelude
begin

unbundle bit_operations_syntax

text \<open>
  The relay's own WebSocket server side (\<open>relay/server/src/websocket.ts\<close>): the frame
  reader \<open>tryReadFrame\<close>, the frame writer \<open>encodeFrame\<close> and the connection
  object that buffers incoming chunks, answers pings, keeps the connection alive and
  closes it. Bytes are 8-bit words; a Node \<open>Buffer\<close> is a list of them.

  The socket's effects are a log of the connection record, in the order the code
  performs them. A registered message handler is a function from the payload to what it
  does that this class can see: return, throw, or call \<open>close\<close> on the connection.
  The UTF-8 decoding of a text payload is left to the handler. Whether a write on the
  socket throws is a field of the state.
\<close>

section \<open>Frames\<close>

definition MAX_FRAME_PAYLOAD_BYTES :: nat where
  "MAX_FRAME_PAYLOAD_BYTES = 8 * 1024 * 1024"

definition MAX_FRAME_HEADER_BYTES :: nat where
  "MAX_FRAME_HEADER_BYTES = 14"

datatype ws_error = Frame_Error (close_code: nat) string

record decoded_frame =
  opcode :: byte
  payload :: "byte list"
  bytes_read :: nat

text \<open>\<open>buffer[i]\<close> is \<open>undefined\<close> past the end, which the bit operators read as 0.\<close>

definition byte_at :: "byte list \<Rightarrow> nat \<Rightarrow> byte" where
  "byte_at b i = (if i < length b then b ! i else 0)"

definition read_be :: "byte list \<Rightarrow> nat \<Rightarrow> nat \<Rightarrow> nat" where
  "read_be b off n = be_nat (take n (drop off b))"

text \<open>The length field: the payload length and the offset after it, or nothing yet.\<close>

definition read_length :: "byte list \<Rightarrow> nat \<Rightarrow> ws_error + (nat \<times> nat) option" where
  "read_length b len7 =
     (if len7 = 126 then
        (if length b < 2 + 2 then Inr None else Inr (Some (read_be b 2 2, 4)))
      else if len7 = 127 then
        (if length b < 2 + 8 then Inr None
         else if read_be b 2 8 > MAX_FRAME_PAYLOAD_BYTES
           then Inl (Frame_Error 1009 ''WebSocket frame is too large'')
         else Inr (Some (read_be b 2 8, 10)))
      else Inr (Some (len7, 2)))"

definition unmask :: "byte list \<Rightarrow> byte list \<Rightarrow> byte list" where
  "unmask msk p = map (\<lambda>i. (p ! i) XOR (msk ! (i mod 4))) [0..<length p]"

definition try_read_frame :: "byte list \<Rightarrow> ws_error + decoded_frame option" where
  "try_read_frame b =
     (let first = byte_at b 0; second = byte_at b 1;
          fin = (first AND 0x80) \<noteq> 0; opc = first AND 0x0f;
          masked = (second AND 0x80) \<noteq> 0
      in if (first AND 0x70) \<noteq> 0
           then Inl (Frame_Error 1002 ''WebSocket reserved bits are unsupported'')
         else if \<not> fin
           then Inl (Frame_Error 1002 ''Fragmented WebSocket frames are unsupported'')
         else if \<not> masked
           then Inl (Frame_Error 1002 ''Client WebSocket frames must be masked'')
         else (case read_length b (unat (second AND 0x7f)) of
             Inl e \<Rightarrow> Inl e
           | Inr None \<Rightarrow> Inr None
           | Inr (Some (len, off)) \<Rightarrow>
               if len > MAX_FRAME_PAYLOAD_BYTES
                 then Inl (Frame_Error 1009 ''WebSocket frame is too large'')
               else if opc \<ge> 8 \<and> len > 125
                 then Inl (Frame_Error 1002 ''WebSocket control frame is too large'')
               else if length b < off + 4 + len then Inr None
               else Inr (Some \<lparr>opcode = opc,
                               payload = unmask (take 4 (drop off b)) (take len (drop (off + 4) b)),
                               bytes_read = off + 4 + len\<rparr>)))"

definition frame_header :: "nat \<Rightarrow> byte \<Rightarrow> byte list" where
  "frame_header n opc =
     (0x80 OR opc) #
     (if n < 126 then [word_of_nat n]
      else if n \<le> 0xffff then 126 # be_bytes 2 n
      else 127 # be_bytes 8 n)"

definition encode_frame :: "byte list \<Rightarrow> byte \<Rightarrow> byte list" where
  "encode_frame p opc = frame_header (length p) opc @ p"

text \<open>
  What a client sends, by RFC 6455: the same header with the mask bit set, the four mask
  bytes, and the masked payload. It is the specification the reader is checked against,
  not code of the repository.
\<close>

definition client_frame :: "byte \<Rightarrow> byte list \<Rightarrow> byte list \<Rightarrow> byte list" where
  "client_frame opc msk p =
     (case frame_header (length p) opc of
        h0 # h1 # hs \<Rightarrow> h0 # (h1 OR 0x80) # hs @ msk @ unmask msk p
      | _ \<Rightarrow> [])"

subsection \<open>Masking\<close>

lemma drop_append_exact: "length xs = n \<Longrightarrow> drop n (xs @ ys) = ys"
  by simp

lemma unmask_length [simp]: "length (unmask m p) = length p"
  by (simp add: unmask_def)

lemma unmask_involutive: "unmask m (unmask m p) = p"
  by (rule nth_equalityI) (auto simp: unmask_def xor.assoc)

subsection \<open>The length field of a header the writer produced\<close>

lemma read_be_append: "length xs = off \<Longrightarrow> length ys = n \<Longrightarrow> read_be (xs @ ys @ zs) off n = be_nat ys"
  by (simp add: read_be_def)


lemma byte_below_cases:
  assumes "\<forall>n \<in> set [0..<k]. P (word_of_nat n :: byte)" and "unat w < k"
  shows "P w"
proof -
  have "P (word_of_nat (unat w))" by (rule bspec [OF assms(1)]) (use assms(2) in simp)
  then show ?thesis by simp
qed

lemma or_80_and_7f: "w < 128 \<Longrightarrow> (w OR 0x80 :: byte) AND 0x7f = w"
  by (rule byte_below_cases [where k = 128]) (code_simp, simp add: word_less_nat_alt)

lemma or_80_masked: "(w OR 0x80 :: byte) AND 0x80 \<noteq> 0"
proof -
  have "(w OR 0x80 :: byte) AND 0x80 = 0x80" by (simp add: bit.conj_disj_distrib2 and.commute)
  then show ?thesis by simp
qed

lemma opcode_header_bits:
  assumes "opc < (16 :: byte)"
  shows "(0x80 OR opc) AND 0x70 = 0" "(0x80 OR opc) AND 0x80 \<noteq> 0" "(0x80 OR opc) AND 0x0f = opc"
proof -
  have "(0x80 OR opc) AND 0x70 = 0 \<and> (0x80 OR opc) AND 0x80 \<noteq> 0 \<and> (0x80 OR opc) AND 0x0f = opc"
    by (rule byte_below_cases [where k = 16]) (code_simp, use assms in \<open>simp add: word_less_nat_alt\<close>)
  then show "(0x80 OR opc) AND 0x70 = 0" "(0x80 OR opc) AND 0x80 \<noteq> 0" "(0x80 OR opc) AND 0x0f = opc"
    by blast+
qed

subsection \<open>Reading back a client frame\<close>

lemma read_length_header:
  assumes n: "n \<le> MAX_FRAME_PAYLOAD_BYTES" and len: "frame_header n opc = h0 # h1 # hs"
  shows "read_length (h0 # (h1 OR 0x80) # hs @ rest) (unat ((h1 OR 0x80) AND 0x7f))
       = Inr (Some (n, 2 + length hs))"
proof -
  consider "n < 126" | "126 \<le> n" "n \<le> 0xffff" | "0xffff < n" by linarith
  then show ?thesis
  proof cases
    case 1
    then have "h1 = word_of_nat n" "hs = []" using len by (auto simp: frame_header_def)
    moreover have "unat (word_of_nat n :: byte) = n" using 1 by (simp add: unat_of_nat)
    moreover have "(word_of_nat n :: byte) < 128" using 1 calculation(3) by (simp add: word_less_nat_alt)
    ultimately show ?thesis using 1 by (simp add: or_80_and_7f read_length_def)
  next
    case 2
    then have h: "h1 = 126" "hs = be_bytes 2 n" using len by (auto simp: frame_header_def)
    have "be_nat (be_bytes 2 n) = n" using 2 by (simp add: be_nat_bytes)
    moreover have "read_be (h0 # (h1 OR 0x80) # hs @ rest) 2 2 = be_nat (be_bytes 2 n)"
      using read_be_append [of "[h0, h1 OR 0x80]" 2 "be_bytes 2 n" 2 rest] h by simp
    ultimately show ?thesis using h by (simp add: or_80_and_7f read_length_def)
  next
    case 3
    then have h: "h1 = 127" "hs = be_bytes 8 n" using len by (auto simp: frame_header_def)
    have "be_nat (be_bytes 8 n) = n"
      using n by (simp add: be_nat_bytes MAX_FRAME_PAYLOAD_BYTES_def)
    moreover have "read_be (h0 # (h1 OR 0x80) # hs @ rest) 2 8 = be_nat (be_bytes 8 n)"
      using read_be_append [of "[h0, h1 OR 0x80]" 2 "be_bytes 8 n" 8 rest] h by simp
    ultimately show ?thesis using h n by (simp add: or_80_and_7f read_length_def)
  qed
qed

lemma frame_header_shape: "\<exists>h1 hs. frame_header n opc = (0x80 OR opc) # h1 # hs"
  by (simp add: frame_header_def)

lemma read_client_frame_aux:
  assumes "length p \<le> MAX_FRAME_PAYLOAD_BYTES" and "opc < 16" and "length msk = 4"
    and "8 \<le> opc \<longrightarrow> length p \<le> 125"
  shows "try_read_frame (client_frame opc msk p @ rest) =
    Inr (Some \<lparr>opcode = opc, payload = p, bytes_read = length (client_frame opc msk p)\<rparr>)"
proof -
  obtain h1 hs where h: "frame_header (length p) opc = (0x80 OR opc) # h1 # hs"
    using frame_header_shape by blast
  let ?tail = "msk @ unmask msk p @ rest"
  have buf: "client_frame opc msk p @ rest = (0x80 OR opc) # (h1 OR 0x80) # hs @ ?tail"
    by (simp add: client_frame_def h)
  have len: "length (client_frame opc msk p) = 2 + length hs + 4 + length p"
    using assms by (simp add: client_frame_def h)
  have drops: "drop (2 + length hs) ((0x80 OR opc) # (h1 OR 0x80) # hs @ ?tail) = ?tail"
    "drop (2 + length hs + 4) ((0x80 OR opc) # (h1 OR 0x80) # hs @ ?tail) = unmask msk p @ rest"
    using assms drop_append_exact [of "(0x80 OR opc) # (h1 OR 0x80) # hs @ msk" "2 + length hs + 4"]
    by (simp_all add: drop_append)
  have ctl: "\<not> (8 \<le> opc \<and> 125 < length p)" using assms by auto
  show ?thesis
    unfolding buf len try_read_frame_def Let_def
    using assms read_length_header [OF assms(1) h, of ?tail] drops ctl
    by (simp add: byte_at_def opcode_header_bits or_80_masked unmask_involutive not_less)
qed

text \<open>
  The reader recovers exactly what a conforming client framed, whatever follows in
  the buffer, for every payload up to the limit (control frames up to 125 bytes).
\<close>

theorem read_client_frame:
  assumes "length p \<le> MAX_FRAME_PAYLOAD_BYTES" and "opc < 16" and "length msk = 4"
    and "8 \<le> opc \<longrightarrow> length p \<le> 125"
  shows "try_read_frame (client_frame opc msk p @ rest) =
    Inr (Some \<lparr>opcode = opc, payload = p, bytes_read = length (client_frame opc msk p)\<rparr>)"
  by (rule read_client_frame_aux [OF assms])

section \<open>The connection\<close>

datatype handler_result = Returns | Throws | Calls_Close nat "byte list"

datatype ws_effect =
    Wrote "byte list"
  | Delivered "byte list"
  | Ended
  | Destroyed
  | Close_Callbacks

record ws_conn =
  buffer :: "byte list"
  closed :: bool
  keepalive_interval :: nat
  keepalive_timer :: bool
  pong_timer :: bool
  write_ok :: bool
  handlers :: "(byte list \<Rightarrow> handler_result) list"
  log :: "ws_effect list"

definition ascii :: "string \<Rightarrow> byte list" where
  "ascii s = map of_char s"

definition new_conn :: "nat \<Rightarrow> (byte list \<Rightarrow> handler_result) list \<Rightarrow> ws_conn" where
  "new_conn interval hs =
     \<lparr>buffer = [], closed = False, keepalive_interval = interval,
      keepalive_timer = (0 < interval), pong_timer = False, write_ok = True,
      handlers = hs, log = []\<rparr>"

definition add_log :: "ws_effect \<Rightarrow> ws_conn \<Rightarrow> ws_conn" where
  "add_log e c = c\<lparr>log := log c @ [e]\<rparr>"

definition handle_close :: "ws_conn \<Rightarrow> ws_conn" where
  "handle_close c =
     (if closed c then c
      else add_log Close_Callbacks
             (c\<lparr>closed := True, keepalive_timer := False, pong_timer := False\<rparr>))"

definition write_frame :: "byte list \<Rightarrow> byte \<Rightarrow> ws_conn \<Rightarrow> ws_conn" where
  "write_frame p opc c =
     (if write_ok c then add_log (Wrote (encode_frame p opc)) c
      else handle_close (add_log Destroyed c))"

definition close_conn :: "nat \<Rightarrow> byte list \<Rightarrow> ws_conn \<Rightarrow> ws_conn" where
  "close_conn code reason c =
     (if closed c then c
      else handle_close (add_log Ended (write_frame (be_bytes 2 code @ reason) 8 c)))"


definition send_ping :: "ws_conn \<Rightarrow> ws_conn" where
  "send_ping c =
     (if closed c then c
      else if pong_timer c then c
      else (write_frame [] 9 c)\<lparr>pong_timer := True\<rparr>)"

definition mark_pong_received :: "ws_conn \<Rightarrow> ws_conn" where
  "mark_pong_received c = c\<lparr>pong_timer := False\<rparr>"

definition pong_timeout :: "ws_conn \<Rightarrow> ws_conn" where
  "pong_timeout c = close_conn 1001 (ascii ''pong timeout'') c"

text \<open>The handlers run in registration order; a throw stops the rest.\<close>

fun run_handlers ::
  "(byte list \<Rightarrow> handler_result) list \<Rightarrow> byte list \<Rightarrow> ws_conn \<Rightarrow> bool \<times> ws_conn" where
  "run_handlers [] p c = (False, c)"
| "run_handlers (h # hs) p c =
     (let c1 = add_log (Delivered p) c
      in case h p of
           Returns \<Rightarrow> run_handlers hs p c1
         | Throws \<Rightarrow> (True, c1)
         | Calls_Close code r \<Rightarrow> run_handlers hs p (close_conn code r c1))"

lemmas conn_defs = add_log_def handle_close_def write_frame_def close_conn_def
  mark_pong_received_def

subsection \<open>What the small operations leave alone\<close>

lemma handle_close_buffer [simp]: "buffer (handle_close c) = buffer c"
  by (simp add: conn_defs)

lemma add_log_sel [simp]: "buffer (add_log e c) = buffer c" "handlers (add_log e c) = handlers c"
  "closed (add_log e c) = closed c"
  by (simp_all add: conn_defs)

lemma write_frame_buffer [simp]: "buffer (write_frame p opc c) = buffer c"
  by (simp add: write_frame_def)

lemma close_conn_buffer [simp]: "buffer (close_conn code r c) = buffer c"
  by (simp add: close_conn_def)

lemma mark_pong_buffer [simp]: "buffer (mark_pong_received c) = buffer c"
  by (simp add: conn_defs)

lemma run_handlers_buffer [simp]: "buffer (snd (run_handlers hs p c)) = buffer c"
  by (induction hs p c rule: run_handlers.induct) (auto simp: Let_def split: handler_result.splits)

lemma try_read_frame_size:
  "try_read_frame b = Inr (Some f) \<Longrightarrow> 6 \<le> bytes_read f \<and> bytes_read f \<le> length b"
  by (auto simp: try_read_frame_def read_length_def Let_def split: if_splits sum.splits option.splits)

subsection \<open>Reading the buffered data\<close>

text \<open>
  The result of the loop is the close code of the exception that left it, if any:
  the frame error's own code, or 1002 for an exception of a handler.
\<close>

function data_loop :: "ws_conn \<Rightarrow> nat option \<times> ws_conn" where
  "data_loop c =
     (if length (buffer c) < 2 then (None, c)
      else case try_read_frame (buffer c) of
          Inl e \<Rightarrow> (Some (close_code e), c)
        | Inr None \<Rightarrow>
            (if length (buffer c) > MAX_FRAME_PAYLOAD_BYTES + MAX_FRAME_HEADER_BYTES
             then (Some 1009, c) else (None, c))
        | Inr (Some f) \<Rightarrow>
            (let c1 = c\<lparr>buffer := drop (bytes_read f) (buffer c)\<rparr>
             in if opcode f = 8 then (None, close_conn 1000 (ascii ''closing'') c1)
                else if opcode f = 9 then data_loop (write_frame (payload f) 0xA c1)
                else if opcode f = 0xA then data_loop (mark_pong_received c1)
                else if opcode f \<noteq> 1 then data_loop c1
                else if fst (run_handlers (handlers c1) (payload f) c1)
                  then (Some 1002, snd (run_handlers (handlers c1) (payload f) c1))
                else data_loop (snd (run_handlers (handlers c1) (payload f) c1))))"
  by pat_completeness auto
termination
  by (relation "measure (\<lambda>c. length (buffer c))") (auto dest!: try_read_frame_size)

declare data_loop.simps [simp del]

definition handle_data :: "byte list \<Rightarrow> ws_conn \<Rightarrow> ws_conn" where
  "handle_data chunk c =
     (case data_loop (c\<lparr>buffer := buffer c @ chunk\<rparr>) of
        (None, c1) \<Rightarrow> c1
      | (Some code, c1) \<Rightarrow>
          close_conn code (ascii (if code = 1009 then ''message too large'' else ''protocol error''))
            (c1\<lparr>buffer := []\<rparr>))"



section \<open>The reader as an interface of the connection\<close>


text \<open>\<open>reads rd n b fs r\<close>: reading frames off \<open>b\<close> yields \<open>fs\<close> and leaves \<open>r\<close>.\<close>

inductive reads :: "(byte list \<Rightarrow> 'e + 'f option) \<Rightarrow> ('f \<Rightarrow> nat) \<Rightarrow> byte list \<Rightarrow> 'f list \<Rightarrow> byte list \<Rightarrow> bool"
  for rd :: "byte list \<Rightarrow> 'e + 'f option" and n :: "'f \<Rightarrow> nat" where
  reads_nil: "reads rd n b [] b"
| reads_frame: "rd b = Inr (Some f) \<Longrightarrow> reads rd n (drop (n f) b) fs r \<Longrightarrow> reads rd n b (f # fs) r"

inductive_cases reads_consE: "reads rd n b (f # fs) r"
inductive_simps reads_nil_iff [simp]: "reads rd n b [] r"



definition guarded_read :: "byte list \<Rightarrow> ws_error + decoded_frame option" where
  "guarded_read b = (if length b < 2 then Inr None else try_read_frame b)"






section \<open>The stream and its chunks\<close>

lemma data_loop_cases:
  "data_loop c =
     (case guarded_read (buffer c) of
        Inl e \<Rightarrow> (Some (close_code e), c)
      | Inr None \<Rightarrow>
          (if length (buffer c) > MAX_FRAME_PAYLOAD_BYTES + MAX_FRAME_HEADER_BYTES
           then (Some 1009, c) else (None, c))
      | Inr (Some f) \<Rightarrow>
          (let c1 = c\<lparr>buffer := drop (bytes_read f) (buffer c)\<rparr>
           in if opcode f = 8 then (None, close_conn 1000 (ascii ''closing'') c1)
              else if opcode f = 9 then data_loop (write_frame (payload f) 0xA c1)
              else if opcode f = 0xA then data_loop (mark_pong_received c1)
              else if opcode f \<noteq> 1 then data_loop c1
              else if fst (run_handlers (handlers c1) (payload f) c1)
                then (Some 1002, snd (run_handlers (handlers c1) (payload f) c1))
              else data_loop (snd (run_handlers (handlers c1) (payload f) c1))))"
  by (subst data_loop.simps)
     (auto simp: guarded_read_def MAX_FRAME_HEADER_BYTES_def Let_def split: sum.splits option.splits)




lemma closed_close_conn [simp]: "closed (close_conn code r c)"
  by (simp add: conn_defs)



text \<open>The text of a handler in the witnesses: it returns.\<close>

definition quiet_handler :: "byte list \<Rightarrow> handler_result" where
  "quiet_handler p = Returns"

lemma client_frame_example: "client_frame 1 [1, 2, 3, 4] [104, 105] = [0x81, 0x82, 1, 2, 3, 4, 105, 107]"
  by code_simp

theorem read_client_frame_witness:
  "try_read_frame ([0x81, 0x82, 1, 2, 3, 4, 105, 107] @ [7]) =
     Inr (Some \<lparr>opcode = 1, payload = [104, 105], bytes_read = 8\<rparr>)"
  using read_client_frame [of "[104, 105]" 1 "[1, 2, 3, 4]" "[7]"]
  by (simp add: client_frame_example MAX_FRAME_PAYLOAD_BYTES_def)


subsection \<open>A stream of conforming frames\<close>

definition conforming :: "byte \<times> byte list \<times> byte list \<Rightarrow> bool" where
  "conforming x = (case x of (opc, msk, p) \<Rightarrow>
     length p \<le> MAX_FRAME_PAYLOAD_BYTES \<and> opc < 16 \<and> length msk = 4 \<and> (8 \<le> opc \<longrightarrow> length p \<le> 125))"

definition wire :: "byte \<times> byte list \<times> byte list \<Rightarrow> byte list" where
  "wire x = (case x of (opc, msk, p) \<Rightarrow> client_frame opc msk p)"

definition as_frame :: "byte \<times> byte list \<times> byte list \<Rightarrow> decoded_frame" where
  "as_frame x = (case x of (opc, msk, p) \<Rightarrow>
     \<lparr>opcode = opc, payload = p, bytes_read = length (client_frame opc msk p)\<rparr>)"

lemma wire_read:
  assumes "conforming x"
  shows "guarded_read (wire x @ rest) = Inr (Some (as_frame x))" "bytes_read (as_frame x) = length (wire x)"
proof -
  obtain opc msk p where x: "x = (opc, msk, p)" by (cases x) auto
  obtain h1 hs where h: "frame_header (length p) opc = (0x80 OR opc) # h1 # hs"
    using frame_header_shape by blast
  have "2 \<le> length (wire x @ rest)" by (simp add: x wire_def client_frame_def h)
  then show "guarded_read (wire x @ rest) = Inr (Some (as_frame x))"
    using assms read_client_frame_aux [where p = p and opc = opc and msk = msk and rest = rest] by (simp add: x wire_def as_frame_def guarded_read_def conforming_def)
  show "bytes_read (as_frame x) = length (wire x)" by (simp add: x wire_def as_frame_def)
qed

text \<open>
  A stream of conforming client frames, cut at any point, is read as exactly these
  frames in order: the frames of the first part, then the frames of what was left over
  with the rest appended.
\<close>

theorem client_stream_read:
  assumes "\<forall>x \<in> set xs. conforming x"
  shows "reads guarded_read bytes_read (concat (map wire xs) @ r) (map as_frame xs) r"
  using assms
proof (induction xs)
  case Nil
  then show ?case by simp
next
  case (Cons x xs)
  then show ?case
    using wire_read(1) [of x "concat (map wire xs) @ r"] wire_read(2) [of x]
    by (auto intro: reads.reads_frame)
qed

theorem client_stream_read_witness:
  "reads guarded_read bytes_read (concat (map wire [(1, [1, 2, 3, 4], [104]), (9, [0, 0, 0, 0], [])]) @ [5])
     (map as_frame [(1, [1, 2, 3, 4], [104]), (9, [0, 0, 0, 0], [])]) [5]"
  by (rule client_stream_read) (simp add: conforming_def MAX_FRAME_PAYLOAD_BYTES_def)

section \<open>The life of a connection\<close>

definition callbacks_run :: "ws_conn \<Rightarrow> nat" where
  "callbacks_run c = length (filter (\<lambda>e. e = Close_Callbacks) (log c))"


text \<open>The part of the invariant that says nothing of the buffer.\<close>

definition life_inv :: "ws_conn \<Rightarrow> bool" where
  "life_inv c \<longleftrightarrow> callbacks_run c = (if closed c then 1 else 0)
     \<and> (closed c \<longrightarrow> \<not> keepalive_timer c \<and> (pong_timer c \<longrightarrow> Destroyed \<in> set (log c)))"

lemma life_inv_ops [simp]:
  "life_inv c \<Longrightarrow> life_inv (handle_close c)"
  "life_inv c \<Longrightarrow> life_inv (write_frame p opc c)"
  "life_inv c \<Longrightarrow> life_inv (close_conn code r c)"
  "life_inv c \<Longrightarrow> life_inv (mark_pong_received c)"
  "life_inv c \<Longrightarrow> life_inv (c\<lparr>buffer := b\<rparr>)"
  "life_inv c \<Longrightarrow> life_inv (add_log (Delivered p) c)"
  "life_inv c \<Longrightarrow> life_inv (send_ping c)"
  by (auto simp: life_inv_def callbacks_run_def conn_defs send_ping_def split: if_splits)

lemma life_inv_run_handlers [simp]: "life_inv c \<Longrightarrow> life_inv (snd (run_handlers hs p c))"
  by (induction hs arbitrary: c) (auto simp: Let_def split: handler_result.split)

text \<open>What a frame that does not end the loop does to the connection.\<close>

definition after_frame :: "decoded_frame \<Rightarrow> ws_conn \<Rightarrow> ws_conn" where
  "after_frame f c =
     (if opcode f = 9 then write_frame (payload f) 0xA c
      else if opcode f = 0xA then mark_pong_received c
      else if opcode f \<noteq> 1 then c
      else snd (run_handlers (handlers c) (payload f) c))"


lemma life_inv_after_frame [simp]: "life_inv c \<Longrightarrow> life_inv (after_frame f c)"
  by (auto simp: after_frame_def)









text \<open>
  The pong timer can indeed survive: \<open>sendPing\<close> sets it after the write, also when the failed write has
  closed the connection. It fires once more and does nothing.
\<close>

theorem pong_timer_survives:
  assumes "\<not> closed c" and "\<not> pong_timer c" and "\<not> write_ok c"
  shows "closed (send_ping c) \<and> pong_timer (send_ping c) \<and> pong_timeout (send_ping c) = send_ping c"
  using assms by (simp add: send_ping_def pong_timeout_def conn_defs)

theorem pong_timer_survives_witness:
  "pong_timer (send_ping ((new_conn 1000 [])\<lparr>write_ok := False\<rparr>))"
  using pong_timer_survives [of "(new_conn 1000 [])\<lparr>write_ok := False\<rparr>"] by (simp add: new_conn_def)

text \<open>
  A protocol error of the peer on an open, writable connection discards the buffered
  bytes, answers with one close frame that carries the error's code (1009 for an oversize
  frame, 1002 otherwise), ends the socket and runs the close callbacks, in this order, and
  delivers nothing.
\<close>

theorem protocol_error_closes:
  assumes "guarded_read (buffer c @ d) = Inl e" and "\<not> closed c" and "write_ok c"
  shows "handle_data d c =
    c\<lparr>buffer := [], closed := True, keepalive_timer := False, pong_timer := False,
      log := log c @ [Wrote (encode_frame (be_bytes 2 (close_code e) @
          ascii (if close_code e = 1009 then ''message too large'' else ''protocol error'')) 8),
        Ended, Close_Callbacks]\<rparr>"
  using assms by (simp add: handle_data_def data_loop_cases conn_defs)

theorem protocol_error_closes_witness:
  "log (handle_data [0x01, 0x80] (new_conn 0 [quiet_handler])) =
     [Wrote (encode_frame (be_bytes 2 1002 @ ascii ''protocol error'') 8), Ended, Close_Callbacks]"
proof -
  have "guarded_read (buffer (new_conn 0 [quiet_handler]) @ [0x01, 0x80])
      = Inl (Frame_Error 1002 ''Fragmented WebSocket frames are unsupported'')"
    by (simp add: new_conn_def guarded_read_def try_read_frame_def byte_at_def)
  from protocol_error_closes [OF this] show ?thesis by (simp add: new_conn_def)
qed

text \<open>
  \<open>handleData\<close> does not look at \<open>closed\<close>. A text frame that arrives after the
  relay has closed the connection (the socket is only half closed) is still delivered to
  the registered handlers.
\<close>

theorem delivers_after_close:
  assumes "closed c" and "buffer c = []" and "handlers c = [h]" and "h p = Returns"
    and "length p \<le> MAX_FRAME_PAYLOAD_BYTES" and "length msk = 4"
  shows "handle_data (client_frame 1 msk p) c = c\<lparr>log := log c @ [Delivered p]\<rparr>"
proof -
  have r: "guarded_read (wire (1, msk, p) @ []) = Inr (Some (as_frame (1, msk, p)))"
    using assms by (intro wire_read) (simp add: conforming_def word_le_nat_alt)
  have stop: "data_loop (c\<lparr>buffer := [], log := x\<rparr>) = (None, c\<lparr>buffer := [], log := x\<rparr>)" for x
    by (subst data_loop.simps) simp
  show ?thesis
    using assms r stop by (simp add: handle_data_def data_loop_cases wire_def as_frame_def Let_def add_log_def)
qed

theorem delivers_after_close_witness:
  "log (handle_data (client_frame 1 [1, 2, 3, 4] [104]) (close_conn 1000 [] (new_conn 0 [quiet_handler])))
     = log (close_conn 1000 [] (new_conn 0 [quiet_handler])) @ [Delivered [104]]"
  using delivers_after_close [of "close_conn 1000 [] (new_conn 0 [quiet_handler])" quiet_handler "[104]" "[1, 2, 3, 4]"]
  by (simp add: new_conn_def conn_defs quiet_handler_def MAX_FRAME_PAYLOAD_BYTES_def)

end
