(* ===== verification/TokenBucket.thy ===== *)
theory TokenBucket
  imports Prelude
begin

text \<open>
  The failure limiter of the relay (\<open>relay/server/src/tokenBucket.ts\<close>): one bucket per
  key, refilled with time, closed for \<open>blockMs\<close> once it is empty. Times are integers
  (milliseconds); token counts are rationals where the code has doubles, so the rounding
  of the refill product is not modelled. The clock is an argument of each operation.
\<close>

section \<open>State and operations\<close>

record bucket =
  tokens :: rat
  lastRefillMs :: int
  blockedUntilMs :: int

record limiter =
  capacity :: rat
  refillPerMs :: rat
  blockMs :: int
  buckets :: "(string, bucket) jmap"

definition new_limiter :: "rat \<Rightarrow> rat \<Rightarrow> int \<Rightarrow> limiter" where
  "new_limiter cap refillPerSecond block =
     \<lparr>capacity = cap, refillPerMs = refillPerSecond / 1000, blockMs = block, buckets = []\<rparr>"

text \<open>Reopening a bucket whose block has ended, and the refill for the time passed.\<close>

definition reopen :: "limiter \<Rightarrow> int \<Rightarrow> bucket \<Rightarrow> bucket" where
  "reopen l now b =
     (if blockedUntilMs b \<noteq> 0 \<and> blockedUntilMs b \<le> now
      then \<lparr>tokens = capacity l, lastRefillMs = now, blockedUntilMs = 0\<rparr> else b)"

definition refill :: "limiter \<Rightarrow> int \<Rightarrow> bucket \<Rightarrow> bucket" where
  "refill l now b =
     (let elapsed = now - lastRefillMs b
      in if elapsed > 0
         then b\<lparr>tokens := min (capacity l) (tokens b + of_int elapsed * refillPerMs l),
                lastRefillMs := now\<rparr>
         else b)"

definition consume :: "string \<Rightarrow> int \<Rightarrow> limiter \<Rightarrow> bool \<times> limiter" where
  "consume key now l =
     (case jget (buckets l) key of
        None \<Rightarrow>
          (True, l\<lparr>buckets := jput key
             \<lparr>tokens = capacity l - 1, lastRefillMs = now, blockedUntilMs = 0\<rparr> (buckets l)\<rparr>)
      | Some b \<Rightarrow>
          if blockedUntilMs b > now then (False, l)
          else (let b2 = refill l now (reopen l now b)
                in if tokens b2 < 1
                   then (False, l\<lparr>buckets := jput key (b2\<lparr>blockedUntilMs := now + blockMs l\<rparr>) (buckets l)\<rparr>)
                   else (True, l\<lparr>buckets := jput key (b2\<lparr>tokens := tokens b2 - 1\<rparr>) (buckets l)\<rparr>)))"

definition isBlocked :: "string \<Rightarrow> int \<Rightarrow> limiter \<Rightarrow> bool" where
  "isBlocked key now l =
     (case jget (buckets l) key of None \<Rightarrow> False | Some b \<Rightarrow> blockedUntilMs b > now)"

definition reset :: "string \<Rightarrow> limiter \<Rightarrow> limiter" where
  "reset key l = l\<lparr>buckets := jdel key (buckets l)\<rparr>"

datatype limiter_op = Op_Consume string int | Op_Reset string

fun limiter_step :: "limiter_op \<Rightarrow> limiter \<Rightarrow> limiter" where
  "limiter_step (Op_Consume k t) l = snd (consume k t l)"
| "limiter_step (Op_Reset k) l = reset k l"

section \<open>The invariant of every bucket\<close>

definition limiter_inv :: "limiter \<Rightarrow> bool" where
  "limiter_inv l \<longleftrightarrow> 1 \<le> capacity l \<and> 0 \<le> refillPerMs l \<and> 0 \<le> blockMs l \<and> jwf (buckets l)
     \<and> (\<forall>k b. jget (buckets l) k = Some b \<longrightarrow> 0 \<le> tokens b \<and> tokens b \<le> capacity l)"

lemma consume_config [simp]:
  "capacity (snd (consume k t l)) = capacity l"
  "refillPerMs (snd (consume k t l)) = refillPerMs l"
  "blockMs (snd (consume k t l)) = blockMs l"
  by (auto simp: consume_def Let_def split: option.split)

lemma refill_range:
  assumes "limiter_inv l" and "jget (buckets l) k = Some b"
  shows "0 \<le> tokens (refill l t (reopen l t b)) \<and> tokens (refill l t (reopen l t b)) \<le> capacity l"
proof -
  have "0 \<le> tokens b \<and> tokens b \<le> capacity l \<and> 1 \<le> capacity l \<and> 0 \<le> refillPerMs l"
    using assms by (auto simp: limiter_inv_def)
  then show ?thesis by (auto simp: refill_def reopen_def Let_def)
qed

lemma limiter_step_inv: "limiter_inv l \<Longrightarrow> limiter_inv (limiter_step op l)"
proof (cases op)
  case (Op_Consume k t)
  assume inv: "limiter_inv l"
  then show ?thesis
    using Op_Consume refill_range [OF inv, of k _ t]
    by (auto simp: limiter_inv_def consume_def Let_def split: option.splits if_splits)
next
  case (Op_Reset k)
  assume "limiter_inv l"
  with Op_Reset show ?thesis by (auto simp: limiter_inv_def reset_def split: if_splits)
qed

interpretation limiter: invariant_machine limiter_step limiter_inv "\<lambda>_. True"
  by unfold_locales (rule limiter_step_inv)

text \<open>
  No sequence of attempts and resets ever takes a bucket below zero tokens or above the
  capacity, at any clock readings (also a clock that goes back).
\<close>

theorem tokens_in_range:
  assumes "1 \<le> cap" and "0 \<le> rate" and "0 \<le> block"
    and "jget (buckets (fold limiter_step ops (new_limiter cap rate block))) k = Some b"
  shows "0 \<le> tokens b \<and> tokens b \<le> cap"
proof -
  have "limiter_inv (new_limiter cap rate block)"
    using assms by (simp add: limiter_inv_def new_limiter_def)
  then have inv: "limiter_inv (fold limiter_step ops (new_limiter cap rate block))"
    by (rule limiter.run_inv) simp
  have "capacity (fold limiter_step ops l) = capacity l" for l
  proof (induction ops arbitrary: l)
    case (Cons op ops)
    then show ?case by (cases op) (auto simp: reset_def)
  qed simp
  then show ?thesis using inv assms(4) by (auto simp: limiter_inv_def new_limiter_def)
qed

theorem tokens_in_range_witness:
  "\<exists>b. jget (buckets (fold limiter_step [Op_Consume ''ip'' 100, Op_Consume ''ip'' 200] (new_limiter 2 1 1000))) ''ip'' = Some b
     \<and> 0 \<le> tokens b \<and> tokens b \<le> 2"
proof -
  have "\<exists>b. jget (buckets (fold limiter_step [Op_Consume ''ip'' 100, Op_Consume ''ip'' 200] (new_limiter 2 1 1000))) ''ip'' = Some b"
    by (simp add: consume_def new_limiter_def reopen_def refill_def Let_def)
  then show ?thesis using tokens_in_range [of 2 1 1000] by fastforce
qed

section \<open>The block window\<close>

text \<open>
  A failed attempt that is turned away opens a block of exactly \<open>blockMs\<close>: until then
  every further attempt is turned away and changes nothing, and the first attempt after it
  is let through with a full bucket.
\<close>

theorem block_window:
  assumes "limiter_inv l" and "fst (consume k t l) = False" and "isBlocked k t l = False"
    and "0 < t" and "t \<le> t'"
  shows "(t' < t + blockMs l \<longrightarrow> consume k t' (snd (consume k t l)) = (False, snd (consume k t l))
            \<and> isBlocked k t' (snd (consume k t l)))
    \<and> (t + blockMs l \<le> t' \<longrightarrow> fst (consume k t' (snd (consume k t l))) = True
            \<and> (\<exists>b. jget (buckets (snd (consume k t' (snd (consume k t l))))) k = Some b
                 \<and> tokens b = capacity l - 1 \<and> blockedUntilMs b = 0))"
proof -
  obtain b where b: "jget (buckets l) k = Some b" "\<not> blockedUntilMs b > t"
    using assms(2,3) by (auto simp: consume_def isBlocked_def split: option.splits)
  let ?b = "refill l t (reopen l t b)"
  have one: "1 \<le> capacity l" and blk: "0 \<le> blockMs l" using assms(1) by (auto simp: limiter_inv_def)
  have st: "snd (consume k t l) = l\<lparr>buckets := jput k (?b\<lparr>blockedUntilMs := t + blockMs l\<rparr>) (buckets l)\<rparr>"
    using assms(2) b by (auto simp: consume_def Let_def split: if_splits)
  have before: "t' < t + blockMs l \<longrightarrow> consume k t' (snd (consume k t l)) = (False, snd (consume k t l))
            \<and> isBlocked k t' (snd (consume k t l))"
    unfolding st by (simp add: consume_def isBlocked_def)
  have after: "t + blockMs l \<le> t' \<longrightarrow> fst (consume k t' (snd (consume k t l))) = True
            \<and> (\<exists>b. jget (buckets (snd (consume k t' (snd (consume k t l))))) k = Some b
                 \<and> tokens b = capacity l - 1 \<and> blockedUntilMs b = 0)"
    unfolding st using assms(4) one blk
    by (simp add: consume_def reopen_def refill_def Let_def)
  with before show ?thesis by blast
qed

section \<open>The rate bound\<close>

fun consume_all :: "string \<Rightarrow> int list \<Rightarrow> limiter \<Rightarrow> bool list \<times> limiter" where
  "consume_all k [] l = ([], l)"
| "consume_all k (t # ts) l =
     (case consume k t l of (r, l1) \<Rightarrow> case consume_all k ts l1 of (rs, l2) \<Rightarrow> (r # rs, l2))"

text \<open>An attempt that is turned away although the key is not blocked opens a block.\<close>

definition opens_block :: "string \<Rightarrow> int \<Rightarrow> limiter \<Rightarrow> bool" where
  "opens_block k t l \<longleftrightarrow> \<not> isBlocked k t l \<and> \<not> fst (consume k t l)"

fun blocks_opened :: "string \<Rightarrow> int list \<Rightarrow> limiter \<Rightarrow> nat" where
  "blocks_opened k [] l = 0"
| "blocks_opened k (t # ts) l =
     (if opens_block k t l then 1 else 0) + blocks_opened k ts (snd (consume k t l))"

text \<open>The tokens a key can still spend at once, a block counting as a full bucket.\<close>

definition credit :: "string \<Rightarrow> limiter \<Rightarrow> rat" where
  "credit k l = (case jget (buckets l) k of None \<Rightarrow> capacity l
     | Some b \<Rightarrow> if blockedUntilMs b \<noteq> 0 then capacity l else tokens b)"

definition fresh_at :: "string \<Rightarrow> int \<Rightarrow> limiter \<Rightarrow> bool" where
  "fresh_at k t l \<longleftrightarrow> (\<forall>b. jget (buckets l) k = Some b \<longrightarrow> blockedUntilMs b = 0 \<longrightarrow> lastRefillMs b = t)"

lemma consume_credit:
  assumes "limiter_inv l" and "fresh_at k t0 l" and "0 < t" and "t0 \<le> t"
  shows "(if fst (consume k t l) then 1 else 0) + credit k (snd (consume k t l))
       \<le> credit k l + refillPerMs l * of_int (t - t0) + (if opens_block k t l then capacity l else 0)"
    and "fresh_at k t (snd (consume k t l))"
proof -
  have inv: "1 \<le> capacity l" "0 \<le> refillPerMs l" "0 \<le> blockMs l"
    using assms(1) by (auto simp: limiter_inv_def)
  then have pos: "0 \<le> refillPerMs l * of_int (t - t0)" using assms(4) by simp
  consider (new) "jget (buckets l) k = None"
    | (blocked) b where "jget (buckets l) k = Some b" "blockedUntilMs b > t"
    | (expired) b where "jget (buckets l) k = Some b" "blockedUntilMs b \<noteq> 0" "blockedUntilMs b \<le> t"
    | (live) b where "jget (buckets l) k = Some b" "blockedUntilMs b = 0"
    by (metis linorder_not_less option.exhaust)
  then have "((if fst (consume k t l) then 1 else 0) + credit k (snd (consume k t l))
       \<le> credit k l + refillPerMs l * of_int (t - t0) + (if opens_block k t l then capacity l else 0))
      \<and> fresh_at k t (snd (consume k t l))"
  proof cases
    case new
    then show ?thesis using pos inv
      by (auto simp: consume_def credit_def opens_block_def fresh_at_def isBlocked_def)
  next
    case blocked
    then show ?thesis using pos inv assms(3)
      by (auto simp: consume_def credit_def opens_block_def fresh_at_def isBlocked_def)
  next
    case expired
    then show ?thesis using pos inv
      by (auto simp: consume_def credit_def opens_block_def fresh_at_def isBlocked_def
          reopen_def refill_def Let_def)
  next
    case live
    have tok: "0 \<le> tokens b" "tokens b \<le> capacity l" using assms(1) live(1) by (auto simp: limiter_inv_def)
    have last: "lastRefillMs b = t0" using assms(2) live by (auto simp: fresh_at_def)
    have "min (capacity l) (tokens b + of_int (t - t0) * refillPerMs l)
        \<le> tokens b + refillPerMs l * of_int (t - t0)" by (simp add: mult.commute)
    then show ?thesis using live tok last inv assms(3,4) pos
      by (auto simp: consume_def credit_def opens_block_def fresh_at_def isBlocked_def
          reopen_def refill_def Let_def mult.commute split: if_splits)
  qed
  then show "(if fst (consume k t l) then 1 else 0) + credit k (snd (consume k t l))
       \<le> credit k l + refillPerMs l * of_int (t - t0) + (if opens_block k t l then capacity l else 0)"
    and "fresh_at k t (snd (consume k t l))" by auto
qed

lemma consume_inv: "limiter_inv l \<Longrightarrow> limiter_inv (snd (consume k t l))"
  using limiter_step_inv [of l "Op_Consume k t"] by simp

lemma credit_nonneg: "limiter_inv l \<Longrightarrow> 0 \<le> credit k l"
  by (fastforce simp: limiter_inv_def credit_def split: option.split)

lemma consume_all_bound:
  assumes "limiter_inv l" and "fresh_at k t0 l" and "0 < t0" and "sorted (t0 # ts)"
  shows "of_nat (count_list (fst (consume_all k ts l)) True)
       \<le> credit k l + refillPerMs l * of_int (last (t0 # ts) - t0)
         + capacity l * of_nat (blocks_opened k ts l)"
  using assms
proof (induction ts arbitrary: l t0)
  case Nil
  then show ?case using credit_nonneg [of l k] by simp
next
  case (Cons t ts)
  let ?l = "snd (consume k t l)"
  have t: "0 < t" "t0 \<le> t" using Cons.prems by auto
  note step = consume_credit [OF Cons.prems(1,2) t]
  have "of_nat (count_list (fst (consume_all k ts ?l)) True)
       \<le> credit k ?l + refillPerMs ?l * of_int (last (t # ts) - t)
         + capacity ?l * of_nat (blocks_opened k ts ?l)"
    by (rule Cons.IH [OF consume_inv [OF Cons.prems(1)] step(2) t(1)]) (use Cons.prems(4) in auto)
  with step(1) show ?case
    by (auto simp: split_beta algebra_simps split: if_splits)
qed

text \<open>
  C39: the rate bound. Of the attempts of one key at non-decreasing times, starting from an
  unknown key, at most the capacity plus the refill over the elapsed time are let through,
  plus one more capacity for each block the key has been through.
\<close>

theorem rate_bound:
  assumes "limiter_inv l" and "jget (buckets l) k = None" and "0 < t0" and "sorted (t0 # ts)"
  shows "of_nat (count_list (fst (consume_all k (t0 # ts) l)) True)
       \<le> capacity l * of_nat (1 + blocks_opened k (t0 # ts) l)
         + refillPerMs l * of_int (last (t0 # ts) - t0)"
proof -
  have "fresh_at k t0 l" using assms(2) by (simp add: fresh_at_def)
  from consume_all_bound [OF assms(1) this assms(3), of "t0 # ts"] assms(2,4)
  show ?thesis by (simp add: credit_def algebra_simps)
qed

lemma consume_other:
  assumes "k' \<noteq> k"
  shows "jget (buckets (snd (consume k s l))) k' = jget (buckets l) k'"
  using assms by (simp add: consume_def Let_def jmap.store_other del: jget_put split: option.split)

text \<open>The verdict depends on the key's own bucket and the configuration only.\<close>

lemma consume_verdict:
  "fst (consume k t l) = (case jget (buckets l) k of None \<Rightarrow> True
     | Some b \<Rightarrow> \<not> blockedUntilMs b > t \<and> \<not> tokens (refill l t (reopen l t b)) < 1)"
  by (simp add: consume_def Let_def split: option.split)

lemma refill_reopen_config [simp]:
  "refill (snd (consume k s l)) t (reopen (snd (consume k s l)) t b) = refill l t (reopen l t b)"
  by (simp add: refill_def reopen_def)

text \<open>Keys are independent: an attempt of one key never changes the verdict for another.\<close>

theorem keys_independent:
  assumes "k' \<noteq> k"
  shows "(fst (consume k' t (snd (consume k s l))) = fst (consume k' t l))
    \<and> (isBlocked k' t (snd (consume k s l)) = isBlocked k' t l)"
  using consume_other [OF assms]
  by (simp_all add: consume_verdict isBlocked_def split: option.split)

subsection \<open>Witnesses\<close>

lemmas limiter_eval = consume_def new_limiter_def reopen_def refill_def isBlocked_def Let_def

theorem block_window_witness:
  "fst (consume ''ip'' 61000 (snd (consume ''ip'' 1000 (snd (consume ''ip'' 1000 (new_limiter 1 0 60000)))))) = True"
  by (rule block_window [where t = 1000 and l = "snd (consume ''ip'' 1000 (new_limiter 1 0 60000))"
          and k = "''ip''" and t' = 61000, THEN conjunct2, THEN mp, THEN conjunct1])
     (auto simp: limiter_eval limiter_inv_def split: if_splits)

theorem rate_bound_witness:
  "(of_nat (count_list (fst (consume_all ''ip'' [1000, 1000, 1000] (new_limiter 2 1 60000))) True) :: rat)
     \<le> 2 * of_nat (1 + blocks_opened ''ip'' [1000, 1000, 1000] (new_limiter 2 1 60000))"
  using rate_bound [of "new_limiter 2 1 60000" "''ip''" 1000 "[1000, 1000]"]
  by (simp add: limiter_inv_def new_limiter_def)

theorem keys_independent_witness:
  "fst (consume ''b'' 5 (snd (consume ''a'' 5 (new_limiter 1 1 1)))) = fst (consume ''b'' 5 (new_limiter 1 1 1))"
  by (rule keys_independent [THEN conjunct1]) simp

end
