(* ===== verification/UpgradeState.thy ===== *)
theory UpgradeState
  imports Prelude "HOL-Library.Sublist"
begin

text \<open>
  The upgrade life cycle and the transport policy that App, Agent and Relay share
  (\<open>packages/protocol-ts/src/transport.ts\<close>): the states of a P2P upgrade, the table of
  allowed transitions, the predicate for control messages that strict mode lets through,
  and the health constants.
\<close>

datatype transport_path = Relay | P2p

datatype upgrade_state = Idle | Proposed | Negotiating | Committing | Upgraded | Failed

definition upgrade_state_transitions :: "upgrade_state \<Rightarrow> upgrade_state list" where
  "upgrade_state_transitions s =
     (case s of
        Idle \<Rightarrow> [Proposed]
      | Proposed \<Rightarrow> [Negotiating, Failed, Idle]
      | Negotiating \<Rightarrow> [Committing, Failed, Idle]
      | Committing \<Rightarrow> [Upgraded, Failed, Idle]
      | Upgraded \<Rightarrow> [Idle]
      | Failed \<Rightarrow> [Idle])"

text \<open>The exception of the code is the left value; it carries both states.\<close>

definition transition_upgrade_state ::
  "upgrade_state \<Rightarrow> upgrade_state \<Rightarrow> (upgrade_state \<times> upgrade_state) + upgrade_state" where
  "transition_upgrade_state cur nxt =
     (if cur = nxt then Inr cur
      else if nxt \<in> set (upgrade_state_transitions cur) then Inr nxt
      else Inl (cur, nxt))"

definition strict_control_prefixes :: "string list" where
  "strict_control_prefixes = [''tunnel.upgrade.'', ''transport.'']"

definition is_strict_transport_control_message :: "string \<Rightarrow> bool" where
  "is_strict_transport_control_message ty = list_ex (\<lambda>p. prefix p ty) strict_control_prefixes"

record health_policy =
  drainDelayMs :: int
  pingIntervalMs :: int
  pingTimeoutMs :: int
  pingTimeoutThreshold :: nat
  strictPingIntervalMs :: int
  strictPingTimeoutMs :: int
  strictPingTimeoutThreshold :: nat
  pingTimerStallGraceMs :: int
  strictPingTimerStallGraceMs :: int
  bufferedAmountLimit :: nat
  displayFrameBufferedAmountLimit :: nat
  bufferedAmountSampleIntervalMs :: int
  bufferedAmountOverflowSeconds :: nat
  iceDisconnectedGraceMs :: int
  strictIceDisconnectedGraceMs :: int
  strictPendingQueueLimit :: nat

definition transport_health_policy :: health_policy where
  "transport_health_policy =
     \<lparr>drainDelayMs = 100, pingIntervalMs = 5000, pingTimeoutMs = 2500, pingTimeoutThreshold = 4,
      strictPingIntervalMs = 4000, strictPingTimeoutMs = 5000, strictPingTimeoutThreshold = 6,
      pingTimerStallGraceMs = 5000, strictPingTimerStallGraceMs = 8000,
      bufferedAmountLimit = 1000000, displayFrameBufferedAmountLimit = 256000,
      bufferedAmountSampleIntervalMs = 1000, bufferedAmountOverflowSeconds = 5,
      iceDisconnectedGraceMs = 8000, strictIceDisconnectedGraceMs = 16000,
      strictPendingQueueLimit = 256\<rparr>"

lemma transition_ok [simp]:
  "transition_upgrade_state Idle Proposed = Inr Proposed"
  "transition_upgrade_state Proposed Negotiating = Inr Negotiating"
  "transition_upgrade_state Negotiating Committing = Inr Committing"
  "transition_upgrade_state Committing Upgraded = Inr Upgraded"
  "transition_upgrade_state s s = Inr s"
  by (simp_all add: transition_upgrade_state_def upgrade_state_transitions_def)

lemma transition_to_idle [simp]: "transition_upgrade_state s Idle = Inr Idle"
  by (cases s) (simp_all add: transition_upgrade_state_def upgrade_state_transitions_def)

lemma transition_to_failed [simp]:
  "s \<in> {Proposed, Negotiating, Committing, Failed} \<Longrightarrow> transition_upgrade_state s Failed = Inr Failed"
  by (auto simp: transition_upgrade_state_def upgrade_state_transitions_def)

lemma transition_refused [simp]:
  "transition_upgrade_state Proposed Upgraded = Inl (Proposed, Upgraded)"
  "transition_upgrade_state Negotiating Upgraded = Inl (Negotiating, Upgraded)"
  "transition_upgrade_state Proposed Committing = Inl (Proposed, Committing)"
  "transition_upgrade_state Upgraded Failed = Inl (Upgraded, Failed)"
  by (simp_all add: transition_upgrade_state_def upgrade_state_transitions_def)

lemma transition_result: "transition_upgrade_state s t = Inr u \<Longrightarrow> u = t"
  by (auto simp: transition_upgrade_state_def split: if_splits)

text \<open>The rank of a state on the way from a proposal to the upgraded path.\<close>

definition upgrade_rank :: "upgrade_state \<Rightarrow> nat" where
  "upgrade_rank s = (case s of Idle \<Rightarrow> 0 | Proposed \<Rightarrow> 1 | Negotiating \<Rightarrow> 2
     | Committing \<Rightarrow> 3 | Upgraded \<Rightarrow> 4 | Failed \<Rightarrow> 0)"

lemma transition_rank:
  "transition_upgrade_state s t = Inr t \<Longrightarrow> t \<notin> {Idle, Failed} \<Longrightarrow>
     s = t \<or> upgrade_rank t = Suc (upgrade_rank s) \<and> s \<noteq> Failed"
  by (cases s; cases t)
     (auto simp: transition_upgrade_state_def upgrade_state_transitions_def upgrade_rank_def)

fun allowed_path :: "upgrade_state \<Rightarrow> upgrade_state list \<Rightarrow> bool" where
  "allowed_path s [] = True"
| "allowed_path s (t # ts) = (t \<in> set (upgrade_state_transitions s) \<and> allowed_path t ts)"

lemma allowed_path_idle: "allowed_path s ts \<Longrightarrow> Failed \<notin> set ts \<Longrightarrow> Idle \<notin> set ts \<Longrightarrow> s \<noteq> Failed \<Longrightarrow>
    length ts + upgrade_rank s \<le> 4 \<and> map upgrade_rank ts = [Suc (upgrade_rank s)..<Suc (upgrade_rank s) + length ts]"
proof (induction ts arbitrary: s)
  case Nil
  then show ?case by (cases s) (auto simp: upgrade_rank_def)
next
  case (Cons t ts)
  have "upgrade_rank t = Suc (upgrade_rank s)"
    using Cons.prems by (cases s; cases t) (auto simp: upgrade_state_transitions_def upgrade_rank_def)
  with Cons.IH [of t] Cons.prems show ?case by (auto simp: upt_rec)
qed

text \<open>
  \<open>Upgraded\<close> can only be reached by going through every earlier stage: a path of
  allowed transitions from \<open>Idle\<close> to \<open>Upgraded\<close> that does not fall back passes the four
  of them in order.
\<close>

theorem upgraded_needs_all_stages:
  assumes "allowed_path Idle (ts @ [Upgraded])" and "Idle \<notin> set ts" and "Failed \<notin> set ts"
  shows "ts = [Proposed, Negotiating, Committing]"
proof -
  have p: "length (ts @ [Upgraded]) + upgrade_rank Idle \<le> 4
    \<and> map upgrade_rank (ts @ [Upgraded]) = [Suc (upgrade_rank Idle)..<Suc (upgrade_rank Idle) + length (ts @ [Upgraded])]"
    using assms by (intro allowed_path_idle) auto
  then have "last (map upgrade_rank (ts @ [Upgraded])) = Suc (length ts)"
    by (simp add: upgrade_rank_def)
  then have "length ts = 3" by (simp add: upgrade_rank_def)
  then obtain a b c where "ts = [a, b, c]" by (auto simp: length_Suc_conv numeral_3_eq_3)
  with assms show ?thesis
    by (cases a; cases b; cases c) (auto simp: upgrade_state_transitions_def)
qed

theorem upgraded_needs_all_stages_witness:
  "allowed_path Idle ([Proposed, Negotiating, Committing] @ [Upgraded])
     \<and> [Proposed, Negotiating, Committing] = [Proposed, Negotiating, Committing]"
  using upgraded_needs_all_stages [of "[Proposed, Negotiating, Committing]"]
  by (simp add: upgrade_state_transitions_def)

end
