(* ===== verification/Coordinator.thy ===== *)
theory Coordinator
  imports UpgradeState
begin

text \<open>
  The upgrade coordinator of the Agent (\<open>desktop/agent/src/transport/upgradeCoordinator.ts\<close>)
  and, with one operation more, of the App
  (\<open>app/src/lib/transport/upgradeCoordinator.ts\<close>).

  \<^item> An async method is cut at each \<open>await\<close>. What is left to do after it is a value
    of \<open>continuation\<close> with the variables the code captured, kept in \<open>pending\<close>; the
    environment resumes one with the outcome of the awaited call.
  \<^item> Peers are handles, numbered in the order the factory returned them.
  \<^item> Messages sent, callbacks and peer calls are appended to \<open>trace\<close> in program order.
  \<^item> An exception is the field \<open>thrown\<close>: \<open>andThen\<close> skips what follows a throw, and the
    end of an event moves an uncaught one to the trace.
  \<^item> \<open>setTimeout\<close> is the flag \<open>timer_armed\<close>; a timeout is an event that can happen only
    while it is set.
\<close>

section \<open>Messages and state\<close>

datatype upgrade_role = Offerer | Answerer

datatype upgrade_message =
    M_Offer string string string
  | M_Answer string string string
  | M_Candidate string string string
  | M_Committed string string
  | M_Downgrade string string string

datatype upgrade_event =
    E_Propose string upgrade_role
  | E_Success string
  | E_Failed "string option" string

datatype coord_effect =
    Call_Factory upgrade_role
  | Call_Create_Offer nat
  | Call_Set_Remote nat string bool
  | Call_Create_Answer nat
  | Call_Add_Candidate nat string
  | Close_Peer nat
  | Send_Control upgrade_message
  | Switch_Path transport_path
  | Force_Close string
  | Emit upgrade_event
  | Uncaught

record propose_payload =
  p_upgrade_id :: string
  p_app_id :: string
  p_strict :: bool

datatype continuation =
    After_Factory nat propose_payload
  | After_Create_Offer nat propose_payload nat
  | After_Remote_Offer nat string string
  | After_Create_Answer nat string string
  | After_Remote_Answer nat
  | After_Candidate

record coord =
  role :: upgrade_role
  has_force_close :: bool
  ustate :: upgrade_state
  peer :: "nat option"
  upgrade_id :: "string option"
  app_id :: "string option"
  strict :: bool
  local_committed :: bool
  remote_committed :: bool
  timer_armed :: bool
  success_emitted :: bool
  generation :: nat
  next_peer :: nat
  pending :: "continuation list"
  thrown :: bool
  trace :: "coord_effect list"

definition new_coord :: "upgrade_role \<Rightarrow> bool \<Rightarrow> coord" where
  "new_coord r fc =
     \<lparr>role = r, has_force_close = fc, ustate = Idle, peer = None, upgrade_id = None,
      app_id = None, strict = False, local_committed = False, remote_committed = False,
      timer_armed = False, success_emitted = False, generation = 0, next_peer = 0,
      pending = [], thrown = False, trace = []\<rparr>"

definition andThen :: "(coord \<Rightarrow> coord) \<Rightarrow> (coord \<Rightarrow> coord) \<Rightarrow> coord \<Rightarrow> coord" where
  "andThen f g s = (let s1 = f s in if thrown s1 then s1 else g s1)"

definition perform :: "coord_effect \<Rightarrow> coord \<Rightarrow> coord" where
  "perform e s = s\<lparr>trace := trace s @ [e]\<rparr>"

text \<open>An empty string is falsy.\<close>

definition truthy :: "string option \<Rightarrow> bool" where
  "truthy x \<longleftrightarrow> x \<noteq> None \<and> x \<noteq> Some []"

definition set_state :: "upgrade_state \<Rightarrow> coord \<Rightarrow> coord" where
  "set_state nxt s =
     (case transition_upgrade_state (ustate s) nxt of
        Inr st \<Rightarrow> s\<lparr>ustate := st\<rparr>
      | Inl _ \<Rightarrow> s\<lparr>thrown := True\<rparr>)"

text \<open>\<open>sendUpgrade\<close> with an \<open>app_connection_id\<close> from \<open>requireAppConnectionId\<close>, which throws.\<close>

definition send_required :: "(string \<Rightarrow> upgrade_message) \<Rightarrow> coord \<Rightarrow> coord" where
  "send_required msg s =
     (if truthy (app_id s) then perform (Send_Control (msg (the (app_id s)))) s
      else s\<lparr>thrown := True\<rparr>)"

section \<open>Operations\<close>

definition cleanupPeer :: "coord \<Rightarrow> coord" where
  "cleanupPeer s =
     (let s1 = s\<lparr>generation := generation s + 1, timer_armed := False, peer := None\<rparr>
      in case peer s of None \<Rightarrow> s1 | Some p \<Rightarrow> perform (Close_Peer p) s1)"

definition resetToIdle :: "coord \<Rightarrow> coord" where
  "resetToIdle =
     andThen (set_state Idle)
       (\<lambda>s. s\<lparr>upgrade_id := None, app_id := None, strict := False,
              local_committed := False, remote_committed := False\<rparr>)"

definition close_coord :: "coord \<Rightarrow> coord" where
  "close_coord s = resetToIdle (cleanupPeer s)"

definition armTimeout :: "coord \<Rightarrow> coord" where
  "armTimeout s = s\<lparr>timer_armed := True\<rparr>"

definition enterNegotiating :: "coord \<Rightarrow> coord" where
  "enterNegotiating =
     andThen (\<lambda>s. if ustate s \<noteq> Negotiating then set_state Negotiating s else s) armTimeout"

definition downgrade :: "string \<Rightarrow> coord \<Rightarrow> coord" where
  "downgrade reason s =
     (if ustate s = Idle then s
      else
        let uid = upgrade_id s; st = strict s
        in andThen
             (\<lambda>s. if truthy uid then send_required (\<lambda>a. M_Downgrade (the uid) a reason) s else s)
             (\<lambda>s. let s1 = (if \<not> success_emitted s then perform (Emit (E_Failed uid reason)) s else s);
                      s2 = cleanupPeer s1
                  in if st \<and> has_force_close s2
                     then andThen resetToIdle (perform (Force_Close reason)) s2
                     else resetToIdle (perform (Switch_Path Relay) s2)) s)"

definition fail :: "string \<Rightarrow> coord \<Rightarrow> coord" where
  "fail reason = andThen (set_state Failed) (downgrade reason)"

definition maybeUpgrade :: "coord \<Rightarrow> coord" where
  "maybeUpgrade s =
     (if local_committed s \<and> remote_committed s
      then andThen (set_state Upgraded)
             (\<lambda>s. let s1 = perform (Switch_Path P2p) (s\<lparr>timer_armed := False\<rparr>)
                  in if truthy (upgrade_id s1) \<and> \<not> success_emitted s1
                     then perform (Emit (E_Success (the (upgrade_id s1)))) (s1\<lparr>success_emitted := True\<rparr>)
                     else s1) s
      else s)"

definition handleCommitted :: "string \<Rightarrow> string \<Rightarrow> coord \<Rightarrow> coord" where
  "handleCommitted uid aid s =
     (if upgrade_id s \<noteq> Some uid \<or> app_id s \<noteq> Some aid then s
      else maybeUpgrade (s\<lparr>remote_committed := True\<rparr>))"

definition localCommit :: "coord \<Rightarrow> coord" where
  "localCommit s =
     (if \<not> truthy (upgrade_id s) \<or> ustate s \<in> {Upgraded, Failed, Idle} then s
      else if local_committed s then s
      else andThen (andThen (set_state Committing)
                      (send_required (M_Committed (the (upgrade_id s)))))
                   maybeUpgrade (s\<lparr>local_committed := True\<rparr>))"

definition propose :: "propose_payload \<Rightarrow> coord \<Rightarrow> coord" where
  "propose pl s =
     (if ustate s \<noteq> Idle then s
      else andThen (set_state Proposed)
             (\<lambda>s. let s1 = perform (Emit (E_Propose (p_upgrade_id pl) (role s))) (s\<lparr>success_emitted := False\<rparr>);
                      s2 = perform (Call_Factory (role s)) (armTimeout s1)
                  in s2\<lparr>pending := pending s2 @ [After_Factory (generation s2) pl]\<rparr>)
             (s\<lparr>upgrade_id := Some (p_upgrade_id pl), generation := generation s + 1,
                app_id := Some (p_app_id pl), strict := p_strict pl\<rparr>))"

text \<open>The peer factory returned a peer, returned null, or threw.\<close>

datatype factory_result = Factory_Peer | Factory_Null | Factory_Threw

definition resume_factory :: "nat \<Rightarrow> propose_payload \<Rightarrow> factory_result \<Rightarrow> coord \<Rightarrow> coord" where
  "resume_factory gen pl res s =
     (case res of
        Factory_Threw \<Rightarrow> if gen = generation s then fail ''peer_unavailable'' s else s
      | Factory_Null \<Rightarrow> if gen \<noteq> generation s then s else fail ''peer_unavailable'' s
      | Factory_Peer \<Rightarrow>
          (let p = next_peer s; s1 = s\<lparr>next_peer := next_peer s + 1\<rparr>
           in if gen \<noteq> generation s1 then perform (Close_Peer p) s1
              else
                let s2 = s1\<lparr>peer := Some p\<rparr>
                in if role s2 = Offerer
                   then (let s3 = perform (Call_Create_Offer p) s2
                         in s3\<lparr>pending := pending s3 @ [After_Create_Offer gen pl p]\<rparr>)
                   else enterNegotiating s2))"

text \<open>
  After \<open>createOffer\<close>: the send and \<open>enterNegotiating\<close> are inside the \<open>try\<close>, so a throw
  of the transition is caught like a failed offer.
\<close>

definition resume_create_offer ::
  "nat \<Rightarrow> propose_payload \<Rightarrow> string option \<Rightarrow> coord \<Rightarrow> coord" where
  "resume_create_offer gen pl res s =
     (if gen \<noteq> generation s then s
      else case res of
          None \<Rightarrow> fail ''create_offer_failed'' s
        | Some sdp \<Rightarrow>
            (let s1 = enterNegotiating
                        (perform (Send_Control (M_Offer (p_upgrade_id pl) (p_app_id pl) sdp)) s)
             in if thrown s1 then fail ''create_offer_failed'' (s1\<lparr>thrown := False\<rparr>) else s1))"

definition handleOffer :: "string \<Rightarrow> string \<Rightarrow> string \<Rightarrow> coord \<Rightarrow> coord" where
  "handleOffer uid aid sdp s =
     (if role s \<noteq> Answerer then s
      else case peer s of
          None \<Rightarrow> s
        | Some p \<Rightarrow>
            if upgrade_id s \<noteq> Some uid \<or> app_id s \<noteq> Some aid then s
            else (let s1 = perform (Call_Set_Remote p sdp True) s
                  in s1\<lparr>pending := pending s1 @ [After_Remote_Offer p uid aid]\<rparr>))"

definition resume_remote_offer :: "nat \<Rightarrow> string \<Rightarrow> string \<Rightarrow> bool \<Rightarrow> coord \<Rightarrow> coord" where
  "resume_remote_offer p uid aid ok s =
     (if peer s \<noteq> Some p then s
      else if \<not> ok then fail ''handle_offer_failed'' s
      else (let s1 = perform (Call_Create_Answer p) s
            in s1\<lparr>pending := pending s1 @ [After_Create_Answer p uid aid]\<rparr>))"

definition resume_create_answer :: "nat \<Rightarrow> string \<Rightarrow> string \<Rightarrow> string option \<Rightarrow> coord \<Rightarrow> coord" where
  "resume_create_answer p uid aid res s =
     (if peer s \<noteq> Some p then s
      else case res of
          None \<Rightarrow> fail ''handle_offer_failed'' s
        | Some sdp \<Rightarrow> perform (Send_Control (M_Answer uid aid sdp)) s)"

definition handleAnswer :: "string \<Rightarrow> string \<Rightarrow> string \<Rightarrow> coord \<Rightarrow> coord" where
  "handleAnswer uid aid sdp s =
     (if role s \<noteq> Offerer then s
      else case peer s of
          None \<Rightarrow> s
        | Some p \<Rightarrow>
            if upgrade_id s \<noteq> Some uid \<or> app_id s \<noteq> Some aid then s
            else (let s1 = perform (Call_Set_Remote p sdp False) s
                  in s1\<lparr>pending := pending s1 @ [After_Remote_Answer p]\<rparr>))"

definition resume_remote_answer :: "nat \<Rightarrow> bool \<Rightarrow> coord \<Rightarrow> coord" where
  "resume_remote_answer p ok s =
     (if ok \<or> peer s \<noteq> Some p then s else fail ''handle_answer_failed'' s)"

definition handleCandidate :: "string \<Rightarrow> string \<Rightarrow> string \<Rightarrow> coord \<Rightarrow> coord" where
  "handleCandidate uid aid cand s =
     (case peer s of
        None \<Rightarrow> s
      | Some p \<Rightarrow>
          if upgrade_id s \<noteq> Some uid \<or> app_id s \<noteq> Some aid then s
          else (let s1 = perform (Call_Add_Candidate p cand) s
                in s1\<lparr>pending := pending s1 @ [After_Candidate]\<rparr>))"

text \<open>The callbacks \<open>attachPeer\<close> registers on the peer.\<close>

datatype peer_state = Peer_Connecting | Peer_Connected | Peer_Disconnected | Peer_Failed | Peer_Closed

definition on_local_candidate :: "nat \<Rightarrow> string \<Rightarrow> coord \<Rightarrow> coord" where
  "on_local_candidate p cand s =
     (if peer s \<noteq> Some p \<or> \<not> truthy (upgrade_id s) then s
      else send_required (\<lambda>a. M_Candidate (the (upgrade_id s)) a cand) s)"

definition on_peer_state :: "nat \<Rightarrow> peer_state \<Rightarrow> coord \<Rightarrow> coord" where
  "on_peer_state p st s =
     (if peer s \<noteq> Some p then s
      else if st = Peer_Connected then localCommit s
      else if st \<in> {Peer_Failed, Peer_Disconnected, Peer_Closed}
        then (if ustate s \<noteq> Upgraded \<and> ustate s \<noteq> Idle then downgrade ''peer_state'' s else s)
      else s)"

definition negotiation_timeout :: "coord \<Rightarrow> coord" where
  "negotiation_timeout s =
     (if ustate s \<noteq> Upgraded \<and> ustate s \<noteq> Idle
      then downgrade ''timeout'' (s\<lparr>timer_armed := False\<rparr>) else s\<lparr>timer_armed := False\<rparr>)"

text \<open>The App's additional operation.\<close>

definition prepareForReconnect :: "string \<Rightarrow> bool \<Rightarrow> coord \<Rightarrow> coord" where
  "prepareForReconnect reason notifyRemote s =
     (if ustate s = Idle then s
      else andThen
             (\<lambda>s. if notifyRemote \<and> truthy (upgrade_id s)
                  then send_required (\<lambda>a. M_Downgrade (the (upgrade_id s)) a reason) s else s)
             (\<lambda>s. resetToIdle (cleanupPeer s)) s)"

section \<open>Events\<close>

datatype coord_input =
    I_Propose propose_payload
  | I_Offer string string string
  | I_Answer string string string
  | I_Candidate string string string
  | I_Committed string string
  | I_Local_Commit
  | I_Downgrade string
  | I_Close
  | I_Reconnect string bool
  | I_Timeout
  | I_Peer_State nat peer_state
  | I_Local_Candidate nat string
  | I_Resume nat factory_result "string option"

text \<open>
  Resuming the \<open>i\<close>-th suspended call; \<open>res\<close> is the string it returned, or \<open>None\<close> if
  it threw (the factory has its own three outcomes).
\<close>

definition resume :: "continuation \<Rightarrow> factory_result \<Rightarrow> string option \<Rightarrow> coord \<Rightarrow> coord" where
  "resume k fr res s =
     (case k of
        After_Factory g pl \<Rightarrow> resume_factory g pl fr s
      | After_Create_Offer g pl p \<Rightarrow> resume_create_offer g pl res s
      | After_Remote_Offer p u a \<Rightarrow> resume_remote_offer p u a (res \<noteq> None) s
      | After_Create_Answer p u a \<Rightarrow> resume_create_answer p u a res s
      | After_Remote_Answer p \<Rightarrow> resume_remote_answer p (res \<noteq> None) s
      | After_Candidate \<Rightarrow> s)"

definition handle_input :: "coord_input \<Rightarrow> coord \<Rightarrow> coord" where
  "handle_input e s =
     (case e of
        I_Propose pl \<Rightarrow> propose pl s
      | I_Offer u a sdp \<Rightarrow> handleOffer u a sdp s
      | I_Answer u a sdp \<Rightarrow> handleAnswer u a sdp s
      | I_Candidate u a c \<Rightarrow> handleCandidate u a c s
      | I_Committed u a \<Rightarrow> handleCommitted u a s
      | I_Local_Commit \<Rightarrow> localCommit s
      | I_Downgrade r \<Rightarrow> downgrade r s
      | I_Close \<Rightarrow> close_coord s
      | I_Reconnect r n \<Rightarrow> prepareForReconnect r n s
      | I_Timeout \<Rightarrow> if timer_armed s then negotiation_timeout s else s
      | I_Peer_State p st \<Rightarrow> on_peer_state p st s
      | I_Local_Candidate p c \<Rightarrow> on_local_candidate p c s
      | I_Resume i fr res \<Rightarrow>
          if i < length (pending s)
          then resume (pending s ! i) fr res
                 (s\<lparr>pending := take i (pending s) @ drop (Suc i) (pending s)\<rparr>)
          else s)"

definition settle :: "coord \<Rightarrow> coord" where
  "settle s = (if thrown s then perform Uncaught (s\<lparr>thrown := False\<rparr>) else s)"

definition coord_step :: "coord_input \<Rightarrow> coord \<Rightarrow> coord" where
  "coord_step e s = settle (handle_input e s)"

section \<open>The invariant\<close>

text \<open>
  The admissible inputs: a propose carries non-empty ids (the protocol schema requires
  non-empty strings).
\<close>

definition input_ok :: "coord_input \<Rightarrow> bool" where
  "input_ok e = (case e of I_Propose pl \<Rightarrow> p_upgrade_id pl \<noteq> [] \<and> p_app_id pl \<noteq> [] | _ \<Rightarrow> True)"

text \<open>The suspended calls of the current attempt.\<close>

definition is_live :: "nat \<Rightarrow> continuation \<Rightarrow> bool" where
  "is_live g k = (case k of After_Factory g' _ \<Rightarrow> g' = g | After_Create_Offer g' _ _ \<Rightarrow> g' = g | _ \<Rightarrow> False)"

definition not_future :: "nat \<Rightarrow> continuation \<Rightarrow> bool" where
  "not_future g k = (case k of After_Factory g' _ \<Rightarrow> g' \<le> g | After_Create_Offer g' _ _ \<Rightarrow> g' \<le> g | _ \<Rightarrow> True)"

definition core_inv :: "coord \<Rightarrow> bool" where
  "core_inv s \<longleftrightarrow>
     \<not> thrown s \<and> ustate s \<noteq> Failed
     \<and> (if ustate s = Idle
        then upgrade_id s = None \<and> app_id s = None \<and> peer s = None \<and> \<not> timer_armed s
             \<and> \<not> local_committed s \<and> \<not> remote_committed s \<and> \<not> strict s
        else truthy (upgrade_id s) \<and> truthy (app_id s))
     \<and> (ustate s \<in> {Proposed, Negotiating, Committing} \<longrightarrow> timer_armed s)
     \<and> (ustate s \<in> {Negotiating, Committing, Upgraded} \<longrightarrow> peer s \<noteq> None)
     \<and> (ustate s = Upgraded \<longrightarrow> local_committed s \<and> remote_committed s \<and> \<not> timer_armed s)
     \<and> (ustate s = Committing \<longrightarrow> local_committed s)"

text \<open>At most one call of the current attempt is suspended, and only before the negotiation.\<close>

definition waits_for_peer :: "continuation \<Rightarrow> bool" where
  "waits_for_peer k = (case k of After_Factory _ _ \<Rightarrow> True | _ \<Rightarrow> False)"

definition live_ok :: "nat \<Rightarrow> upgrade_state \<Rightarrow> nat option \<Rightarrow> continuation list \<Rightarrow> bool" where
  "live_ok g st pr ks \<longleftrightarrow>
     (\<forall>k \<in> set ks. not_future g k)
     \<and> length (filter (is_live g) ks) \<le> 1
     \<and> (\<forall>k \<in> set ks. is_live g k \<longrightarrow> st = Proposed \<and> (waits_for_peer k \<longleftrightarrow> pr = None))"

text \<open>Every peer the factory ever returned is the current one or has been closed, not both.\<close>

definition peers_ok :: "nat option \<Rightarrow> nat \<Rightarrow> coord_effect list \<Rightarrow> bool" where
  "peers_ok pr n tr \<longleftrightarrow>
     (\<forall>p. Close_Peer p \<in> set tr \<longleftrightarrow> p < n \<and> pr \<noteq> Some p) \<and> (\<forall>p. pr = Some p \<longrightarrow> p < n)"

abbreviation live_inv :: "coord \<Rightarrow> bool" where
  "live_inv s \<equiv> live_ok (generation s) (ustate s) (peer s) (pending s)"

abbreviation peers_inv :: "coord \<Rightarrow> bool" where
  "peers_inv s \<equiv> peers_ok (peer s) (next_peer s) (trace s)"

definition coord_inv :: "coord \<Rightarrow> bool" where
  "coord_inv s \<longleftrightarrow> core_inv s \<and> live_inv s \<and> peers_inv s"

subsection \<open>Normal forms of the operations under the invariant\<close>

lemmas coord_prims = andThen_def perform_def set_state_def send_required_def Let_def

text \<open>What abandoning an attempt leaves, and the callbacks it makes, in order.\<close>

definition abandoned :: "coord_effect list \<Rightarrow> coord \<Rightarrow> coord" where
  "abandoned effects s =
     s\<lparr>ustate := Idle, peer := None, upgrade_id := None, app_id := None, strict := False,
       local_committed := False, remote_committed := False, timer_armed := False,
       generation := generation s + 1, trace := trace s @ effects\<rparr>"

definition close_effect :: "coord \<Rightarrow> coord_effect list" where
  "close_effect s = (case peer s of None \<Rightarrow> [] | Some p \<Rightarrow> [Close_Peer p])"

lemma close_coord_eq: "\<not> thrown s \<Longrightarrow> close_coord s = abandoned (close_effect s) s"
  by (cases "peer s")
     (auto simp: close_coord_def resetToIdle_def cleanupPeer_def coord_prims abandoned_def close_effect_def)

text \<open>
  A downgrade of an attempt with ids: the message, the failure event if the upgrade had not
  succeeded, the close of the peer, and then either the relay path or, in strict mode, the
  forced close of the session.
\<close>

lemma downgrade_eq:
  assumes "\<not> thrown s" and "ustate s \<noteq> Idle" and "truthy (upgrade_id s)" and "truthy (app_id s)"
  shows "downgrade r s = abandoned
    ([Send_Control (M_Downgrade (the (upgrade_id s)) (the (app_id s)) r)]
     @ (if success_emitted s then [] else [Emit (E_Failed (upgrade_id s) r)])
     @ close_effect s
     @ (if strict s \<and> has_force_close s then [Force_Close r] else [Switch_Path Relay])) s"
  using assms
  by (cases "peer s")
     (auto simp: downgrade_def resetToIdle_def cleanupPeer_def coord_prims abandoned_def close_effect_def)

lemma fail_eq:
  assumes "\<not> thrown s" and "ustate s \<in> {Proposed, Negotiating, Committing}"
    and "truthy (upgrade_id s)" and "truthy (app_id s)"
  shows "fail r s = downgrade r s"
proof -
  have "downgrade r (s\<lparr>ustate := Failed\<rparr>) = downgrade r s"
    using assms downgrade_eq [of "s\<lparr>ustate := Failed\<rparr>" r] downgrade_eq [of s r]
    by (auto simp: abandoned_def close_effect_def)
  moreover have "set_state Failed s = s\<lparr>ustate := Failed\<rparr>" using assms by (auto simp: set_state_def)
  ultimately show ?thesis using assms by (simp add: fail_def andThen_def)
qed

lemma reconnect_eq:
  assumes "\<not> thrown s" and "ustate s \<noteq> Idle" and "truthy (upgrade_id s)" and "truthy (app_id s)"
  shows "prepareForReconnect r n s = abandoned
    ((if n then [Send_Control (M_Downgrade (the (upgrade_id s)) (the (app_id s)) r)] else [])
     @ close_effect s) s"
  using assms
  by (cases "peer s")
     (auto simp: prepareForReconnect_def resetToIdle_def cleanupPeer_def coord_prims abandoned_def close_effect_def)

subsection \<open>Abandoning keeps the invariant\<close>

definition closes_only :: "coord \<Rightarrow> coord_effect list \<Rightarrow> bool" where
  "closes_only s es \<longleftrightarrow> (\<forall>p. Close_Peer p \<in> set es \<longleftrightarrow> peer s = Some p)"

lemma closes_only_close [simp]: "closes_only s (close_effect s)"
  by (auto simp: closes_only_def close_effect_def split: option.splits)

lemma closes_only_append:
  "closes_only s es \<Longrightarrow> (\<forall>p. Close_Peer p \<notin> set fs) \<Longrightarrow> closes_only s (es @ fs) \<and> closes_only s (fs @ es)"
  by (auto simp: closes_only_def)

lemma not_future_mono: "not_future g k \<Longrightarrow> g \<le> g' \<Longrightarrow> not_future g' k"
  by (auto simp: not_future_def split: continuation.splits)

lemma not_live_future: "not_future g k \<Longrightarrow> g < g' \<Longrightarrow> \<not> is_live g' k"
  by (auto simp: not_future_def is_live_def split: continuation.splits)

lemma live_ok_past: "live_ok g st pr ks \<Longrightarrow> g < g' \<Longrightarrow> live_ok g' st' pr' ks \<and> filter (is_live g') ks = []"
proof -
  assume "live_ok g st pr ks" and "g < g'"
  then have "\<forall>k \<in> set ks. not_future g' k \<and> \<not> is_live g' k"
    using not_live_future not_future_mono by (auto simp: live_ok_def dest: less_imp_le)
  then show ?thesis by (simp add: live_ok_def filter_empty_conv)
qed

lemma live_ok_stage: "live_ok g st pr ks \<Longrightarrow> st \<noteq> Proposed \<Longrightarrow> st' \<noteq> Proposed \<Longrightarrow> live_ok g st' pr' ks"
  by (auto simp: live_ok_def)

lemma live_ok_none: "live_ok g st pr ks \<Longrightarrow> filter (is_live g) ks = [] \<Longrightarrow> live_ok g st' pr' ks"
  by (auto simp: live_ok_def filter_empty_conv)

lemma live_ok_suspend:
  "live_ok g st pr ks \<Longrightarrow> \<not> is_live g k \<Longrightarrow> not_future g k \<Longrightarrow> live_ok g st pr (ks @ [k])"
  by (auto simp: live_ok_def)

lemma live_ok_resume:
  assumes "live_ok g st pr ks" and "i < length ks"
  shows "live_ok g st pr (take i ks @ drop (Suc i) ks)"
    and "is_live g (ks ! i) \<Longrightarrow> filter (is_live g) (take i ks @ drop (Suc i) ks) = []"
    and "is_live g (ks ! i) \<Longrightarrow> st = Proposed \<and> (waits_for_peer (ks ! i) \<longleftrightarrow> pr = None)"
proof -
  have ks: "ks = take i ks @ ks ! i # drop (Suc i) ks" using assms(2) by (rule id_take_nth_drop)
  have f: "filter (is_live g) ks = filter (is_live g) (take i ks)
      @ (if is_live g (ks ! i) then [ks ! i] else []) @ filter (is_live g) (drop (Suc i) ks)"
    by (subst ks) simp
  have sub: "set (take i ks @ drop (Suc i) ks) \<subseteq> set ks" by (auto dest: in_set_takeD in_set_dropD)
  show "live_ok g st pr (take i ks @ drop (Suc i) ks)"
    using assms(1) sub unfolding live_ok_def f by (auto split: if_splits)
  show "is_live g (ks ! i) \<Longrightarrow> filter (is_live g) (take i ks @ drop (Suc i) ks) = []"
    using assms(1) unfolding live_ok_def f by auto
  show "is_live g (ks ! i) \<Longrightarrow> st = Proposed \<and> (waits_for_peer (ks ! i) \<longleftrightarrow> pr = None)"
    using assms by (auto simp: live_ok_def)
qed

lemma peers_ok_perform: "peers_ok pr n tr \<Longrightarrow> \<forall>p. e \<noteq> Close_Peer p \<Longrightarrow> peers_ok pr n (tr @ [e])"
  by (auto simp: peers_ok_def)

lemma peers_ok_closed: "peers_ok pr n tr \<Longrightarrow> \<forall>p. Close_Peer p \<in> set es \<longleftrightarrow> pr = Some p \<Longrightarrow> peers_ok None n (tr @ es)"
  by (auto simp: peers_ok_def)

lemma peers_ok_stale: "peers_ok pr n tr \<Longrightarrow> peers_ok pr (Suc n) (tr @ [Close_Peer n])"
  by (auto simp: peers_ok_def less_Suc_eq)

lemma peers_ok_attach: "peers_ok None n tr \<Longrightarrow> peers_ok (Some n) (Suc n) tr"
  by (auto simp: peers_ok_def less_Suc_eq)

lemma abandoned_inv:
  assumes "live_inv s" and "peers_inv s" and "\<not> thrown s" and "closes_only s es"
  shows "coord_inv (abandoned es s)"
  using assms live_ok_past [OF assms(1), of "Suc (generation s)" Idle None]
    peers_ok_closed [OF assms(2), of es]
  by (simp add: coord_inv_def core_inv_def abandoned_def closes_only_def)

subsection \<open>Every operation keeps the invariant\<close>

lemma coord_invD:
  assumes "coord_inv s"
  shows "\<not> thrown s" "ustate s \<noteq> Failed" "peers_inv s" "live_inv s"
    "ustate s \<noteq> Idle \<Longrightarrow> truthy (upgrade_id s)" "ustate s \<noteq> Idle \<Longrightarrow> truthy (app_id s)"
  using assms by (auto simp: coord_inv_def core_inv_def split: if_splits)

lemma settle_quiet [simp]: "\<not> thrown s \<Longrightarrow> settle s = s"
  by (simp add: settle_def)

lemma inv_settle [intro]: "coord_inv s \<Longrightarrow> coord_inv (settle s)"
  by (simp add: coord_invD)

lemma perform_inv: "coord_inv s \<Longrightarrow> \<forall>p. e \<noteq> Close_Peer p \<Longrightarrow> coord_inv (perform e s)"
  by (simp add: perform_def coord_inv_def core_inv_def peers_ok_perform)

lemma thrown_inv [intro]: "coord_inv s \<Longrightarrow> coord_inv (settle (s\<lparr>thrown := True\<rparr>))"
proof -
  assume inv: "coord_inv s"
  then have "\<not> thrown s" by (rule coord_invD)
  then have "s\<lparr>thrown := False\<rparr> = s" by (cases s) simp
  then show "coord_inv (settle (s\<lparr>thrown := True\<rparr>))"
    using perform_inv [OF inv, of Uncaught] by (simp add: settle_def)
qed

lemma suspend_inv:
  "coord_inv s \<Longrightarrow> \<forall>g. \<not> is_live g k \<Longrightarrow> \<forall>g. not_future g k \<Longrightarrow>
     coord_inv (s\<lparr>pending := pending s @ [k]\<rparr>)"
  by (simp add: coord_inv_def core_inv_def live_ok_suspend)

lemma downgrade_inv: "coord_inv s \<Longrightarrow> coord_inv (downgrade r s)"
proof (cases "ustate s = Idle")
  case True
  then show "coord_inv s \<Longrightarrow> ?thesis" by (simp add: downgrade_def)
next
  case False
  assume inv: "coord_inv s"
  show ?thesis
    unfolding downgrade_eq [OF coord_invD(1) [OF inv] False coord_invD(5) [OF inv False] coord_invD(6) [OF inv False]]
    by (rule abandoned_inv [OF coord_invD(4) [OF inv] coord_invD(3) [OF inv] coord_invD(1) [OF inv]])
       (auto simp: closes_only_def close_effect_def split: option.splits)
qed

lemma fail_inv: "coord_inv s \<Longrightarrow> ustate s \<noteq> Idle \<Longrightarrow> coord_inv (settle (fail r s))"
proof (cases "ustate s = Upgraded")
  case True
  then have "fail r s = s\<lparr>thrown := True\<rparr>"
    by (simp add: fail_def andThen_def set_state_def)
  then show "coord_inv s \<Longrightarrow> ustate s \<noteq> Idle \<Longrightarrow> ?thesis" by auto
next
  case False
  assume inv: "coord_inv s" and "ustate s \<noteq> Idle"
  with False have "fail r s = downgrade r s"
    using coord_invD [OF inv] by (cases "ustate s") (auto intro: fail_eq)
  with downgrade_inv [OF inv] show ?thesis by auto
qed

lemma close_inv: "coord_inv s \<Longrightarrow> coord_inv (close_coord s)"
  by (simp add: close_coord_eq coord_invD abandoned_inv)

lemma reconnect_inv: "coord_inv s \<Longrightarrow> coord_inv (prepareForReconnect r n s)"
proof (cases "ustate s = Idle")
  case True
  then show "coord_inv s \<Longrightarrow> ?thesis" by (simp add: prepareForReconnect_def)
next
  case False
  assume inv: "coord_inv s"
  show ?thesis
    unfolding reconnect_eq [OF coord_invD(1) [OF inv] False coord_invD(5) [OF inv False] coord_invD(6) [OF inv False]]
    by (rule abandoned_inv [OF coord_invD(4) [OF inv] coord_invD(3) [OF inv] coord_invD(1) [OF inv]])
       (auto simp: closes_only_def close_effect_def split: option.splits)
qed

lemma armed_stage: "coord_inv s \<Longrightarrow> timer_armed s \<Longrightarrow> ustate s \<in> {Proposed, Negotiating, Committing}"
  by (cases "ustate s") (auto simp: coord_inv_def core_inv_def)

text \<open>The timeout of an attempt is a downgrade.\<close>

lemma timeout_eq:
  assumes inv: "coord_inv s" and t: "timer_armed s"
  shows "negotiation_timeout s = downgrade ''timeout'' s"
proof -
  note st = armed_stage [OF inv t]
  have "downgrade ''timeout'' (s\<lparr>timer_armed := False\<rparr>) = downgrade ''timeout'' s"
    using coord_invD [OF inv] st downgrade_eq [of "s\<lparr>timer_armed := False\<rparr>" "''timeout''"]
      downgrade_eq [of s "''timeout''"]
    by (auto simp: abandoned_def close_effect_def)
  with st show ?thesis by (auto simp: negotiation_timeout_def)
qed

lemma propose_inv:
  assumes inv: "coord_inv s" and ok: "p_upgrade_id pl \<noteq> []" "p_app_id pl \<noteq> []"
  shows "coord_inv (propose pl s)"
proof (cases "ustate s = Idle")
  case False
  then show ?thesis using inv by (simp add: propose_def)
next
  case True
  then have no: "peer s = None" using inv by (simp add: coord_inv_def core_inv_def)
  have "filter (is_live (Suc (generation s))) (pending s) = []"
    "live_ok (Suc (generation s)) Proposed None (pending s)"
    using live_ok_past [OF coord_invD(4) [OF inv], of "Suc (generation s)"] by auto
  then have "live_ok (Suc (generation s)) Proposed None (pending s @ [After_Factory (Suc (generation s)) pl])"
    by (auto simp: live_ok_def is_live_def not_future_def waits_for_peer_def)
  then show ?thesis using True inv ok no
    by (simp add: propose_def coord_prims armTimeout_def truthy_def coord_inv_def core_inv_def peers_ok_perform
        del: append_assoc)
qed

text \<open>Once both sides have committed the attempt ends in \<open>Upgraded\<close> or throws.\<close>

lemma maybeUpgrade_eq:
  assumes "local_committed s" and "remote_committed s" and "ustate s \<in> {Committing, Upgraded}" and "\<not> thrown s"
  shows "maybeUpgrade s = s\<lparr>ustate := Upgraded, timer_armed := False,
     success_emitted := (success_emitted s \<or> truthy (upgrade_id s)),
     trace := trace s @ [Switch_Path P2p]
       @ (if truthy (upgrade_id s) \<and> \<not> success_emitted s then [Emit (E_Success (the (upgrade_id s)))] else [])\<rparr>"
proof -
  have "set_state Upgraded s = s\<lparr>ustate := Upgraded\<rparr>" using assms(3) by (auto simp: set_state_def)
  with assms(1,2,4) show ?thesis
    by (cases s) (simp add: maybeUpgrade_def andThen_def perform_def Let_def, blast)
qed

lemma upgraded_inv:
  assumes "coord_inv s" and "local_committed s" and "remote_committed s" and "ustate s \<in> {Committing, Upgraded}"
    and "\<forall>p. Close_Peer p \<notin> set es"
  shows "coord_inv (s\<lparr>ustate := Upgraded, timer_armed := False, success_emitted := b, trace := trace s @ es\<rparr>)"
proof -
  have "peers_ok (peer s) (next_peer s) (trace s @ es)"
    using coord_invD(3) [OF assms(1)] assms(5) by (auto simp: peers_ok_def)
  moreover have "live_ok (generation s) Upgraded (peer s) (pending s)"
    using coord_invD(4) [OF assms(1)] assms(4) by (auto intro: live_ok_stage)
  ultimately show ?thesis using assms(1-4) by (auto simp: coord_inv_def core_inv_def)
qed

lemma maybeUpgrade_throws:
  assumes "local_committed s" and "remote_committed s" and "ustate s \<in> {Proposed, Negotiating}"
  shows "maybeUpgrade s = s\<lparr>thrown := True\<rparr>"
proof -
  have "set_state Upgraded s = s\<lparr>thrown := True\<rparr>"
  proof (cases "ustate s = Proposed")
    case True
    then show ?thesis by (simp add: set_state_def)
  next
    case False
    then have "ustate s = Negotiating" using assms(3) by simp
    then show ?thesis by (simp add: set_state_def)
  qed
  with assms(1,2) show ?thesis by (simp add: maybeUpgrade_def andThen_def)
qed

lemma both_committed_stage:
  assumes "coord_inv s" and "local_committed s"
  obtains "ustate s \<in> {Committing, Upgraded}" | "ustate s \<in> {Proposed, Negotiating}"
  using assms by (cases "ustate s") (simp_all add: coord_inv_def core_inv_def)

lemma remote_inv:
  assumes "coord_inv s" and "upgrade_id s = Some u"
  shows "coord_inv (s\<lparr>remote_committed := True\<rparr>)"
proof -
  have "ustate s \<noteq> Idle" using assms by (auto simp: coord_inv_def core_inv_def)
  then show ?thesis using assms(1) by (simp add: coord_inv_def core_inv_def)
qed

lemma maybeUpgrade_inv:
  assumes inv: "coord_inv s"
  shows "coord_inv (settle (maybeUpgrade s))"
proof (cases "local_committed s \<and> remote_committed s")
  case False
  then have "maybeUpgrade s = s" by (simp only: maybeUpgrade_def if_False)
  then show ?thesis using inv by auto
next
  case True
  show ?thesis
  proof (rule both_committed_stage [OF inv conjunct1 [OF True]])
    assume 1: "ustate s \<in> {Committing, Upgraded}"
    have "coord_inv (maybeUpgrade s)"
      unfolding maybeUpgrade_eq [OF conjunct1 [OF True] conjunct2 [OF True] 1 coord_invD(1) [OF inv]]
      by (rule upgraded_inv [OF inv conjunct1 [OF True] conjunct2 [OF True] 1]) auto
    then show ?thesis by auto
  next
    assume 2: "ustate s \<in> {Proposed, Negotiating}"
    have "maybeUpgrade s = s\<lparr>thrown := True\<rparr>"
      by (rule maybeUpgrade_throws [OF conjunct1 [OF True] conjunct2 [OF True] 2])
    then show ?thesis using inv by auto
  qed
qed

lemma handleCommitted_inv:
  assumes inv: "coord_inv s"
  shows "coord_inv (settle (handleCommitted u a s))"
proof (cases "upgrade_id s = Some u \<and> app_id s = Some a")
  case True
  then have "coord_inv (s\<lparr>remote_committed := True\<rparr>)" using remote_inv [OF inv] by simp
  from maybeUpgrade_inv [OF this] True show ?thesis by (simp add: handleCommitted_def)
next
  case False
  then have "handleCommitted u a s = s" by (auto simp: handleCommitted_def)
  then show ?thesis using inv by auto
qed

text \<open>The state in which \<open>localCommit\<close> calls \<open>maybeUpgrade\<close>.\<close>

definition committing :: "coord \<Rightarrow> coord" where
  "committing s = s\<lparr>local_committed := True, ustate := Committing,
     trace := trace s @ [Send_Control (M_Committed (the (upgrade_id s)) (the (app_id s)))]\<rparr>"

lemma localCommit_negotiating:
  assumes "coord_inv s" and "ustate s = Negotiating" and "\<not> local_committed s"
  shows "localCommit s = maybeUpgrade (committing s)" and "coord_inv (committing s)"
proof -
  have ids: "truthy (upgrade_id s)" "truthy (app_id s)" using assms coord_invD [OF assms(1)] by auto
  show "localCommit s = maybeUpgrade (committing s)"
    using assms(2,3) ids coord_invD(1) [OF assms(1)]
    by (simp add: localCommit_def coord_prims committing_def)
  have "live_ok (generation s) Committing (peer s) (pending s)"
    using coord_invD(4) [OF assms(1)] assms(2) by (auto intro: live_ok_stage)
  then show "coord_inv (committing s)"
    using assms by (simp add: coord_inv_def core_inv_def committing_def peers_ok_perform)
qed

lemma localCommit_inv:
  assumes inv: "coord_inv s"
  shows "coord_inv (settle (localCommit s))"
proof -
  consider "localCommit s = s" | "ustate s = Proposed" "\<not> local_committed s"
    | "ustate s = Negotiating" "\<not> local_committed s"
    using inv by (cases "ustate s"; cases "local_committed s") (auto simp: localCommit_def coord_inv_def core_inv_def)
  then show ?thesis
  proof cases
    case 1
    then show ?thesis using inv by auto
  next
    case 2
    then have "localCommit s = s\<lparr>local_committed := True, thrown := True\<rparr>"
      using coord_invD [OF inv]
      by (auto simp: localCommit_def coord_prims)
    moreover have "coord_inv (s\<lparr>local_committed := True\<rparr>)"
      using inv 2 by (simp add: coord_inv_def core_inv_def)
    ultimately show ?thesis using thrown_inv by fastforce
  next
    case 3
    then show ?thesis using localCommit_negotiating [OF inv 3] maybeUpgrade_inv by simp
  qed
qed

lemma enterNegotiating_eq:
  assumes "ustate s = Proposed" and "\<not> thrown s"
  shows "enterNegotiating s = s\<lparr>ustate := Negotiating, timer_armed := True\<rparr>"
  using assms by (simp add: enterNegotiating_def armTimeout_def coord_prims)

lemma enterNegotiating_inv:
  assumes "coord_inv s" and "ustate s = Proposed" and "peer s \<noteq> None"
    and "filter (is_live (generation s)) (pending s) = []"
  shows "coord_inv (enterNegotiating s)"
  using assms live_ok_none [OF coord_invD(4) [OF assms(1)] assms(4), of Negotiating "peer s"]
  unfolding enterNegotiating_eq [OF assms(2) coord_invD(1) [OF assms(1)]]
  by (simp add: coord_inv_def core_inv_def)

text \<open>What is known of the state when the current attempt's suspended call is resumed.\<close>

lemma resume_factory_inv:
  assumes inv: "coord_inv s"
    and cur: "g = generation s \<Longrightarrow> ustate s = Proposed \<and> peer s = None
        \<and> filter (is_live (generation s)) (pending s) = []"
    and past: "g \<le> generation s"
  shows "coord_inv (settle (resume_factory g pl fr s))"
proof (cases fr)
  case Factory_Peer
  let ?s = "s\<lparr>next_peer := Suc (next_peer s)\<rparr>"
  show ?thesis
  proof (cases "g = generation s")
    case False
    then have "resume_factory g pl fr s = perform (Close_Peer (next_peer s)) ?s"
      using Factory_Peer by (simp add: resume_factory_def Let_def)
    moreover have "coord_inv (perform (Close_Peer (next_peer s)) ?s)"
      using inv by (simp add: perform_def coord_inv_def core_inv_def peers_ok_stale)
    ultimately show ?thesis by auto
  next
    case True
    note cur = cur [OF True]
    let ?a = "s\<lparr>next_peer := Suc (next_peer s), peer := Some (next_peer s)\<rparr>"
    have att: "coord_inv ?a"
      using inv cur live_ok_none [OF coord_invD(4) [OF inv], of Proposed "Some (next_peer s)"]
        peers_ok_attach [of "next_peer s" "trace s"]
      by (simp add: coord_inv_def core_inv_def)
    show ?thesis
    proof (cases "role s = Offerer")
      case True
      have "live_ok (generation s) Proposed (Some (next_peer s))
              (pending s @ [After_Create_Offer (generation s) pl (next_peer s)])"
        using coord_invD(4) [OF inv] cur
        by (auto simp: live_ok_def filter_empty_conv is_live_def not_future_def waits_for_peer_def)
      then have "coord_inv ((perform (Call_Create_Offer (next_peer s)) ?a)\<lparr>pending :=
            pending s @ [After_Create_Offer (generation s) pl (next_peer s)]\<rparr>)"
        using perform_inv [OF att, of "Call_Create_Offer (next_peer s)"] cur
        by (simp add: perform_def coord_inv_def core_inv_def)
      then show ?thesis using Factory_Peer True \<open>g = generation s\<close>
        by (simp add: resume_factory_def Let_def perform_def coord_invD)
    next
      case False
      have "coord_inv (enterNegotiating ?a)"
        by (rule enterNegotiating_inv [OF att]) (use cur in auto)
      then show ?thesis using Factory_Peer False \<open>g = generation s\<close>
        by (auto simp: resume_factory_def Let_def)
    qed
  qed
next
  case Factory_Null
  then show ?thesis using inv cur fail_inv [OF inv] by (auto simp: resume_factory_def)
next
  case Factory_Threw
  then show ?thesis using inv cur fail_inv [OF inv] by (auto simp: resume_factory_def)
qed

lemma resume_create_offer_inv:
  assumes inv: "coord_inv s"
    and cur: "g = generation s \<Longrightarrow> ustate s = Proposed \<and> peer s \<noteq> None
        \<and> filter (is_live (generation s)) (pending s) = []"
  shows "coord_inv (settle (resume_create_offer g pl res s))"
proof (cases "g = generation s \<and> res \<noteq> None")
  case False
  then show ?thesis using inv fail_inv [OF inv] cur by (auto simp: resume_create_offer_def)
next
  case True
  then obtain sdp where res: "res = Some sdp" by auto
  let ?s = "perform (Send_Control (M_Offer (p_upgrade_id pl) (p_app_id pl) sdp)) s"
  have "coord_inv ?s" using perform_inv [OF inv] by simp
  then have "coord_inv (enterNegotiating ?s)"
    by (rule enterNegotiating_inv) (use cur True in \<open>auto simp: perform_def\<close>)
  then show ?thesis using True res coord_invD(1) by (auto simp: resume_create_offer_def Let_def)
qed

lemma call_inv:
  "coord_inv s \<Longrightarrow> \<forall>p. e \<noteq> Close_Peer p \<Longrightarrow> \<forall>g. \<not> is_live g k \<and> not_future g k \<Longrightarrow>
     coord_inv ((perform e s)\<lparr>pending := pending s @ [k]\<rparr>)"
  using suspend_inv [OF perform_inv, of s e k] by (simp add: perform_def)

lemma peer_not_idle: "coord_inv s \<Longrightarrow> peer s = Some p \<Longrightarrow> ustate s \<noteq> Idle"
  by (auto simp: coord_inv_def core_inv_def)

lemma resume_inv:
  assumes inv: "coord_inv s" and i: "i < length (pending s)"
  shows "coord_inv (settle (resume (pending s ! i) fr res
            (s\<lparr>pending := take i (pending s) @ drop (Suc i) (pending s)\<rparr>)))"
proof -
  let ?s = "s\<lparr>pending := take i (pending s) @ drop (Suc i) (pending s)\<rparr>"
  note live = live_ok_resume [OF coord_invD(4) [OF inv] i]
  have inv': "coord_inv ?s" using inv live(1) by (simp add: coord_inv_def core_inv_def)
  have fut: "not_future (generation s) (pending s ! i)"
    using coord_invD(4) [OF inv] i by (auto simp: live_ok_def)
  show ?thesis
  proof (cases "pending s ! i")
    case (After_Factory g pl)
    then show ?thesis
      using resume_factory_inv [OF inv', of g pl fr] live(2,3) fut
      by (auto simp: resume_def is_live_def waits_for_peer_def not_future_def)
  next
    case (After_Create_Offer g pl p)
    then show ?thesis
      using resume_create_offer_inv [OF inv', of g pl res] live(2,3)
      by (auto simp: resume_def is_live_def waits_for_peer_def)
  next
    case (After_Remote_Offer p u a)
    then show ?thesis
      using inv' fail_inv [OF inv'] peer_not_idle [OF inv', of p]
        call_inv [OF inv', of "Call_Create_Answer p" "After_Create_Answer p u a"]
      by (auto simp: resume_def resume_remote_offer_def Let_def is_live_def not_future_def perform_def)
  next
    case (After_Create_Answer p u a)
    then show ?thesis
      using inv' fail_inv [OF inv'] peer_not_idle [OF inv', of p] perform_inv [OF inv']
      by (auto simp: resume_def resume_create_answer_def split: option.split)
  next
    case (After_Remote_Answer p)
    then show ?thesis
      using inv' fail_inv [OF inv'] peer_not_idle [OF inv', of p]
      by (auto simp: resume_def resume_remote_answer_def)
  next
    case After_Candidate
    then show ?thesis using inv' by (auto simp: resume_def)
  qed
qed

lemma handle_offer_inv: "coord_inv s \<Longrightarrow> coord_inv (handleOffer u a sdp s)"
  using call_inv [of s "Call_Set_Remote (the (peer s)) sdp True" "After_Remote_Offer (the (peer s)) u a"]
  by (auto simp: handleOffer_def Let_def is_live_def not_future_def perform_def split: option.split)

lemma handle_answer_inv: "coord_inv s \<Longrightarrow> coord_inv (handleAnswer u a sdp s)"
  using call_inv [of s "Call_Set_Remote (the (peer s)) sdp False" "After_Remote_Answer (the (peer s))"]
  by (auto simp: handleAnswer_def Let_def is_live_def not_future_def perform_def split: option.split)

lemma handle_candidate_inv: "coord_inv s \<Longrightarrow> coord_inv (handleCandidate u a c s)"
  using call_inv [of s "Call_Add_Candidate (the (peer s)) c" After_Candidate]
  by (auto simp: handleCandidate_def Let_def is_live_def not_future_def perform_def split: option.split)

lemma local_candidate_inv: "coord_inv s \<Longrightarrow> coord_inv (on_local_candidate p c s)"
  using peer_not_idle [of s p] coord_invD [of s] perform_inv [of s]
  by (auto simp: on_local_candidate_def send_required_def)

lemma peer_state_inv: "coord_inv s \<Longrightarrow> coord_inv (settle (on_peer_state p st s))"
  using localCommit_inv [of s] downgrade_inv [of s "''peer_state''"]
  by (auto simp: on_peer_state_def)

lemma coord_step_inv: "coord_inv s \<Longrightarrow> input_ok e \<Longrightarrow> coord_inv (coord_step e s)"
  unfolding coord_step_def handle_input_def
  using propose_inv [of s] handle_offer_inv [of s] handle_answer_inv [of s] handle_candidate_inv [of s]
    handleCommitted_inv [of s] localCommit_inv [of s] downgrade_inv [of s] close_inv [of s]
    reconnect_inv [of s] timeout_eq [of s] peer_state_inv [of s] local_candidate_inv [of s] resume_inv [of s]
  by (cases e) (auto simp: input_ok_def)

interpretation coordinator: invariant_machine coord_step coord_inv input_ok
  by unfold_locales (rule coord_step_inv)

lemma coord_inv_new: "coord_inv (new_coord r fc)"
  by (simp add: new_coord_def coord_inv_def core_inv_def live_ok_def peers_ok_def)

lemma coord_reachable_inv: "\<forall>e \<in> set es. input_ok e \<Longrightarrow> coord_inv (fold coord_step es (new_coord r fc))"
  by (rule coordinator.run_inv [OF coord_inv_new])

section \<open>Properties of every run\<close>

text \<open>
  No attempt hangs. In every reachable state that is neither idle nor upgraded the
  timer is armed, and its expiry ends the attempt: the peer side is told, the failure is
  reported unless a success was, the peer is closed, and the session falls back to the relay
  or, in strict mode, is force-closed.
\<close>

theorem attempt_times_out:
  assumes "\<forall>e \<in> set es. input_ok e" and "s = fold coord_step es (new_coord r fc)"
    and "ustate s \<notin> {Idle, Upgraded}"
  shows "timer_armed s
    \<and> coord_step I_Timeout s = abandoned
        ([Send_Control (M_Downgrade (the (upgrade_id s)) (the (app_id s)) ''timeout'')]
         @ (if success_emitted s then [] else [Emit (E_Failed (upgrade_id s) ''timeout'')])
         @ close_effect s
         @ (if strict s \<and> has_force_close s then [Force_Close ''timeout''] else [Switch_Path Relay])) s"
proof -
  have inv: "coord_inv s" using assms(1,2) by (simp add: coord_reachable_inv)
  have t: "timer_armed s"
    using inv assms(3) by (cases "ustate s") (auto simp: coord_inv_def core_inv_def)
  have ni: "ustate s \<noteq> Idle" using assms(3) by simp
  have "coord_step I_Timeout s = downgrade ''timeout'' s"
    using t timeout_eq [OF inv t] coord_invD(1) [OF downgrade_inv [OF inv]]
    by (simp add: coord_step_def handle_input_def)
  with t downgrade_eq [OF coord_invD(1) [OF inv] ni coord_invD(5) [OF inv ni] coord_invD(6) [OF inv ni]]
  show ?thesis by simp
qed

text \<open>
  No peer leaks. In every reachable state each peer connection the factory ever
  delivered, also one delivered late for an abandoned attempt, is either the current one or
  has been closed, and never both; an idle coordinator holds none.
\<close>

theorem no_peer_leak:
  assumes "\<forall>e \<in> set es. input_ok e" and "s = fold coord_step es (new_coord r fc)" and "p < next_peer s"
  shows "(peer s = Some p) \<noteq> (Close_Peer p \<in> set (trace s)) \<and> (ustate s = Idle \<longrightarrow> peer s = None)"
proof -
  have "coord_inv s" using assms(1,2) by (simp add: coord_reachable_inv)
  with assms(3) show ?thesis
    by (auto simp: coord_inv_def core_inv_def peers_ok_def)
qed

text \<open>What one event may add to the trace.\<close>

definition emits_ok :: "coord \<Rightarrow> coord \<Rightarrow> bool" where
  "emits_ok s s' \<longleftrightarrow> (\<exists>es. trace s' = trace s @ es
     \<and> (Switch_Path P2p \<in> set es \<longrightarrow> ustate s' = Upgraded \<and> local_committed s' \<and> remote_committed s' \<and> peer s' \<noteq> None)
     \<and> (strict s \<and> has_force_close s \<longrightarrow> Switch_Path Relay \<notin> set es))"

lemma emits_refl [simp]: "emits_ok s s"
  by (simp add: emits_ok_def)


lemma emits_settle: "emits_ok s s' \<Longrightarrow> ustate s' \<noteq> Upgraded \<or> \<not> thrown s' \<Longrightarrow> emits_ok s (settle s')"
  by (auto simp: settle_def perform_def emits_ok_def)
















subsection \<open>Where the commits come from\<close>

text \<open>
  Where the two commits come from. A step keeps the commits of an attempt or drops them with its ids; the
  other side's is set only by an \<open>I_Committed\<close> with the ids of the attempt, and the attempt is committing or
  upgraded only after the own commit has been sent with them.
\<close>

definition own_commit :: "coord \<Rightarrow> coord_effect" where
  "own_commit s = Send_Control (M_Committed (the (upgrade_id s)) (the (app_id s)))"

definition commits_ok :: "coord_input \<Rightarrow> coord \<Rightarrow> coord \<Rightarrow> bool" where
  "commits_ok e s s' \<longleftrightarrow> (\<exists>new. trace s' = trace s @ new
     \<and> (remote_committed s' \<longrightarrow> remote_committed s \<and> upgrade_id s' = upgrade_id s \<and> app_id s' = app_id s
          \<or> e = I_Committed (the (upgrade_id s')) (the (app_id s')))
     \<and> (ustate s' \<in> {Committing, Upgraded} \<longrightarrow>
          ustate s \<in> {Committing, Upgraded} \<and> upgrade_id s' = upgrade_id s \<and> app_id s' = app_id s
          \<or> own_commit s' \<in> set new))"

lemma commits_refl [simp]: "commits_ok e s s"
  by (simp add: commits_ok_def)
























subsection \<open>The handshake, and two events after it\<close>

definition offerer_run :: "propose_payload \<Rightarrow> string \<Rightarrow> string \<Rightarrow> coord_input list" where
  "offerer_run pl offer answer =
     [I_Propose pl, I_Resume 0 Factory_Peer None, I_Resume 0 Factory_Null (Some offer),
      I_Answer (p_upgrade_id pl) (p_app_id pl) answer, I_Resume 0 Factory_Null (Some []),
      I_Peer_State 0 Peer_Connected, I_Committed (p_upgrade_id pl) (p_app_id pl)]"

definition answerer_run :: "propose_payload \<Rightarrow> string \<Rightarrow> string \<Rightarrow> coord_input list" where
  "answerer_run pl offer answer =
     [I_Propose pl, I_Resume 0 Factory_Peer None,
      I_Offer (p_upgrade_id pl) (p_app_id pl) offer, I_Resume 0 Factory_Null (Some []),
      I_Resume 0 Factory_Null (Some answer),
      I_Committed (p_upgrade_id pl) (p_app_id pl), I_Peer_State 0 Peer_Connected]"

lemmas coord_eval = coord_step_def settle_def handle_input_def propose_def coord_prims armTimeout_def
  resume_def resume_factory_def resume_create_offer_def enterNegotiating_def handleAnswer_def
  resume_remote_answer_def on_peer_state_def localCommit_def maybeUpgrade_def handleCommitted_def
  truthy_def new_coord_def handleOffer_def resume_remote_offer_def resume_create_answer_def

text \<open>
  The handshake completes, whichever side commits first. The offerer and the answerer,
  fed the other's messages and successful outcomes of their own calls, both end upgraded on
  the first peer, having sent the offer or the answer, then the commit, switched the path
  and reported the success once.
\<close>

theorem handshake_completes:
  assumes "p_upgrade_id pl \<noteq> []" and "p_app_id pl \<noteq> []"
  shows "(ustate (fold coord_step (offerer_run pl offer answer) (new_coord Offerer fc)) = Upgraded)
    \<and> (trace (fold coord_step (offerer_run pl offer answer) (new_coord Offerer fc)) =
      [Emit (E_Propose (p_upgrade_id pl) Offerer), Call_Factory Offerer, Call_Create_Offer 0,
       Send_Control (M_Offer (p_upgrade_id pl) (p_app_id pl) offer), Call_Set_Remote 0 answer False,
       Send_Control (M_Committed (p_upgrade_id pl) (p_app_id pl)), Switch_Path P2p,
       Emit (E_Success (p_upgrade_id pl))])
    \<and> (ustate (fold coord_step (answerer_run pl offer answer) (new_coord Answerer fc)) = Upgraded)
    \<and> (trace (fold coord_step (answerer_run pl offer answer) (new_coord Answerer fc)) =
      [Emit (E_Propose (p_upgrade_id pl) Answerer), Call_Factory Answerer,
       Call_Set_Remote 0 offer True, Call_Create_Answer 0,
       Send_Control (M_Answer (p_upgrade_id pl) (p_app_id pl) answer),
       Send_Control (M_Committed (p_upgrade_id pl) (p_app_id pl)), Switch_Path P2p,
       Emit (E_Success (p_upgrade_id pl))])"
  using assms by (simp_all add: offerer_run_def answerer_run_def coord_eval)

text \<open>
  A commit message is not idempotent. A second \<open>tunnel.upgrade.committed\<close> of the
  same upgrade on an upgraded coordinator switches the path to the peer once more; only the
  success event is guarded.
\<close>

theorem committed_again:
  assumes "\<forall>e \<in> set es. input_ok e" and "s = fold coord_step es (new_coord r fc)"
    and "ustate s = Upgraded" and "success_emitted s" and "upgrade_id s = Some u" and "app_id s = Some a"
  shows "coord_step (I_Committed u a) s = s\<lparr>trace := trace s @ [Switch_Path P2p]\<rparr>"
proof -
  have inv: "coord_inv s" using assms(1,2) by (simp add: coord_reachable_inv)
  then have flags: "local_committed s" "remote_committed s" "\<not> timer_armed s"
    using assms(3) by (auto simp: coord_inv_def core_inv_def)
  have "s\<lparr>remote_committed := True\<rparr> = s" using flags(2) by (cases s) simp
  then have "coord_step (I_Committed u a) s = settle (maybeUpgrade s)"
    using assms(5,6) by (simp add: coord_step_def handle_input_def handleCommitted_def)
  moreover have "maybeUpgrade s = s\<lparr>trace := trace s @ [Switch_Path P2p]\<rparr>"
    using maybeUpgrade_eq [of s] flags assms(3,4) coord_invD(1) [OF inv] by (cases s) simp
  ultimately show ?thesis using coord_invD(1) [OF inv] by simp
qed

text \<open>
  A late offer can throw. If \<open>setRemoteDescription\<close> of an offer fails once the
  coordinator is upgraded, the failure path asks for the forbidden transition from
  \<open>Upgraded\<close> to \<open>Failed\<close>: the exception leaves \<open>handleOffer\<close>, nothing is sent, and
  the attempt is neither failed nor downgraded.
\<close>

theorem late_offer_throws:
  assumes "\<forall>e \<in> set es. input_ok e" and "s = fold coord_step es (new_coord r fc)"
    and "ustate s = Upgraded" and "peer s = Some p"
    and "i < length (pending s)" and "pending s ! i = After_Remote_Offer p u a"
  shows "coord_step (I_Resume i fr None) s =
    s\<lparr>pending := take i (pending s) @ drop (Suc i) (pending s), trace := trace s @ [Uncaught]\<rparr>"
proof -
  have "\<not> thrown s" using assms(1,2) coord_reachable_inv coord_invD(1) by blast
  then show ?thesis using assms(3-6)
    by (cases s) (simp add: coord_step_def handle_input_def resume_def resume_remote_offer_def
        fail_def andThen_def set_state_def settle_def perform_def)
qed

subsection \<open>Witnesses\<close>

definition sample_proposal :: propose_payload where
  "sample_proposal = \<lparr>p_upgrade_id = ''u1'', p_app_id = ''app1'', p_strict = True\<rparr>"

lemmas sample_eval = coord_eval sample_proposal_def offerer_run_def answerer_run_def
  on_local_candidate_def handleCandidate_def fail_def downgrade_def cleanupPeer_def resetToIdle_def

theorem attempt_times_out_witness:
  "ustate (coord_step I_Timeout (coord_step (I_Propose sample_proposal) (new_coord Offerer True))) = Idle"
proof -
  have "\<forall>e \<in> set [I_Propose sample_proposal]. input_ok e"
    by (simp add: input_ok_def sample_proposal_def)
  moreover have "ustate (fold coord_step [I_Propose sample_proposal] (new_coord Offerer True)) \<notin> {Idle, Upgraded}"
    by (simp add: sample_eval)
  ultimately show ?thesis
    using attempt_times_out [of "[I_Propose sample_proposal]" _ Offerer True, OF _ refl]
    by (simp add: abandoned_def)
qed

theorem no_peer_leak_witness:
  "(peer (fold coord_step [I_Propose sample_proposal, I_Close, I_Resume 0 Factory_Peer None] (new_coord Offerer True)) = Some 0)
   \<noteq> (Close_Peer 0 \<in> set (trace (fold coord_step [I_Propose sample_proposal, I_Close, I_Resume 0 Factory_Peer None] (new_coord Offerer True))))"
  using no_peer_leak [of "[I_Propose sample_proposal, I_Close, I_Resume 0 Factory_Peer None]" _ Offerer True 0, OF _ refl]
  by (simp add: input_ok_def sample_eval close_coord_def)


theorem handshake_completes_witness:
  "ustate (fold coord_step (offerer_run sample_proposal ''o'' ''a'') (new_coord Offerer True)) = Upgraded"
  using handshake_completes [of sample_proposal "''o''" "''a''" True]
  by (simp add: sample_proposal_def)

theorem committed_again_witness:
  "last (trace (coord_step (I_Committed ''u1'' ''app1'')
     (fold coord_step (offerer_run sample_proposal ''o'' ''a'') (new_coord Offerer True)))) = Switch_Path P2p"
proof -
  let ?es = "offerer_run sample_proposal ''o'' ''a''"
  have "\<forall>e \<in> set ?es. input_ok e" by (simp add: offerer_run_def input_ok_def sample_proposal_def)
  moreover have "ustate (fold coord_step ?es (new_coord Offerer True)) = Upgraded"
    "success_emitted (fold coord_step ?es (new_coord Offerer True))"
    "upgrade_id (fold coord_step ?es (new_coord Offerer True)) = Some ''u1''"
    "app_id (fold coord_step ?es (new_coord Offerer True)) = Some ''app1''"
    by (simp_all add: sample_eval)
  ultimately show ?thesis using committed_again [of ?es _ Offerer True "''u1''" "''app1''", OF _ refl] by simp
qed

theorem late_offer_throws_witness:
  "last (trace (coord_step (I_Resume 0 Factory_Null None)
     (fold coord_step (answerer_run sample_proposal ''o'' ''a'' @ [I_Offer ''u1'' ''app1'' ''bad'']) (new_coord Answerer True)))) = Uncaught"
proof -
  let ?es = "answerer_run sample_proposal ''o'' ''a'' @ [I_Offer ''u1'' ''app1'' ''bad'']"
  let ?s = "fold coord_step ?es (new_coord Answerer True)"
  have "\<forall>e \<in> set ?es. input_ok e" by (simp add: answerer_run_def input_ok_def sample_proposal_def)
  moreover have "ustate ?s = Upgraded" "peer ?s = Some 0"
    "0 < length (pending ?s)" "pending ?s ! 0 = After_Remote_Offer 0 ''u1'' ''app1''"
    by (simp_all add: sample_eval)
  ultimately show ?thesis
    using late_offer_throws [of ?es ?s Answerer True 0 0 "''u1''" "''app1''" Factory_Null] by simp
qed

end
