(* ===== verification/Digest.thy ===== *)
theory Digest
  imports Prelude
begin

unbundle bit_operations_syntax

text \<open>
  The hash functions. \<open>app/src/features/auth/hmacSha256.ts\<close> is the App's own SHA-256,
  HMAC, UTF-8 and base64url; SHA-1 (\<open>createHash("sha1")\<close> of Node) is modelled because the
  relay's rollout decision is computed from it. A JavaScript string is the list of its
  UTF-16 code units; a \<open>Uint8Array\<close> is a list of bytes; the code's \<open>>>> 0\<close> arithmetic
  is arithmetic of 32-bit words.
\<close>

section \<open>Word operations\<close>

type_synonym u32 = "32 word"

definition SHA256_BLOCK_SIZE :: nat where "SHA256_BLOCK_SIZE = 64"

definition rotateRight :: "u32 \<Rightarrow> nat \<Rightarrow> u32" where
  "rotateRight value bits = (drop_bit bits value) OR (push_bit (32 - bits) value)"

definition choose_bits :: "u32 \<Rightarrow> u32 \<Rightarrow> u32 \<Rightarrow> u32" where
  "choose_bits x y z = (x AND y) XOR (NOT x AND z)"

definition majority :: "u32 \<Rightarrow> u32 \<Rightarrow> u32 \<Rightarrow> u32" where
  "majority x y z = (x AND y) XOR (x AND z) XOR (y AND z)"

definition bigSigma0 :: "u32 \<Rightarrow> u32" where
  "bigSigma0 v = rotateRight v 2 XOR rotateRight v 13 XOR rotateRight v 22"

definition bigSigma1 :: "u32 \<Rightarrow> u32" where
  "bigSigma1 v = rotateRight v 6 XOR rotateRight v 11 XOR rotateRight v 25"

definition sigma0 :: "u32 \<Rightarrow> u32" where
  "sigma0 v = rotateRight v 7 XOR rotateRight v 18 XOR drop_bit 3 v"

definition sigma1 :: "u32 \<Rightarrow> u32" where
  "sigma1 v = rotateRight v 17 XOR rotateRight v 19 XOR drop_bit 10 v"

definition add32 :: "u32 list \<Rightarrow> u32" where
  "add32 vs = foldl (+) 0 vs"

definition K256 :: "u32 list" where
  "K256 =
    [0x428a2f98, 0x71374491, 0xb5c0fbcf, 0xe9b5dba5, 0x3956c25b, 0x59f111f1] @
    [0x923f82a4, 0xab1c5ed5, 0xd807aa98, 0x12835b01, 0x243185be, 0x550c7dc3] @
    [0x72be5d74, 0x80deb1fe, 0x9bdc06a7, 0xc19bf174, 0xe49b69c1, 0xefbe4786] @
    [0x0fc19dc6, 0x240ca1cc, 0x2de92c6f, 0x4a7484aa, 0x5cb0a9dc, 0x76f988da] @
    [0x983e5152, 0xa831c66d, 0xb00327c8, 0xbf597fc7, 0xc6e00bf3, 0xd5a79147] @
    [0x06ca6351, 0x14292967, 0x27b70a85, 0x2e1b2138, 0x4d2c6dfc, 0x53380d13] @
    [0x650a7354, 0x766a0abb, 0x81c2c92e, 0x92722c85, 0xa2bfe8a1, 0xa81a664b] @
    [0xc24b8b70, 0xc76c51a3, 0xd192e819, 0xd6990624, 0xf40e3585, 0x106aa070] @
    [0x19a4c116, 0x1e376c08, 0x2748774c, 0x34b0bcb5, 0x391c0cb3, 0x4ed8aa4a] @
    [0x5b9cca4f, 0x682e6ff3, 0x748f82ee, 0x78a5636f, 0x84c87814, 0x8cc70208] @
    [0x90befffa, 0xa4506ceb, 0xbef9a3f7, 0xc67178f2]"

section \<open>SHA-256\<close>

text \<open>\<open>getUint32\<close> and \<open>setUint32\<close> of a \<open>DataView\<close>, big-endian.\<close>

definition get_u32 :: "byte list \<Rightarrow> u32" where
  "get_u32 bs = foldl (\<lambda>a b. push_bit 8 a OR ucast b) 0 bs"

definition set_u32 :: "u32 \<Rightarrow> byte list" where
  "set_u32 w = [ucast (drop_bit 24 w), ucast (drop_bit 16 w), ucast (drop_bit 8 w), ucast w]"

text \<open>\<open>Math.ceil((n + 9) / 64) * 64\<close>.\<close>

definition padded_length :: "nat \<Rightarrow> nat" where
  "padded_length n = ((n + 9 + 63) div SHA256_BLOCK_SIZE) * SHA256_BLOCK_SIZE"

definition pad_message :: "byte list \<Rightarrow> byte list" where
  "pad_message input =
     (let n = length input; bitLength = int n * 8; p = padded_length n
      in input @ [0x80] @ replicate (p - n - 9) 0
           @ set_u32 (word_of_int (bitLength div 0x100000000)) @ set_u32 (word_of_int bitLength))"

text \<open>The block's 16 words, extended to 64; the list is built from the front.\<close>

fun block_words :: "nat \<Rightarrow> byte list \<Rightarrow> u32 list" where
  "block_words 0 bs = []"
| "block_words (Suc n) bs = get_u32 (take 4 bs) # block_words n (drop 4 bs)"

definition next_word :: "u32 list \<Rightarrow> u32" where
  "next_word ws = (let i = length ws in
     add32 [sigma1 (ws ! (i - 2)), ws ! (i - 7), sigma0 (ws ! (i - 15)), ws ! (i - 16)])"

fun extend_words :: "nat \<Rightarrow> u32 list \<Rightarrow> u32 list" where
  "extend_words 0 ws = ws"
| "extend_words (Suc n) ws = extend_words n (ws @ [next_word ws])"

record working =
  wa :: u32
  wb :: u32
  wc :: u32
  wd :: u32
  we :: u32
  wf :: u32
  wg :: u32
  wh :: u32

definition sha256_round :: "u32 \<times> u32 \<Rightarrow> working \<Rightarrow> working" where
  "sha256_round kw v = (case kw of (k, w) \<Rightarrow>
     let t1 = add32 [wh v, bigSigma1 (we v), choose_bits (we v) (wf v) (wg v), k, w];
         t2 = add32 [bigSigma0 (wa v), majority (wa v) (wb v) (wc v)]
     in \<lparr>wa = add32 [t1, t2], wb = wa v, wc = wb v, wd = wc v,
         we = add32 [wd v, t1], wf = we v, wg = wf v, wh = wg v\<rparr>)"

definition sha256_block :: "byte list \<Rightarrow> working \<Rightarrow> working" where
  "sha256_block blk st =
     (let ws = extend_words 48 (block_words 16 blk); v = fold sha256_round (zip K256 ws) st
      in \<lparr>wa = add32 [wa st, wa v], wb = add32 [wb st, wb v], wc = add32 [wc st, wc v],
          wd = add32 [wd st, wd v], we = add32 [we st, we v], wf = add32 [wf st, wf v],
          wg = add32 [wg st, wg v], wh = add32 [wh st, wh v]\<rparr>)"

definition sha256_init :: working where
  "sha256_init = \<lparr>wa = 0x6a09e667, wb = 0xbb67ae85, wc = 0x3c6ef372, wd = 0xa54ff53a,
     we = 0x510e527f, wf = 0x9b05688c, wg = 0x1f83d9ab, wh = 0x5be0cd19\<rparr>"

fun sha256_blocks :: "nat \<Rightarrow> byte list \<Rightarrow> working \<Rightarrow> working" where
  "sha256_blocks 0 bs st = st"
| "sha256_blocks (Suc n) bs st =
     sha256_blocks n (drop SHA256_BLOCK_SIZE bs) (sha256_block (take SHA256_BLOCK_SIZE bs) st)"

definition digest_bytes :: "working \<Rightarrow> byte list" where
  "digest_bytes st = concat (map (\<lambda>w. set_u32 w)
     [wa st, wb st, wc st, wd st, we st, wf st, wg st, wh st])"

definition sha256 :: "byte list \<Rightarrow> byte list" where
  "sha256 input =
     (let padded = pad_message input
      in digest_bytes (sha256_blocks (length padded div SHA256_BLOCK_SIZE) padded sha256_init))"

section \<open>Text\<close>

type_synonym js_string = "16 word list"

definition is_high :: "int \<Rightarrow> bool" where "is_high c \<longleftrightarrow> 0xd800 \<le> c \<and> c \<le> 0xdbff"
definition is_low :: "int \<Rightarrow> bool" where "is_low c \<longleftrightarrow> 0xdc00 \<le> c \<and> c \<le> 0xdfff"

definition utf8_encode_point :: "int \<Rightarrow> byte list" where
  "utf8_encode_point c =
     (if c < 0x80 then [word_of_int c]
      else if c < 0x800 then [0xc0 OR word_of_int (c div 64), 0x80 OR word_of_int (c mod 64)]
      else if c < 0x10000 then
        [0xe0 OR word_of_int (c div 4096), 0x80 OR word_of_int (c div 64 mod 64), 0x80 OR word_of_int (c mod 64)]
      else
        [0xf0 OR word_of_int (c div 262144), 0x80 OR word_of_int (c div 4096 mod 64),
         0x80 OR word_of_int (c div 64 mod 64), 0x80 OR word_of_int (c mod 64)])"

text \<open>A surrogate pair is one code point; a lone surrogate is encoded as it stands.\<close>

fun code_points :: "js_string \<Rightarrow> int list" where
  "code_points [] = []"
| "code_points [u] = [uint u]"
| "code_points (u # v # rest) =
     (if is_high (uint u) \<and> is_low (uint v)
      then (0x10000 + (uint u - 0xd800) * 1024 + (uint v - 0xdc00)) # code_points rest
      else uint u # code_points (v # rest))"

definition utf8Bytes :: "js_string \<Rightarrow> byte list" where
  "utf8Bytes s = concat (map utf8_encode_point (code_points s))"

definition base64url_alphabet :: string where
  "base64url_alphabet = ''ABCDEFGHIJKLMNOPQRSTUVWXYZabcdefghijklmnopqrstuvwxyz0123456789-_''"

definition b64_char :: "byte \<Rightarrow> char" where
  "b64_char w = base64url_alphabet ! unat w"

fun base64UrlEncode :: "byte list \<Rightarrow> string" where
  "base64UrlEncode [] = []"
| "base64UrlEncode [a] =
     [b64_char (drop_bit 2 a), b64_char (push_bit 4 (a AND 0x03))]"
| "base64UrlEncode [a, b] =
     [b64_char (drop_bit 2 a), b64_char (push_bit 4 (a AND 0x03) OR drop_bit 4 b),
      b64_char (push_bit 2 (b AND 0x0f))]"
| "base64UrlEncode (a # b # c # rest) =
     [b64_char (drop_bit 2 a), b64_char (push_bit 4 (a AND 0x03) OR drop_bit 4 b),
      b64_char (push_bit 2 (b AND 0x0f) OR drop_bit 6 c), b64_char (c AND 0x3f)] @ base64UrlEncode rest"

definition hex_digit :: "nat \<Rightarrow> char" where
  "hex_digit n = ''0123456789abcdef'' ! n"

definition hexEncode :: "byte list \<Rightarrow> string" where
  "hexEncode bs = concat (map (\<lambda>b. [hex_digit (unat b div 16), hex_digit (unat b mod 16)]) bs)"

definition createSha256Hex :: "js_string \<Rightarrow> string" where
  "createSha256Hex m = hexEncode (sha256 (utf8Bytes m))"

section \<open>HMAC\<close>

definition hmac_key_block :: "byte list \<Rightarrow> byte list" where
  "hmac_key_block key =
     (let k = (if length key > SHA256_BLOCK_SIZE then sha256 key else key)
      in k @ replicate (SHA256_BLOCK_SIZE - length k) 0)"

definition createHmacSha256Base64Url :: "js_string \<Rightarrow> js_string \<Rightarrow> string" where
  "createHmacSha256Base64Url key message =
     (let padded = hmac_key_block (utf8Bytes key);
          outerPad = map (\<lambda>b. b XOR 0x5c) padded; innerPad = map (\<lambda>b. b XOR 0x36) padded
      in base64UrlEncode (sha256 (outerPad @ sha256 (innerPad @ utf8Bytes message))))"

section \<open>SHA-1 of the runtime\<close>

record sha1_state =
  s1a :: u32
  s1b :: u32
  s1c :: u32
  s1d :: u32
  s1e :: u32

definition rotl :: "nat \<Rightarrow> u32 \<Rightarrow> u32" where
  "rotl n v = push_bit n v OR drop_bit (32 - n) v"

fun sha1_extend :: "nat \<Rightarrow> u32 list \<Rightarrow> u32 list" where
  "sha1_extend 0 ws = ws"
| "sha1_extend (Suc n) ws = (let i = length ws in
     sha1_extend n (ws @ [rotl 1 (ws ! (i - 3) XOR ws ! (i - 8) XOR ws ! (i - 14) XOR ws ! (i - 16))]))"

definition sha1_round :: "nat \<times> u32 \<Rightarrow> sha1_state \<Rightarrow> sha1_state" where
  "sha1_round tw s = (case tw of (t, w) \<Rightarrow>
     let (f, k) = (if t < 20 then ((s1b s AND s1c s) OR (NOT (s1b s) AND s1d s), 0x5a827999)
                   else if t < 40 then (s1b s XOR s1c s XOR s1d s, 0x6ed9eba1)
                   else if t < 60 then ((s1b s AND s1c s) OR (s1b s AND s1d s) OR (s1c s AND s1d s), 0x8f1bbcdc)
                   else (s1b s XOR s1c s XOR s1d s, 0xca62c1d6))
     in \<lparr>s1a = rotl 5 (s1a s) + f + s1e s + k + w, s1b = s1a s, s1c = rotl 30 (s1b s),
         s1d = s1c s, s1e = s1d s\<rparr>)"

definition sha1_block :: "byte list \<Rightarrow> sha1_state \<Rightarrow> sha1_state" where
  "sha1_block blk s =
     (let v = fold sha1_round (zip [0..<80] (sha1_extend 64 (block_words 16 blk))) s
      in \<lparr>s1a = s1a s + s1a v, s1b = s1b s + s1b v, s1c = s1c s + s1c v,
          s1d = s1d s + s1d v, s1e = s1e s + s1e v\<rparr>)"

fun sha1_blocks :: "nat \<Rightarrow> byte list \<Rightarrow> sha1_state \<Rightarrow> sha1_state" where
  "sha1_blocks 0 bs s = s"
| "sha1_blocks (Suc n) bs s = sha1_blocks n (drop 64 bs) (sha1_block (take 64 bs) s)"

definition sha1 :: "byte list \<Rightarrow> byte list" where
  "sha1 input =
     (let p = pad_message input;
          s = sha1_blocks (length p div 64) p
                \<lparr>s1a = 0x67452301, s1b = 0xefcdab89, s1c = 0x98badcfe, s1d = 0x10325476, s1e = 0xc3d2e1f0\<rparr>
      in concat (map (\<lambda>w. set_u32 w) [s1a s, s1b s, s1c s, s1d s, s1e s]))"

section \<open>Padding\<close>

lemma padded_length_bounds: "n + 9 \<le> padded_length n" "padded_length n < n + 9 + 64" "64 dvd padded_length n"
  by (auto simp: padded_length_def SHA256_BLOCK_SIZE_def)

lemma pad_message_length: "length (pad_message input) = padded_length (length input)"
  using padded_length_bounds(1) [of "length input"]
  by (simp add: pad_message_def Let_def set_u32_def)

lemma set_u32_eq: "set_u32 v = set_u32 w \<longleftrightarrow> v = w"
proof
  assume "set_u32 v = set_u32 w"
  then have *: "(ucast (drop_bit 24 v) :: byte) = ucast (drop_bit 24 w)"
    "(ucast (drop_bit 16 v) :: byte) = ucast (drop_bit 16 w)"
    "(ucast (drop_bit 8 v) :: byte) = ucast (drop_bit 8 w)"
    "(ucast v :: byte) = ucast w"
    by (simp_all add: set_u32_def)
  show "v = w"
  proof (rule bit_word_eqI)
    fix n assume n: "n < LENGTH(32)"
    have e: "bit v (k + i) = bit w (k + i)"
      if "(ucast (drop_bit k v) :: byte) = ucast (drop_bit k w)" "i < 8" for k i
      using arg_cong [OF that(1), of "\<lambda>z. bit z i"] that(2) by (simp add: bit_ucast_iff bit_drop_bit_eq)
    consider "n < 8" | "8 \<le> n" "n < 16" | "16 \<le> n" "n < 24" | "24 \<le> n" "n < 32" using n by fastforce
    then show "bit v n = bit w n"
    proof cases
      case 1 then show ?thesis using e [of 0 n] *(4) by simp
    next
      case 2 then show ?thesis using e [of 8 "n - 8"] *(3) by simp
    next
      case 3 then show ?thesis using e [of 16 "n - 16"] *(2) by simp
    next
      case 4 then show ?thesis using e [of 24 "n - 24"] *(1) by simp
    qed
  qed
qed simp

lemma set_u32_length [simp]: "length (set_u32 w) = 4"
  by (simp add: set_u32_def)

lemma u32_int_eq:
  assumes "0 \<le> x" "x < 2 ^ 64" "0 \<le> y" "y < 2 ^ 64"
    and "(word_of_int (x div 0x100000000) :: u32) = word_of_int (y div 0x100000000)"
    and "(word_of_int x :: u32) = word_of_int y"
  shows "x = y"
proof -
  have 1: "take_bit 32 (x div 4294967296) = take_bit 32 (y div 4294967296)" "take_bit 32 x = take_bit 32 y"
    using assms(5,6) by (simp_all add: word_of_int_eq_iff)
  have "x div 4294967296 = y div 4294967296"
    using 1(1) assms(1-4) by (simp add: take_bit_int_eq_self_iff take_bit_eq_mod)
  moreover have "x mod 4294967296 = y mod 4294967296" using 1(2) by (simp add: take_bit_eq_mod)
  ultimately show ?thesis by (metis div_mult_mod_eq)
qed

lemma pad_message_inj:
  assumes l: "length xs < 2 ^ 61" "length ys < 2 ^ 61" and eq: "pad_message xs = pad_message ys"
  shows "xs = ys"
proof -
  let ?tail = "\<lambda>n. set_u32 (word_of_int (int n * 8 div 0x100000000)) @ set_u32 (word_of_int (int n * 8))"
  have form: "pad_message zs = (zs @ [0x80] @ replicate (padded_length (length zs) - length zs - 9) 0) @ ?tail (length zs)" for zs
    by (simp add: pad_message_def Let_def)
  have len: "length (?tail n) = 8" for n by simp
  have "?tail (length xs) = ?tail (length ys)"
    using eq unfolding form [of xs] form [of ys] by (metis append_eq_append_conv len)
  then have "(word_of_int (int (length xs) * 8 div 0x100000000) :: u32) = word_of_int (int (length ys) * 8 div 0x100000000)"
    "(word_of_int (int (length xs) * 8) :: u32) = word_of_int (int (length ys) * 8)"
    by (simp_all add: set_u32_eq)
  then have "int (length xs) * 8 = int (length ys) * 8"
    using l by (intro u32_int_eq) simp_all
  then have "length xs = length ys" by simp
  with eq show ?thesis by (simp add: pad_message_def Let_def)
qed

lemma sha256_length: "length (sha256 input) = 32"
  by (simp add: sha256_def digest_bytes_def Let_def)

section \<open>Hexadecimal and base64url\<close>

lemma hexEncode_length: "length (hexEncode bs) = 2 * length bs"
  by (induction bs) (auto simp: hexEncode_def)

lemma base64UrlEncode_length:
  "length (base64UrlEncode bs) = (4 * length bs + 2) div 3"
  by (induction bs rule: base64UrlEncode.induct) auto

lemma b64_char_eq: "unat v < 64 \<Longrightarrow> unat w < 64 \<Longrightarrow> b64_char v = b64_char w \<longleftrightarrow> v = w"
proof -
  assume "unat v < 64" "unat w < 64"
  moreover have "distinct base64url_alphabet" "length base64url_alphabet = 64"
    by (simp_all add: base64url_alphabet_def)
  ultimately show ?thesis
    by (simp add: b64_char_def nth_eq_iff_index_eq word_unat_eq_iff)
qed

lemma byte_high_bit [simp]: "8 \<le> n \<Longrightarrow> \<not> bit (w :: byte) n"
  using bit_imp_le_length [of w n] by auto

lemma byte_eq_bits:
  "v = (w :: byte) \<longleftrightarrow> (bit v 0 = bit w 0 \<and> bit v 1 = bit w 1 \<and> bit v 2 = bit w 2 \<and> bit v 3 = bit w 3 \<and>
     bit v 4 = bit w 4 \<and> bit v 5 = bit w 5 \<and> bit v 6 = bit w 6 \<and> bit v 7 = bit w 7)" (is "_ \<longleftrightarrow> ?r")
proof
  assume r: ?r
  show "v = w"
  proof (rule bit_word_eqI)
    fix n assume "n < LENGTH(8)"
    then have "n = 0 \<or> n = 1 \<or> n = 2 \<or> n = 3 \<or> n = 4 \<or> n = 5 \<or> n = 6 \<or> n = 7" by auto
    then show "bit v n = bit w n" using r by blast
  qed
qed simp

lemmas byte_bits = byte_eq_bits bit_and_iff bit_or_iff bit_push_bit_iff bit_drop_bit_eq

lemma six_bits:
  "unat (drop_bit 2 (a :: byte)) < 64"
  "unat (push_bit 4 (a AND 3) :: byte) < 64"
  "unat (push_bit 4 (a AND 3) OR drop_bit 4 b :: byte) < 64"
  "unat (push_bit 2 (b AND 15) :: byte) < 64"
  "unat (push_bit 2 (b AND 15) OR drop_bit 6 c :: byte) < 64"
  "unat (c AND 63 :: byte) < 64"
proof -
  have small: "unat w < 64" if "\<not> bit w 6" "\<not> bit w 7" for w :: byte
  proof -
    have "w = take_bit 6 w" using that by (simp add: byte_eq_bits bit_take_bit_iff)
    then have "unat w = take_bit 6 (unat w)" by (metis unsigned_take_bit_eq)
    then show ?thesis by (simp add: take_bit_eq_mod)
  qed
  show "unat (drop_bit 2 a) < 64" by (rule small) (simp_all add: byte_bits)
  show "unat (push_bit 4 (a AND 3) :: byte) < 64" by (rule small) (simp_all add: byte_bits)
  show "unat (push_bit 4 (a AND 3) OR drop_bit 4 b :: byte) < 64" by (rule small) (simp_all add: byte_bits)
  show "unat (push_bit 2 (b AND 15) :: byte) < 64" by (rule small) (simp_all add: byte_bits)
  show "unat (push_bit 2 (b AND 15) OR drop_bit 6 c :: byte) < 64" by (rule small) (simp_all add: byte_bits)
  show "unat (c AND 63 :: byte) < 64" by (rule small) (simp_all add: byte_bits)
qed

lemma sextets_one:
  "drop_bit 2 a = drop_bit 2 (x :: byte) \<Longrightarrow> push_bit 4 (a AND 3) = (push_bit 4 (x AND 3) :: byte) \<Longrightarrow> a = x"
  by (simp add: byte_bits)

lemma sextets_two:
  assumes "drop_bit 2 a = drop_bit 2 (x :: byte)"
    and "push_bit 4 (a AND 3) OR drop_bit 4 b = (push_bit 4 (x AND 3) OR drop_bit 4 y :: byte)"
  shows "a = x" "drop_bit 4 b = drop_bit 4 y"
  using assms by (simp_all add: byte_bits)

lemma sextets_three:
  "drop_bit 4 b = drop_bit 4 (y :: byte) \<Longrightarrow> push_bit 2 (b AND 15) = (push_bit 2 (y AND 15) :: byte) \<Longrightarrow> b = y"
  by (simp add: byte_bits)

lemma sextets_four:
  assumes "push_bit 2 (b AND 15) OR drop_bit 6 c = (push_bit 2 (y AND 15) OR drop_bit 6 z :: byte)"
    and "c AND 63 = (z AND 63 :: byte)"
  shows "push_bit 2 (b AND 15) = (push_bit 2 (y AND 15) :: byte)" "c = z"
  using assms by (simp_all add: byte_bits)

lemma base64_length_less: "m < n \<Longrightarrow> (4 * m + 2) div 3 < (4 * n + 2) div (3 :: nat)"
proof -
  assume "m < n"
  then have "(4 * m + 2 + 3) div 3 \<le> (4 * n + 2) div 3" by (intro div_le_mono) simp
  then show ?thesis by simp
qed

lemma base64UrlEncode_same_length:
  "base64UrlEncode xs = base64UrlEncode ys \<Longrightarrow> length xs = length ys"
  using base64_length_less [of "length xs" "length ys"] base64_length_less [of "length ys" "length xs"]
    base64UrlEncode_length [of xs] base64UrlEncode_length [of ys]
  by (cases "length xs" "length ys" rule: linorder_cases) auto

lemma base64UrlEncode_inj: "base64UrlEncode xs = base64UrlEncode ys \<Longrightarrow> xs = ys"
proof (induction xs arbitrary: ys rule: base64UrlEncode.induct)
  case 1
  then show ?case using base64UrlEncode_same_length [OF 1] by simp
next
  case (2 a)
  obtain x where "ys = [x]" using base64UrlEncode_same_length [OF 2] by (auto simp: length_Suc_conv Suc_length_conv)
  with 2 show ?case using sextets_one [of a x] by (simp add: b64_char_eq six_bits del: push_bit_and)
next
  case (3 a b)
  obtain x y where ys: "ys = [x, y]" using base64UrlEncode_same_length [OF 3]
    by (auto simp: length_Suc_conv Suc_length_conv)
  with 3 show ?case using sextets_two [of a x b y] sextets_three [of b y]
    by (simp add: b64_char_eq six_bits del: push_bit_and)
next
  case (4 a b c rest)
  obtain x y z r where ys: "ys = x # y # z # r" using base64UrlEncode_same_length [OF 4(2)]
    by (auto simp: length_Suc_conv Suc_length_conv)
  with 4 show ?case using sextets_two [of a x b y] sextets_three [of b y] sextets_four [of b c y z]
    by (simp add: b64_char_eq six_bits del: push_bit_and)
qed

section \<open>UTF-8\<close>

text \<open>The first byte tells the length of the sequence and the other bytes carry six bits each.\<close>

lemma lead_bytes:
  "\<forall>x \<in> {0..<32}. uint (0xc0 OR word_of_int x :: byte) = 192 + x"
  "\<forall>x \<in> {0..<16}. uint (0xe0 OR word_of_int x :: byte) = 224 + x"
  "\<forall>x \<in> {0..<8}. uint (0xf0 OR word_of_int x :: byte) = 240 + x"
  "\<forall>x \<in> {0..<64}. uint (0x80 OR word_of_int x :: byte) = 128 + x"
  by code_simp+

lemma utf8_bytes:
  assumes "0 \<le> c" "c < 0x110000"
  shows "map uint (utf8_encode_point c) =
     (if c < 0x80 then [c] else if c < 0x800 then [192 + c div 64, 128 + c mod 64]
      else if c < 0x10000 then [224 + c div 4096, 128 + c div 64 mod 64, 128 + c mod 64]
      else [240 + c div 262144, 128 + c div 4096 mod 64, 128 + c div 64 mod 64, 128 + c mod 64])"
proof -
  have "c div 64 < 32" if "c < 0x800" using that by simp
  moreover have "c div 4096 < 16" if "c < 0x10000" using that by simp
  moreover have "c div 262144 < 8" using assms by simp
  moreover have "uint (word_of_int c :: byte) = c" if "c < 0x80"
    using that assms by (simp add: unsigned_of_int take_bit_int_eq_self_iff)
  ultimately show ?thesis
    using assms lead_bytes by (simp add: utf8_encode_point_def)
qed

text \<open>The decoder of the standard, on well-formed input: the first code point and the rest.\<close>

fun utf8_take :: "int list \<Rightarrow> int \<times> int list" where
  "utf8_take [] = (0, [])"
| "utf8_take (b # r) =
     (if b < 128 then (b, r)
      else if b < 224 then ((b - 192) * 64 + (r ! 0 - 128), drop 1 r)
      else if b < 240 then ((b - 224) * 4096 + (r ! 0 - 128) * 64 + (r ! 1 - 128), drop 2 r)
      else ((b - 240) * 262144 + (r ! 0 - 128) * 4096 + (r ! 1 - 128) * 64 + (r ! 2 - 128), drop 3 r))"

lemma div_steps: "x div 4096 = x div 64 div 64" "x div 262144 = x div 64 div 64 div 64" for x :: int
  by (simp_all add: zdiv_zmult2_eq [symmetric])

lemma sixes: "x div 64 * 64 + x mod 64 = x" for x :: int
  by simp

lemma sixes_two: "x div 4096 * 4096 + x div 64 mod 64 * 64 + x mod 64 = x" for x :: int
  unfolding div_steps using sixes [of x] sixes [of "x div 64"] by linarith

lemma sixes_three:
  "x div 262144 * 262144 + x div 4096 mod 64 * 4096 + x div 64 mod 64 * 64 + x mod 64 = x" for x :: int
  unfolding div_steps using sixes [of x] sixes [of "x div 64"] sixes [of "x div 64 div 64"] by linarith

lemma utf8_take_four:
  "0 \<le> q \<Longrightarrow> utf8_take ([240 + q, 128 + x, 128 + y, 128 + z] @ r) = (q * 262144 + x * 4096 + y * 64 + z, r)"
  by simp

lemma utf8_take_encode:
  assumes c: "0 \<le> c" "c < 0x110000"
  shows "utf8_take (map uint (utf8_encode_point c) @ r) = (c, r)"
proof -
  have r: "0 \<le> c div 64" "0 \<le> c div 4096" "0 \<le> c div 262144" using c by simp_all
  consider "c < 0x80" | "0x80 \<le> c" "c < 0x800" | "0x800 \<le> c" "c < 0x10000" | "0x10000 \<le> c" by linarith
  then show ?thesis
  proof cases
    case 1
    then show ?thesis unfolding utf8_bytes [OF c] by simp
  next
    case 2
    then have "c div 64 < 32" by simp
    with 2 r show ?thesis unfolding utf8_bytes [OF c] by simp
  next
    case 3
    then have "c div 4096 < 16" by simp
    with 3 r show ?thesis unfolding utf8_bytes [OF c] using sixes_two [of c] by simp
  next
    case 4
    then have "map uint (utf8_encode_point c) =
        [240 + c div 262144, 128 + c div 4096 mod 64, 128 + c div 64 mod 64, 128 + c mod 64]"
      unfolding utf8_bytes [OF c] by (simp only: not_less [symmetric] if_False) simp
    then show ?thesis by (simp only: utf8_take_four [OF r(3)] sixes_three)
  qed
qed

lemma utf8_point_inj:
  assumes c: "0 \<le> c" "c < 0x110000" and d: "0 \<le> d" "d < 0x110000"
    and eq: "utf8_encode_point c @ r = utf8_encode_point d @ q"
  shows "c = d \<and> r = q"
proof -
  have "utf8_take (map uint (utf8_encode_point c @ r)) = utf8_take (map uint (utf8_encode_point d @ q))"
    using eq by simp
  then have "c = d" using utf8_take_encode [OF c] utf8_take_encode [OF d] by simp
  with eq show ?thesis by simp
qed

lemma utf8_point_nonempty: "utf8_encode_point c \<noteq> []"
  by (simp add: utf8_encode_point_def)

lemma utf8_points_inj:
  "\<forall>c \<in> set cs. 0 \<le> c \<and> c < 0x110000 \<Longrightarrow> \<forall>c \<in> set ds. 0 \<le> c \<and> c < 0x110000 \<Longrightarrow>
   concat (map utf8_encode_point cs) = concat (map utf8_encode_point ds) \<Longrightarrow> cs = ds"
proof (induction cs arbitrary: ds)
  case Nil
  show ?case
  proof (cases ds)
    case (Cons d ds')
    with Nil.prems(3) utf8_point_nonempty [of d] show ?thesis by simp
  qed simp
next
  case (Cons c cs)
  have "ds \<noteq> []" using Cons.prems(3) utf8_point_nonempty [of c] by auto
  then obtain d ds' where ds: "ds = d # ds'" by (cases ds) auto
  with Cons.prems have eq: "c = d \<and> concat (map utf8_encode_point cs) = concat (map utf8_encode_point ds')"
    by (intro utf8_point_inj) simp_all
  have "cs = ds'"
  proof (rule Cons.IH)
    show "\<forall>c \<in> set cs. 0 \<le> c \<and> c < 0x110000" using Cons.prems(1) by simp
    show "\<forall>c \<in> set ds'. 0 \<le> c \<and> c < 0x110000" using Cons.prems(2) ds by simp
    show "concat (map utf8_encode_point cs) = concat (map utf8_encode_point ds')" using eq by (rule conjunct2)
  qed
  with eq ds show ?case by blast
qed

lemma code_points_range: "c \<in> set (code_points s) \<Longrightarrow> 0 \<le> c \<and> c < 0x110000"
proof (induction s rule: code_points.induct)
  case (2 u)
  then show ?case using uint_lt2p [of u] by simp
next
  case (3 u v rest)
  then show ?case using uint_lt2p [of u] by (auto simp: is_high_def is_low_def split: if_splits)
qed simp

text \<open>The code units of a list of code points: the inverse of \<open>code_points\<close>.\<close>

definition point_units :: "int \<Rightarrow> js_string" where
  "point_units c = (if c < 0x10000 then [word_of_int c]
     else [word_of_int (0xd800 + (c - 0x10000) div 1024), word_of_int (0xdc00 + (c - 0x10000) mod 1024)])"

lemma point_units_pair:
  fixes u v :: "16 word"
  assumes "is_high (uint u)" "is_low (uint v)"
  shows "point_units (0x10000 + (uint u - 0xd800) * 1024 + (uint v - 0xdc00)) = [u, v]"
proof -
  let ?x = "uint u - 0xd800" and ?y = "uint v - 0xdc00"
  have y: "0 \<le> ?y" "?y < 1024" and x: "0 \<le> ?x" using assms by (auto simp: is_high_def is_low_def)
  have "(?x * 1024 + ?y) div 1024 = ?x" "(?x * 1024 + ?y) mod 1024 = ?y"
    using y by (simp_all only: div_mult_self3 mod_mult_self3 div_pos_pos_trivial mod_pos_pos_trivial)
  moreover have "\<not> 0x10000 + ?x * 1024 + ?y < 0x10000" using x y by simp
  moreover have "0x10000 + ?x * 1024 + ?y - 0x10000 = ?x * 1024 + ?y" by simp
  ultimately show ?thesis unfolding point_units_def by (simp only: if_False) simp
qed

lemma code_points_units: "concat (map point_units (code_points s)) = s"
proof (induction s rule: code_points.induct)
  case (2 u)
  then show ?case using uint_lt2p [of u] by (simp add: point_units_def)
next
  case (3 u v rest)
  show ?case
  proof (cases "is_high (uint u) \<and> is_low (uint v)")
    case True
    then show ?thesis using 3(1) point_units_pair [of u v] by simp
  next
    case False
    have "point_units (uint u) = [u]" using uint_lt2p [of u] by (simp add: point_units_def)
    with False show ?thesis using 3(2) by auto
  qed
qed simp

lemma utf8Bytes_inj: "utf8Bytes s = utf8Bytes t \<Longrightarrow> s = t"
  unfolding utf8Bytes_def
  by (metis code_points_range code_points_units utf8_points_inj)

section \<open>Collisions\<close>

lemma hex_digit_eq: "m < 16 \<Longrightarrow> n < 16 \<Longrightarrow> hex_digit m = hex_digit n \<longleftrightarrow> m = n"
proof -
  assume "m < 16" "n < 16"
  moreover have "distinct ''0123456789abcdef''" by simp
  ultimately show ?thesis unfolding hex_digit_def by (subst nth_eq_iff_index_eq) simp_all
qed

lemma hexEncode_inj: "hexEncode xs = hexEncode ys \<Longrightarrow> xs = ys"
proof (induction xs arbitrary: ys)
  case Nil
  then show ?case using hexEncode_length [of ys] by (simp add: hexEncode_def)
next
  case (Cons x xs)
  then have "length ys = Suc (length xs)" using hexEncode_length [of ys] hexEncode_length [of "x # xs"] by simp
  then obtain y ys' where ys: "ys = y # ys'" by (auto simp: length_Suc_conv)
  have small: "unat (b :: byte) div 16 < 16" for b
    using unsigned_less [of b, where ?'a = nat] by simp
  have "unat x div 16 = unat y div 16" "unat x mod 16 = unat y mod 16"
    and tl: "hexEncode xs = hexEncode ys'"
    using Cons.prems ys by (simp_all add: hexEncode_def hex_digit_eq small)
  then have "unat x = unat y" by (metis div_mult_mod_eq)
  with Cons.IH [OF tl] ys show ?case by (simp add: word_unat_eq_iff)
qed

definition sha256_collision :: "byte list \<Rightarrow> byte list \<Rightarrow> bool" where
  "sha256_collision x y \<longleftrightarrow> x \<noteq> y \<and> sha256 x = sha256 y"

lemma sha256_eq_cases: "sha256 x = sha256 y \<Longrightarrow> x = y \<or> (\<exists>x y. sha256_collision x y)"
  by (auto simp: sha256_collision_def)

lemma hmac_eq_cases:
  assumes "createHmacSha256Base64Url k m = createHmacSha256Base64Url k m'"
  shows "m = m' \<or> (\<exists>x y. sha256_collision x y)"
proof (cases "\<exists>x y. sha256_collision x y")
  case False
  let ?p = "hmac_key_block (utf8Bytes k)"
  have inj: "sha256 x = sha256 y \<Longrightarrow> x = y" for x y using sha256_eq_cases [of x y] False by blast
  have "sha256 (map (\<lambda>b. b XOR 0x5c) ?p @ sha256 (map (\<lambda>b. b XOR 0x36) ?p @ utf8Bytes m)) =
    sha256 (map (\<lambda>b. b XOR 0x5c) ?p @ sha256 (map (\<lambda>b. b XOR 0x36) ?p @ utf8Bytes m'))"
    using assms by (intro base64UrlEncode_inj) (simp add: createHmacSha256Base64Url_def Let_def)
  then have "sha256 (map (\<lambda>b. b XOR 0x36) ?p @ utf8Bytes m) = sha256 (map (\<lambda>b. b XOR 0x36) ?p @ utf8Bytes m')"
    using inj by blast
  then have "utf8Bytes m = utf8Bytes m'" using inj by blast
  then show ?thesis using utf8Bytes_inj by simp
qed simp

section \<open>Properties\<close>

text \<open>
  The padded input of \<open>sha256\<close> is a whole number of 64-byte blocks, starts with the input
  and the byte \<open>0x80\<close>, adds at most one block more than needed, and two texts have the same
  padded bytes only when they are the same text: the UTF-8 encoding and the padding lose
  nothing, for inputs below \<open>2 ^ 61\<close> bytes.
\<close>

theorem padding_keeps_text:
  assumes "length (utf8Bytes s) < 2 ^ 61" and "length (utf8Bytes t) < 2 ^ 61"
  shows "(SHA256_BLOCK_SIZE dvd length (pad_message (utf8Bytes s)))
    \<and> (length (pad_message (utf8Bytes s)) < length (utf8Bytes s) + 9 + 64)
    \<and> (take (length (utf8Bytes s) + 1) (pad_message (utf8Bytes s)) = utf8Bytes s @ [0x80])
    \<and> (pad_message (utf8Bytes s) = pad_message (utf8Bytes t) \<longleftrightarrow> s = t)"
proof (rule conjI [OF _ conjI [OF _ conjI]])
  show "SHA256_BLOCK_SIZE dvd length (pad_message (utf8Bytes s))"
    using padded_length_bounds(3) by (simp add: pad_message_length SHA256_BLOCK_SIZE_def)
  show "length (pad_message (utf8Bytes s)) < length (utf8Bytes s) + 9 + 64"
    using padded_length_bounds(2) by (simp add: pad_message_length)
  show "take (length (utf8Bytes s) + 1) (pad_message (utf8Bytes s)) = utf8Bytes s @ [0x80]"
    by (simp add: pad_message_def Let_def)
  show "pad_message (utf8Bytes s) = pad_message (utf8Bytes t) \<longleftrightarrow> s = t"
    using pad_message_inj [OF assms] utf8Bytes_inj by blast
qed

theorem padding_keeps_text_witness:
  "pad_message (utf8Bytes [0x61]) \<noteq> pad_message (utf8Bytes [0x61, 0])"
proof -
  have "length (utf8Bytes [0x61]) < 2 ^ 61" "length (utf8Bytes [0x61, 0]) < 2 ^ 61"
    by (simp_all add: utf8Bytes_def utf8_encode_point_def is_high_def)
  from padding_keeps_text [OF this] show ?thesis by simp
qed

text \<open>
  Two messages with the same HMAC under one key are the same message, or two byte strings
  with the same SHA-256 digest have been found: the key block, the two pads, the UTF-8 encoding
  and the base64url text add no collision of their own. The digest is 32 bytes and its text 43
  characters.
\<close>

theorem hmac_binds_message:
  assumes "createHmacSha256Base64Url k m = createHmacSha256Base64Url k m'"
  shows "(m = m' \<or> (\<exists>x y. sha256_collision x y))
    \<and> (length (createHmacSha256Base64Url k m) = 43)"
  using hmac_eq_cases [OF assms]
  by (auto simp: createHmacSha256Base64Url_def Let_def base64UrlEncode_length sha256_length)

theorem hmac_binds_message_witness:
  "length (createHmacSha256Base64Url [0x6b] [0x6d]) = 43"
  by (rule hmac_binds_message [OF refl, THEN conjunct2])
end
