(* ===== verification/AppLock.thy ===== *)
theory AppLock
  imports Digest
begin

text \<open>
  The App's gesture lock, \<open>app/src/features/app-lock/appLockRules.ts\<close>. The stored
  configuration comes from device storage, so its fields are arbitrary JavaScript values
  (\<open>js_value\<close>) until \<open>normalizeAppLockConfig\<close> has checked them; a gesture is the list of the
  numbers of the points touched. The random bytes of the salt are an argument.
\<close>

section \<open>The configuration\<close>

datatype js_value = JUndefined | JNull | JBool bool | JNumber int | JNotFinite | JString string | JObject

fun js_truthy :: "js_value \<Rightarrow> bool" where
  "js_truthy JUndefined = False"
| "js_truthy JNull = False"
| "js_truthy (JBool b) = b"
| "js_truthy (JNumber n) = (n \<noteq> 0)"
| "js_truthy JNotFinite = True"
| "js_truthy (JString s) = (s \<noteq> [])"
| "js_truthy JObject = True"

datatype AutoLockOption = Minutes nat | Never

definition GESTURE_MIN_POINT_COUNT :: nat where "GESTURE_MIN_POINT_COUNT = 4"
definition GESTURE_MAX_POINT_COUNT :: nat where "GESTURE_MAX_POINT_COUNT = 9"
definition DEFAULT_AUTO_LOCK_OPTION :: AutoLockOption where "DEFAULT_AUTO_LOCK_OPTION = Minutes 30"

definition AUTO_LOCK_OPTIONS :: "AutoLockOption list" where
  "AUTO_LOCK_OPTIONS = [Minutes 5, Minutes 10, Minutes 30, Minutes 60, Never]"

record AppLockConfig =
  initialized :: bool
  enabled :: bool
  gestureHash :: "string option"
  gestureSalt :: "string option"
  autoLockOption :: AutoLockOption
  lastInteractionAt :: "int option"
  lastUnlockedAt :: "int option"

record StoredAppLockConfig =
  s_initialized :: js_value
  s_enabled :: js_value
  s_gestureHash :: js_value
  s_gestureSalt :: js_value
  s_autoLockOption :: js_value
  s_lastInteractionAt :: js_value
  s_lastUnlockedAt :: js_value

definition DEFAULT_APP_LOCK_CONFIG :: AppLockConfig where
  "DEFAULT_APP_LOCK_CONFIG = \<lparr>initialized = False, enabled = False, gestureHash = None,
     gestureSalt = None, autoLockOption = DEFAULT_AUTO_LOCK_OPTION,
     lastInteractionAt = None, lastUnlockedAt = None\<rparr>"

fun isAutoLockOption :: "js_value \<Rightarrow> AutoLockOption option" where
  "isAutoLockOption (JNumber n) =
     (if n = 5 \<or> n = 10 \<or> n = 30 \<or> n = 60 then Some (Minutes (nat n)) else None)"
| "isAutoLockOption (JString s) = (if s = ''never'' then Some Never else None)"
| "isAutoLockOption _ = None"

fun string_or_undefined :: "js_value \<Rightarrow> string option" where
  "string_or_undefined (JString s) = Some s"
| "string_or_undefined _ = None"

fun normalizeTimestamp :: "js_value \<Rightarrow> int option" where
  "normalizeTimestamp (JNumber n) = Some n"
| "normalizeTimestamp _ = None"

definition normalizeAppLockConfig :: "StoredAppLockConfig option \<Rightarrow> AppLockConfig" where
  "normalizeAppLockConfig stored = (case stored of
     None \<Rightarrow> DEFAULT_APP_LOCK_CONFIG
   | Some c \<Rightarrow>
       \<lparr>initialized = js_truthy (s_initialized c),
        enabled = (js_truthy (s_enabled c) \<and> js_truthy (s_gestureHash c) \<and> js_truthy (s_gestureSalt c)),
        gestureHash = string_or_undefined (s_gestureHash c),
        gestureSalt = string_or_undefined (s_gestureSalt c),
        autoLockOption = (case isAutoLockOption (s_autoLockOption c) of
            Some a \<Rightarrow> a | None \<Rightarrow> DEFAULT_AUTO_LOCK_OPTION),
        lastInteractionAt = normalizeTimestamp (s_lastInteractionAt c),
        lastUnlockedAt = normalizeTimestamp (s_lastUnlockedAt c)\<rparr>)"

text \<open>What writing a configuration to storage as JSON and reading it back gives.\<close>

definition option_value :: "('a \<Rightarrow> js_value) \<Rightarrow> 'a option \<Rightarrow> js_value" where
  "option_value f x = (case x of None \<Rightarrow> JUndefined | Some v \<Rightarrow> f v)"

definition stored :: "AppLockConfig \<Rightarrow> StoredAppLockConfig" where
  "stored c = \<lparr>s_initialized = JBool (initialized c), s_enabled = JBool (enabled c),
     s_gestureHash = option_value JString (gestureHash c),
     s_gestureSalt = option_value JString (gestureSalt c),
     s_autoLockOption = (case autoLockOption c of Minutes n \<Rightarrow> JNumber (int n) | Never \<Rightarrow> JString ''never''),
     s_lastInteractionAt = option_value JNumber (lastInteractionAt c),
     s_lastUnlockedAt = option_value JNumber (lastUnlockedAt c)\<rparr>"

section \<open>Locking and gestures\<close>

text \<open>\<open>lastInteractionAt ?? lastUnlockedAt\<close>; a timestamp 0 counts as absent (\<open>!value\<close>).\<close>

definition shouldLockForInactivity :: "AppLockConfig \<Rightarrow> int \<Rightarrow> bool" where
  "shouldLockForInactivity config now =
     (if \<not> enabled config then False
      else case autoLockOption config of
        Never \<Rightarrow> False
      | Minutes m \<Rightarrow>
          (case (case lastInteractionAt config of None \<Rightarrow> lastUnlockedAt config | Some t \<Rightarrow> Some t) of
             None \<Rightarrow> False
           | Some t \<Rightarrow> if t = 0 then False else now - t \<ge> int m * 60000))"

type_synonym gesture = "nat list"

definition isValidGesture :: "gesture \<Rightarrow> bool" where
  "isValidGesture g \<longleftrightarrow> card (set g) = length g \<and> length g \<ge> GESTURE_MIN_POINT_COUNT \<and>
     length g \<le> GESTURE_MAX_POINT_COUNT"

text \<open>The decimal text of a number and \<open>Array.join("-")\<close>.\<close>

definition digit :: "nat \<Rightarrow> char" where "digit n = ''0123456789'' ! n"

fun decimal :: "nat \<Rightarrow> string" where
  "decimal n = (if n < 10 then [digit n] else decimal (n div 10) @ [digit (n mod 10)])"

declare decimal.simps [simp del]

fun serializeGesture :: "gesture \<Rightarrow> string" where
  "serializeGesture [] = []"
| "serializeGesture [n] = decimal n"
| "serializeGesture (n # ns) = decimal n @ ''-'' @ serializeGesture ns"

text \<open>The code units of an ASCII text.\<close>

definition units :: "string \<Rightarrow> js_string" where
  "units s = map (\<lambda>c. word_of_nat (of_char c)) s"

definition hashGesture :: "gesture \<Rightarrow> string \<Rightarrow> string" where
  "hashGesture g salt = createHmacSha256Base64Url (units salt) (units (serializeGesture g))"

definition createSalt :: "byte list \<Rightarrow> string" where
  "createSalt random = hexEncode (take 16 random)"

definition createGestureSecret :: "byte list \<Rightarrow> gesture \<Rightarrow> string \<times> string" where
  "createGestureSecret random g = (let salt = createSalt random in (hashGesture g salt, salt))"

definition verifyGesture :: "gesture \<Rightarrow> AppLockConfig \<Rightarrow> bool" where
  "verifyGesture g config = (case (gestureHash config, gestureSalt config) of
     (Some h, Some salt) \<Rightarrow> if h = [] \<or> salt = [] then False else hashGesture g salt = h
   | _ \<Rightarrow> False)"

section \<open>The text of a gesture\<close>

lemma digit_eq: "m < 10 \<Longrightarrow> n < 10 \<Longrightarrow> digit m = digit n \<longleftrightarrow> m = n"
proof -
  assume "m < 10" "n < 10"
  moreover have "distinct ''0123456789''" by simp
  ultimately show ?thesis unfolding digit_def by (subst nth_eq_iff_index_eq) simp_all
qed

lemma digit_not_dash: "n < 10 \<Longrightarrow> digit n \<noteq> CHR ''-''"
proof -
  assume "n < 10"
  then have "digit n \<in> set ''0123456789''" unfolding digit_def by (intro nth_mem) simp
  then show ?thesis by auto
qed

lemma decimal_no_dash: "CHR ''-'' \<notin> set (decimal n)"
proof (induction n rule: decimal.induct)
  case (1 n)
  show ?case
  proof (cases "n < 10")
    case True
    then show ?thesis using digit_not_dash [of n] by (subst decimal.simps) auto
  next
    case False
    have "digit (n mod 10) \<noteq> CHR ''-''" by (rule digit_not_dash) simp
    with 1 [OF False] False show ?thesis by (subst decimal.simps) auto
  qed
qed

lemma decimal_nonempty: "decimal n \<noteq> []"
  by (subst decimal.simps) simp

lemma decimal_inj: "decimal m = decimal n \<Longrightarrow> m = n"
proof (induction m arbitrary: n rule: decimal.induct)
  case (1 m)
  have steps: "decimal k = (if k < 10 then [digit k] else decimal (k div 10) @ [digit (k mod 10)])" for k
    by (rule decimal.simps)
  show ?case
  proof (cases "m < 10")
    case True
    show ?thesis
    proof (cases "n < 10")
      case True
      with 1(2) \<open>m < 10\<close> show ?thesis by (simp add: steps [of m] steps [of n] digit_eq)
    next
      case False
      with 1(2) \<open>m < 10\<close> decimal_nonempty [of "n div 10"] show ?thesis
        by (simp add: steps [of m] steps [of n])
    qed
  next
    case False
    show ?thesis
    proof (cases "n < 10")
      case True
      with 1(2) False decimal_nonempty [of "m div 10"] show ?thesis
        by (simp add: steps [of m] steps [of n])
    next
      case n: False
      from 1(2) False n have "decimal (m div 10) = decimal (n div 10)" "digit (m mod 10) = digit (n mod 10)"
        by (simp_all add: steps [of m] steps [of n])
      then have "m div 10 = n div 10" "m mod 10 = n mod 10"
        using 1(1) [OF False] by (simp_all add: digit_eq)
      then show ?thesis by (metis div_mult_mod_eq)
    qed
  qed
qed

lemma serialize_cons: "ns \<noteq> [] \<Longrightarrow> serializeGesture (n # ns) = decimal n @ CHR ''-'' # serializeGesture ns"
  by (cases ns) simp_all

lemma dash_split:
  "CHR ''-'' \<notin> set a \<Longrightarrow> CHR ''-'' \<notin> set b \<Longrightarrow> a @ CHR ''-'' # x = b @ CHR ''-'' # y \<Longrightarrow> a = b \<and> x = y"
  by (induction a arbitrary: b) (auto simp: Cons_eq_append_conv append_eq_Cons_conv)

lemma serialize_nonempty: "ns \<noteq> [] \<Longrightarrow> serializeGesture ns \<noteq> []"
  by (induction ns rule: serializeGesture.induct) (auto simp: decimal_nonempty)

lemma serializeGesture_inj: "serializeGesture xs = serializeGesture ys \<Longrightarrow> xs = ys"
proof (induction xs arbitrary: ys)
  case Nil
  then show ?case using serialize_nonempty [of ys] by auto
next
  case (Cons x xs)
  then have "ys \<noteq> []" using serialize_nonempty [of "x # xs"] by auto
  then obtain y ys' where ys: "ys = y # ys'" by (cases ys) auto
  have one: "CHR ''-'' \<in> set (serializeGesture (z # zs)) \<longleftrightarrow> zs \<noteq> []" for z zs
    by (cases "zs = []") (auto simp: serialize_cons decimal_no_dash)
  have "xs = [] \<longleftrightarrow> ys' = []" using one [of x xs] one [of y ys'] Cons.prems ys by auto
  then show ?case
  proof (cases "xs = []")
    case True
    with \<open>xs = [] \<longleftrightarrow> ys' = []\<close> Cons.prems ys show ?thesis by (simp add: decimal_inj)
  next
    case False
    with \<open>xs = [] \<longleftrightarrow> ys' = []\<close> have ne: "ys' \<noteq> []" by simp
    have "decimal x @ CHR ''-'' # serializeGesture xs = decimal y @ CHR ''-'' # serializeGesture ys'"
      using Cons.prems ys False ne by (simp add: serialize_cons)
    then have "decimal x = decimal y \<and> serializeGesture xs = serializeGesture ys'"
      by (rule dash_split [OF decimal_no_dash decimal_no_dash])
    with Cons.IH decimal_inj ys show ?thesis by blast
  qed
qed

lemma units_inj: "units s = units t \<Longrightarrow> s = t"
proof -
  assume "units s = units t"
  moreover have "inj (\<lambda>c :: char. word_of_nat (of_char c) :: 16 word)"
  proof (rule injI)
    fix c d :: char
    assume "(word_of_nat (of_char c) :: 16 word) = word_of_nat (of_char d)"
    then have "unat (word_of_nat (of_char c) :: 16 word) = unat (word_of_nat (of_char d) :: 16 word)" by simp
    moreover have "(of_char e :: nat) < 256" for e :: char by simp
    then have "(of_char e :: nat) < 65536" for e :: char by (rule less_le_trans) simp
    ultimately have "(of_char c :: nat) = of_char d" by (simp add: unat_of_nat)
    then show "c = d" by simp
  qed
  ultimately show ?thesis by (simp add: units_def inj_map_eq_map)
qed

lemma hashGesture_nonempty: "hashGesture g salt \<noteq> []"
proof -
  have "length (hashGesture g salt) = 43"
    by (simp add: hashGesture_def createHmacSha256Base64Url_def Let_def base64UrlEncode_length sha256_length)
  then show ?thesis by auto
qed

section \<open>Properties\<close>

text \<open>
  A gesture set with 16 random bytes is the one that unlocks: it verifies against the
  secret made from it, and any other gesture that verifies gives two byte strings with the
  same SHA-256 digest.
\<close>

theorem gesture_unlocks_only_itself:
  assumes "createGestureSecret random g = (h, salt)" and "length random \<ge> 16"
    and "gestureHash config = Some h" and "gestureSalt config = Some salt"
  shows "(verifyGesture g config)
    \<and> (verifyGesture g' config \<longrightarrow> g' = g \<or> (\<exists>x y. sha256_collision x y))"
proof -
  have h: "h = hashGesture g salt" and s: "salt = createSalt random"
    using assms(1) by (auto simp: createGestureSecret_def Let_def)
  have "length salt = 32" using assms(2) by (simp add: s createSalt_def hexEncode_length)
  then have ne: "salt \<noteq> []" "h \<noteq> []" using h hashGesture_nonempty by auto
  have self: "verifyGesture g config" using ne h assms(3,4) by (simp add: verifyGesture_def)
  have other: "g' = g \<or> (\<exists>x y. sha256_collision x y)" if "verifyGesture g' config"
  proof -
    from that have "hashGesture g' salt = hashGesture g salt" using assms(3,4) h ne by (simp add: verifyGesture_def)
    then have "units (serializeGesture g') = units (serializeGesture g) \<or> (\<exists>x y. sha256_collision x y)"
      unfolding hashGesture_def by (rule hmac_eq_cases)
    then show ?thesis using units_inj serializeGesture_inj by blast
  qed
  from self other show ?thesis by blast
qed

theorem gesture_unlocks_only_itself_witness:
  "verifyGesture [0, 1, 2, 5]
     (DEFAULT_APP_LOCK_CONFIG\<lparr>gestureHash := Some (hashGesture [0, 1, 2, 5] (createSalt (replicate 16 7))),
        gestureSalt := Some (createSalt (replicate 16 7))\<rparr>)"
  by (rule gesture_unlocks_only_itself [THEN conjunct1, of "replicate 16 7" "[0, 1, 2, 5]"
        "hashGesture [0, 1, 2, 5] (createSalt (replicate 16 7))" "createSalt (replicate 16 7)"])
    (simp_all add: createGestureSecret_def Let_def)

text \<open>
  \<open>normalizeAppLockConfig\<close> keeps every configuration it has produced: what it returns,
  stored and read back, is the same configuration; its option is always one of the offered
  ones; and when the stored hash and salt are texts, an enabled configuration has both, so
  that a gesture can unlock it.
\<close>

theorem normalize_stable:
  assumes "c = normalizeAppLockConfig s"
    and "\<And>v. s = Some v \<Longrightarrow> (\<exists>t. s_gestureHash v = JString t) \<and> (\<exists>t. s_gestureSalt v = JString t)"
  shows "(normalizeAppLockConfig (Some (stored c)) = c)
    \<and> (autoLockOption c \<in> set AUTO_LOCK_OPTIONS)
    \<and> (enabled c \<longrightarrow> (\<exists>h salt. gestureHash c = Some h \<and> h \<noteq> [] \<and> gestureSalt c = Some salt \<and> salt \<noteq> []))"
proof -
  have opt: "autoLockOption c \<in> set AUTO_LOCK_OPTIONS"
  proof (cases s)
    case None
    with assms(1) show ?thesis
      by (simp add: normalizeAppLockConfig_def DEFAULT_APP_LOCK_CONFIG_def AUTO_LOCK_OPTIONS_def
          DEFAULT_AUTO_LOCK_OPTION_def)
  next
    case (Some v)
    with assms(1) show ?thesis
      by (cases "s_autoLockOption v")
        (auto simp: normalizeAppLockConfig_def AUTO_LOCK_OPTIONS_def DEFAULT_AUTO_LOCK_OPTION_def)
  qed
  have en: "enabled c \<Longrightarrow> (\<exists>h salt. gestureHash c = Some h \<and> h \<noteq> [] \<and> gestureSalt c = Some salt \<and> salt \<noteq> [])"
    using assms by (cases s) (auto simp: normalizeAppLockConfig_def DEFAULT_APP_LOCK_CONFIG_def)
  have rt: "string_or_undefined (option_value JString x) = x" "normalizeTimestamp (option_value JNumber y) = y"
    for x y by (auto simp: option_value_def split: option.splits)
  have truthy: "enabled c \<Longrightarrow> js_truthy (option_value JString (gestureHash c)) \<and> js_truthy (option_value JString (gestureSalt c))"
    using en by (auto simp: option_value_def)
  have "normalizeAppLockConfig (Some (stored c)) = c"
    using opt truthy
    by (cases c) (auto simp: normalizeAppLockConfig_def stored_def rt AUTO_LOCK_OPTIONS_def split: option.splits)
  with opt en show ?thesis by blast
qed

theorem normalize_stable_witness:
  "normalizeAppLockConfig (Some (stored (normalizeAppLockConfig None))) = DEFAULT_APP_LOCK_CONFIG"
  using normalize_stable [of "normalizeAppLockConfig None" None]
  by (simp add: normalizeAppLockConfig_def)

text \<open>
  A lock that is not armed (disabled or set to never) stays open for ever; an armed one
  that has seen an interaction closes exactly when the chosen number of minutes has passed
  since the last interaction, or since the last unlock when there was none.
\<close>

theorem inactivity_lock:
  assumes "lastInteractionAt config = Some t \<or> (lastInteractionAt config = None \<and> lastUnlockedAt config = Some t)"
    and "t > 0"
  shows "shouldLockForInactivity config now \<longleftrightarrow>
    enabled config \<and> (\<exists>m. autoLockOption config = Minutes m \<and> t + int m * 60000 \<le> now)"
  using assms by (auto simp: shouldLockForInactivity_def split: AutoLockOption.splits)

theorem inactivity_lock_witness:
  "shouldLockForInactivity (DEFAULT_APP_LOCK_CONFIG\<lparr>enabled := True, lastUnlockedAt := Some 1000\<rparr>) 1801000
   \<and> \<not> shouldLockForInactivity (DEFAULT_APP_LOCK_CONFIG\<lparr>enabled := True, lastUnlockedAt := Some 1000\<rparr>) 1800999"
  using inactivity_lock [of "DEFAULT_APP_LOCK_CONFIG\<lparr>enabled := True, lastUnlockedAt := Some 1000\<rparr>" 1000]
  by (simp add: DEFAULT_APP_LOCK_CONFIG_def DEFAULT_AUTO_LOCK_OPTION_def)
end
