(* ===== verification/Orchestrator.thy ===== *)
theory Orchestrator
  imports Digest "HOL-Library.Sublist"
begin

text \<open>
  The relay's upgrade orchestrator, \<open>relay/server/src/upgrade/orchestrator.ts\<close>: who is
  invited to a direct connection, when, and what is remembered of the attempts.

  The state is the object's private fields. \<open>sessionTimers\<close> holds, under the key of the
  pending timer, what its callback has captured; a timer that is not in the map has been
  cleared or has fired. The clock (\<open>now\<close>), the random upgrade id (\<open>uid\<close>) and the result of
  \<open>getAgent\<close> are arguments of the operations. Messages handed to \<open>send\<close> are appended to
  \<open>sent\<close>. Reasons used as keys of the metric records are assumed not to be names that
  every JavaScript object inherits.
\<close>

declare map_of_eq_Some_iff [simp del] Some_eq_map_of_iff [simp del]

section \<open>Data\<close>

datatype TransportPreference = Auto | Relay_only | Prefer_p2p

record conn =
  conn_id :: string
  conn_preference :: "TransportPreference option"

record config =
  cfg_enabled :: bool
  rolloutPercent :: int
  deviceBlocklist :: "string set"
  iceServers :: "string list"
  proposeDelayMs :: int
  respectClientPreference :: bool

record backoff_entry =
  failures :: nat
  nextAvailableAt :: int

record in_flight =
  f_device :: string
  f_app :: string
  f_mobile :: string
  f_agent :: string
  startedAt :: int
  committedCount :: nat

record session_timer =
  t_device :: string
  t_mobile :: conn
  t_preference :: TransportPreference

datatype propose_role = R_offerer | R_answerer

datatype envelope =
    E_Propose (e_device: string) (e_upgrade: string) (e_app: string) (e_ice: "string list")
      (e_role: propose_role) (e_strict: bool)
  | E_Downgrade (e_device: string) (e_upgrade: string) (e_app: string) (e_reason: string)

record pref_counts =
  n_auto :: nat
  n_relay_only :: nat
  n_prefer_p2p :: nat

record orch =
  sessionTimers :: "(string, session_timer) jmap"
  backoffByApp :: "(string, backoff_entry) jmap"
  inFlightUpgrades :: "(string, in_flight) jmap"
  activeP2pApps :: "string jset"
  upgradeSessionDurations :: "int list"
  m_proposed :: nat
  m_committed :: nat
  m_failed :: "(string, nat) jmap"
  m_downgrade :: "(string, nat) jmap"
  m_prefs :: pref_counts
  m_skipped_by_pref :: nat
  sent :: "(conn \<times> envelope) list"

definition UPGRADE_DURATION_WINDOW :: nat where "UPGRADE_DURATION_WINDOW = 100"

definition MAX_SAFE_INTEGER :: int where "MAX_SAFE_INTEGER = 9007199254740991"

definition BACKOFF_EXEMPT_REASONS :: "string set" where
  "BACKOFF_EXEMPT_REASONS = {''app_background'', ''foreground_resume'', ''network_changed'', ''client_closing''}"

definition new_orch :: orch where
  "new_orch = \<lparr>sessionTimers = [], backoffByApp = [], inFlightUpgrades = [], activeP2pApps = [],
     upgradeSessionDurations = [], m_proposed = 0, m_committed = 0, m_failed = [], m_downgrade = [],
     m_prefs = \<lparr>n_auto = 0, n_relay_only = 0, n_prefer_p2p = 0\<rparr>, m_skipped_by_pref = 0, sent = []\<rparr>"

section \<open>Helpers of the module\<close>

definition appRouteKey :: "string \<Rightarrow> string \<Rightarrow> string" where
  "appRouteKey deviceId mobileConnectionId = deviceId @ ''|'' @ mobileConnectionId"

text \<open>\<open>readUInt32BE(0) % 100\<close> of the SHA-1 digest of the device id.\<close>

definition rollout_bucket :: "string \<Rightarrow> int" where
  "rollout_bucket deviceId =
     uint (get_u32 (take 4 (sha1 (utf8Bytes (map (\<lambda>c. word_of_nat (of_char c)) deviceId))))) mod 100"

definition shouldRollout :: "string \<Rightarrow> int \<Rightarrow> bool" where
  "shouldRollout deviceId percent =
     (if percent \<le> 0 then False else if percent \<ge> 100 then True else rollout_bucket deviceId < percent)"

text \<open>\<open>record[key] = (record[key] ?? 0) + 1\<close>.\<close>

definition bump :: "string \<Rightarrow> (string, nat) jmap \<Rightarrow> (string, nat) jmap" where
  "bump k m = jput k ((case jget m k of None \<Rightarrow> 0 | Some n \<Rightarrow> n) + 1) m"

definition percentile :: "int list \<Rightarrow> rat \<Rightarrow> int" where
  "percentile xs q =
     (if length xs = 0 then 0
      else if length xs = 1 then xs ! 0
      else let clamped = min 1 (max 0 q);
               index = min (int (length xs) - 1) (max 0 (\<lceil>clamped * of_nat (length xs)\<rceil> - 1))
           in xs ! nat index)"

record duration_stats =
  st_count :: nat
  p50_ms :: int
  p95_ms :: int
  max_ms :: int

definition computeDurationStats :: "orch \<Rightarrow> duration_stats" where
  "computeDurationStats s =
     (let samples = upgradeSessionDurations s in
      if length samples = 0 then \<lparr>st_count = 0, p50_ms = 0, p95_ms = 0, max_ms = 0\<rparr>
      else let sorted = sort samples in
        \<lparr>st_count = length sorted, p50_ms = percentile sorted (1/2), p95_ms = percentile sorted (95/100),
         max_ms = sorted ! (length sorted - 1)\<rparr>)"

definition recordDuration :: "int \<Rightarrow> orch \<Rightarrow> orch" where
  "recordDuration durationMs s =
     (if durationMs < 0 then s
      else let ds = upgradeSessionDurations s @ [durationMs] in
        s\<lparr>upgradeSessionDurations := (if length ds > UPGRADE_DURATION_WINDOW then tl ds else ds)\<rparr>)"

definition resolvePreference :: "config \<Rightarrow> conn \<Rightarrow> TransportPreference" where
  "resolvePreference cfg mobile =
     (if \<not> respectClientPreference cfg then Auto
      else case conn_preference mobile of None \<Rightarrow> Auto | Some p \<Rightarrow> p)"

definition hasInFlightForApp :: "string \<Rightarrow> string \<Rightarrow> orch \<Rightarrow> bool" where
  "hasInFlightForApp deviceId appConnectionId s =
     list_ex (\<lambda>(u, e). f_device e = deviceId \<and> f_app e = appConnectionId) (inFlightUpgrades s)"

definition backing_off :: "string \<Rightarrow> int \<Rightarrow> orch \<Rightarrow> bool" where
  "backing_off appKey now s =
     (case jget (backoffByApp s) appKey of None \<Rightarrow> False | Some b \<Rightarrow> nextAvailableAt b > now)"

section \<open>Operations\<close>

definition send :: "conn \<Rightarrow> envelope \<Rightarrow> orch \<Rightarrow> orch" where
  "send c e s = s\<lparr>sent := sent s @ [(c, e)]\<rparr>"

definition notifyStrictUnavailable ::
  "string \<Rightarrow> string \<Rightarrow> conn \<Rightarrow> TransportPreference \<Rightarrow> string \<Rightarrow> orch \<Rightarrow> orch" where
  "notifyStrictUnavailable uid deviceId mobile preference cause s =
     (if preference \<noteq> Prefer_p2p then s
      else let key = ''strict_unavailable:'' @ cause;
               s = send mobile (E_Downgrade deviceId uid (conn_id mobile) key) s
           in s\<lparr>m_downgrade := bump key (m_downgrade s)\<rparr>)"

definition triggerUpgrade ::
  "config \<Rightarrow> string \<Rightarrow> int \<Rightarrow> string \<Rightarrow> conn \<Rightarrow> conn \<Rightarrow> bool \<Rightarrow> orch \<Rightarrow> orch" where
  "triggerUpgrade cfg uid now deviceId mobile agent strict s =
     (let s = send mobile (E_Propose deviceId uid (conn_id mobile) (iceServers cfg) R_offerer strict) s;
          s = send agent (E_Propose deviceId uid (conn_id mobile) (iceServers cfg) R_answerer strict) s
      in s\<lparr>inFlightUpgrades := jput uid
              \<lparr>f_device = deviceId, f_app = conn_id mobile, f_mobile = conn_id mobile,
               f_agent = conn_id agent, startedAt = now, committedCount = 0\<rparr> (inFlightUpgrades s),
           m_proposed := m_proposed s + 1\<rparr>)"

definition count_pref :: "TransportPreference \<Rightarrow> pref_counts \<Rightarrow> pref_counts" where
  "count_pref p c = (case p of
     Auto \<Rightarrow> c\<lparr>n_auto := n_auto c + 1\<rparr>
   | Relay_only \<Rightarrow> c\<lparr>n_relay_only := n_relay_only c + 1\<rparr>
   | Prefer_p2p \<Rightarrow> c\<lparr>n_prefer_p2p := n_prefer_p2p c + 1\<rparr>)"

definition notifyMobileAuthenticated :: "config \<Rightarrow> string \<Rightarrow> int \<Rightarrow> string \<Rightarrow> conn \<Rightarrow> orch \<Rightarrow> orch" where
  "notifyMobileAuthenticated cfg uid now deviceId mobile s =
     (let preference = resolvePreference cfg mobile;
          s = s\<lparr>m_prefs := count_pref preference (m_prefs s)\<rparr>
      in
      if \<not> cfg_enabled cfg then
        notifyStrictUnavailable uid deviceId mobile preference ''relay_disabled'' s
      else if deviceId \<in> deviceBlocklist cfg then
        notifyStrictUnavailable uid deviceId mobile preference ''blocklisted'' s
      else if preference = Relay_only then s\<lparr>m_skipped_by_pref := m_skipped_by_pref s + 1\<rparr>
      else if preference \<noteq> Prefer_p2p \<and> \<not> shouldRollout deviceId (rolloutPercent cfg) then s
      else let appKey = appRouteKey deviceId (conn_id mobile) in
        if backing_off appKey now s then
          notifyStrictUnavailable uid deviceId mobile preference ''backoff_active'' s
        else s\<lparr>sessionTimers := jput appKey
               \<lparr>t_device = deviceId, t_mobile = mobile, t_preference = preference\<rparr> (sessionTimers s)\<rparr>)"

text \<open>
  The callback of the timer under \<open>key\<close>; \<open>agent\<close> is what \<open>getAgent\<close> returns for its device.
\<close>

definition timer_fired :: "config \<Rightarrow> string \<Rightarrow> int \<Rightarrow> string \<Rightarrow> conn option \<Rightarrow> orch \<Rightarrow> orch" where
  "timer_fired cfg uid now key agent s =
     (case jget (sessionTimers s) key of
        None \<Rightarrow> s
      | Some t \<Rightarrow>
          let s = s\<lparr>sessionTimers := jdel key (sessionTimers s)\<rparr> in
          (case agent of
             None \<Rightarrow> s
           | Some a \<Rightarrow>
               if backing_off key now s then s
               else triggerUpgrade cfg uid now (t_device t) (t_mobile t) a (t_preference t = Prefer_p2p) s))"

definition notifyMobileDisconnected :: "string \<Rightarrow> conn \<Rightarrow> orch \<Rightarrow> orch" where
  "notifyMobileDisconnected deviceId mobile s =
     (let key = appRouteKey deviceId (conn_id mobile) in
      s\<lparr>sessionTimers := jdel key (sessionTimers s),
        inFlightUpgrades := filter (\<lambda>(u, e). \<not> (f_device e = deviceId \<and> f_mobile e = conn_id mobile)) (inFlightUpgrades s),
        activeP2pApps := jset_del key (activeP2pApps s)\<rparr>)"

definition notifyAgentDisconnected :: "string \<Rightarrow> orch \<Rightarrow> orch" where
  "notifyAgentDisconnected deviceId s =
     (let pre = deviceId @ ''|'' in
      s\<lparr>inFlightUpgrades := filter (\<lambda>(u, e). f_device e \<noteq> deviceId) (inFlightUpgrades s),
        sessionTimers := filter (\<lambda>(k, t). \<not> prefix pre k) (sessionTimers s),
        activeP2pApps := filter (\<lambda>k. \<not> prefix pre k) (activeP2pApps s)\<rparr>)"

text \<open>The returned upgrade id is \<open>uid\<close> when the upgrade was triggered, else \<open>null\<close>.\<close>

definition handleConnectivityChanged ::
  "config \<Rightarrow> string \<Rightarrow> int \<Rightarrow> string \<Rightarrow> conn \<Rightarrow> conn option \<Rightarrow> orch \<Rightarrow> orch \<times> string option" where
  "handleConnectivityChanged cfg uid now deviceId mobile agent s =
     (let preference = resolvePreference cfg mobile;
          appKey = appRouteKey deviceId (conn_id mobile);
          s = s\<lparr>backoffByApp := jdel appKey (backoffByApp s), activeP2pApps := jset_del appKey (activeP2pApps s)\<rparr>
      in
      if \<not> cfg_enabled cfg then
        (notifyStrictUnavailable uid deviceId mobile preference ''relay_disabled'' s, None)
      else if deviceId \<in> deviceBlocklist cfg then
        (notifyStrictUnavailable uid deviceId mobile preference ''blocklisted'' s, None)
      else if preference = Relay_only then (s, None)
      else if preference \<noteq> Prefer_p2p \<and> \<not> shouldRollout deviceId (rolloutPercent cfg) then (s, None)
      else if hasInFlightForApp deviceId (conn_id mobile) s then (s, None)
      else case agent of
          None \<Rightarrow> (s, None)
        | Some a \<Rightarrow> (triggerUpgrade cfg uid now deviceId mobile a (preference = Prefer_p2p) s, Some uid))"

definition backoff_until :: "nat \<Rightarrow> int \<Rightarrow> int" where
  "backoff_until n now =
     (if n = 1 then now + 30000 else if n = 2 then now + 120000
      else if n = 3 then now + 600000 else MAX_SAFE_INTEGER)"

definition recordFailure :: "int \<Rightarrow> string \<Rightarrow> string \<Rightarrow> string option \<Rightarrow> orch \<Rightarrow> orch" where
  "recordFailure now deviceId reason appConnectionId s =
     (let s = s\<lparr>m_failed := bump reason (m_failed s)\<rparr>;
          key = appRouteKey deviceId (case appConnectionId of None \<Rightarrow> ''*'' | Some a \<Rightarrow> a);
          entry = (case jget (backoffByApp s) key of None \<Rightarrow> \<lparr>failures = 0, nextAvailableAt = 0\<rparr> | Some e \<Rightarrow> e);
          n = failures entry + 1
      in s\<lparr>backoffByApp := jput key \<lparr>failures = n, nextAvailableAt = backoff_until n now\<rparr> (backoffByApp s)\<rparr>)"

text \<open>The fields \<open>handleControlMessage\<close> reads of a message.\<close>

datatype control_message =
    C_Committed (c_upgrade: "string option")
  | C_Downgrade (c_device: "string option") (c_upgrade: "string option") (c_app: "string option")
      (c_reason: "string option")
  | C_Other string

text \<open>A JavaScript string is falsy when it is missing or empty.\<close>

definition given :: "string option \<Rightarrow> bool" where
  "given x \<longleftrightarrow> x \<noteq> None \<and> x \<noteq> Some []"

definition handle_committed :: "int \<Rightarrow> string option \<Rightarrow> orch \<Rightarrow> orch" where
  "handle_committed now upgradeId s =
     (if \<not> given upgradeId then s
      else let uid = the upgradeId; s = s\<lparr>m_committed := m_committed s + 1\<rparr> in
        (case jget (inFlightUpgrades s) uid of
           None \<Rightarrow> s
         | Some e \<Rightarrow>
             let e = e\<lparr>committedCount := committedCount e + 1\<rparr>;
                 s = s\<lparr>inFlightUpgrades := jput uid e (inFlightUpgrades s)\<rparr>
             in if committedCount e \<ge> 2 then
                  let s = recordDuration (now - startedAt e) s;
                      key = appRouteKey (f_device e) (f_app e)
                  in s\<lparr>activeP2pApps := jset_add key (activeP2pApps s),
                       inFlightUpgrades := jdel uid (inFlightUpgrades s),
                       backoffByApp := jdel key (backoffByApp s)\<rparr>
                else s))"

definition handle_downgrade ::
  "int \<Rightarrow> string option \<Rightarrow> string option \<Rightarrow> string option \<Rightarrow> string option \<Rightarrow> orch \<Rightarrow> orch" where
  "handle_downgrade now msg_device upgradeId app reason_opt s =
     (let reason = (case reason_opt of None \<Rightarrow> ''unknown'' | Some r \<Rightarrow> r);
          entry = (if given upgradeId then jget (inFlightUpgrades s) (the upgradeId) else None);
          deviceId = (case entry of Some e \<Rightarrow> Some (f_device e) | None \<Rightarrow> msg_device);
          s = (case entry of
                 Some _ \<Rightarrow> s\<lparr>inFlightUpgrades := jdel (the upgradeId) (inFlightUpgrades s)\<rparr> | None \<Rightarrow> s);
          s = s\<lparr>m_downgrade := bump reason (m_downgrade s)\<rparr>
      in if given deviceId then
           let s = (if given app
                    then s\<lparr>activeP2pApps := jset_del (appRouteKey (the deviceId) (the app)) (activeP2pApps s)\<rparr> else s)
           in if reason \<in> BACKOFF_EXEMPT_REASONS then s else recordFailure now (the deviceId) reason app s
         else s)"

definition handleControlMessage :: "int \<Rightarrow> control_message \<Rightarrow> orch \<Rightarrow> orch" where
  "handleControlMessage now m s = (case m of
     C_Committed u \<Rightarrow> handle_committed now u s
   | C_Downgrade d u a r \<Rightarrow> handle_downgrade now d u a r s
   | C_Other _ \<Rightarrow> s)"

record metrics_snapshot =
  x_proposed :: nat
  x_committed :: nat
  x_failed :: "(string, nat) jmap"
  x_downgrade :: "(string, nat) jmap"
  x_prefs :: pref_counts
  x_skipped_by_pref :: nat
  x_in_flight :: nat
  x_active_p2p :: nat
  x_durations :: duration_stats

definition getMetrics :: "orch \<Rightarrow> metrics_snapshot" where
  "getMetrics s = \<lparr>x_proposed = m_proposed s, x_committed = m_committed s, x_failed = m_failed s,
     x_downgrade = m_downgrade s, x_prefs = m_prefs s, x_skipped_by_pref = m_skipped_by_pref s,
     x_in_flight = length (inFlightUpgrades s), x_active_p2p = length (activeP2pApps s),
     x_durations = computeDurationStats s\<rparr>"

definition dispose :: "orch \<Rightarrow> orch" where
  "dispose s = s\<lparr>sessionTimers := [], inFlightUpgrades := [], activeP2pApps := []\<rparr>"

section \<open>Runs\<close>

text \<open>
  The calls the relay server makes, with the clock, the fresh id and the agent found. \<open>Trigger\<close>
  is the \<open>/debug/upgrade\<close> entry.
\<close>

datatype orch_event =
    MobileAuthenticated string int string conn
  | TimerFired string int string "conn option"
  | MobileDisconnected string conn
  | AgentDisconnected string
  | ConnectivityChanged string int string conn "conn option"
  | Control int control_message
  | Trigger string int string conn conn
  | Dispose

fun orch_step :: "config \<Rightarrow> orch_event \<Rightarrow> orch \<Rightarrow> orch" where
  "orch_step cfg (MobileAuthenticated uid now d m) s = notifyMobileAuthenticated cfg uid now d m s"
| "orch_step cfg (TimerFired uid now key agent) s = timer_fired cfg uid now key agent s"
| "orch_step cfg (MobileDisconnected d m) s = notifyMobileDisconnected d m s"
| "orch_step cfg (AgentDisconnected d) s = notifyAgentDisconnected d s"
| "orch_step cfg (ConnectivityChanged uid now d m agent) s = fst (handleConnectivityChanged cfg uid now d m agent s)"
| "orch_step cfg (Control now msg) s = handleControlMessage now msg s"
| "orch_step cfg (Trigger uid now d m agent) s = triggerUpgrade cfg uid now d m agent False s"
| "orch_step cfg Dispose s = dispose s"

section \<open>The invariant\<close>

text \<open>Who may be invited: the guards of \<open>notifyMobileAuthenticated\<close> in one predicate.\<close>

definition eligible :: "config \<Rightarrow> string \<Rightarrow> conn \<Rightarrow> bool" where
  "eligible cfg deviceId mobile \<longleftrightarrow> cfg_enabled cfg \<and> deviceId \<notin> deviceBlocklist cfg \<and>
     resolvePreference cfg mobile \<noteq> Relay_only \<and>
     (resolvePreference cfg mobile = Prefer_p2p \<or> shouldRollout deviceId (rolloutPercent cfg))"

definition timer_ok :: "config \<Rightarrow> string \<Rightarrow> session_timer \<Rightarrow> bool" where
  "timer_ok cfg key t \<longleftrightarrow> key = appRouteKey (t_device t) (conn_id (t_mobile t)) \<and>
     t_preference t = resolvePreference cfg (t_mobile t) \<and> eligible cfg (t_device t) (t_mobile t)"

definition flight_ok :: "in_flight \<Rightarrow> bool" where
  "flight_ok e \<longleftrightarrow> committedCount e \<le> 1 \<and> f_mobile e = f_app e"

definition backoff_ok :: "backoff_entry \<Rightarrow> bool" where
  "backoff_ok b \<longleftrightarrow> failures b \<ge> 1 \<and> (failures b \<ge> 4 \<longrightarrow> nextAvailableAt b = MAX_SAFE_INTEGER)"

definition orch_inv :: "config \<Rightarrow> orch \<Rightarrow> bool" where
  "orch_inv cfg s \<longleftrightarrow>
     jwf (sessionTimers s) \<and> jwf (inFlightUpgrades s) \<and> distinct (activeP2pApps s) \<and>
     length (upgradeSessionDurations s) \<le> UPGRADE_DURATION_WINDOW \<and>
     (\<forall>d \<in> set (upgradeSessionDurations s). d \<ge> 0) \<and>
     (\<forall>k t. jget (sessionTimers s) k = Some t \<longrightarrow> timer_ok cfg k t) \<and>
     (\<forall>u e. jget (inFlightUpgrades s) u = Some e \<longrightarrow> flight_ok e) \<and>
     (\<forall>k b. jget (backoffByApp s) k = Some b \<longrightarrow> backoff_ok b)"

lemma inv_new: "orch_inv cfg new_orch"
  by (simp add: orch_inv_def new_orch_def)

text \<open>What the invariant does not look at.\<close>

lemma inv_irrelevant [simp]:
  "orch_inv cfg (s\<lparr>m_prefs := a\<rparr>) = orch_inv cfg s"
  "orch_inv cfg (s\<lparr>m_skipped_by_pref := b\<rparr>) = orch_inv cfg s"
  "orch_inv cfg (s\<lparr>m_downgrade := c\<rparr>) = orch_inv cfg s"
  "orch_inv cfg (s\<lparr>m_failed := c\<rparr>) = orch_inv cfg s"
  "orch_inv cfg (s\<lparr>m_committed := b\<rparr>) = orch_inv cfg s"
  "orch_inv cfg (s\<lparr>m_proposed := b\<rparr>) = orch_inv cfg s"
  "orch_inv cfg (s\<lparr>sent := d\<rparr>) = orch_inv cfg s"
  by (simp_all add: orch_inv_def)

text \<open>What keeps it.\<close>

lemma inv_timer_put:
  "orch_inv cfg s \<Longrightarrow> timer_ok cfg k t \<Longrightarrow> orch_inv cfg (s\<lparr>sessionTimers := jput k t (sessionTimers s)\<rparr>)"
  by (simp add: orch_inv_def)

lemma inv_timer_del: "orch_inv cfg s \<Longrightarrow> orch_inv cfg (s\<lparr>sessionTimers := jdel k (sessionTimers s)\<rparr>)"
  by (simp add: orch_inv_def)

lemma inv_timer_filter: "orch_inv cfg s \<Longrightarrow> orch_inv cfg (s\<lparr>sessionTimers := filter P (sessionTimers s)\<rparr>)"
  by (auto simp: orch_inv_def jget_filter split: option.splits if_splits)

lemma inv_flight_put:
  "orch_inv cfg s \<Longrightarrow> flight_ok e \<Longrightarrow> orch_inv cfg (s\<lparr>inFlightUpgrades := jput u e (inFlightUpgrades s)\<rparr>)"
  by (simp add: orch_inv_def)

lemma inv_flight_del: "orch_inv cfg s \<Longrightarrow> orch_inv cfg (s\<lparr>inFlightUpgrades := jdel u (inFlightUpgrades s)\<rparr>)"
  by (simp add: orch_inv_def)

lemma inv_flight_filter: "orch_inv cfg s \<Longrightarrow> orch_inv cfg (s\<lparr>inFlightUpgrades := filter P (inFlightUpgrades s)\<rparr>)"
  by (auto simp: orch_inv_def jget_filter split: option.splits if_splits)

lemma inv_active:
  "orch_inv cfg s \<Longrightarrow> distinct ks \<Longrightarrow> orch_inv cfg (s\<lparr>activeP2pApps := ks\<rparr>)"
  by (simp add: orch_inv_def)

lemma inv_active_distinct: "orch_inv cfg s \<Longrightarrow> distinct (activeP2pApps s)"
  by (simp add: orch_inv_def)

lemma inv_backoff_del: "orch_inv cfg s \<Longrightarrow> orch_inv cfg (s\<lparr>backoffByApp := jdel k (backoffByApp s)\<rparr>)"
  by (simp add: orch_inv_def)

lemma inv_backoff_put:
  "orch_inv cfg s \<Longrightarrow> backoff_ok b \<Longrightarrow> orch_inv cfg (s\<lparr>backoffByApp := jput k b (backoffByApp s)\<rparr>)"
  by (simp add: orch_inv_def)

lemmas inv_keep = inv_timer_put inv_timer_del inv_timer_filter inv_flight_put inv_flight_del
  inv_flight_filter inv_active inv_backoff_del inv_backoff_put

lemma inv_send [simp]: "orch_inv cfg (send c e s) = orch_inv cfg s"
  by (simp add: send_def)

lemma inv_strict [simp]: "orch_inv cfg (notifyStrictUnavailable uid d m p c s) = orch_inv cfg s"
  by (simp add: notifyStrictUnavailable_def Let_def)

lemma inv_trigger: "orch_inv cfg s \<Longrightarrow> orch_inv cfg (triggerUpgrade cfg uid now d m a strict s)"
  by (simp add: triggerUpgrade_def Let_def send_def orch_inv_def flight_ok_def)

lemma set_tl: "x \<in> set (tl xs) \<Longrightarrow> x \<in> set xs"
  by (cases xs) auto

lemma inv_duration: "orch_inv cfg s \<Longrightarrow> orch_inv cfg (recordDuration d s)"
  by (auto simp: recordDuration_def Let_def orch_inv_def UPGRADE_DURATION_WINDOW_def dest!: set_tl)

lemma inv_failure: "orch_inv cfg s \<Longrightarrow> orch_inv cfg (recordFailure now d r a s)"
  by (simp add: recordFailure_def Let_def orch_inv_def backoff_ok_def backoff_until_def)

lemma inv_authenticated: "orch_inv cfg s \<Longrightarrow> orch_inv cfg (notifyMobileAuthenticated cfg uid now d m s)"
  by (auto simp: notifyMobileAuthenticated_def Let_def timer_ok_def eligible_def
      intro!: inv_timer_put [where s = "s\<lparr>m_prefs := c\<rparr>" for c, simplified])

lemma inv_fired: "orch_inv cfg s \<Longrightarrow> orch_inv cfg (timer_fired cfg uid now key agent s)"
  by (auto simp: timer_fired_def Let_def split: option.splits intro!: inv_trigger inv_timer_del)

lemma inv_mobile_gone: "orch_inv cfg s \<Longrightarrow> orch_inv cfg (notifyMobileDisconnected d m s)"
  by (auto simp: notifyMobileDisconnected_def Let_def orch_inv_def jget_filter split: option.splits if_splits)

lemma inv_agent_gone: "orch_inv cfg s \<Longrightarrow> orch_inv cfg (notifyAgentDisconnected d s)"
  by (auto simp: notifyAgentDisconnected_def Let_def orch_inv_def jget_filter split: option.splits if_splits)

lemma inv_connectivity: "orch_inv cfg s \<Longrightarrow> orch_inv cfg (fst (handleConnectivityChanged cfg uid now d m agent s))"
proof -
  assume i: "orch_inv cfg s"
  then have "orch_inv cfg (s\<lparr>backoffByApp := jdel k (backoffByApp s), activeP2pApps := jset_del k (activeP2pApps s)\<rparr>)" for k
    by (simp add: orch_inv_def)
  then show ?thesis
    by (auto simp: handleConnectivityChanged_def Let_def split: option.splits intro: inv_trigger)
qed

lemma inv_activated:
  "orch_inv cfg s \<Longrightarrow>
   orch_inv cfg (s\<lparr>activeP2pApps := jset_add k (activeP2pApps s), inFlightUpgrades := jdel u (inFlightUpgrades s),
     backoffByApp := jdel k (backoffByApp s)\<rparr>)"
  by (simp add: orch_inv_def)

lemma recordDuration_keeps [simp]:
  "sessionTimers (recordDuration d s) = sessionTimers s" "backoffByApp (recordDuration d s) = backoffByApp s"
  "inFlightUpgrades (recordDuration d s) = inFlightUpgrades s" "activeP2pApps (recordDuration d s) = activeP2pApps s"
  "sent (recordDuration d s) = sent s"
  by (simp_all add: recordDuration_def Let_def)

lemma recordDuration_flights [simp]:
  "recordDuration d (s\<lparr>inFlightUpgrades := fs\<rparr>) = (recordDuration d s)\<lparr>inFlightUpgrades := fs\<rparr>"
  "recordDuration d (s\<lparr>m_committed := n\<rparr>) = (recordDuration d s)\<lparr>m_committed := n\<rparr>"
  by (simp_all add: recordDuration_def Let_def)

text \<open>The three outcomes of a \<open>committed\<close> message.\<close>

lemma handle_committed_cases:
  obtains (ignored) "\<not> given u" "handle_committed now u s = s"
  | (unknown) "given u" "jget (inFlightUpgrades s) (the u) = None"
      "handle_committed now u s = s\<lparr>m_committed := m_committed s + 1\<rparr>"
  | (first) e where "given u" "jget (inFlightUpgrades s) (the u) = Some e" "committedCount e = 0"
      "handle_committed now u s = s\<lparr>m_committed := m_committed s + 1,
         inFlightUpgrades := jput (the u) (e\<lparr>committedCount := 1\<rparr>) (inFlightUpgrades s)\<rparr>"
  | (second) e k where "given u" "jget (inFlightUpgrades s) (the u) = Some e" "committedCount e \<ge> 1"
      "k = appRouteKey (f_device e) (f_app e)"
      "handle_committed now u s = (recordDuration (now - startedAt e) s)\<lparr>m_committed := m_committed s + 1,
         activeP2pApps := jset_add k (activeP2pApps s),
         inFlightUpgrades := jdel (the u) (jput (the u) (e\<lparr>committedCount := committedCount e + 1\<rparr>) (inFlightUpgrades s)),
         backoffByApp := jdel k (backoffByApp s)\<rparr>"
proof (cases "given u")
  case True
  show ?thesis
  proof (cases "jget (inFlightUpgrades s) (the u)")
    case None
    with True unknown show ?thesis by (simp add: handle_committed_def Let_def)
  next
    case (Some e)
    show ?thesis
    proof (cases "committedCount e = 0")
      case True
      with \<open>given u\<close> Some first show ?thesis by (simp add: handle_committed_def Let_def)
    next
      case False
      with \<open>given u\<close> Some second [of e] show ?thesis by (simp add: handle_committed_def Let_def)
    qed
  qed
next
  case False
  with ignored show ?thesis by (simp add: handle_committed_def)
qed

lemma inv_committed: "orch_inv cfg s \<Longrightarrow> orch_inv cfg (handle_committed now u s)"
proof (cases rule: handle_committed_cases [of u now s])
  case (first e)
  assume "orch_inv cfg s"
  with first show ?thesis by (auto simp: orch_inv_def flight_ok_def)
next
  case (second e k)
  assume i: "orch_inv cfg s"
  from inv_duration [OF i, of "now - startedAt e"] second show ?thesis by (simp add: orch_inv_def)
qed simp_all

lemma inv_downgrade: "orch_inv cfg s \<Longrightarrow> orch_inv cfg (handle_downgrade now d u a r s)"
proof -
  assume i: "orch_inv cfg s"
  have "orch_inv cfg (s\<lparr>m_downgrade := m, activeP2pApps := jset_del k (activeP2pApps s)\<rparr>)"
    "orch_inv cfg (s\<lparr>inFlightUpgrades := jdel v (inFlightUpgrades s), m_downgrade := m\<rparr>)"
    "orch_inv cfg (s\<lparr>inFlightUpgrades := jdel v (inFlightUpgrades s), m_downgrade := m,
       activeP2pApps := jset_del k (activeP2pApps s)\<rparr>)" for m k v
    using i by (simp_all add: orch_inv_def)
  with i show ?thesis
    by (simp add: handle_downgrade_def Let_def inv_failure split: option.splits)
qed

lemma inv_step: "orch_inv cfg s \<Longrightarrow> orch_inv cfg (orch_step cfg e s)"
proof (cases e)
  case (Control now m)
  assume "orch_inv cfg s"
  with Control show ?thesis by (cases m) (simp_all add: handleControlMessage_def inv_committed inv_downgrade)
next
  case Dispose
  assume "orch_inv cfg s"
  with Dispose show ?thesis by (simp add: dispose_def orch_inv_def)
qed (simp_all add: inv_authenticated inv_fired inv_mobile_gone inv_agent_gone inv_connectivity inv_trigger)

interpretation orchestrator: invariant_machine "orch_step cfg" "orch_inv cfg" "\<lambda>_. True" for cfg
  by unfold_locales (rule inv_step)
section \<open>What is sent\<close>

lemma sent_trigger [simp]:
  "sent (triggerUpgrade cfg uid now d m a st s) = sent s @
     [(m, E_Propose d uid (conn_id m) (iceServers cfg) R_offerer st),
      (a, E_Propose d uid (conn_id m) (iceServers cfg) R_answerer st)]"
  by (simp add: triggerUpgrade_def Let_def send_def)

lemma sent_strict [simp]:
  "sent (notifyStrictUnavailable uid d m p c s) = sent s @
     (if p = Prefer_p2p then [(m, E_Downgrade d uid (conn_id m) (''strict_unavailable:'' @ c))] else [])"
  by (simp add: notifyStrictUnavailable_def Let_def send_def)

lemma sent_failure [simp]: "sent (recordFailure now d r a s) = sent s"
  by (simp add: recordFailure_def Let_def)

lemma sent_control [simp]: "sent (handleControlMessage now msg s) = sent s"
proof (cases msg)
  case (C_Committed u)
  then show ?thesis
    by (cases rule: handle_committed_cases [of u now s]) (simp_all add: handleControlMessage_def)
next
  case (C_Downgrade d u a r)
  then show ?thesis
    by (auto simp: handleControlMessage_def handle_downgrade_def Let_def split: option.splits)
qed (simp add: handleControlMessage_def)

lemma sent_gone [simp]:
  "sent (notifyMobileDisconnected d m s) = sent s" "sent (notifyAgentDisconnected d s) = sent s"
  "sent (dispose s) = sent s"
  by (simp_all add: notifyMobileDisconnected_def notifyAgentDisconnected_def dispose_def Let_def)

lemma sent_grows: "\<exists>new. sent (orch_step cfg e s) = sent s @ new"
  by (cases e)
    (auto simp: notifyMobileAuthenticated_def timer_fired_def handleConnectivityChanged_def Let_def split: option.splits)

text \<open>
  The phones that have asked for a direct connection, with the device and what was known of the
  connection at that moment: by authenticating or by reporting a change of their network.
\<close>

definition asks :: "orch_event \<Rightarrow> (string \<times> conn) set" where
  "asks e = (case e of MobileAuthenticated uid now d m \<Rightarrow> {(d, m)} | ConnectivityChanged uid now d m agent \<Rightarrow> {(d, m)} | _ \<Rightarrow> {})"

text \<open>
  Every invitation is of a phone that has asked (\<open>A\<close>) and that the policy allows, is strict exactly for
  \<open>prefer_p2p\<close>, and the phone itself gets it as the offerer.
\<close>

definition proposal_ok :: "config \<Rightarrow> (string \<times> conn) set \<Rightarrow> (conn \<times> envelope) list \<Rightarrow> conn \<times> envelope \<Rightarrow> bool" where
  "proposal_ok cfg A out x \<longleftrightarrow> (case snd x of
     E_Propose d u a ice r st \<Rightarrow>
       \<exists>m. conn_id m = a \<and> (d, m) \<in> A \<and> eligible cfg d m \<and> (st \<longleftrightarrow> resolvePreference cfg m = Prefer_p2p)
         \<and> ice = iceServers cfg \<and> (m, E_Propose d u a ice R_offerer st) \<in> set out \<and> (r = R_offerer \<longrightarrow> fst x = m)
   | E_Downgrade d u a r \<Rightarrow> True)"

definition sent_ok :: "config \<Rightarrow> (string \<times> conn) set \<Rightarrow> orch \<Rightarrow> bool" where
  "sent_ok cfg A s \<longleftrightarrow> orch_inv cfg s \<and> (\<forall>k t. jget (sessionTimers s) k = Some t \<longrightarrow> (t_device t, t_mobile t) \<in> A)
     \<and> (\<forall>x \<in> set (sent s). proposal_ok cfg A (sent s) x)"

fun debug_event :: "orch_event \<Rightarrow> bool" where
  "debug_event (Trigger uid now d m a) = True"
| "debug_event e = False"

lemma proposal_more: "proposal_ok cfg A out x \<Longrightarrow> set out \<subseteq> set out' \<Longrightarrow> proposal_ok cfg A out' x"
  by (fastforce simp: proposal_ok_def split: envelope.splits)

lemma proposals_extend:
  "\<forall>x \<in> set out. proposal_ok cfg A out x \<Longrightarrow> \<forall>x \<in> set new. proposal_ok cfg A (out @ new) x \<Longrightarrow>
   \<forall>x \<in> set (out @ new). proposal_ok cfg A (out @ new) x"
  by (auto intro: proposal_more)

text \<open>The two messages of one upgrade.\<close>

lemma trigger_proposals:
  assumes "(d, m) \<in> A" and "eligible cfg d m"
  shows "\<forall>x \<in> set [(m, E_Propose d uid (conn_id m) (iceServers cfg) R_offerer (resolvePreference cfg m = Prefer_p2p)),
      (a, E_Propose d uid (conn_id m) (iceServers cfg) R_answerer (resolvePreference cfg m = Prefer_p2p))].
    proposal_ok cfg A (out @ [(m, E_Propose d uid (conn_id m) (iceServers cfg) R_offerer (resolvePreference cfg m = Prefer_p2p)),
      (a, E_Propose d uid (conn_id m) (iceServers cfg) R_answerer (resolvePreference cfg m = Prefer_p2p))]) x"
  using assms by (auto simp: proposal_ok_def)

text \<open>No event but an authentication arms a timer.\<close>

lemma timers_step:
  assumes "jget (sessionTimers (orch_step cfg e s)) k = Some t" and "\<not> debug_event e" and "jwf (sessionTimers s)"
  shows "jget (sessionTimers s) k = Some t \<or> (t_device t, t_mobile t) \<in> asks e"
proof (cases e)
  case (MobileAuthenticated uid now d m)
  with assms(1) show ?thesis
    by (auto simp: notifyMobileAuthenticated_def notifyStrictUnavailable_def send_def asks_def Let_def split: if_splits)
next
  case (TimerFired uid now key agent)
  with assms(1) show ?thesis
    by (auto simp: timer_fired_def triggerUpgrade_def send_def Let_def split: option.splits if_splits)
next
  case (ConnectivityChanged uid now d m agent)
  with assms(1) show ?thesis
    by (auto simp: handleConnectivityChanged_def notifyStrictUnavailable_def triggerUpgrade_def send_def Let_def
        split: option.splits if_splits)
next
  case (MobileDisconnected d m)
  with assms(1) show ?thesis by (auto simp: notifyMobileDisconnected_def Let_def split: if_splits)
next
  case (AgentDisconnected d)
  with assms(1,3) show ?thesis
    by (auto simp: notifyAgentDisconnected_def Let_def jget_filter split: option.splits if_splits)
next
  case (Control now msg)
  have "sessionTimers (handleControlMessage now msg s) = sessionTimers s"
    by (auto simp: handleControlMessage_def handle_committed_def handle_downgrade_def recordDuration_def recordFailure_def Let_def
        split: control_message.split option.split)
  with assms(1) Control show ?thesis by simp
qed (use assms in \<open>simp_all add: dispose_def\<close>)

lemma proposals_ok:
  assumes "sent_ok cfg A s" and "\<not> debug_event e \<and> asks e \<subseteq> A"
  shows "sent_ok cfg A (orch_step cfg e s)"
proof -
  have inv: "orch_inv cfg s" and old: "\<forall>x \<in> set (sent s). proposal_ok cfg A (sent s) x"
    and timers: "\<And>k t. jget (sessionTimers s) k = Some t \<Longrightarrow> (t_device t, t_mobile t) \<in> A"
    using assms(1) by (auto simp: sent_ok_def)
  have down: "proposal_ok cfg A out (c, E_Downgrade d u a r)" for out c d u a r by (simp add: proposal_ok_def)
  have "\<forall>x \<in> set (sent (orch_step cfg e s)). proposal_ok cfg A (sent (orch_step cfg e s)) x"
  proof (cases e)
    case (MobileAuthenticated uid now d m)
    have "\<exists>new. sent (orch_step cfg e s) = sent s @ new \<and> (\<forall>(c, x) \<in> set new. \<exists>d u a r. x = E_Downgrade d u a r)"
      using MobileAuthenticated by (auto simp: notifyMobileAuthenticated_def Let_def)
    with proposals_extend [OF old] down show ?thesis by fastforce
  next
    case (TimerFired uid now key agent)
    show ?thesis
    proof (cases "jget (sessionTimers s) key")
      case None
      with TimerFired old show ?thesis by (simp add: timer_fired_def)
    next
      case (Some t)
      with inv have t: "timer_ok cfg key t" by (simp add: orch_inv_def)
      then have "eligible cfg (t_device t) (t_mobile t)" "t_preference t = resolvePreference cfg (t_mobile t)"
        by (simp_all add: timer_ok_def)
      with TimerFired Some old proposals_extend [OF old trigger_proposals [OF timers [OF Some]]] show ?thesis
        by (simp add: timer_fired_def Let_def split: option.split)
    qed
  next
    case (ConnectivityChanged uid now d m agent)
    then have m: "(d, m) \<in> A" using assms(2) by (simp add: asks_def)
    have "(\<exists>new. sent (orch_step cfg e s) = sent s @ new \<and> (\<forall>(c, x) \<in> set new. \<exists>d u a r. x = E_Downgrade d u a r)) \<or>
      eligible cfg d m \<and> (\<exists>a. sent (orch_step cfg e s) = sent s @
        [(m, E_Propose d uid (conn_id m) (iceServers cfg) R_offerer (resolvePreference cfg m = Prefer_p2p)),
         (a, E_Propose d uid (conn_id m) (iceServers cfg) R_answerer (resolvePreference cfg m = Prefer_p2p))])"
      using ConnectivityChanged by (auto simp: handleConnectivityChanged_def Let_def eligible_def split: option.split)
    then show ?thesis
    proof (elim disjE conjE exE)
      fix new assume "sent (orch_step cfg e s) = sent s @ new" "\<forall>(c, x) \<in> set new. \<exists>d u a r. x = E_Downgrade d u a r"
      with proposals_extend [OF old] down show ?thesis by fastforce
    next
      fix a assume "eligible cfg d m" and s: "sent (orch_step cfg e s) = sent s @
        [(m, E_Propose d uid (conn_id m) (iceServers cfg) R_offerer (resolvePreference cfg m = Prefer_p2p)),
         (a, E_Propose d uid (conn_id m) (iceServers cfg) R_answerer (resolvePreference cfg m = Prefer_p2p))]"
      then show ?thesis unfolding s by (intro proposals_extend [OF old] trigger_proposals [OF m])
    qed
  qed (use assms(2) old in \<open>simp_all\<close>)
  moreover have "(t_device t, t_mobile t) \<in> A" if "jget (sessionTimers (orch_step cfg e s)) k = Some t" for k t
    using timers_step [OF that] timers assms(2) inv unfolding orch_inv_def by blast
  ultimately show ?thesis using inv by (simp add: sent_ok_def inv_step)
qed

interpretation proposals: invariant_machine "orch_step cfg" "sent_ok cfg A" "\<lambda>e. \<not> debug_event e \<and> asks e \<subseteq> A" for cfg A
  by unfold_locales (rule proposals_ok)

section \<open>Percentiles\<close>

definition rank_index :: "nat \<Rightarrow> rat \<Rightarrow> nat" where
  "rank_index n q = nat (min (int n - 1) (max 0 (\<lceil>min 1 (max 0 q) * of_nat n\<rceil> - 1)))"

lemma percentile_rank: "length xs > 1 \<Longrightarrow> percentile xs q = xs ! rank_index (length xs) q"
  unfolding percentile_def rank_index_def Let_def by auto

lemma rank_index_less: "n > 1 \<Longrightarrow> rank_index n q < n"
  unfolding rank_index_def by linarith

lemma rank_index_mono:
  assumes "p \<le> q"
  shows "rank_index n p \<le> rank_index n q"
proof -
  have "min 1 (max 0 p) * of_nat n \<le> min 1 (max 0 q) * of_nat n"
    using assms by (intro mult_right_mono) auto
  then have "\<lceil>min 1 (max 0 p) * of_nat n\<rceil> \<le> \<lceil>min 1 (max 0 q) * of_nat n\<rceil>"
    by (rule ceiling_mono)
  then show ?thesis unfolding rank_index_def by (intro nat_mono) linarith
qed

lemma percentile_one: "length xs = 1 \<Longrightarrow> percentile xs q = xs ! 0"
  by (simp add: percentile_def)

lemma percentile_mem: "xs \<noteq> [] \<Longrightarrow> percentile xs q \<in> set xs"
  using percentile_rank [of xs q] rank_index_less [of "length xs" q] percentile_one [of xs q]
  by (cases "length xs > 1") (auto simp: not_less le_Suc_eq)

lemma percentile_mono:
  assumes "sorted xs" and "p \<le> q"
  shows "percentile xs p \<le> percentile xs q"
proof (cases "length xs > 1")
  case True
  then show ?thesis
    using percentile_rank rank_index_less rank_index_mono [OF assms(2)] assms(1)
    by (simp add: sorted_nth_mono)
next
  case False
  then show ?thesis by (cases xs) (auto simp: percentile_def)
qed

lemma last_largest: "sorted xs \<Longrightarrow> x \<in> set xs \<Longrightarrow> x \<le> xs ! (length xs - 1)"
  by (auto simp: in_set_conv_nth intro!: sorted_nth_mono)

lemma duration_stats_ordered:
  assumes "upgradeSessionDurations s \<noteq> []"
  shows "p50_ms (computeDurationStats s) \<le> p95_ms (computeDurationStats s)"
    and "p95_ms (computeDurationStats s) \<le> max_ms (computeDurationStats s)"
    and "{p50_ms (computeDurationStats s), p95_ms (computeDurationStats s), max_ms (computeDurationStats s)}
       \<subseteq> set (upgradeSessionDurations s)"
proof -
  let ?xs = "sort (upgradeSessionDurations s)"
  have ne: "?xs \<noteq> []" using assms by (metis set_empty set_sort)
  have st: "computeDurationStats s = \<lparr>st_count = length ?xs, p50_ms = percentile ?xs (1/2),
      p95_ms = percentile ?xs (95/100), max_ms = ?xs ! (length ?xs - 1)\<rparr>"
    using assms by (simp add: computeDurationStats_def Let_def)
  show "p50_ms (computeDurationStats s) \<le> p95_ms (computeDurationStats s)"
    by (simp add: st percentile_mono)
  show "p95_ms (computeDurationStats s) \<le> max_ms (computeDurationStats s)"
    unfolding st using last_largest [OF sorted_sort percentile_mem [OF ne]] by simp
  have "?xs ! (length ?xs - 1) \<in> set ?xs" using ne assms by (intro nth_mem) simp
  then show "{p50_ms (computeDurationStats s), p95_ms (computeDurationStats s), max_ms (computeDurationStats s)}
       \<subseteq> set (upgradeSessionDurations s)"
    using percentile_mem [OF ne] by (simp add: st)
qed
section \<open>Properties\<close>

text \<open>
  C35: whatever the relay calls, from start-up on: the map of upgrades in flight has one entry
  per id and none that both sides have confirmed, so that \<open>in_flight\<close> of the metrics is the number
  of open upgrades; a timer is pending only for an app the policy allows; the duration window
  never exceeds its 100 samples and holds no negative one; and an app with four failures stays
  away for good.
\<close>

theorem orchestrator_runs:
  "let s = fold (orch_step cfg) es new_orch in
     x_in_flight (getMetrics s) = card (dom (jget (inFlightUpgrades s)))
   \<and> x_active_p2p (getMetrics s) = card (set (activeP2pApps s))
   \<and> (\<forall>u e. jget (inFlightUpgrades s) u = Some e \<longrightarrow> committedCount e < 2)
   \<and> (\<forall>k t. jget (sessionTimers s) k = Some t \<longrightarrow>
        eligible cfg (t_device t) (t_mobile t) \<and> k = appRouteKey (t_device t) (conn_id (t_mobile t)))
   \<and> st_count (x_durations (getMetrics s)) \<le> UPGRADE_DURATION_WINDOW
   \<and> (\<forall>d \<in> set (upgradeSessionDurations s). 0 \<le> d)
   \<and> (\<forall>k b. jget (backoffByApp s) k = Some b \<and> failures b \<ge> 4 \<longrightarrow> nextAvailableAt b = MAX_SAFE_INTEGER)"
proof -
  let ?s = "fold (orch_step cfg) es new_orch"
  have inv: "orch_inv cfg ?s" by (rule orchestrator.run_inv) (simp_all add: inv_new)
  have card: "length m = card (dom (jget m))" if "jwf m" for m :: "(string, in_flight) jmap"
    using that by (metis distinct_card dom_map_of_conv_image_fst length_map list.set_map)
  show ?thesis unfolding Let_def
  proof (intro conjI)
    show "x_in_flight (getMetrics ?s) = card (dom (jget (inFlightUpgrades ?s)))"
      using inv card by (simp add: getMetrics_def orch_inv_def)
    show "x_active_p2p (getMetrics ?s) = card (set (activeP2pApps ?s))"
      using inv by (simp add: getMetrics_def orch_inv_def distinct_card)
    show "st_count (x_durations (getMetrics ?s)) \<le> UPGRADE_DURATION_WINDOW"
      using inv by (simp add: getMetrics_def computeDurationStats_def Let_def orch_inv_def)
  qed (use inv in \<open>auto simp: orch_inv_def flight_ok_def timer_ok_def backoff_ok_def less_Suc_eq_le numeral_2_eq_2\<close>)
qed

text \<open>
  C36: apart from the debug entry, the orchestrator invites only whom the policy allows. Whatever
  happens, every \<open>propose\<close> sent belongs to a phone that has authenticated on this device or reported a change of its network,
  with the preference it had then: direct connections are enabled, the device is not blocklisted, the phone does not prefer
  \<open>relay_only\<close>, and it prefers \<open>prefer_p2p\<close> or the device is rolled out; the message is strict exactly for
  \<open>prefer_p2p\<close> and carries the configured servers; the phone itself, and nobody else, is invited as the offerer.
\<close>

theorem proposals_follow_policy:
  assumes "\<forall>e \<in> set es. \<not> debug_event e" and "s = fold (orch_step cfg) es new_orch"
    and "(c, E_Propose d u a ice r strict) \<in> set (sent s)"
  shows "\<exists>m. conn_id m = a \<and> (r = R_offerer \<longrightarrow> c = m) \<and> (m, E_Propose d u a ice R_offerer strict) \<in> set (sent s)
    \<and> ((\<exists>v now. MobileAuthenticated v now d m \<in> set es) \<or> (\<exists>v now ag. ConnectivityChanged v now d m ag \<in> set es))
    \<and> cfg_enabled cfg \<and> d \<notin> deviceBlocklist cfg \<and> resolvePreference cfg m \<noteq> Relay_only
    \<and> (resolvePreference cfg m = Prefer_p2p \<or> shouldRollout d (rolloutPercent cfg))
    \<and> strict = (resolvePreference cfg m = Prefer_p2p) \<and> ice = iceServers cfg"
proof -
  let ?A = "\<Union> (asks ` set es)"
  have "sent_ok cfg ?A s"
    unfolding assms(2)
    by (rule proposals.run_inv) (use assms(1) in \<open>auto simp: sent_ok_def inv_new, auto simp: new_orch_def\<close>)
  with assms(3) have "proposal_ok cfg ?A (sent s) (c, E_Propose d u a ice r strict)" by (simp add: sent_ok_def)
  then obtain m where m: "conn_id m = a" "(d, m) \<in> ?A" "eligible cfg d m" "strict = (resolvePreference cfg m = Prefer_p2p)"
    "ice = iceServers cfg" "(m, E_Propose d u a ice R_offerer strict) \<in> set (sent s)" "r = R_offerer \<longrightarrow> c = m"
    by (auto simp: proposal_ok_def)
  from m(2) obtain e where "e \<in> set es" "(d, m) \<in> asks e" by blast
  then have "(\<exists>v now. MobileAuthenticated v now d m \<in> set es) \<or> (\<exists>v now ag. ConnectivityChanged v now d m ag \<in> set es)"
    unfolding asks_def by (auto split: orch_event.splits)
  with m show ?thesis by (auto simp: eligible_def)
qed

definition demo_config :: config where
  "demo_config = \<lparr>cfg_enabled = True, rolloutPercent = 0, deviceBlocklist = {}, iceServers = [''stun''],
     proposeDelayMs = 3000, respectClientPreference = True\<rparr>"

definition demo_phone :: conn where "demo_phone = \<lparr>conn_id = ''m1'', conn_preference = Some Prefer_p2p\<rparr>"
definition demo_agent :: conn where "demo_agent = \<lparr>conn_id = ''a1'', conn_preference = None\<rparr>"

theorem orchestrator_runs_witness:
  "x_in_flight (getMetrics (fold (orch_step demo_config)
      [MobileAuthenticated ''u0'' 0 ''d1'' demo_phone, TimerFired ''u1'' 3000 ''d1|m1'' (Some demo_agent)] new_orch))
   = card (dom (jget (inFlightUpgrades (fold (orch_step demo_config)
      [MobileAuthenticated ''u0'' 0 ''d1'' demo_phone, TimerFired ''u1'' 3000 ''d1|m1'' (Some demo_agent)] new_orch))))"
  using orchestrator_runs [of demo_config "[MobileAuthenticated ''u0'' 0 ''d1'' demo_phone,
      TimerFired ''u1'' 3000 ''d1|m1'' (Some demo_agent)]"]
  unfolding Let_def by (rule conjunct1)

theorem proposals_follow_policy_witness:
  "resolvePreference demo_config demo_phone \<noteq> Relay_only \<and>
   (demo_phone, E_Propose ''d1'' ''u1'' ''m1'' [''stun''] R_offerer True) \<in> set (sent (fold (orch_step demo_config)
     [MobileAuthenticated ''u0'' 0 ''d1'' demo_phone, TimerFired ''u1'' 3000 ''d1|m1'' (Some demo_agent)] new_orch))"
proof -
  let ?es = "[MobileAuthenticated ''u0'' 0 ''d1'' demo_phone, TimerFired ''u1'' 3000 ''d1|m1'' (Some demo_agent)]"
  have "(demo_phone, E_Propose ''d1'' ''u1'' ''m1'' [''stun''] R_offerer True)
      \<in> set (sent (fold (orch_step demo_config) ?es new_orch))"
    by (simp add: notifyMobileAuthenticated_def resolvePreference_def demo_config_def demo_phone_def
        appRouteKey_def timer_fired_def new_orch_def backing_off_def Let_def)
  from proposals_follow_policy [OF _ refl this] this show ?thesis by auto
qed

text \<open>
  Backing off means silence: while the entry of an app lies in the future, its
  authentication arms no timer, a timer armed earlier expires without a message, and no upgrade
  enters the books; only a \<open>prefer_p2p\<close> app is told that the direct connection is unavailable.
\<close>

theorem backoff_blocks_proposals:
  assumes "backing_off (appRouteKey d (conn_id m)) now s"
  shows "(sessionTimers (orch_step cfg (MobileAuthenticated uid now d m) s) = sessionTimers s)
    \<and> (inFlightUpgrades (orch_step cfg (MobileAuthenticated uid now d m) s) = inFlightUpgrades s)
    \<and> (inFlightUpgrades (orch_step cfg (TimerFired uid now (appRouteKey d (conn_id m)) agent) s) = inFlightUpgrades s)
    \<and> (sent (orch_step cfg (TimerFired uid now (appRouteKey d (conn_id m)) agent) s) = sent s)
    \<and> (eligible cfg d m \<longrightarrow> sent (orch_step cfg (MobileAuthenticated uid now d m) s) = sent s @
      (if resolvePreference cfg m = Prefer_p2p
       then [(m, E_Downgrade d uid (conn_id m) ''strict_unavailable:backoff_active'')] else []))"
proof (rule conjI [OF _ conjI [OF _ conjI [OF _ conjI]]])
  have keep: "sessionTimers (notifyStrictUnavailable uid d m p c s') = sessionTimers s'"
    "inFlightUpgrades (notifyStrictUnavailable uid d m p c s') = inFlightUpgrades s'" for p c s'
    by (simp_all add: notifyStrictUnavailable_def Let_def send_def)
  have still: "backing_off k t (s\<lparr>m_prefs := x\<rparr>) = backing_off k t s"
    "backing_off k t (s\<lparr>sessionTimers := y\<rparr>) = backing_off k t s" for k t x y
    by (simp_all add: backing_off_def)
  show "sessionTimers (orch_step cfg (MobileAuthenticated uid now d m) s) = sessionTimers s"
    "inFlightUpgrades (orch_step cfg (MobileAuthenticated uid now d m) s) = inFlightUpgrades s"
    using assms by (simp_all add: notifyMobileAuthenticated_def Let_def keep still)
  show "inFlightUpgrades (orch_step cfg (TimerFired uid now (appRouteKey d (conn_id m)) agent) s) = inFlightUpgrades s"
    "sent (orch_step cfg (TimerFired uid now (appRouteKey d (conn_id m)) agent) s) = sent s"
    using assms by (simp_all add: timer_fired_def Let_def still split: option.splits)
  show "eligible cfg d m \<longrightarrow> sent (orch_step cfg (MobileAuthenticated uid now d m) s) = sent s @
      (if resolvePreference cfg m = Prefer_p2p
       then [(m, E_Downgrade d uid (conn_id m) ''strict_unavailable:backoff_active'')] else [])"
    using assms by (auto simp: notifyMobileAuthenticated_def Let_def still eligible_def)
qed

theorem backoff_blocks_proposals_witness:
  "sent (orch_step demo_config (TimerFired ''u1'' 3000 ''d1|m1'' (Some demo_agent))
     (recordFailure 0 ''d1'' ''x'' (Some ''m1'') (orch_step demo_config (MobileAuthenticated ''u0'' 0 ''d1'' demo_phone) new_orch)))
   = []"
proof -
  let ?s = "recordFailure 0 ''d1'' ''x'' (Some ''m1'') (orch_step demo_config (MobileAuthenticated ''u0'' 0 ''d1'' demo_phone) new_orch)"
  have k: "appRouteKey ''d1'' (conn_id demo_phone) = ''d1|m1''" by (simp add: appRouteKey_def demo_phone_def)
  have "backing_off (appRouteKey ''d1'' (conn_id demo_phone)) 3000 ?s"
    by (simp add: k) (simp add: backing_off_def recordFailure_def Let_def backoff_until_def appRouteKey_def
        notifyMobileAuthenticated_def resolvePreference_def demo_config_def demo_phone_def new_orch_def)
  from backoff_blocks_proposals [OF this, of demo_config "''u1''" "Some demo_agent"] show ?thesis
    by (simp add: k) (simp add: notifyMobileAuthenticated_def resolvePreference_def demo_config_def
        demo_phone_def new_orch_def backing_off_def Let_def appRouteKey_def)
qed
text \<open>
  The backoff table: the first failure of an app keeps it away for 30 seconds, the second
  for two minutes, the third for ten, every later one for good; other apps, of the same device
  or of another, are not affected. A downgrade for one of the exempt reasons changes no entry at all.
\<close>

theorem backoff_schedule:
  assumes "n = (case jget (backoffByApp s) (appRouteKey d a) of None \<Rightarrow> 0 | Some b \<Rightarrow> failures b)"
    and "given (Some d)" and "\<not> given u" and "reason \<notin> BACKOFF_EXEMPT_REASONS"
    and "s' = handleControlMessage now (C_Downgrade (Some d) u (Some a) (Some reason)) s"
  shows "(jget (backoffByApp s') (appRouteKey d a) = Some \<lparr>failures = n + 1, nextAvailableAt =
      (if n = 0 then now + 30000 else if n = 1 then now + 120000 else if n = 2 then now + 600000 else MAX_SAFE_INTEGER)\<rparr>)
    \<and> (k \<noteq> appRouteKey d a \<longrightarrow> jget (backoffByApp s') k = jget (backoffByApp s) k)
    \<and> (exempt \<in> BACKOFF_EXEMPT_REASONS \<longrightarrow>
      backoffByApp (handleControlMessage now (C_Downgrade dev up app (Some exempt)) s) = backoffByApp s)"
  using assms
  by (auto simp: handleControlMessage_def handle_downgrade_def Let_def recordFailure_def backoff_until_def
      split: option.splits)

theorem backoff_schedule_witness:
  "jget (backoffByApp (handleControlMessage 5 (C_Downgrade (Some ''d'') None (Some ''a'') (Some ''ice_failed'')) new_orch))
     ''d|a'' = Some \<lparr>failures = 1, nextAvailableAt = 30005\<rparr>"
proof -
  have "jget (backoffByApp (handleControlMessage 5 (C_Downgrade (Some ''d'') None (Some ''a'') (Some ''ice_failed'')) new_orch))
     (appRouteKey ''d'' ''a'') = Some \<lparr>failures = 0 + 1, nextAvailableAt =
      (if 0 = (0 :: nat) then 5 + 30000 else if 0 = (1 :: nat) then 5 + 120000 else if 0 = (2 :: nat) then 5 + 600000 else MAX_SAFE_INTEGER)\<rparr>"
    by (rule backoff_schedule [where u = None and reason = "''ice_failed''", THEN conjunct1])
      (simp_all add: new_orch_def given_def BACKOFF_EXEMPT_REASONS_def)
  then show ?thesis by (simp add: appRouteKey_def)
qed

text \<open>The books together with the events handled so far.\<close>

definition commits :: "string \<Rightarrow> orch_event list \<Rightarrow> nat" where
  "commits u es = length (filter (\<lambda>e. \<exists>now. e = Control now (C_Committed (Some u))) es)"

definition proposed :: "string \<Rightarrow> string \<Rightarrow> string \<Rightarrow> orch \<Rightarrow> bool" where
  "proposed u d a s \<longleftrightarrow> (\<exists>c ice r st. (c, E_Propose d u a ice r st) \<in> set (sent s))"

definition history_ok :: "orch \<times> orch_event list \<Rightarrow> bool" where
  "history_ok x = (case x of (s, es) \<Rightarrow>
     (\<forall>u e. jget (inFlightUpgrades s) u = Some e \<longrightarrow> proposed u (f_device e) (f_app e) s \<and> committedCount e \<le> commits u es) \<and>
     (\<forall>k \<in> set (activeP2pApps s). \<exists>u d a. k = appRouteKey d a \<and> proposed u d a s \<and> commits u es \<ge> 2) \<and>
     jwf (inFlightUpgrades s))"

definition history_step :: "config \<Rightarrow> orch_event \<Rightarrow> orch \<times> orch_event list \<Rightarrow> orch \<times> orch_event list" where
  "history_step cfg e x = (orch_step cfg e (fst x), snd x @ [e])"

lemma history_fold: "fold (history_step cfg) es (s, h) = (fold (orch_step cfg) es s, h @ es)"
  by (induction es arbitrary: s h) (simp_all add: history_step_def)

lemma commits_snoc [simp]:
  "commits u (es @ [e]) = commits u es + (if \<exists>now. e = Control now (C_Committed (Some u)) then 1 else 0)"
  by (simp add: commits_def)

lemma proposed_mono: "sent s' = sent s @ new \<Longrightarrow> proposed u d a s \<Longrightarrow> proposed u d a s'"
  by (fastforce simp: proposed_def)

text \<open>An operation that only removes entries and apps and may add one proposed upgrade.\<close>

lemma history_shrink:
  assumes "history_ok (s, es)" and "sent s' = sent s @ new" and "jwf (inFlightUpgrades s')"
    and "set (activeP2pApps s') \<subseteq> set (activeP2pApps s)"
    and "\<And>u e. jget (inFlightUpgrades s') u = Some e \<Longrightarrow> jget (inFlightUpgrades s) u = Some e
       \<or> (committedCount e = 0 \<and> proposed u (f_device e) (f_app e) s')"
  shows "history_ok (s', es @ [ev])"
  unfolding history_ok_def split
proof (intro conjI allI impI ballI)
  fix u e assume "jget (inFlightUpgrades s') u = Some e"
  from assms(5) [OF this] assms(1) proposed_mono [OF assms(2)]
  show "proposed u (f_device e) (f_app e) s'" "committedCount e \<le> commits u (es @ [ev])"
    by (auto simp: history_ok_def intro: le_SucI)
next
  fix k assume "k \<in> set (activeP2pApps s')"
  with assms(4) have "k \<in> set (activeP2pApps s)" by auto
  with assms(1) obtain u d a where "k = appRouteKey d a" "proposed u d a s" "commits u es \<ge> 2"
    unfolding history_ok_def by blast
  with proposed_mono [OF assms(2)]
  show "\<exists>u d a. k = appRouteKey d a \<and> proposed u d a s' \<and> commits u (es @ [ev]) \<ge> 2"
    by (metis commits_snoc trans_le_add1)
qed (rule assms(3))
lemma history_committed:
  assumes h: "history_ok (s, es)"
  shows "history_ok (handle_committed now x s, es @ [Control now (C_Committed x)])"
proof (cases rule: handle_committed_cases [of x now s])
  case ignored
  show ?thesis unfolding ignored(2)
    by (rule history_shrink [OF h, where new = "[]"]) (use h in \<open>auto simp: history_ok_def\<close>)
next
  case unknown
  show ?thesis unfolding unknown(3)
    by (rule history_shrink [OF h, where new = "[]"]) (use h in \<open>auto simp: history_ok_def\<close>)
next
  case (first e)
  from first(1) obtain u where u: "x = Some u" by (auto simp: given_def)
  let ?s = "handle_committed now x s" and ?es = "es @ [Control now (C_Committed x)]"
  have p: "proposed w d a ?s = proposed w d a s" for w d a
    unfolding first(4) by (simp add: proposed_def)
  have c: "commits w es \<le> commits w ?es" for w by simp
  show ?thesis unfolding history_ok_def split p
  proof (intro conjI allI impI ballI)
    fix w f assume f: "jget (inFlightUpgrades ?s) w = Some f"
    have "proposed w (f_device f) (f_app f) s \<and> committedCount f \<le> commits w ?es"
    proof (cases "w = u")
      case True
      with f u have "f = e\<lparr>committedCount := 1\<rparr>" unfolding first(4) by simp
      with True h first(2) u show ?thesis by (auto simp: history_ok_def)
    next
      case False
      with f u have "jget (inFlightUpgrades s) w = Some f" unfolding first(4) by simp
      with h have "proposed w (f_device f) (f_app f) s" "committedCount f \<le> commits w es"
        unfolding history_ok_def by blast+
      with c [of w] show ?thesis by simp
    qed
    then show "proposed w (f_device f) (f_app f) s" "committedCount f \<le> commits w ?es" by blast+
  next
    fix q assume "q \<in> set (activeP2pApps ?s)"
    then have "q \<in> set (activeP2pApps s)" unfolding first(4) by simp
    with h obtain w d a where "q = appRouteKey d a" "proposed w d a s" "commits w es \<ge> 2"
      unfolding history_ok_def by blast
    with c [of w] show "\<exists>w d a. q = appRouteKey d a \<and> proposed w d a s \<and> commits w ?es \<ge> 2"
      by (metis le_trans)
  next
    show "jwf (inFlightUpgrades ?s)" unfolding first(4) using h by (simp add: history_ok_def)
  qed
next
  case (second e k)
  from second(1) obtain u where u: "x = Some u" by (auto simp: given_def)
  let ?s = "handle_committed now x s"
  have p: "proposed w d a ?s = proposed w d a s" for w d a
    unfolding second(5) by (simp add: proposed_def)
  have e: "proposed u (f_device e) (f_app e) s" "committedCount e \<le> commits u es"
    using h second(2) u by (auto simp: history_ok_def)
  have c: "commits w es \<le> commits w (es @ [Control now (C_Committed x)])" for w by simp
  have two: "commits u (es @ [Control now (C_Committed x)]) \<ge> 2" using e(2) second(3) u by simp
  show ?thesis unfolding history_ok_def split p
  proof (intro conjI allI impI ballI)
    fix w f assume "jget (inFlightUpgrades ?s) w = Some f"
    then have "jget (inFlightUpgrades s) w = Some f" unfolding second(5) by (auto split: if_splits)
    with h c [of w] show "proposed w (f_device f) (f_app f) s" "committedCount f \<le> commits w (es @ [Control now (C_Committed x)])"
      unfolding history_ok_def by (blast, fastforce)
  next
    fix q assume "q \<in> set (activeP2pApps ?s)"
    then have "q = k \<or> q \<in> set (activeP2pApps s)" unfolding second(5) by simp
    then show "\<exists>w d a. q = appRouteKey d a \<and> proposed w d a s \<and> commits w (es @ [Control now (C_Committed x)]) \<ge> 2"
    proof
      assume "q = k"
      with e(1) two second(4) show ?thesis by blast
    next
      assume "q \<in> set (activeP2pApps s)"
      with h obtain w d a where "q = appRouteKey d a" "proposed w d a s" "commits w es \<ge> 2"
        unfolding history_ok_def by blast
      with c [of w] show ?thesis by (metis le_trans)
    qed
  next
    show "jwf (inFlightUpgrades ?s)" unfolding second(5) using h by (simp add: history_ok_def)
  qed
qed

lemma proposed_trigger: "proposed uid d (conn_id m) (triggerUpgrade cfg uid now d m a st s)"
  unfolding proposed_def sent_trigger by (intro exI [of _ m] exI [of _ "iceServers cfg"] exI [of _ R_offerer] exI [of _ st]) simp

lemma trigger_flights:
  "jget (inFlightUpgrades (triggerUpgrade cfg uid now d m a st s)) u = Some e \<Longrightarrow>
   jget (inFlightUpgrades s) u = Some e \<or>
   (committedCount e = 0 \<and> proposed u (f_device e) (f_app e) (triggerUpgrade cfg uid now d m a st s))"
  using proposed_trigger [of uid d m cfg now a st s]
  by (cases "u = uid") (auto simp: triggerUpgrade_def Let_def send_def)

lemma trigger_keeps [simp]:
  "activeP2pApps (triggerUpgrade cfg uid now d m a st s) = activeP2pApps s"
  "jwf (inFlightUpgrades s) \<Longrightarrow> jwf (inFlightUpgrades (triggerUpgrade cfg uid now d m a st s))"
  "sessionTimers (triggerUpgrade cfg uid now d m a st s) = sessionTimers s"
  "backoffByApp (triggerUpgrade cfg uid now d m a st s) = backoffByApp s"
  by (simp_all add: triggerUpgrade_def Let_def send_def)

lemma strict_keeps [simp]:
  "activeP2pApps (notifyStrictUnavailable uid d m p c s) = activeP2pApps s"
  "inFlightUpgrades (notifyStrictUnavailable uid d m p c s) = inFlightUpgrades s"
  "sessionTimers (notifyStrictUnavailable uid d m p c s) = sessionTimers s"
  "backoffByApp (notifyStrictUnavailable uid d m p c s) = backoffByApp s"
  by (simp_all add: notifyStrictUnavailable_def Let_def send_def)

lemma failure_keeps [simp]:
  "activeP2pApps (recordFailure now d r a s) = activeP2pApps s"
  "inFlightUpgrades (recordFailure now d r a s) = inFlightUpgrades s"
  "sessionTimers (recordFailure now d r a s) = sessionTimers s"
  by (simp_all add: recordFailure_def Let_def)

text \<open>The steps other than \<open>committed\<close> only shrink, or add a proposed upgrade.\<close>

lemma step_shrinks:
  assumes "\<nexists>now u. ev = Control now (C_Committed u)" and wf: "jwf (inFlightUpgrades s)"
  shows "jwf (inFlightUpgrades (orch_step cfg ev s))"
    and "set (activeP2pApps (orch_step cfg ev s)) \<subseteq> set (activeP2pApps s)"
    and "jget (inFlightUpgrades (orch_step cfg ev s)) u = Some e \<Longrightarrow> jget (inFlightUpgrades s) u = Some e
       \<or> (committedCount e = 0 \<and> proposed u (f_device e) (f_app e) (orch_step cfg ev s))"
proof -
  have "jwf (inFlightUpgrades (orch_step cfg ev s)) \<and> set (activeP2pApps (orch_step cfg ev s)) \<subseteq> set (activeP2pApps s) \<and>
    (jget (inFlightUpgrades (orch_step cfg ev s)) u = Some e \<longrightarrow> jget (inFlightUpgrades s) u = Some e
       \<or> (committedCount e = 0 \<and> proposed u (f_device e) (f_app e) (orch_step cfg ev s)))"
  proof (cases ev)
    case (MobileAuthenticated uid now d m)
    then show ?thesis using wf by (simp add: notifyMobileAuthenticated_def Let_def)
  next
    case (TimerFired uid now key agent)
    then show ?thesis using wf
      by (auto simp: timer_fired_def Let_def split: option.splits dest!: trigger_flights)
  next
    case (MobileDisconnected d m)
    then show ?thesis using wf
      by (auto simp: notifyMobileDisconnected_def Let_def jget_filter split: option.splits if_splits)
  next
    case (AgentDisconnected d)
    then show ?thesis using wf
      by (auto simp: notifyAgentDisconnected_def Let_def jget_filter split: option.splits if_splits)
  next
    case (ConnectivityChanged uid now d m agent)
    then show ?thesis using wf
      by (auto simp: handleConnectivityChanged_def Let_def split: option.splits dest!: trigger_flights)
  next
    case (Control now msg)
    then show ?thesis using wf assms(1)
      by (cases msg) (auto simp: handleControlMessage_def handle_downgrade_def Let_def split: option.splits if_splits)
  next
    case (Trigger uid now d m a)
    then show ?thesis using wf by (auto dest!: trigger_flights)
  next
    case Dispose
    then show ?thesis by (simp add: dispose_def)
  qed
  then show "jwf (inFlightUpgrades (orch_step cfg ev s))"
    "set (activeP2pApps (orch_step cfg ev s)) \<subseteq> set (activeP2pApps s)"
    "jget (inFlightUpgrades (orch_step cfg ev s)) u = Some e \<Longrightarrow> jget (inFlightUpgrades s) u = Some e
       \<or> (committedCount e = 0 \<and> proposed u (f_device e) (f_app e) (orch_step cfg ev s))"
    by blast+
qed

lemma history_keeps: "history_ok x \<Longrightarrow> history_ok (history_step cfg ev x)"
proof (cases x)
  case (Pair s es)
  assume h: "history_ok x"
  show ?thesis
  proof (cases "\<exists>now u. ev = Control now (C_Committed u)")
    case True
    with h Pair show ?thesis by (auto simp: history_step_def handleControlMessage_def intro: history_committed)
  next
    case False
    obtain new where new: "sent (orch_step cfg ev s) = sent s @ new" using sent_grows by blast
    have wf: "jwf (inFlightUpgrades s)" using h Pair by (simp add: history_ok_def)
    have "history_ok (orch_step cfg ev s, es @ [ev])"
      by (rule history_shrink [OF _ new step_shrinks(1,2) [OF False wf] step_shrinks(3) [OF False wf]])
        (use h Pair in simp_all)
    with Pair show ?thesis by (simp add: history_step_def)
  qed
qed

interpretation history: invariant_machine "history_step cfg" history_ok "\<lambda>_. True" for cfg
  by unfold_locales (rule history_keeps)
text \<open>
  C34: the relay believes in a direct connection only after an upgrade it has proposed: when an
  app is counted in \<open>active_p2p\<close>, the log has a \<open>propose\<close> for that app and at least two
  \<open>committed\<close> messages with its upgrade id have been handled.
\<close>

theorem active_needs_two_commits:
  assumes "k \<in> set (activeP2pApps (fold (orch_step cfg) es new_orch))"
  shows "\<exists>u d a. k = appRouteKey d a \<and> proposed u d a (fold (orch_step cfg) es new_orch) \<and> commits u es \<ge> 2"
proof -
  have "history_ok (fold (history_step cfg) es (new_orch, []))"
    by (rule history.run_inv) (simp_all add: history_ok_def new_orch_def)
  with assms show ?thesis by (fastforce simp: history_fold history_ok_def)
qed

definition demo_upgrade :: "orch_event list" where
  "demo_upgrade = [Trigger ''u1'' 0 ''d1'' demo_phone demo_agent,
     Control 900 (C_Committed (Some ''u1'')), Control 1000 (C_Committed (Some ''u1''))]"

theorem active_needs_two_commits_witness:
  "\<exists>u d a. ''d1|m1'' = appRouteKey d a \<and> commits u demo_upgrade \<ge> 2"
proof -
  have "''d1|m1'' \<in> set (activeP2pApps (fold (orch_step demo_config) demo_upgrade new_orch))"
    by (simp add: demo_upgrade_def triggerUpgrade_def Let_def send_def new_orch_def demo_phone_def
        handleControlMessage_def handle_committed_def given_def appRouteKey_def jset_add_def)
  from active_needs_two_commits [OF this] show ?thesis by blast
qed

text \<open>
  The second \<open>committed\<close> of an upgrade in flight closes it: the app becomes active, its backoff
  is forgotten, the upgrade leaves the books and the time since the proposal enters the window.
  The code does not ask who sent the two messages, so twice the same side, or the same message
  twice, has the same effect as the confirmation of both sides that the comment describes.
\<close>

theorem second_commit_activates:
  assumes "jget (inFlightUpgrades s) u = Some e" and "committedCount e = 0" and "given (Some u)"
    and "startedAt e \<le> now2" and "length (upgradeSessionDurations s) < UPGRADE_DURATION_WINDOW"
    and "s1 = handleControlMessage now1 (C_Committed (Some u)) s"
    and "s2 = handleControlMessage now2 (C_Committed (Some u)) s1"
  shows "(activeP2pApps s1 = activeP2pApps s \<and> jhas (inFlightUpgrades s1) u)
    \<and> (appRouteKey (f_device e) (f_app e) \<in> set (activeP2pApps s2))
    \<and> (jget (inFlightUpgrades s2) u = None)
    \<and> (jget (backoffByApp s2) (appRouteKey (f_device e) (f_app e)) = None)
    \<and> (upgradeSessionDurations s2 = upgradeSessionDurations s @ [now2 - startedAt e])"
  using assms
  by (simp_all add: handleControlMessage_def handle_committed_def Let_def recordDuration_def jhas_def)

theorem second_commit_activates_witness:
  "upgradeSessionDurations (fold (orch_step demo_config) demo_upgrade new_orch) = [1000]"
proof -
  let ?s = "orch_step demo_config (Trigger ''u1'' 0 ''d1'' demo_phone demo_agent) new_orch"
  have e: "jget (inFlightUpgrades ?s) ''u1'' = Some \<lparr>f_device = ''d1'', f_app = ''m1'', f_mobile = ''m1'',
      f_agent = ''a1'', startedAt = 0, committedCount = 0\<rparr>" and d: "upgradeSessionDurations ?s = []"
    by (simp_all add: triggerUpgrade_def Let_def send_def new_orch_def demo_phone_def demo_agent_def)
  have "upgradeSessionDurations (handleControlMessage 1000 (C_Committed (Some ''u1''))
      (handleControlMessage 900 (C_Committed (Some ''u1'')) ?s)) = upgradeSessionDurations ?s @
        [1000 - startedAt \<lparr>f_device = ''d1'', f_app = ''m1'', f_mobile = ''m1'', f_agent = ''a1'', startedAt = 0, committedCount = 0\<rparr>]"
    by (rule second_commit_activates [OF e _ _ _ _ refl refl, THEN conjunct2, THEN conjunct2, THEN conjunct2, THEN conjunct2])
      (simp_all only: d given_def UPGRADE_DURATION_WINDOW_def in_flight.simps, simp_all)
  then show ?thesis unfolding demo_upgrade_def d by (simp only: fold.simps o_apply orch_step.simps) simp
qed

lemma key_prefix:
  assumes "CHR ''|'' \<notin> set d" "CHR ''|'' \<notin> set d'"
  shows "prefix (d @ ''|'') (appRouteKey d' a) \<longleftrightarrow> d' = d"
proof
  assume "prefix (d @ ''|'') (appRouteKey d' a)"
  then obtain x where x: "d' @ CHR ''|'' # a = d @ CHR ''|'' # x"
    by (auto simp: appRouteKey_def prefix_def)
  have "takeWhile (\<lambda>c. c \<noteq> CHR ''|'') (e @ CHR ''|'' # y) = e" if "CHR ''|'' \<notin> set e" for e y
    using that by (induction e) auto
  with assms x show "d' = d" by metis
qed (simp add: appRouteKey_def)

text \<open>
  Nothing survives a disconnection that it should not: after the phone has gone, its app
  has no pending timer, no upgrade in flight and is not active; after the agent has gone, no app
  of the device has. Everything else stays, as long as device ids have no \<open>|\<close> in them, the
  separator of the keys.
\<close>

theorem disconnect_cleans_up:
  assumes "jwf (inFlightUpgrades s)" and "jwf (sessionTimers s)"
    and "CHR ''|'' \<notin> set d" and "CHR ''|'' \<notin> set d'"
    and "sm = orch_step cfg (MobileDisconnected d m) s"
    and "sa = orch_step cfg (AgentDisconnected d) s"
  shows "(\<not> jhas (sessionTimers sm) (appRouteKey d (conn_id m)) \<and> appRouteKey d (conn_id m) \<notin> set (activeP2pApps sm)
      \<and> (\<forall>u e. jget (inFlightUpgrades sm) u = Some e \<longleftrightarrow>
           jget (inFlightUpgrades s) u = Some e \<and> \<not> (f_device e = d \<and> f_mobile e = conn_id m)))
    \<and> (jhas (sessionTimers sa) (appRouteKey d' a) \<longleftrightarrow> d' \<noteq> d \<and> jhas (sessionTimers s) (appRouteKey d' a))
    \<and> (appRouteKey d' a \<in> set (activeP2pApps sa) \<longleftrightarrow> d' \<noteq> d \<and> appRouteKey d' a \<in> set (activeP2pApps s))
    \<and> (jget (inFlightUpgrades sa) u = Some e \<longleftrightarrow> jget (inFlightUpgrades s) u = Some e \<and> f_device e \<noteq> d)
    \<and> (backoffByApp sm = backoffByApp s \<and> backoffByApp sa = backoffByApp s)"
proof (rule conjI [OF _ conjI [OF _ conjI [OF _ conjI]]])
  note pre = key_prefix [OF assms(3,4)]
  have sm: "sessionTimers sm = jdel (appRouteKey d (conn_id m)) (sessionTimers s)"
    "activeP2pApps sm = jset_del (appRouteKey d (conn_id m)) (activeP2pApps s)" "backoffByApp sm = backoffByApp s"
    "inFlightUpgrades sm = filter (\<lambda>(u, e). \<not> (f_device e = d \<and> f_mobile e = conn_id m)) (inFlightUpgrades s)"
    by (simp_all add: assms(5) notifyMobileDisconnected_def Let_def)
  have sa: "sessionTimers sa = filter (\<lambda>(k, t). \<not> prefix (d @ ''|'') k) (sessionTimers s)"
    "activeP2pApps sa = filter (\<lambda>k. \<not> prefix (d @ ''|'') k) (activeP2pApps s)" "backoffByApp sa = backoffByApp s"
    "inFlightUpgrades sa = filter (\<lambda>(u, e). f_device e \<noteq> d) (inFlightUpgrades s)"
    by (simp_all add: assms(6) notifyAgentDisconnected_def Let_def)
  show "\<not> jhas (sessionTimers sm) (appRouteKey d (conn_id m)) \<and> appRouteKey d (conn_id m) \<notin> set (activeP2pApps sm)
      \<and> (\<forall>u e. jget (inFlightUpgrades sm) u = Some e \<longleftrightarrow>
           jget (inFlightUpgrades s) u = Some e \<and> \<not> (f_device e = d \<and> f_mobile e = conn_id m))"
    unfolding sm jget_filter [OF assms(1)] by (auto split: option.splits)
  show "jhas (sessionTimers sa) (appRouteKey d' a) \<longleftrightarrow> d' \<noteq> d \<and> jhas (sessionTimers s) (appRouteKey d' a)"
    unfolding sa jhas_def jget_filter [OF assms(2)] using pre by (simp split: option.splits)
  show "appRouteKey d' a \<in> set (activeP2pApps sa) \<longleftrightarrow> d' \<noteq> d \<and> appRouteKey d' a \<in> set (activeP2pApps s)"
    unfolding sa using pre by auto
  show "jget (inFlightUpgrades sa) u = Some e \<longleftrightarrow> jget (inFlightUpgrades s) u = Some e \<and> f_device e \<noteq> d"
    unfolding sa jget_filter [OF assms(1)] by (auto split: option.splits)
  show "backoffByApp sm = backoffByApp s \<and> backoffByApp sa = backoffByApp s" using sm sa by simp
qed

theorem disconnect_cleans_up_witness:
  "\<not> jhas (sessionTimers (orch_step demo_config (AgentDisconnected ''d1'')
      (orch_step demo_config (MobileAuthenticated ''u0'' 0 ''d1'' demo_phone) new_orch))) ''d1|m1''"
proof -
  let ?s = "orch_step demo_config (MobileAuthenticated ''u0'' 0 ''d1'' demo_phone) new_orch"
  have wf: "jwf (inFlightUpgrades ?s)" "jwf (sessionTimers ?s)"
    using inv_step [OF inv_new, of demo_config "MobileAuthenticated ''u0'' 0 ''d1'' demo_phone"]
    unfolding orch_inv_def by blast+
  from disconnect_cleans_up [OF wf, of "''d1''" "''d1''" _ demo_config demo_phone _ "''m1''", OF _ _ refl refl]
  show ?thesis by (simp add: appRouteKey_def)
qed

text \<open>
  A phone that has come back or changed its network gets a fresh attempt at once: its backoff
  is forgotten, and when the policy allows the app, no upgrade of it is in flight and the agent is
  there, both sides are invited with the same id; in every other case no invitation is sent.
\<close>

theorem connectivity_reattempts:
  assumes "handleConnectivityChanged cfg uid now d m agent s = (s', r)"
  shows "(r = Some uid \<longleftrightarrow> eligible cfg d m \<and> \<not> hasInFlightForApp d (conn_id m) s \<and> agent \<noteq> None)
    \<and> (r = Some uid \<longrightarrow> sent s' = sent s @
      [(m, E_Propose d uid (conn_id m) (iceServers cfg) R_offerer (resolvePreference cfg m = Prefer_p2p)),
       (the agent, E_Propose d uid (conn_id m) (iceServers cfg) R_answerer (resolvePreference cfg m = Prefer_p2p))]
      \<and> hasInFlightForApp d (conn_id m) s')
    \<and> (r \<noteq> Some uid \<longrightarrow> r = None \<and> inFlightUpgrades s' = inFlightUpgrades s \<and>
      (\<forall>x \<in> set (sent s'). x \<in> set (sent s) \<or>
         (\<exists>cause. x = (m, E_Downgrade d uid (conn_id m) (''strict_unavailable:'' @ cause)))))
    \<and> (jget (backoffByApp s') (appRouteKey d (conn_id m)) = None)"
proof (rule conjI [OF _ conjI [OF _ conjI]])
  have has: "hasInFlightForApp d a (s\<lparr>backoffByApp := x, activeP2pApps := y\<rparr>) = hasInFlightForApp d a s" for a x y
    by (simp add: hasInFlightForApp_def)
  have put: "list_ex P (jput k v xs)" if "P (k, v)" for P k v and xs :: "(string, in_flight) jmap"
    using that by (induction xs) auto
  have trig: "hasInFlightForApp d (conn_id m) (triggerUpgrade cfg uid now d m a st x)" for a st x
    by (simp add: hasInFlightForApp_def triggerUpgrade_def Let_def send_def put)
  note eq = assms [unfolded handleConnectivityChanged_def Let_def has]
  show "r = Some uid \<longleftrightarrow> eligible cfg d m \<and> \<not> hasInFlightForApp d (conn_id m) s \<and> agent \<noteq> None"
    using eq by (auto simp: eligible_def split: if_splits option.splits)
  show "r = Some uid \<longrightarrow> sent s' = sent s @
      [(m, E_Propose d uid (conn_id m) (iceServers cfg) R_offerer (resolvePreference cfg m = Prefer_p2p)),
       (the agent, E_Propose d uid (conn_id m) (iceServers cfg) R_answerer (resolvePreference cfg m = Prefer_p2p))]
      \<and> hasInFlightForApp d (conn_id m) s'"
    using eq trig by (auto split: if_splits option.splits)
  show "r \<noteq> Some uid \<longrightarrow> r = None \<and> inFlightUpgrades s' = inFlightUpgrades s \<and>
      (\<forall>x \<in> set (sent s'). x \<in> set (sent s) \<or>
         (\<exists>cause. x = (m, E_Downgrade d uid (conn_id m) (''strict_unavailable:'' @ cause))))"
    using eq by (auto split: if_splits option.splits)
  show "jget (backoffByApp s') (appRouteKey d (conn_id m)) = None"
    using eq by (auto split: if_splits option.splits)
qed

theorem connectivity_reattempts_witness:
  "snd (handleConnectivityChanged demo_config ''u7'' 0 ''d1'' demo_phone (Some demo_agent) new_orch) = Some ''u7''"
proof -
  obtain s' r where r: "handleConnectivityChanged demo_config ''u7'' 0 ''d1'' demo_phone (Some demo_agent) new_orch = (s', r)"
    by fastforce
  from connectivity_reattempts [OF r] r show ?thesis
    by (simp add: eligible_def demo_config_def demo_phone_def resolvePreference_def hasInFlightForApp_def new_orch_def)
qed

text \<open>
  The guard against a second upgrade of the same app stands only in the connectivity path:
  a timer that was pending when the phone reported its network change fires later and starts
  another upgrade of the app while the first is still in flight.
\<close>

theorem two_upgrades_in_flight:
  "let s = fold (orch_step demo_config)
      [MobileAuthenticated ''u0'' 0 ''d1'' demo_phone,
       ConnectivityChanged ''u1'' 1000 ''d1'' demo_phone (Some demo_agent),
       TimerFired ''u2'' 3000 ''d1|m1'' (Some demo_agent)] new_orch
   in \<exists>e f. jget (inFlightUpgrades s) ''u1'' = Some e \<and> jget (inFlightUpgrades s) ''u2'' = Some f \<and>
        f_device e = f_device f \<and> f_app e = f_app f"
  by (simp add: Let_def notifyMobileAuthenticated_def handleConnectivityChanged_def timer_fired_def
      triggerUpgrade_def resolvePreference_def demo_config_def demo_phone_def appRouteKey_def new_orch_def
      backing_off_def hasInFlightForApp_def send_def)
end
