(* ===== verification/Topology.thy ===== *)
theory Topology
  imports Orchestrator TokenBucket
begin

text \<open>
  The relay's connections: \<open>relay/server/src/relayTypes.ts\<close> (what is kept of a connection),
  \<open>relay/server/src/runtime/topology.ts\<close> (which connections exist and whom they serve), and the
  sending of messages (\<open>RelayServer.send\<close>).

  A connection object is shared by many maps and updated in place, so the state has a heap
  (\<open>obj\<close>, from connection ids to objects) and the maps hold ids. \<open>clock\<close> and \<open>rnd\<close> are the
  clock and the random text of the event being handled; no event draws more than one. What
  leaves the relay is appended to \<open>outbox\<close>: frames written to open sockets, sockets closed, and
  the calls to the state store.
\<close>

declare map_of_eq_Some_iff [simp del] Some_eq_map_of_iff [simp del]

section \<open>Connections\<close>

datatype endpoint = Agent_endpoint | Mobile_endpoint
datatype role = Unknown | Agent | Mobile
datatype conn_state = Socket_connected | Registered_agent | Mobile_connected
  | Relay_pairing_verified | E2e_handshaking | E2e_ready | Closed
datatype auth_state = Auth_none | Auth_pending | Auth_verified | Auth_failed
datatype path = Path_relay | Path_p2p

record agent_peer =
  p_handshakeId :: string
  p_transcriptHash :: "string option"
  p_e2eSessionId :: "string option"
  p_ready :: bool

record app_info =
  instanceId :: string
  runtimeId :: string

record rconn =
  k_endpoint :: endpoint
  k_role :: role
  k_state :: conn_state
  k_userId :: "string option"
  k_deviceId :: "string option"
  k_devicePublicKey :: "string option"
  k_appId :: "string option"
  k_appPublicKey :: "string option"
  k_appInfo :: "app_info option"
  k_authenticated :: bool
  k_remoteIp :: string
  k_connectedAt :: int
  k_lastSeenAt :: int
  k_authState :: auth_state
  k_transportPath :: path
  k_transportPreference :: "TransportPreference option"
  k_e2eHandshakeId :: "string option"
  k_e2eTranscriptHash :: "string option"
  k_e2eSessionId :: "string option"
  k_agentE2EPeers :: "(string, agent_peer) jmap"
  k_closed :: bool

text \<open>The object \<open>RuntimeTopology.register\<close> creates; \<open>k_closed\<close> is the socket's.\<close>

definition new_rconn :: "endpoint \<Rightarrow> string \<Rightarrow> string option \<Rightarrow> int \<Rightarrow> rconn" where
  "new_rconn ep ip user now =
     \<lparr>k_endpoint = ep, k_role = Unknown, k_state = Socket_connected, k_userId = user, k_deviceId = None,
      k_devicePublicKey = None, k_appId = None, k_appPublicKey = None, k_appInfo = None,
      k_authenticated = False, k_remoteIp = ip, k_connectedAt = now, k_lastSeenAt = now,
      k_authState = Auth_none, k_transportPath = Path_relay, k_transportPreference = None,
      k_e2eHandshakeId = None, k_e2eTranscriptHash = None, k_e2eSessionId = None,
      k_agentE2EPeers = [], k_closed = False\<rparr>"

record pending_auth =
  pa_deviceId :: string
  pa_agentPublicKey :: string
  pa_appId :: string
  pa_appPublicKey :: string
  pa_agentConnectionId :: string
  pa_nonce :: string
  pa_appInfo :: app_info
  pa_expiresAt :: int
  pa_approvalPending :: bool

record delivery_context =
  dc_deviceId :: string
  dc_agentConnectionId :: string
  dc_appConnectionId :: string
  dc_expiresAt :: int

section \<open>Messages\<close>

record auth_init =
  ai_device_id :: string
  ai_device_public_key :: string

record agent_hello =
  ah_device_id :: string
  ah_device_public_key :: string
  ah_hostname :: string
  ah_platform :: string
  ah_system_type :: "string option"
  ah_uname :: "string option"
  ah_agent_version :: string

record mobile_connect =
  mc_device_id :: string
  mc_app_id :: string
  mc_app_public_key :: string
  mc_app_info :: app_info
  mc_transport_preference :: "TransportPreference option"
  mc_session_token :: "string option"

record auth_proof =
  ap_nonce :: string
  ap_connection_id :: string
  ap_agent_connection_id :: string
  ap_device_id :: string
  ap_agent_public_key :: string
  ap_app_id :: string
  ap_app_public_key :: string
  ap_app_info :: app_info
  ap_timestamp :: int
  ap_signature :: string

record auth_ok =
  ao_nonce :: string
  ao_device_id :: string
  ao_agent_public_key :: string
  ao_app_id :: string
  ao_agent_connection_id :: string
  ao_connection_id :: string

datatype auth_failure = Device_not_online | Identity_mismatch | Invalid_signature
  | Too_many_attempts | Malformed_proof | Approval_timeout | Other_failure string

datatype error_detail = Not_allowed string conn_state | No_context string | Not_routable string

record delivery =
  dl_id :: "string option"
  dl_type :: string
  dl_session_id :: "string option"
  dl_surface_id :: "string option"
  dl_seq :: "nat option"
  dl_payload :: string

datatype body =
    B_agent_auth_init auth_init
  | B_agent_hello agent_hello
  | B_mobile_connect mobile_connect
  | B_auth_proof auth_proof
  | B_auth_ok auth_ok
  | B_auth_pending string "int option"
  | B_auth_failed auth_failure "string option" "int option"
  | B_network_changed string
  | B_relay_app_deliver string delivery
  | B_e2e_init string string
  | B_e2e_reply string string
  | B_e2e_ready string string string
  | B_e2e_message string string string
  | B_e2e_failed "string option"
  | B_e2e_control string
  | B_upgrade_committed "string option" "string option"
  | B_upgrade_downgrade "string option" "string option" "string option"
  | B_upgrade_signal string
  | B_business string string
  | B_agent_challenge string
  | B_agent_auth_ok string
  | B_auth_challenge string int string string string
  | B_auth_verify auth_proof app_info
  | B_orchestrator envelope
  | B_protocol_error string error_detail bool
  | B_delivered string string

text \<open>\<open>MessageEnvelope\<close>; \<open>None\<close> as \<open>msg_id\<close> is an id made by \<open>createMessageId\<close>.\<close>

record message =
  msg_id :: "string option"
  msg_device :: "string option"
  msg_session :: "string option"
  msg_surface :: "string option"
  msg_app :: "string option"
  msg_ctx :: "string option"
  msg_seq :: "nat option"
  msg_body :: body

definition createMessage :: "string option \<Rightarrow> body \<Rightarrow> message" where
  "createMessage device b = \<lparr>msg_id = None, msg_device = device, msg_session = None, msg_surface = None,
     msg_app = None, msg_ctx = None, msg_seq = None, msg_body = b\<rparr>"

section \<open>The state\<close>

datatype link_state = L_pairing | L_authenticated | L_e2e_handshaking | L_e2e_ready | L_p2p | L_closed

datatype store_call =
    SC_register string | SC_close string | SC_agent string | SC_app string
  | SC_authenticate string string | SC_link string string string link_state path "string option"
  | SC_ingress string | SC_egress string | SC_auth_failed | SC_route_dropped | SC_protocol_error

datatype relay_effect = Frame string message | Sock_close string nat string | Store store_call

record relay =
  obj :: "string \<Rightarrow> rconn"
  connections :: "string jset"
  agentsByDevice :: "(string, string jset) jmap"
  primaryAgentByDevice :: "(string, string) jmap"
  mobilesByDevice :: "(string, string jset) jmap"
  pendingAuth :: "(string, pending_auth) jmap"
  contexts :: "(string, delivery_context) jmap"
  authLimiter :: limiter
  orchestrator :: orch
  outbox :: "relay_effect list"
  clock :: int
  rnd :: string

definition RELAY_AGENT_SHUTDOWN_CLOSE_CODE :: nat where "RELAY_AGENT_SHUTDOWN_CLOSE_CODE = 4404"
definition RELAY_AGENT_SUPERSEDED_CLOSE_REASON :: string where
  "RELAY_AGENT_SUPERSEDED_CLOSE_REASON = ''agent_superseded''"

definition upd :: "string \<Rightarrow> (rconn \<Rightarrow> rconn) \<Rightarrow> relay \<Rightarrow> relay" where
  "upd c f s = s\<lparr>obj := (obj s)(c := f (obj s c))\<rparr>"

definition emit :: "relay_effect \<Rightarrow> relay \<Rightarrow> relay" where
  "emit e s = s\<lparr>outbox := outbox s @ [e]\<rparr>"

text \<open>\<open>RelayServer.send\<close>: \<open>sendText\<close> drops the text when the socket is closed.\<close>

definition send_msg :: "string \<Rightarrow> message \<Rightarrow> relay \<Rightarrow> relay" where
  "send_msg c m s =
     (let s = upd c (\<lambda>k. k\<lparr>k_lastSeenAt := clock s\<rparr>) s; s = emit (Store (SC_egress c)) s
      in if k_closed (obj s c) then s else emit (Frame c m) s)"

section \<open>The topology\<close>

definition register :: "string \<Rightarrow> endpoint \<Rightarrow> string \<Rightarrow> string option \<Rightarrow> relay \<Rightarrow> relay" where
  "register c ep ip user s =
     emit (Store (SC_register c))
       (s\<lparr>obj := (obj s)(c := new_rconn ep ip user (clock s)), connections := jset_add c (connections s)\<rparr>)"

text \<open>The two halves of \<open>unregister\<close>: an agent, and a phone, leaving its device's sets.\<close>

definition leave_agent :: "string \<Rightarrow> string \<Rightarrow> relay \<Rightarrow> relay" where
  "leave_agent d c s =
     (let agents = map_option (jset_del c) (jget (agentsByDevice s) d);
          s = (case agents of
                 None \<Rightarrow> s
               | Some as \<Rightarrow> s\<lparr>agentsByDevice :=
                   (if as = [] then jdel d (agentsByDevice s) else jput d as (agentsByDevice s))\<rparr>)
      in if jget (primaryAgentByDevice s) d = Some c then
           (case agents of
              Some (n # _) \<Rightarrow> s\<lparr>primaryAgentByDevice := jput d n (primaryAgentByDevice s)\<rparr>
            | _ \<Rightarrow> s\<lparr>primaryAgentByDevice := jdel d (primaryAgentByDevice s),
                    orchestrator := notifyAgentDisconnected d (orchestrator s)\<rparr>)
         else s)"

definition leave_mobile :: "string \<Rightarrow> string \<Rightarrow> relay \<Rightarrow> relay" where
  "leave_mobile d c s =
     (let s = (case jget (mobilesByDevice s) d of
                 None \<Rightarrow> s
               | Some ms \<Rightarrow> s\<lparr>mobilesByDevice := jput d (jset_del c ms) (mobilesByDevice s)\<rparr>)
      in s\<lparr>orchestrator := notifyMobileDisconnected d
             \<lparr>conn_id = c, conn_preference = k_transportPreference (obj s c)\<rparr> (orchestrator s)\<rparr>)"

definition leaving :: "string \<Rightarrow> relay \<Rightarrow> relay" where
  "leaving c s = (upd c (\<lambda>k. k\<lparr>k_state := Closed\<rparr>) s)
     \<lparr>connections := jset_del c (connections s), pendingAuth := jdel c (pendingAuth s)\<rparr>"

definition unregister :: "string \<Rightarrow> relay \<Rightarrow> relay" where
  "unregister c s =
     emit (Store (SC_close c))
       (if k_role (obj s c) = Agent \<and> k_deviceId (obj s c) \<noteq> None
        then leave_agent (the (k_deviceId (obj s c))) c (leaving c s)
        else if k_role (obj s c) = Mobile \<and> k_deviceId (obj s c) \<noteq> None
        then leave_mobile (the (k_deviceId (obj s c))) c (leaving c s)
        else leaving c s)"

text \<open>\<open>WebSocketConnection.close\<close>: once, and it runs the close handler, which unregisters.\<close>

definition close_socket :: "string \<Rightarrow> nat \<Rightarrow> string \<Rightarrow> relay \<Rightarrow> relay" where
  "close_socket c code reason s =
     (if k_closed (obj s c) then s
      else unregister c (upd c (\<lambda>k. k\<lparr>k_closed := True\<rparr>) (emit (Sock_close c code reason) s)))"

text \<open>The peer has gone: the same without a close frame.\<close>

definition socket_lost :: "string \<Rightarrow> relay \<Rightarrow> relay" where
  "socket_lost c s =
     (if k_closed (obj s c) then s else unregister c (upd c (\<lambda>k. k\<lparr>k_closed := True\<rparr>) s))"

definition getConnection :: "string \<Rightarrow> relay \<Rightarrow> rconn option" where
  "getConnection c s = (if c \<in> set (connections s) then Some (obj s c) else None)"

text \<open>Ids in a parsed message are non-empty strings, so an id that is present is truthy.\<close>

definition getPrimaryAgent :: "string option \<Rightarrow> relay \<Rightarrow> string option" where
  "getPrimaryAgent d s = (case d of None \<Rightarrow> None | Some d \<Rightarrow> jget (primaryAgentByDevice s) d)"

definition members :: "(string, string jset) jmap \<Rightarrow> string \<Rightarrow> string list" where
  "members m d = (case jget m d of None \<Rightarrow> [] | Some xs \<Rightarrow> xs)"

definition supersede :: "nat \<Rightarrow> string \<Rightarrow> relay \<Rightarrow> relay" where
  "supersede code c s = unregister c (close_socket c code RELAY_AGENT_SUPERSEDED_CLOSE_REASON s)"

definition addAgentToDevice :: "string \<Rightarrow> string \<Rightarrow> relay \<Rightarrow> relay" where
  "addAgentToDevice d c s =
     (let olds = filter (\<lambda>a. a \<noteq> c) (members (agentsByDevice s) d);
          s = fold (supersede RELAY_AGENT_SHUTDOWN_CLOSE_CODE) olds s;
          mobiles = members (mobilesByDevice s) d;
          s = fold (supersede 4403) mobiles s
      in s\<lparr>agentsByDevice := jput d [c] (agentsByDevice s),
           primaryAgentByDevice := jput d c (primaryAgentByDevice s)\<rparr>)"

definition addMobileToDevice :: "string \<Rightarrow> string \<Rightarrow> relay \<Rightarrow> relay" where
  "addMobileToDevice d c s =
     s\<lparr>mobilesByDevice := jput d (jset_add c (members (mobilesByDevice s) d)) (mobilesByDevice s)\<rparr>"

definition closeDeviceConnections :: "string \<Rightarrow> relay \<Rightarrow> relay" where
  "closeDeviceConnections d s =
     fold (\<lambda>c s. if k_deviceId (obj s c) = Some d then close_socket c 4403 ''device_revoked'' s else s)
       (connections s) s"

text \<open>
  An orchestrator call: what it sends goes out through \<open>send\<close>. The orchestrator keeps references
  to connections; what it reads of them is their id and their preference.
\<close>

definition orch_conn :: "string \<Rightarrow> relay \<Rightarrow> conn" where
  "orch_conn c s = \<lparr>conn_id = c, conn_preference = k_transportPreference (obj s c)\<rparr>"

definition forward :: "conn \<times> envelope \<Rightarrow> relay \<Rightarrow> relay" where
  "forward x = send_msg (conn_id (fst x)) (createMessage (Some (e_device (snd x))) (B_orchestrator (snd x)))"

definition run_orchestrator :: "(orch \<Rightarrow> orch) \<Rightarrow> relay \<Rightarrow> relay" where
  "run_orchestrator f s =
     (let o' = f (orchestrator s)
      in fold forward (drop (length (sent (orchestrator s))) (sent o')) (s\<lparr>orchestrator := o'\<rparr>))"

section \<open>The invariant\<close>

text \<open>
  One agent per device: the registered agents (but for those of \<open>X\<close>, which are being
  admitted) are primary agents of their devices, and the set kept of a device's agents is the
  singleton of its primary. Pending authentications are of phones. The registered connections are
  those with an open socket. A primary agent is registered, unless it is one of \<open>H\<close>: the code hears
  messages that arrive on a connection after it has been closed, an \<open>agent.hello\<close> among them, and
  \<open>H\<close> holds the connections that have been heard so late. Only connections of the phones' endpoint
  are kept as phones of a device.
\<close>

definition base_inv :: "string set \<Rightarrow> relay \<Rightarrow> bool" where
  "base_inv X s \<longleftrightarrow>
     distinct (connections s) \<and>
     (\<forall>d c. jget (primaryAgentByDevice s) d = Some c \<longrightarrow>
        k_role (obj s c) = Agent \<and> k_deviceId (obj s c) = Some d \<and>
        k_authenticated (obj s c) \<and> jget (agentsByDevice s) d = Some [c]) \<and>
     (\<forall>d as. jget (agentsByDevice s) d = Some as \<longrightarrow> (\<exists>c. as = [c] \<and> jget (primaryAgentByDevice s) d = Some c)) \<and>
     (\<forall>c \<in> set (connections s) - X. k_role (obj s c) = Agent \<longrightarrow>
        (\<exists>d. k_deviceId (obj s c) = Some d \<and> jget (primaryAgentByDevice s) d = Some c)) \<and>
     (\<forall>c. (k_role (obj s c) = Agent \<longrightarrow> k_endpoint (obj s c) = Agent_endpoint) \<and>
        (k_role (obj s c) = Mobile \<longrightarrow> k_endpoint (obj s c) = Mobile_endpoint) \<and>
        (k_authenticated (obj s c) \<longrightarrow> k_role (obj s c) \<noteq> Unknown)) \<and>
     (\<forall>c p. jget (pendingAuth s) c = Some p \<longrightarrow> k_role (obj s c) = Mobile)"

definition open_inv :: "relay \<Rightarrow> bool" where
  "open_inv s \<longleftrightarrow> (\<forall>c. (c \<in> set (connections s) \<longleftrightarrow> \<not> k_closed (obj s c)) \<and>
     (c \<in> set (connections s) \<longrightarrow> k_state (obj s c) \<noteq> Closed))"

definition late_inv :: "string set \<Rightarrow> relay \<Rightarrow> bool" where
  "late_inv H s \<longleftrightarrow> (\<forall>d c. jget (primaryAgentByDevice s) d = Some c \<longrightarrow> c \<in> set (connections s) \<union> H)"

definition mobiles_ok :: "relay \<Rightarrow> bool" where
  "mobiles_ok s \<longleftrightarrow> (\<forall>d. \<forall>x \<in> set (members (mobilesByDevice s) d). k_endpoint (obj s x) = Mobile_endpoint)"

definition topo_inv :: "string set \<Rightarrow> string set \<Rightarrow> relay \<Rightarrow> bool" where
  "topo_inv X H s \<longleftrightarrow> base_inv X s \<and> open_inv s \<and> late_inv H s"

text \<open>The parts of the state an operation leaves alone.\<close>

definition same_maps :: "relay \<Rightarrow> relay \<Rightarrow> bool" where
  "same_maps s t \<longleftrightarrow> connections t = connections s \<and> agentsByDevice t = agentsByDevice s \<and>
     primaryAgentByDevice t = primaryAgentByDevice s \<and> mobilesByDevice t = mobilesByDevice s \<and>
     pendingAuth t = pendingAuth s \<and> contexts t = contexts s"

text \<open>What an object says that the maps depend on.\<close>

definition same_ident :: "rconn \<Rightarrow> rconn \<Rightarrow> bool" where
  "same_ident k j \<longleftrightarrow> k_role j = k_role k \<and> k_deviceId j = k_deviceId k \<and> k_endpoint j = k_endpoint k \<and>
     k_authenticated j = k_authenticated k"

lemma base_inv_cong:
  "same_maps s t \<Longrightarrow> \<forall>c. same_ident (obj s c) (obj t c) \<Longrightarrow> base_inv X t = base_inv X s"
  by (simp add: base_inv_def same_maps_def same_ident_def)

lemma topo_inv_cong:
  "same_maps s t \<Longrightarrow> \<forall>c. same_ident (obj s c) (obj t c) \<and> k_closed (obj t c) = k_closed (obj s c) \<and>
     (k_state (obj t c) = Closed) = (k_state (obj s c) = Closed) \<Longrightarrow> topo_inv X H t = topo_inv X H s"
  by (simp add: topo_inv_def base_inv_cong open_inv_def) (simp add: same_maps_def late_inv_def)

lemma emit_keeps [simp]:
  "obj (emit e s) = obj s" "connections (emit e s) = connections s" "agentsByDevice (emit e s) = agentsByDevice s"
  "primaryAgentByDevice (emit e s) = primaryAgentByDevice s" "mobilesByDevice (emit e s) = mobilesByDevice s"
  "pendingAuth (emit e s) = pendingAuth s" "contexts (emit e s) = contexts s" "authLimiter (emit e s) = authLimiter s"
  "orchestrator (emit e s) = orchestrator s" "clock (emit e s) = clock s" "rnd (emit e s) = rnd s"
  "outbox (emit e s) = outbox s @ [e]"
  by (simp_all add: emit_def)

lemma upd_keeps [simp]:
  "obj (upd c f s) = (obj s)(c := f (obj s c))" "connections (upd c f s) = connections s"
  "agentsByDevice (upd c f s) = agentsByDevice s" "primaryAgentByDevice (upd c f s) = primaryAgentByDevice s"
  "mobilesByDevice (upd c f s) = mobilesByDevice s" "pendingAuth (upd c f s) = pendingAuth s"
  "contexts (upd c f s) = contexts s" "authLimiter (upd c f s) = authLimiter s"
  "orchestrator (upd c f s) = orchestrator s" "clock (upd c f s) = clock s" "rnd (upd c f s) = rnd s"
  "outbox (upd c f s) = outbox s"
  by (simp_all add: upd_def)

lemma send_keeps [simp]:
  "obj (send_msg c m s) = (obj s)(c := (obj s c)\<lparr>k_lastSeenAt := clock s\<rparr>)"
  "connections (send_msg c m s) = connections s"
  "agentsByDevice (send_msg c m s) = agentsByDevice s" "primaryAgentByDevice (send_msg c m s) = primaryAgentByDevice s"
  "mobilesByDevice (send_msg c m s) = mobilesByDevice s" "pendingAuth (send_msg c m s) = pendingAuth s"
  "contexts (send_msg c m s) = contexts s" "authLimiter (send_msg c m s) = authLimiter s"
  "orchestrator (send_msg c m s) = orchestrator s" "clock (send_msg c m s) = clock s" "rnd (send_msg c m s) = rnd s"
  by (simp_all add: send_msg_def Let_def)

lemma send_outbox:
  "outbox (send_msg c m s) = outbox s @ Store (SC_egress c) # (if k_closed (obj s c) then [] else [Frame c m])"
  by (simp add: send_msg_def Let_def)

lemma topo_inv_send [simp]: "topo_inv X H (send_msg c m s) = topo_inv X H s"
  by (rule topo_inv_cong) (simp_all add: same_maps_def same_ident_def)

lemma topo_inv_emit [simp]: "topo_inv X H (emit e s) = topo_inv X H s"
  by (rule topo_inv_cong) (simp_all add: same_maps_def same_ident_def)

lemma topo_inv_fields [simp]:
  "topo_inv X H (s\<lparr>orchestrator := o'\<rparr>) = topo_inv X H s" "topo_inv X H (s\<lparr>authLimiter := l\<rparr>) = topo_inv X H s"
  "topo_inv X H (s\<lparr>contexts := x\<rparr>) = topo_inv X H s" "topo_inv X H (s\<lparr>clock := t\<rparr>) = topo_inv X H s"
  "topo_inv X H (s\<lparr>rnd := r\<rparr>) = topo_inv X H s" "topo_inv X H (s\<lparr>mobilesByDevice := ms\<rparr>) = topo_inv X H s"
  "topo_inv X H (s\<lparr>outbox := ob\<rparr>) = topo_inv X H s"
  by (simp_all add: topo_inv_def base_inv_def open_inv_def late_inv_def)

lemma topo_inv_run_orchestrator [simp]: "topo_inv X H (run_orchestrator f s) = topo_inv X H s"
proof -
  have "topo_inv X H (fold forward xs t) = topo_inv X H t" for xs t
    by (induction xs arbitrary: t) (simp_all add: forward_def)
  then show ?thesis by (simp add: run_orchestrator_def Let_def)
qed

section \<open>Leaving\<close>

lemma leave_keeps [simp]:
  "obj (leave_agent d c s) = obj s" "connections (leave_agent d c s) = connections s"
  "pendingAuth (leave_agent d c s) = pendingAuth s" "contexts (leave_agent d c s) = contexts s"
  "clock (leave_agent d c s) = clock s" "rnd (leave_agent d c s) = rnd s"
  "authLimiter (leave_agent d c s) = authLimiter s" "outbox (leave_agent d c s) = outbox s"
  "mobilesByDevice (leave_agent d c s) = mobilesByDevice s"
  by (simp_all add: leave_agent_def Let_def split: option.split list.split)

lemma leave_mobile_keeps [simp]:
  "obj (leave_mobile d c s) = obj s" "connections (leave_mobile d c s) = connections s"
  "pendingAuth (leave_mobile d c s) = pendingAuth s" "contexts (leave_mobile d c s) = contexts s"
  "clock (leave_mobile d c s) = clock s" "rnd (leave_mobile d c s) = rnd s"
  "authLimiter (leave_mobile d c s) = authLimiter s" "outbox (leave_mobile d c s) = outbox s"
  "agentsByDevice (leave_mobile d c s) = agentsByDevice s"
  "primaryAgentByDevice (leave_mobile d c s) = primaryAgentByDevice s"
  by (simp_all add: leave_mobile_def Let_def split: option.split)

lemma leaving_keeps [simp]:
  "obj (leaving c s) = (obj s)(c := (obj s c)\<lparr>k_state := Closed\<rparr>)"
  "connections (leaving c s) = jset_del c (connections s)" "pendingAuth (leaving c s) = jdel c (pendingAuth s)"
  "contexts (leaving c s) = contexts s" "clock (leaving c s) = clock s" "rnd (leaving c s) = rnd s"
  "authLimiter (leaving c s) = authLimiter s" "outbox (leaving c s) = outbox s"
  "agentsByDevice (leaving c s) = agentsByDevice s" "mobilesByDevice (leaving c s) = mobilesByDevice s"
  "primaryAgentByDevice (leaving c s) = primaryAgentByDevice s" "orchestrator (leaving c s) = orchestrator s"
  by (simp_all add: leaving_def)

lemma unregister_keeps [simp]:
  "obj (unregister c s) = (obj s)(c := (obj s c)\<lparr>k_state := Closed\<rparr>)"
  "connections (unregister c s) = jset_del c (connections s)"
  "pendingAuth (unregister c s) = jdel c (pendingAuth s)"
  "contexts (unregister c s) = contexts s" "clock (unregister c s) = clock s" "rnd (unregister c s) = rnd s"
  "authLimiter (unregister c s) = authLimiter s"
  "outbox (unregister c s) = outbox s @ [Store (SC_close c)]"
  by (simp_all add: unregister_def)

lemma leave_agent_maps:
  "jget (primaryAgentByDevice (leave_agent d c s)) e =
     (if e = d \<and> jget (primaryAgentByDevice s) d = Some c
      then (case map_option (jset_del c) (jget (agentsByDevice s) d) of Some (n # _) \<Rightarrow> Some n | _ \<Rightarrow> None)
      else jget (primaryAgentByDevice s) e)"
  "jget (agentsByDevice (leave_agent d c s)) e =
     (if e = d then (case map_option (jset_del c) (jget (agentsByDevice s) d) of Some (n # r) \<Rightarrow> Some (n # r) | _ \<Rightarrow> None)
      else jget (agentsByDevice s) e)"
  by (simp_all add: leave_agent_def Let_def split: option.split list.split)

lemma unregister_agent_maps:
  assumes "base_inv X s"
  shows "jget (primaryAgentByDevice (unregister c s)) d =
      (if jget (primaryAgentByDevice s) d = Some c then None else jget (primaryAgentByDevice s) d)"
    and "jget (agentsByDevice (unregister c s)) d =
      (if jget (primaryAgentByDevice s) d = Some c then None else jget (agentsByDevice s) d)"
proof -
  have prim: "k_role (obj s c') = Agent \<and> k_deviceId (obj s c') = Some d' \<and> jget (agentsByDevice s) d' = Some [c']"
    if "jget (primaryAgentByDevice s) d' = Some c'" for d' c'
    using assms that unfolding base_inv_def by blast
  have ags: "\<exists>c'. as = [c'] \<and> jget (primaryAgentByDevice s) d' = Some c'"
    if "jget (agentsByDevice s) d' = Some as" for d' as
    using assms that unfolding base_inv_def by blast
  have "jget (primaryAgentByDevice (unregister c s)) d =
      (if jget (primaryAgentByDevice s) d = Some c then None else jget (primaryAgentByDevice s) d) \<and>
    jget (agentsByDevice (unregister c s)) d =
      (if jget (primaryAgentByDevice s) d = Some c then None else jget (agentsByDevice s) d)"
  proof (cases "k_role (obj s c) = Agent \<and> k_deviceId (obj s c) \<noteq> None")
    case True
    then obtain e where e: "k_role (obj s c) = Agent" "k_deviceId (obj s c) = Some e" by auto
    have only: "d = e" if "jget (primaryAgentByDevice s) d = Some c" using prim [OF that] e(2) by simp
    have u: "primaryAgentByDevice (unregister c s) = primaryAgentByDevice (leave_agent e c (leaving c s))"
      "agentsByDevice (unregister c s) = agentsByDevice (leave_agent e c (leaving c s))"
      using e by (simp_all add: unregister_def)
    show ?thesis
    proof (cases "jget (agentsByDevice s) e")
      case None
      then have ne: "jget (primaryAgentByDevice s) e \<noteq> Some c" using prim [of e c] by auto
      then have nd: "jget (primaryAgentByDevice s) d \<noteq> Some c" using only by blast
      show ?thesis by (simp add: u leave_agent_maps None ne nd)
    next
      case (Some as)
      with ags obtain c' where c': "as = [c']" "jget (primaryAgentByDevice s) e = Some c'" by blast
      show ?thesis
      proof (cases "d = e")
        case True
        show ?thesis by (cases "c' = c") (simp_all add: u leave_agent_maps jset_del_def True Some c')
      next
        case False
        then have "jget (primaryAgentByDevice s) d \<noteq> Some c" using only by blast
        with False show ?thesis by (simp add: u leave_agent_maps)
      qed
    qed
  next
    case False
    then have none: "jget (primaryAgentByDevice s) d \<noteq> Some c" using prim by blast
    have "\<not> (k_role (obj s c) = Agent \<and> k_deviceId (obj s c) \<noteq> None)" using False by simp
    then have "primaryAgentByDevice (unregister c s) = primaryAgentByDevice s" "agentsByDevice (unregister c s) = agentsByDevice s"
      unfolding unregister_def by (simp_all only: if_False emit_keeps) (simp_all split: if_split)
    with none show ?thesis by simp
  qed
  then show "jget (primaryAgentByDevice (unregister c s)) d =
      (if jget (primaryAgentByDevice s) d = Some c then None else jget (primaryAgentByDevice s) d)"
    "jget (agentsByDevice (unregister c s)) d =
      (if jget (primaryAgentByDevice s) d = Some c then None else jget (agentsByDevice s) d)" by blast+
qed

lemma base_inv_unregister:
  assumes b: "base_inv X s"
  shows "base_inv X (unregister c s)"
proof -
  note maps = unregister_agent_maps [OF b, of c]
  have agents: "\<forall>x \<in> set (connections s) - {c} - X. k_role (obj s x) = Agent \<longrightarrow> (\<exists>d. k_deviceId (obj s x) = Some d \<and>
      (if jget (primaryAgentByDevice s) d = Some c then None else jget (primaryAgentByDevice s) d) = Some x)"
  proof (intro ballI impI)
    fix x assume x: "x \<in> set (connections s) - {c} - X" "k_role (obj s x) = Agent"
    with b obtain d where d: "k_deviceId (obj s x) = Some d" "jget (primaryAgentByDevice s) d = Some x"
      unfolding base_inv_def by blast
    with x(1) show "\<exists>d. k_deviceId (obj s x) = Some d \<and>
      (if jget (primaryAgentByDevice s) d = Some c then None else jget (primaryAgentByDevice s) d) = Some x" by auto
  qed
  show ?thesis
    unfolding base_inv_def unregister_keeps maps
  proof (intro conjI)
    show "\<forall>x\<in>set (jset_del c (connections s)) - X. k_role (((obj s)(c := (obj s c)\<lparr>k_state := Closed\<rparr>)) x) = Agent \<longrightarrow>
       (\<exists>d. k_deviceId (((obj s)(c := (obj s c)\<lparr>k_state := Closed\<rparr>)) x) = Some d \<and>
        (if jget (primaryAgentByDevice s) d = Some c then None else jget (primaryAgentByDevice s) d) = Some x)"
      using agents by simp
  qed (use b [unfolded base_inv_def] in \<open>auto split: if_splits\<close>)
qed

lemma topo_inv_unregister:
  assumes b: "base_inv X s" and l: "late_inv H s" and c: "k_closed (obj s c)"
    and o: "\<forall>x. x \<noteq> c \<longrightarrow> (x \<in> set (connections s) \<longleftrightarrow> \<not> k_closed (obj s x)) \<and> (x \<in> set (connections s) \<longrightarrow> k_state (obj s x) \<noteq> Closed)"
  shows "topo_inv X H (unregister c s)"
proof -
  have "late_inv H (unregister c s)"
    using l by (fastforce simp: late_inv_def unregister_agent_maps(1) [OF b] split: if_splits)
  with b o c show ?thesis by (simp add: topo_inv_def base_inv_unregister open_inv_def)
qed

lemma topo_inv_close [simp, intro]: "topo_inv X H s \<Longrightarrow> topo_inv X H (close_socket c code reason s)"
proof -
  assume t: "topo_inv X H s"
  let ?s = "upd c (\<lambda>k. k\<lparr>k_closed := True\<rparr>) (emit (Sock_close c code reason) s)"
  have "base_inv X ?s"
    using t by (subst base_inv_cong [of s]) (simp_all add: same_maps_def same_ident_def topo_inv_def)
  then have "topo_inv X H (unregister c ?s)"
    by (rule topo_inv_unregister) (use t in \<open>auto simp: topo_inv_def open_inv_def late_inv_def\<close>)
  then show ?thesis using t by (simp add: close_socket_def)
qed

lemma topo_inv_lost [simp, intro]: "topo_inv X H s \<Longrightarrow> topo_inv X H (socket_lost c s)"
proof -
  assume t: "topo_inv X H s"
  let ?s = "upd c (\<lambda>k. k\<lparr>k_closed := True\<rparr>) s"
  have "base_inv X ?s"
    using t by (subst base_inv_cong [of s]) (simp_all add: same_maps_def same_ident_def topo_inv_def)
  then have "topo_inv X H (unregister c ?s)"
    by (rule topo_inv_unregister) (use t in \<open>auto simp: topo_inv_def open_inv_def late_inv_def\<close>)
  then show ?thesis using t by (simp add: socket_lost_def)
qed

lemma topo_inv_again: "topo_inv X H s \<Longrightarrow> k_closed (obj s c) \<Longrightarrow> topo_inv X H (unregister c s)"
  by (rule topo_inv_unregister) (auto simp: topo_inv_def open_inv_def)

section \<open>Taking over a device\<close>

lemma close_keeps [simp]:
  "set (connections (close_socket c code r s)) = (if k_closed (obj s c) then set (connections s) else set (connections s) - {c})"
  "x \<noteq> c \<Longrightarrow> obj (close_socket c code r s) x = obj s x"
  "k_endpoint (obj (close_socket c code r s) x) = k_endpoint (obj s x)"
  "k_role (obj (close_socket c code r s) x) = k_role (obj s x)"
  "k_authState (obj (close_socket c code r s) x) = k_authState (obj s x)"
  "k_authenticated (obj (close_socket c code r s) x) = k_authenticated (obj s x)"
  "k_deviceId (obj (close_socket c code r s) x) = k_deviceId (obj s x)"
  "clock (close_socket c code r s) = clock s" "rnd (close_socket c code r s) = rnd s"
  "contexts (close_socket c code r s) = contexts s" "authLimiter (close_socket c code r s) = authLimiter s"
  by (simp_all add: close_socket_def)

lemma close_primary:
  assumes "topo_inv X H s"
  shows "jget (primaryAgentByDevice (close_socket c code r s)) d =
    (if \<not> k_closed (obj s c) \<and> jget (primaryAgentByDevice s) d = Some c then None else jget (primaryAgentByDevice s) d)"
proof -
  let ?s = "upd c (\<lambda>k. k\<lparr>k_closed := True\<rparr>) (emit (Sock_close c code r) s)"
  have "base_inv X ?s"
    using assms by (subst base_inv_cong [of s]) (simp_all add: same_maps_def same_ident_def topo_inv_def)
  from unregister_agent_maps(1) [OF this, of c d] show ?thesis by (simp add: close_socket_def)
qed

lemma supersede_inv: "topo_inv X H s \<Longrightarrow> topo_inv X H (supersede code c s)"
  unfolding supersede_def by (rule topo_inv_again [OF topo_inv_close]) (simp_all add: close_socket_def)

lemma supersede_keeps [simp]:
  "set (connections (supersede code c s)) = set (connections s) - {c}"
  "x \<noteq> c \<Longrightarrow> obj (supersede code c s) x = obj s x"
  "k_endpoint (obj (supersede code c s) x) = k_endpoint (obj s x)"
  "k_role (obj (supersede code c s) x) = k_role (obj s x)"
  "k_authState (obj (supersede code c s) x) = k_authState (obj s x)"
  "k_authenticated (obj (supersede code c s) x) = k_authenticated (obj s x)"
  "k_deviceId (obj (supersede code c s) x) = k_deviceId (obj s x)"
  "k_state (obj (supersede code c s) c) = Closed"
  "clock (supersede code c s) = clock s" "rnd (supersede code c s) = rnd s"
  by (auto simp: supersede_def)

lemma supersede_primary:
  assumes "topo_inv X H s"
  shows "jget (primaryAgentByDevice (supersede code c s)) d =
    (if jget (primaryAgentByDevice s) d = Some c then None else jget (primaryAgentByDevice s) d)"
proof -
  have "base_inv X (close_socket c code RELAY_AGENT_SUPERSEDED_CLOSE_REASON s)"
    using topo_inv_close [OF assms] by (simp add: topo_inv_def)
  from unregister_agent_maps(1) [OF this, of c d] show ?thesis
    by (simp add: supersede_def close_primary [OF assms])
qed

lemma supersede_all:
  "topo_inv X H s \<Longrightarrow> topo_inv X H (fold (supersede code) xs s) \<and>
     set (connections (fold (supersede code) xs s)) = set (connections s) - set xs \<and>
     (\<forall>x. x \<notin> set xs \<longrightarrow> obj (fold (supersede code) xs s) x = obj s x) \<and>
     (\<forall>x. k_endpoint (obj (fold (supersede code) xs s) x) = k_endpoint (obj s x)) \<and>
     (\<forall>x. k_role (obj (fold (supersede code) xs s) x) = k_role (obj s x)) \<and>
     (\<forall>x. k_authState (obj (fold (supersede code) xs s) x) = k_authState (obj s x)) \<and>
     (\<forall>d. jget (primaryAgentByDevice (fold (supersede code) xs s)) d =
        (if \<exists>x \<in> set xs. jget (primaryAgentByDevice s) d = Some x then None else jget (primaryAgentByDevice s) d))"
proof (induction xs arbitrary: s)
  case Nil
  then show ?case by simp
next
  case (Cons x xs)
  from Cons.IH [OF supersede_inv [OF Cons.prems, of code x]]
  show ?case using supersede_primary [OF Cons.prems, of code x] by auto
qed

lemma members_simps [simp]:
  "members (jput d xs m) e = (if e = d then xs else members m e)"
  by (simp add: members_def)

lemma leave_mobile_members: "set (members (mobilesByDevice (leave_mobile d c s)) e) \<subseteq> set (members (mobilesByDevice s) e)"
  by (auto simp: leave_mobile_def Let_def members_def split: option.splits)

lemma unregister_members: "set (members (mobilesByDevice (unregister c s)) e) \<subseteq> set (members (mobilesByDevice s) e)"
  using leave_mobile_members [of _ c "leaving c s" e] by (auto simp: unregister_def split: if_splits)

lemma close_members: "set (members (mobilesByDevice (close_socket c code r s)) e) \<subseteq> set (members (mobilesByDevice s) e)"
  using unregister_members [of c "upd c (\<lambda>k. k\<lparr>k_closed := True\<rparr>) (emit (Sock_close c code r) s)" e]
  by (auto simp: close_socket_def)

lemma supersede_members: "set (members (mobilesByDevice (fold (supersede code) xs s)) e) \<subseteq> set (members (mobilesByDevice s) e)"
proof (induction xs arbitrary: s)
  case (Cons x xs)
  have "set (members (mobilesByDevice (supersede code x s)) e) \<subseteq> set (members (mobilesByDevice s) e)"
    using unregister_members close_members unfolding supersede_def by (rule subset_trans)
  with Cons [of "supersede code x s"] show ?case by auto
qed simp

lemma addAgent_inv:
  assumes inv: "topo_inv {c} H s" and c: "c \<in> set (connections s) \<union> H" "k_role (obj s c) = Agent"
    "k_deviceId (obj s c) = Some d" "k_authenticated (obj s c)"
    and mobiles: "mobiles_ok s"
  shows "topo_inv {} H (addAgentToDevice d c s)"
proof -
  let ?olds = "filter (\<lambda>a. a \<noteq> c) (members (agentsByDevice s) d)"
  let ?s1 = "fold (supersede RELAY_AGENT_SHUTDOWN_CLOSE_CODE) ?olds s"
  let ?ms = "members (mobilesByDevice ?s1) d"
  let ?s2 = "fold (supersede 4403) ?ms ?s1"
  note one = supersede_all [OF inv, of RELAY_AGENT_SHUTDOWN_CLOSE_CODE ?olds]
  then have inv1: "topo_inv {c} H ?s1" by blast
  note two = supersede_all [OF inv1, of 4403 ?ms]
  have "k_endpoint (obj s c) = Agent_endpoint" using inv c by (simp add: topo_inv_def base_inv_def)
  then have "c \<notin> set (members (mobilesByDevice s) d)" using mobiles by (auto simp: mobiles_ok_def)
  then have cm: "c \<notin> set ?ms" using supersede_members by blast
  have co: "obj ?s2 c = obj s c" using one two cm by simp
  have cin: "c \<in> set (connections ?s2) \<union> H" using one two cm c(1) by auto
  have gone: "jget (primaryAgentByDevice ?s2) d = None \<or> jget (primaryAgentByDevice ?s2) d = Some c"
  proof (cases "jget (primaryAgentByDevice s) d")
    case None
    then show ?thesis using one two by simp
  next
    case (Some a)
    then have "members (agentsByDevice s) d = [a]" using inv by (simp add: topo_inv_def base_inv_def members_def)
    with Some one two show ?thesis by (cases "a = c") auto
  qed
  have b2: "base_inv {c} ?s2" and o2: "open_inv ?s2" and l2: "late_inv H ?s2" using two by (simp_all add: topo_inv_def)
  have other: "\<forall>x \<in> set (connections ?s2). x \<noteq> c \<longrightarrow> k_role (obj ?s2 x) = Agent \<longrightarrow>
      (\<exists>e. e \<noteq> d \<and> k_deviceId (obj ?s2 x) = Some e \<and> jget (primaryAgentByDevice ?s2) e = Some x)"
  proof (intro ballI impI)
    fix x assume x: "x \<in> set (connections ?s2)" "x \<noteq> c" "k_role (obj ?s2 x) = Agent"
    with b2 obtain e where "k_deviceId (obj ?s2 x) = Some e" "jget (primaryAgentByDevice ?s2) e = Some x"
      unfolding base_inv_def by blast
    with gone x(2) show "\<exists>e. e \<noteq> d \<and> k_deviceId (obj ?s2 x) = Some e \<and> jget (primaryAgentByDevice ?s2) e = Some x"
      by (metis option.distinct(1) option.inject)
  qed
  have cdev: "k_role (obj ?s2 c) = Agent" "k_deviceId (obj ?s2 c) = Some d" "k_authenticated (obj ?s2 c)"
    using co c by simp_all
  have "base_inv {} (?s2\<lparr>agentsByDevice := jput d [c] (agentsByDevice ?s2),
      primaryAgentByDevice := jput d c (primaryAgentByDevice ?s2)\<rparr>)"
    unfolding base_inv_def
  proof (intro conjI)
    show "\<forall>x\<in>set (connections (?s2\<lparr>agentsByDevice := jput d [c] (agentsByDevice ?s2),
        primaryAgentByDevice := jput d c (primaryAgentByDevice ?s2)\<rparr>)) - {}.
      k_role (obj (?s2\<lparr>agentsByDevice := jput d [c] (agentsByDevice ?s2),
        primaryAgentByDevice := jput d c (primaryAgentByDevice ?s2)\<rparr>) x) = Agent \<longrightarrow>
      (\<exists>e. k_deviceId (obj (?s2\<lparr>agentsByDevice := jput d [c] (agentsByDevice ?s2),
        primaryAgentByDevice := jput d c (primaryAgentByDevice ?s2)\<rparr>) x) = Some e \<and>
        jget (primaryAgentByDevice (?s2\<lparr>agentsByDevice := jput d [c] (agentsByDevice ?s2),
        primaryAgentByDevice := jput d c (primaryAgentByDevice ?s2)\<rparr>)) e = Some x)"
      using other cdev(2) by (simp, metis)
  qed (use b2 [unfolded base_inv_def] cdev in \<open>auto split: if_splits\<close>)
  then show ?thesis
    using o2 l2 cin by (simp add: addAgentToDevice_def Let_def topo_inv_def open_inv_def late_inv_def)
qed
lemma agent_unregister_mobiles:
  "k_role (obj s c) = Agent \<Longrightarrow> mobilesByDevice (unregister c s) = mobilesByDevice s"
  by (simp add: unregister_def)

lemma agent_supersede_mobiles:
  "k_role (obj s c) = Agent \<Longrightarrow> mobilesByDevice (supersede code c s) = mobilesByDevice s"
  by (simp add: supersede_def close_socket_def agent_unregister_mobiles)

lemma agents_supersede_mobiles:
  "\<forall>x \<in> set xs. k_role (obj s x) = Agent \<Longrightarrow> mobilesByDevice (fold (supersede code) xs s) = mobilesByDevice s"
  by (induction xs arbitrary: s) (simp_all add: agent_supersede_mobiles)

lemma supersede_closed: "x \<in> set xs \<or> k_closed (obj s x) \<Longrightarrow> k_closed (obj (fold (supersede code) xs s) x)"
proof (induction xs arbitrary: s)
  case (Cons y ys)
  have "k_closed (obj (supersede code y s) y)" "k_closed (obj s x) \<Longrightarrow> k_closed (obj (supersede code y s) x)"
    by (simp_all add: supersede_def close_socket_def)
  with Cons.prems Cons.IH [of "supersede code y s"] show ?case by (cases "x = y") auto
qed simp

lemma supersede_ident:
  "k_endpoint (obj (fold (supersede code) xs s) x) = k_endpoint (obj s x) \<and>
   k_role (obj (fold (supersede code) xs s) x) = k_role (obj s x) \<and>
   k_authState (obj (fold (supersede code) xs s) x) = k_authState (obj s x) \<and>
   k_authenticated (obj (fold (supersede code) xs s) x) = k_authenticated (obj s x) \<and>
   k_deviceId (obj (fold (supersede code) xs s) x) = k_deviceId (obj s x) \<and>
   clock (fold (supersede code) xs s) = clock s \<and> rnd (fold (supersede code) xs s) = rnd s"
  by (induction xs arbitrary: s) simp_all

lemma addAgent_ident [simp]:
  "k_endpoint (obj (addAgentToDevice d c s) x) = k_endpoint (obj s x)"
  "k_role (obj (addAgentToDevice d c s) x) = k_role (obj s x)"
  "k_authState (obj (addAgentToDevice d c s) x) = k_authState (obj s x)"
  "k_authenticated (obj (addAgentToDevice d c s) x) = k_authenticated (obj s x)"
  "k_deviceId (obj (addAgentToDevice d c s) x) = k_deviceId (obj s x)"
  "clock (addAgentToDevice d c s) = clock s" "rnd (addAgentToDevice d c s) = rnd s"
  by (simp_all add: addAgentToDevice_def Let_def supersede_ident)

lemma addAgent_primary [simp]:
  "jget (primaryAgentByDevice (addAgentToDevice d c s)) d = Some c"
  "jget (agentsByDevice (addAgentToDevice d c s)) d = Some [c]"
  by (simp_all add: addAgentToDevice_def Let_def)

text \<open>Everybody else on the device is closed and forgotten, nobody of another device is touched.\<close>

lemma addAgent_takes_over:
  fixes d c s
  defines "gone \<equiv> (set (members (agentsByDevice s) d) - {c}) \<union> set (members (mobilesByDevice s) d)"
  assumes inv: "topo_inv {c} H s"
  shows "set (connections (addAgentToDevice d c s)) = set (connections s) - gone"
    and "x \<in> gone \<Longrightarrow> k_closed (obj (addAgentToDevice d c s) x)"
    and "x \<notin> gone \<Longrightarrow> obj (addAgentToDevice d c s) x = obj s x"
    and "mobiles_ok s \<Longrightarrow> mobiles_ok (addAgentToDevice d c s)"
proof -
  let ?olds = "filter (\<lambda>a. a \<noteq> c) (members (agentsByDevice s) d)"
  let ?s1 = "fold (supersede RELAY_AGENT_SHUTDOWN_CLOSE_CODE) ?olds s"
  have "k_role (obj s x) = Agent" if x: "x \<in> set (members (agentsByDevice s) d)" for x
  proof -
    from x obtain as where as: "jget (agentsByDevice s) d = Some as" "x \<in> set as"
      by (cases "jget (agentsByDevice s) d") (auto simp: members_def)
    with inv have "jget (primaryAgentByDevice s) d = Some x" by (fastforce simp: topo_inv_def base_inv_def)
    with inv show ?thesis unfolding topo_inv_def base_inv_def by blast
  qed
  then have ms: "mobilesByDevice ?s1 = mobilesByDevice s" by (intro agents_supersede_mobiles) simp
  let ?ms = "members (mobilesByDevice s) d"
  let ?s2 = "fold (supersede 4403) ?ms ?s1"
  note one = supersede_all [OF inv, of RELAY_AGENT_SHUTDOWN_CLOSE_CODE ?olds]
  note two = supersede_all [OF one [THEN conjunct1], of 4403 ?ms]
  have fin: "addAgentToDevice d c s = ?s2\<lparr>agentsByDevice := jput d [c] (agentsByDevice ?s2),
      primaryAgentByDevice := jput d c (primaryAgentByDevice ?s2)\<rparr>"
    by (simp add: addAgentToDevice_def Let_def ms)
  show "set (connections (addAgentToDevice d c s)) = set (connections s) - gone"
    using one two by (simp add: fin gone_def) blast
  show "x \<in> gone \<Longrightarrow> k_closed (obj (addAgentToDevice d c s) x)"
    using supersede_closed by (auto simp: fin gone_def)
  show "x \<notin> gone \<Longrightarrow> obj (addAgentToDevice d c s) x = obj s x"
    using one two by (simp add: fin gone_def)
  show "mobiles_ok (addAgentToDevice d c s)" if "mobiles_ok s"
  proof -
    have "set (members (mobilesByDevice ?s2) e) \<subseteq> set (members (mobilesByDevice s) e)" for e
      using supersede_members [of _ ?ms ?s1 e] by (simp add: ms)
    with that show ?thesis by (fastforce simp: mobiles_ok_def fin supersede_ident)
  qed
qed
end
