(* ===== verification/Broker.thy ===== *)
theory Broker
  imports Topology
begin

text \<open>
  The relay server between Apps and agents: admission of agents
  (\<open>relay/server/src/app-agent/agentAdmission.ts\<close>) and Apps (\<open>appAdmission.ts\<close>), the forwarding of
  proofs and verdicts (\<open>authBridge.ts\<close>), the routing of messages (\<open>channel.ts\<close>), the gate in front of
  end-to-end encrypted traffic (\<open>relay/server/src/relayE2EController.ts\<close>), the periodic clean-up
  (\<open>runtime/maintenance.ts\<close>) and the dispatch by message type (\<open>relayServer.ts\<close>).

  Policies backed by the user database and by signature checks are functions of the environment
  \<open>relay_env\<close>: what they decide is theirs, what the relay does with the decision is modelled.
\<close>

declare map_of_eq_Some_iff [simp del] Some_eq_map_of_iff [simp del]

section \<open>The environment\<close>

datatype denial = Close_ws nat string | Reject_http | Send_auth_failed auth_failure int "string option"
datatype decision = Allowed "string option" | Denied denial

record agent_authorization =
  aa_deviceId :: string
  aa_devicePublicKey :: string
  aa_remoteIp :: string
  aa_publicRemoteIp :: "string option"
  aa_hostname :: string
  aa_systemType :: string
  aa_uname :: string
  aa_agentVersion :: string

record relay_env =
  v_upgrade :: config
  v_pendingAuthTtlMs :: int
  v_appContextTtlMs :: int
  v_nonceTtlMs :: int
  v_agent_init_policy :: "auth_init \<Rightarrow> string \<Rightarrow> decision"
  v_agent_hello_policy :: "agent_hello \<Rightarrow> string \<Rightarrow> decision"
  v_mobile_policy :: "mobile_connect \<Rightarrow> string option \<Rightarrow> decision"
  v_authorizeAgent :: "agent_authorization \<Rightarrow> string option"
  v_verify_proof :: "auth_proof \<Rightarrow> bool"
  v_identity_matches :: "string \<Rightarrow> string \<Rightarrow> string \<Rightarrow> bool"
  v_challenge :: "string \<Rightarrow> string \<Rightarrow> string"
  v_public_ip :: "string \<Rightarrow> string option"

text \<open>\<open>RelayAuthExecutor.execute\<close> for a connection.\<close>

definition execute_denial :: "denial \<Rightarrow> string \<Rightarrow> relay \<Rightarrow> relay" where
  "execute_denial a c s = (case a of
     Close_ws code reason \<Rightarrow> close_socket c code reason s
   | Reject_http \<Rightarrow> close_socket c 1011 ''invalid auth action'' s
   | Send_auth_failed reason retry audit_device \<Rightarrow>
       send_msg c (createMessage (case audit_device of Some d \<Rightarrow> Some d | None \<Rightarrow> k_deviceId (obj s c))
         (B_auth_failed reason (Some c) (Some retry))) s)"

definition sendProtocolError :: "string \<Rightarrow> string \<Rightarrow> error_detail \<Rightarrow> relay \<Rightarrow> relay" where
  "sendProtocolError c code detail s =
     send_msg c (createMessage (k_deviceId (obj s c)) (B_protocol_error code detail False))
       (emit (Store SC_protocol_error) s)"

definition rejectInvalidState :: "string \<Rightarrow> string \<Rightarrow> relay \<Rightarrow> relay" where
  "rejectInvalidState c type s =
     sendProtocolError c ''invalid_state'' (Not_allowed type (k_state (obj s c))) s"

text \<open>The controller for encrypted traffic sends the same error without counting it.\<close>

definition e2e_reject :: "string \<Rightarrow> string \<Rightarrow> relay \<Rightarrow> relay" where
  "e2e_reject c type s =
     send_msg c (createMessage (k_deviceId (obj s c))
       (B_protocol_error ''invalid_state'' (Not_allowed type (k_state (obj s c))) False)) s"

section \<open>Rate limiting keys\<close>

definition or_blank :: "string option \<Rightarrow> string" where
  "or_blank x = (case x of None \<Rightarrow> ''_'' | Some v \<Rightarrow> v)"

definition buildAuthRateLimitKey :: "string option \<Rightarrow> string option \<Rightarrow> string" where
  "buildAuthRateLimitKey d ip = or_blank d @ ''|'' @ or_blank ip"

definition buildAgentDeviceAuthRateLimitKey :: "string option \<Rightarrow> string option \<Rightarrow> string" where
  "buildAgentDeviceAuthRateLimitKey d ip = ''agent'' @ ''|'' @ or_blank d @ ''|'' @ or_blank ip"

definition buildAgentIpAuthRateLimitKey :: "string option \<Rightarrow> string" where
  "buildAgentIpAuthRateLimitKey ip = ''agent_ip'' @ ''|'' @ or_blank ip"

definition consume_key :: "string \<Rightarrow> relay \<Rightarrow> bool \<times> relay" where
  "consume_key key s = (case consume key (clock s) (authLimiter s) of (ok, l) \<Rightarrow> (ok, s\<lparr>authLimiter := l\<rparr>))"

definition reset_key :: "string \<Rightarrow> relay \<Rightarrow> relay" where
  "reset_key key s = s\<lparr>authLimiter := reset key (authLimiter s)\<rparr>"

definition key_blocked :: "string \<Rightarrow> relay \<Rightarrow> bool" where
  "key_blocked key s = isBlocked key (clock s) (authLimiter s)"

section \<open>Admission of agents\<close>

text \<open>Closes the connection and returns \<open>True\<close> when the caller is rate limited.\<close>

definition isRateLimited :: "relay_env \<Rightarrow> string \<Rightarrow> string \<Rightarrow> relay \<Rightarrow> bool \<times> relay" where
  "isRateLimited E c device s = (case v_public_ip E (k_remoteIp (obj s c)) of
     None \<Rightarrow> (False, s)
   | Some ip \<Rightarrow>
       if \<not> key_blocked (buildAgentDeviceAuthRateLimitKey (Some device) (Some ip)) s \<and>
          \<not> key_blocked (buildAgentIpAuthRateLimitKey (Some ip)) s
       then (False, s) else (True, close_socket c 4403 ''too_many_attempts'' s))"

definition recordAuthFailure :: "relay_env \<Rightarrow> string \<Rightarrow> string \<Rightarrow> relay \<Rightarrow> relay" where
  "recordAuthFailure E c device s = (case v_public_ip E (k_remoteIp (obj s c)) of
     None \<Rightarrow> s
   | Some ip \<Rightarrow> snd (consume_key (buildAgentIpAuthRateLimitKey (Some ip))
       (snd (consume_key (buildAgentDeviceAuthRateLimitKey (Some device) (Some ip)) s))))"

definition consumeInitChallengeAttempt :: "relay_env \<Rightarrow> string \<Rightarrow> relay \<Rightarrow> bool \<times> relay" where
  "consumeInitChallengeAttempt E c s = (case v_public_ip E (k_remoteIp (obj s c)) of
     None \<Rightarrow> (True, s)
   | Some ip \<Rightarrow> (case consume_key (buildAgentIpAuthRateLimitKey (Some ip)) s of
        (True, s) \<Rightarrow> (True, s)
      | (False, s) \<Rightarrow> (False, close_socket c 4403 ''too_many_attempts'' s)))"

definition handleAgentAuthInit :: "relay_env \<Rightarrow> string \<Rightarrow> auth_init \<Rightarrow> relay \<Rightarrow> relay" where
  "handleAgentAuthInit E c m s =
     (if k_authState (obj s c) \<noteq> Auth_none then close_socket c 4403 ''invalid_agent_auth_state'' s
      else case isRateLimited E c (ai_device_id m) s of
        (True, s) \<Rightarrow> s
      | (False, s) \<Rightarrow>
          (case v_agent_init_policy E m c of
             Denied a \<Rightarrow> execute_denial a c (recordAuthFailure E c (ai_device_id m) s)
           | Allowed _ \<Rightarrow>
               (case consumeInitChallengeAttempt E c s of
                  (False, s) \<Rightarrow> s
                | (True, s) \<Rightarrow>
                    send_msg c (createMessage (Some (ai_device_id m))
                        (B_agent_challenge (v_challenge E (ai_device_id m) c)))
                      (upd c (\<lambda>k. k\<lparr>k_authState := Auth_pending\<rparr>) s))))"

definition RELAY_AGENT_APPROVAL_REQUIRED_CLOSE_CODE :: nat where
  "RELAY_AGENT_APPROVAL_REQUIRED_CLOSE_CODE = 4402"

definition agent_close_code :: "string \<Rightarrow> nat" where
  "agent_close_code reason = (if reason = ''agent_approval_required''
     then RELAY_AGENT_APPROVAL_REQUIRED_CLOSE_CODE else RELAY_AGENT_SHUTDOWN_CLOSE_CODE)"

definition admit_agent :: "string \<Rightarrow> agent_hello \<Rightarrow> string option \<Rightarrow> relay \<Rightarrow> relay" where
  "admit_agent c m user s =
     (let d = ah_device_id m;
          s = upd c (\<lambda>k. k\<lparr>k_userId := user, k_role := Agent, k_state := Registered_agent, k_deviceId := Some d,
                k_devicePublicKey := Some (ah_device_public_key m), k_authenticated := True,
                k_authState := Auth_verified\<rparr>) s;
          s = addAgentToDevice d c s;
          s = emit (Store (SC_agent c)) s
      in send_msg c (createMessage (Some d) (B_agent_auth_ok c)) s)"

definition authorization_input :: "relay_env \<Rightarrow> string \<Rightarrow> agent_hello \<Rightarrow> relay \<Rightarrow> agent_authorization" where
  "authorization_input E c m s =
     \<lparr>aa_deviceId = ah_device_id m, aa_devicePublicKey = ah_device_public_key m, aa_remoteIp = k_remoteIp (obj s c),
      aa_publicRemoteIp = v_public_ip E (k_remoteIp (obj s c)), aa_hostname = ah_hostname m,
      aa_systemType = (case ah_system_type m of Some t \<Rightarrow> t | None \<Rightarrow> ah_platform m),
      aa_uname = (case ah_uname m of Some u \<Rightarrow> u | None \<Rightarrow> ah_hostname m),
      aa_agentVersion = ah_agent_version m\<rparr>"

definition handleAgentHello :: "relay_env \<Rightarrow> string \<Rightarrow> agent_hello \<Rightarrow> relay \<Rightarrow> relay" where
  "handleAgentHello E c m s =
     (if k_authState (obj s c) = Auth_verified then s
      else if k_authState (obj s c) \<noteq> Auth_pending then close_socket c 4403 ''invalid_agent_auth_state'' s
      else case isRateLimited E c (ah_device_id m) s of
        (True, s) \<Rightarrow> s
      | (False, s) \<Rightarrow>
          (case v_agent_hello_policy E m c of
             Denied a \<Rightarrow> execute_denial a c (recordAuthFailure E c (ah_device_id m) s)
           | Allowed user \<Rightarrow>
               (case v_authorizeAgent E (authorization_input E c m s) of
                  Some reason \<Rightarrow>
                    close_socket c (agent_close_code reason) reason (upd c (\<lambda>k. k\<lparr>k_authState := Auth_failed\<rparr>) s)
                | None \<Rightarrow>
                    admit_agent c m user
                      (case v_public_ip E (k_remoteIp (obj s c)) of
                         None \<Rightarrow> s
                       | Some ip \<Rightarrow> reset_key (buildAgentDeviceAuthRateLimitKey (Some (ah_device_id m)) (Some ip)) s))))"

section \<open>Admission of Apps\<close>

definition auth_failed_msg :: "string \<Rightarrow> string option \<Rightarrow> auth_failure \<Rightarrow> int option \<Rightarrow> message" where
  "auth_failed_msg c d reason retry = createMessage d (B_auth_failed reason (Some c) retry)"

definition bind_mobile :: "string \<Rightarrow> mobile_connect \<Rightarrow> string option \<Rightarrow> relay \<Rightarrow> relay" where
  "bind_mobile c m user s =
     upd c (\<lambda>k. k\<lparr>k_userId := (case user of Some u \<Rightarrow> Some u | None \<Rightarrow> k_userId k),
        k_role := Mobile, k_state := Mobile_connected, k_deviceId := Some (mc_device_id m),
        k_appId := Some (mc_app_id m), k_appPublicKey := Some (mc_app_public_key m),
        k_authState := Auth_pending, k_appInfo := Some (mc_app_info m),
        k_transportPreference := (case mc_transport_preference m of
           Some p \<Rightarrow> Some p | None \<Rightarrow> k_transportPreference k)\<rparr>) s"

definition handleMobileConnect :: "relay_env \<Rightarrow> string \<Rightarrow> mobile_connect \<Rightarrow> relay \<Rightarrow> relay" where
  "handleMobileConnect E c m s = (case v_mobile_policy E m (k_userId (obj s c)) of
     Denied a \<Rightarrow> execute_denial a c (upd c (\<lambda>k. k\<lparr>k_authState := Auth_failed\<rparr>) s)
   | Allowed user \<Rightarrow>
       (let d = mc_device_id m;
            agent = getPrimaryAgent (Some d) s;
            s = bind_mobile c m user s;
            s = emit (Store (SC_app c)) s
        in case agent of
             None \<Rightarrow> send_msg c (auth_failed_msg c (Some d) Device_not_online (Some 2000))
                 (upd c (\<lambda>k. k\<lparr>k_authState := Auth_failed\<rparr>) s)
           | Some a \<Rightarrow>
               (case k_devicePublicKey (obj s a) of
                  None \<Rightarrow> send_msg c (auth_failed_msg c (Some d) Identity_mismatch None)
                      (upd c (\<lambda>k. k\<lparr>k_authState := Auth_failed\<rparr>) s)
                | Some key \<Rightarrow>
                    (let expires = clock s + v_pendingAuthTtlMs E;
                         s = s\<lparr>pendingAuth := jput c
                           \<lparr>pa_deviceId = d, pa_agentPublicKey = key, pa_appId = mc_app_id m,
                            pa_appPublicKey = mc_app_public_key m, pa_agentConnectionId = a, pa_nonce = rnd s,
                            pa_appInfo = mc_app_info m, pa_expiresAt = expires, pa_approvalPending = False\<rparr>
                           (pendingAuth s)\<rparr>
                     in send_msg c (createMessage (Some d) (B_auth_challenge (rnd s) expires c a key)) s))))"

section \<open>Proofs and verdicts\<close>

definition auth_fail :: "string \<Rightarrow> auth_failure \<Rightarrow> relay \<Rightarrow> relay" where
  "auth_fail c reason s =
     (let s = upd c (\<lambda>k. k\<lparr>k_authState := Auth_failed\<rparr>) s; s = emit (Store SC_auth_failed) s
      in send_msg c (auth_failed_msg c (k_deviceId (obj s c)) reason (Some 2000)) s)"

definition matchesPending :: "relay_env \<Rightarrow> string \<Rightarrow> pending_auth \<Rightarrow> auth_proof \<Rightarrow> bool" where
  "matchesPending E c p m \<longleftrightarrow>
     ap_nonce m = pa_nonce p \<and> ap_connection_id m = c \<and> ap_agent_connection_id m = pa_agentConnectionId p \<and>
     ap_device_id m = pa_deviceId p \<and> ap_agent_public_key m = pa_agentPublicKey p \<and>
     ap_app_id m = pa_appId p \<and> ap_app_public_key m = pa_appPublicKey p \<and>
     instanceId (ap_app_info m) = instanceId (pa_appInfo p) \<and> runtimeId (ap_app_info m) = runtimeId (pa_appInfo p) \<and>
     v_identity_matches E ''app'' (ap_app_id m) (ap_app_public_key m) \<and>
     v_identity_matches E ''agent'' (ap_device_id m) (ap_agent_public_key m)"

definition handleAuthProof :: "relay_env \<Rightarrow> string \<Rightarrow> auth_proof \<Rightarrow> relay \<Rightarrow> relay" where
  "handleAuthProof E c m s =
     (let pending = jget (pendingAuth s) c;
          key = buildAuthRateLimitKey (case pending of Some p \<Rightarrow> Some (pa_deviceId p) | None \<Rightarrow> k_deviceId (obj s c))
                  (Some (k_remoteIp (obj s c)))
      in if key_blocked key s then close_socket c 1008 ''auth rate limit'' (auth_fail c Too_many_attempts s)
      else case pending of
        None \<Rightarrow> auth_fail c Malformed_proof (snd (consume_key key s))
      | Some p \<Rightarrow>
          if \<not> matchesPending E c p m then auth_fail c Malformed_proof (snd (consume_key key s))
          else if pa_expiresAt p \<le> clock s then
            auth_fail c Malformed_proof (snd (consume_key key (s\<lparr>pendingAuth := jdel c (pendingAuth s)\<rparr>)))
          else if \<bar>clock s - ap_timestamp m\<bar> > v_nonceTtlMs E then
            auth_fail c Malformed_proof (snd (consume_key key s))
          else if \<not> v_verify_proof E m then auth_fail c Invalid_signature (snd (consume_key key s))
          else (case getPrimaryAgent (Some (pa_deviceId p)) s of
             None \<Rightarrow> auth_fail c Device_not_online s
           | Some a \<Rightarrow>
               if a \<noteq> pa_agentConnectionId p then auth_fail c Device_not_online s
               else send_msg a ((createMessage (Some (pa_deviceId p)) (B_auth_verify m (pa_appInfo p)))
                      \<lparr>msg_app := Some c\<rparr>) s))"

definition verdict_target :: "body \<Rightarrow> string option" where
  "verdict_target b = (case b of
     B_auth_ok m \<Rightarrow> Some (ao_connection_id m) | B_auth_pending c t \<Rightarrow> Some c
   | B_auth_failed r c t \<Rightarrow> c | _ \<Rightarrow> None)"

definition ok_matches :: "auth_ok \<Rightarrow> string \<Rightarrow> string \<Rightarrow> pending_auth option \<Rightarrow> relay \<Rightarrow> bool" where
  "ok_matches m c agent pending s \<longleftrightarrow> (case pending of
     None \<Rightarrow> False
   | Some p \<Rightarrow> ao_nonce m = pa_nonce p \<and> ao_device_id m = pa_deviceId p \<and> ao_app_id m = pa_appId p \<and>
       ao_agent_connection_id m = agent \<and> ao_connection_id m = c \<and>
       Some (ao_agent_public_key m) = k_devicePublicKey (obj s agent))"

definition accept_mobile :: "string \<Rightarrow> string \<Rightarrow> relay \<Rightarrow> relay" where
  "accept_mobile c agent s =
     (let s = upd c (\<lambda>k. k\<lparr>k_authenticated := True, k_authState := Auth_verified, k_state := Relay_pairing_verified\<rparr>) s;
          s = emit (Store (SC_authenticate c agent)) s;
          s = reset_key (buildAuthRateLimitKey (k_deviceId (obj s c)) (Some (k_remoteIp (obj s c)))) s
      in case k_deviceId (obj s c) of None \<Rightarrow> s | Some d \<Rightarrow> addMobileToDevice d c s)"

definition handleAuthResult :: "string \<Rightarrow> message \<Rightarrow> relay \<Rightarrow> relay" where
  "handleAuthResult agent m s =
     (if k_role (obj s agent) \<noteq> Agent then s
      else case verdict_target (msg_body m) of
        None \<Rightarrow> s
      | Some c \<Rightarrow>
          if c \<notin> set (connections s) \<or> k_role (obj s c) \<noteq> Mobile \<or> k_deviceId (obj s c) \<noteq> k_deviceId (obj s agent) then s
          else (case msg_body m of
             B_auth_pending _ expires \<Rightarrow>
               send_msg c m (case (jget (pendingAuth s) c, expires) of
                 (Some p, Some t) \<Rightarrow>
                   s\<lparr>pendingAuth := jput c (p\<lparr>pa_expiresAt := t, pa_approvalPending := True\<rparr>) (pendingAuth s)\<rparr>
               | _ \<Rightarrow> s)
           | B_auth_ok ok \<Rightarrow>
               (let pending = jget (pendingAuth s) c; s = s\<lparr>pendingAuth := jdel c (pendingAuth s)\<rparr>
                in if ok_matches ok c agent pending s then send_msg c m (accept_mobile c agent s)
                   else auth_fail c Malformed_proof s)
           | B_auth_failed _ _ _ \<Rightarrow>
               (let s = s\<lparr>pendingAuth := jdel c (pendingAuth s)\<rparr>;
                    s = upd c (\<lambda>k. k\<lparr>k_authState := Auth_failed\<rparr>) s;
                    s = emit (Store SC_auth_failed) s;
                    s = snd (consume_key (buildAuthRateLimitKey (k_deviceId (obj s c)) (Some (k_remoteIp (obj s c)))) s)
                in send_msg c m s)
           | _ \<Rightarrow> s))"

section \<open>Routing\<close>

definition cleanupExpiredAppDeliveryContexts :: "relay \<Rightarrow> relay" where
  "cleanupExpiredAppDeliveryContexts s =
     s\<lparr>contexts := filter (\<lambda>(k, x). \<not> dc_expiresAt x \<le> clock s) (contexts s)\<rparr>"

definition rememberAppDeliveryContext :: "relay_env \<Rightarrow> string \<Rightarrow> string \<Rightarrow> string \<Rightarrow> relay \<Rightarrow> string \<times> relay" where
  "rememberAppDeliveryContext E d agent app s =
     (let s = cleanupExpiredAppDeliveryContexts s; key = ''relay_ctx_'' @ rnd s
      in (key, s\<lparr>contexts := jput key \<lparr>dc_deviceId = d, dc_agentConnectionId = agent, dc_appConnectionId = app,
            dc_expiresAt = clock s + v_appContextTtlMs E\<rparr> (contexts s)\<rparr>))"

definition takeAppDeliveryContext :: "string \<Rightarrow> relay \<Rightarrow> delivery_context option \<times> relay" where
  "takeAppDeliveryContext key s =
     (let s = cleanupExpiredAppDeliveryContexts s
      in case jget (contexts s) key of
           None \<Rightarrow> (None, s)
         | Some x \<Rightarrow> (Some x, s\<lparr>contexts := jdel key (contexts s)\<rparr>))"

definition routeMessage :: "relay_env \<Rightarrow> string \<Rightarrow> message \<Rightarrow> relay \<Rightarrow> relay" where
  "routeMessage E c m s =
     (let k = obj s c in
      if k_role k = Mobile then
        (case k_deviceId k of
           Some d \<Rightarrow>
             if \<not> k_authenticated k
             then send_msg c (auth_failed_msg c (Some d) Malformed_proof (Some 2000)) s
             else (case getPrimaryAgent (Some d) s of
                Some a \<Rightarrow>
                  (case rememberAppDeliveryContext E d a c s of
                     (ctx, s) \<Rightarrow> send_msg a (m\<lparr>msg_device := Some d, msg_app := Some c, msg_ctx := Some ctx\<rparr>) s)
              | None \<Rightarrow> emit (Store SC_route_dropped) s)
         | None \<Rightarrow> send_msg c (auth_failed_msg c None Malformed_proof (Some 2000)) s)
      else if k_role k = Agent then
        (case k_deviceId k of
           None \<Rightarrow> s
         | Some d \<Rightarrow>
             if given (msg_app m) then
               (if the (msg_app m) \<in> set (connections s) then send_msg (the (msg_app m)) m s
                else emit (Store SC_route_dropped) s)
             else
               (case jget (mobilesByDevice s) d of
                  None \<Rightarrow> emit (Store SC_route_dropped) s
                | Some ms \<Rightarrow> fold (\<lambda>x. send_msg x m) ms s))
      else s)"

definition delivery_message :: "string option \<Rightarrow> string \<Rightarrow> delivery \<Rightarrow> message" where
  "delivery_message d app x = \<lparr>msg_id = dl_id x, msg_device = d, msg_session = dl_session_id x,
     msg_surface = dl_surface_id x, msg_app = Some app, msg_ctx = None, msg_seq = dl_seq x,
     msg_body = B_delivered (dl_type x) (dl_payload x)\<rparr>"

definition handleRelayAppDeliver :: "string \<Rightarrow> string \<Rightarrow> delivery \<Rightarrow> relay \<Rightarrow> relay" where
  "handleRelayAppDeliver c key x s =
     (if k_role (obj s c) \<noteq> Agent \<or> k_deviceId (obj s c) = None
      then sendProtocolError c ''invalid_state'' (Not_allowed ''relay.app.deliver'' (k_state (obj s c))) s
      else case takeAppDeliveryContext key s of
        (None, s) \<Rightarrow> sendProtocolError c ''route_not_found'' (No_context key) s
      | (Some t, s) \<Rightarrow>
          if Some (dc_deviceId t) \<noteq> k_deviceId (obj s c) \<or> dc_agentConnectionId t \<noteq> c
          then sendProtocolError c ''route_not_found'' (No_context key) s
          else let app = dc_appConnectionId t in
            if app \<notin> set (connections s) \<or> k_role (obj s app) \<noteq> Mobile \<or>
               k_deviceId (obj s app) \<noteq> k_deviceId (obj s c) \<or> \<not> k_authenticated (obj s app)
            then sendProtocolError c ''route_not_found'' (Not_routable key) s
            else send_msg app (delivery_message (k_deviceId (obj s c)) app x) s)"

section \<open>Encrypted traffic\<close>

definition getMobileByAppConnectionId :: "string \<Rightarrow> string \<Rightarrow> relay \<Rightarrow> bool" where
  "getMobileByAppConnectionId agent app s \<longleftrightarrow>
     app \<in> set (connections s) \<and> k_role (obj s app) = Mobile \<and> k_deviceId (obj s agent) \<noteq> None \<and>
     k_deviceId (obj s app) = k_deviceId (obj s agent)"

definition routeMobileToAgent :: "string \<Rightarrow> message \<Rightarrow> relay \<Rightarrow> relay" where
  "routeMobileToAgent c m s =
     (case getPrimaryAgent (k_deviceId (obj s c)) s of None \<Rightarrow> s | Some a \<Rightarrow> send_msg a m s)"

definition isPairReadyForApp :: "string \<Rightarrow> string option \<Rightarrow> relay \<Rightarrow> bool" where
  "isPairReadyForApp app device s = (case device of
     None \<Rightarrow> False
   | Some d \<Rightarrow>
       (case jget (primaryAgentByDevice s) d of
          None \<Rightarrow> False
        | Some a \<Rightarrow>
            (case jget (k_agentE2EPeers (obj s a)) app of
               None \<Rightarrow> False
             | Some p \<Rightarrow>
                 (let k = obj s app in
                  app \<in> set (connections s) \<and> k_role k = Mobile \<and> k_deviceId k = Some d \<and> k_state k = E2e_ready \<and>
                  p_ready p \<and> given (k_e2eHandshakeId k) \<and> k_e2eHandshakeId k = Some (p_handshakeId p) \<and>
                  given (k_e2eTranscriptHash k) \<and> k_e2eTranscriptHash k = p_transcriptHash p))))"

definition handleHandshakeInit :: "string \<Rightarrow> message \<Rightarrow> string \<Rightarrow> string \<Rightarrow> relay \<Rightarrow> relay" where
  "handleHandshakeInit c m app handshake s =
     (let k = obj s c in
      if k_role k \<noteq> Mobile \<or> \<not> k_authenticated k \<or> k_state k \<noteq> Relay_pairing_verified \<or> app \<noteq> c
      then e2e_reject c ''e2e.handshake.init'' s
      else routeMobileToAgent c m (upd c (\<lambda>k. k\<lparr>k_e2eHandshakeId := Some handshake, k_e2eTranscriptHash := None,
             k_e2eSessionId := None, k_state := E2e_handshaking\<rparr>) s))"

definition set_peer :: "string \<Rightarrow> agent_peer \<Rightarrow> rconn \<Rightarrow> rconn" where
  "set_peer app p k = k\<lparr>k_agentE2EPeers := jput app p (k_agentE2EPeers k)\<rparr>"

definition handleHandshakeReply :: "string \<Rightarrow> message \<Rightarrow> string \<Rightarrow> string \<Rightarrow> relay \<Rightarrow> relay" where
  "handleHandshakeReply c m app handshake s =
     (if k_role (obj s c) \<noteq> Agent then e2e_reject c ''e2e.handshake.reply'' s
      else if \<not> getMobileByAppConnectionId c app s \<or> k_e2eHandshakeId (obj s app) \<noteq> Some handshake
      then e2e_reject c ''e2e.handshake.reply'' s
      else send_msg app m (upd c (set_peer app \<lparr>p_handshakeId = handshake, p_transcriptHash = None,
             p_e2eSessionId = None, p_ready = False\<rparr>) s))"

definition handleReady :: "relay_env \<Rightarrow> string \<Rightarrow> message \<Rightarrow> string \<Rightarrow> string \<Rightarrow> string \<Rightarrow> relay \<Rightarrow> relay" where
  "handleReady E c m app handshake transcript s =
     (let k = obj s c in
      if k_role k = Mobile then
        (if k_state k \<noteq> E2e_handshaking \<or> app \<noteq> c \<or> Some handshake \<noteq> k_e2eHandshakeId k
         then e2e_reject c ''e2e.ready'' s
         else routeMobileToAgent c m (upd c (\<lambda>k. k\<lparr>k_e2eHandshakeId := Some handshake,
                k_e2eTranscriptHash := Some transcript, k_state := E2e_ready\<rparr>) s))
      else if k_role k \<noteq> Agent then e2e_reject c ''e2e.ready'' s
      else (case jget (k_agentE2EPeers k) app of
         None \<Rightarrow> e2e_reject c ''e2e.ready'' s
       | Some p \<Rightarrow>
           if \<not> getMobileByAppConnectionId c app s \<or> p_handshakeId p \<noteq> handshake then e2e_reject c ''e2e.ready'' s
           else (let s = upd c (set_peer app (p\<lparr>p_transcriptHash := Some transcript, p_ready := True\<rparr>)) s;
                     s = (case k_deviceId (obj s c) of
                            None \<Rightarrow> s
                          | Some d \<Rightarrow> run_orchestrator
                              (notifyMobileAuthenticated (v_upgrade E) (rnd s) (clock s) d (orch_conn app s)) s)
                 in send_msg app m s)))"

definition handleMessage :: "string \<Rightarrow> message \<Rightarrow> string \<Rightarrow> string \<Rightarrow> relay \<Rightarrow> relay" where
  "handleMessage c m app session s =
     (let k = obj s c in
      if k_role k = Mobile then
        (if k_state k \<noteq> E2e_ready \<or> app \<noteq> c \<or> \<not> isPairReadyForApp c (k_deviceId k) s
         then e2e_reject c ''e2e.message'' s
         else if given (k_e2eSessionId k) \<and> k_e2eSessionId k \<noteq> Some session then e2e_reject c ''e2e.message'' s
         else routeMobileToAgent c m (upd c (\<lambda>k. k\<lparr>k_e2eSessionId := Some session\<rparr>) s))
      else if k_role k \<noteq> Agent then e2e_reject c ''e2e.message'' s
      else (case jget (k_agentE2EPeers k) app of
         None \<Rightarrow> e2e_reject c ''e2e.message'' s
       | Some p \<Rightarrow>
           if \<not> getMobileByAppConnectionId c app s \<or> \<not> p_ready p then e2e_reject c ''e2e.message'' s
           else if given (p_e2eSessionId p) \<and> p_e2eSessionId p \<noteq> Some session then e2e_reject c ''e2e.message'' s
           else send_msg app m (upd c (set_peer app (p\<lparr>p_e2eSessionId := Some session\<rparr>)) s)))"

definition handleFailed :: "string \<Rightarrow> message \<Rightarrow> string option \<Rightarrow> relay \<Rightarrow> relay" where
  "handleFailed c m app s =
     (let k = obj s c in
      if k_role k = Mobile then
        routeMobileToAgent c m (upd c (\<lambda>k. k\<lparr>k_state := (if k_authenticated k then Relay_pairing_verified else k_state k),
          k_e2eHandshakeId := None, k_e2eTranscriptHash := None, k_e2eSessionId := None\<rparr>) s)
      else if k_role k = Agent \<and> given app then
        (let s = upd c (\<lambda>k. k\<lparr>k_agentE2EPeers := jdel (the app) (k_agentE2EPeers k)\<rparr>) s
         in if getMobileByAppConnectionId c (the app) s then send_msg (the app) m s else s)
      else s)"

definition routeControl :: "relay_env \<Rightarrow> string \<Rightarrow> message \<Rightarrow> string \<Rightarrow> relay \<Rightarrow> relay" where
  "routeControl E c m type s =
     (if k_state (obj s c) \<noteq> E2e_ready then e2e_reject c type s
      else if \<not> isPairReadyForApp c (k_deviceId (obj s c)) s then e2e_reject c type s
      else routeMessage E c m s)"

section \<open>Dispatch\<close>

definition link_state_of :: "rconn \<Rightarrow> link_state" where
  "link_state_of k = (if k_transportPath k = Path_p2p then L_p2p
     else if k_state k = E2e_ready then L_e2e_ready
     else if k_state k = E2e_handshaking then L_e2e_handshaking else L_authenticated)"

definition updateLinkForConnection :: "string \<Rightarrow> relay \<Rightarrow> relay" where
  "updateLinkForConnection c s =
     (let k = obj s c in
      if k_role k \<noteq> Mobile then s
      else case (k_deviceId k, getPrimaryAgent (k_deviceId k) s) of
        (Some d, Some a) \<Rightarrow> emit (Store (SC_link d a c (link_state_of k) (k_transportPath k) (k_e2eSessionId k))) s
      | _ \<Rightarrow> s)"

definition updateLinkForApp :: "string option \<Rightarrow> relay \<Rightarrow> relay" where
  "updateLinkForApp app s =
     (if given app \<and> the app \<in> set (connections s) then updateLinkForConnection (the app) s else s)"

text \<open>The result is \<open>False\<close> when the connection has been closed for using the other endpoint.\<close>

definition wrong_endpoint_reason :: "endpoint \<Rightarrow> string" where
  "wrong_endpoint_reason e = (case e of
     Agent_endpoint \<Rightarrow> ''wrong endpoint: use /agent for agent connections''
   | Mobile_endpoint \<Rightarrow> ''wrong endpoint: use /mobile for mobile connections'')"

definition ensureEndpoint :: "string \<Rightarrow> endpoint \<Rightarrow> relay \<Rightarrow> bool \<times> relay" where
  "ensureEndpoint c expected s =
     (if k_endpoint (obj s c) = expected then (True, s)
      else (False, close_socket c 1008 (wrong_endpoint_reason expected) s))"

definition handleAppNetworkChanged :: "relay_env \<Rightarrow> string \<Rightarrow> string \<Rightarrow> relay \<Rightarrow> relay" where
  "handleAppNetworkChanged E c app s =
     (let k = obj s c in
      case k_deviceId k of
        None \<Rightarrow> rejectInvalidState c ''app.network.changed'' s
      | Some d \<Rightarrow>
          if k_role k \<noteq> Mobile \<or> \<not> k_authenticated k \<or> app \<noteq> c \<or> \<not> isPairReadyForApp c (Some d) s
          then rejectInvalidState c ''app.network.changed'' s
          else run_orchestrator
            (\<lambda>o1. fst (handleConnectivityChanged (v_upgrade E) (rnd s) (clock s) d (orch_conn c s)
              (map_option (\<lambda>a. orch_conn a s) (getPrimaryAgent (Some d) s)) o1)) s)"

text \<open>\<open>tunnel.upgrade.committed\<close> and \<open>tunnel.upgrade.downgrade\<close>, before they are routed.\<close>

definition upgrade_control :: "string \<Rightarrow> path \<Rightarrow> string option \<Rightarrow> control_message \<Rightarrow> relay \<Rightarrow> relay" where
  "upgrade_control c p app m s =
     run_orchestrator (handleControlMessage (clock s) m)
       (updateLinkForApp app (upd c (\<lambda>k. k\<lparr>k_transportPath := p\<rparr>) s))"

definition dispatch :: "relay_env \<Rightarrow> string \<Rightarrow> message \<Rightarrow> relay \<Rightarrow> relay" where
  "dispatch E c m s = (case msg_body m of
     B_agent_auth_init x \<Rightarrow> (case ensureEndpoint c Agent_endpoint s of
        (True, s) \<Rightarrow> handleAgentAuthInit E c x s | (False, s) \<Rightarrow> s)
   | B_agent_hello x \<Rightarrow> (case ensureEndpoint c Agent_endpoint s of
        (True, s) \<Rightarrow> handleAgentHello E c x s | (False, s) \<Rightarrow> s)
   | B_mobile_connect x \<Rightarrow> (case ensureEndpoint c Mobile_endpoint s of
        (True, s) \<Rightarrow> handleMobileConnect E c x s | (False, s) \<Rightarrow> s)
   | B_auth_proof x \<Rightarrow> handleAuthProof E c x s
   | B_auth_ok _ \<Rightarrow> handleAuthResult c m s
   | B_auth_pending _ _ \<Rightarrow> handleAuthResult c m s
   | B_auth_failed _ _ _ \<Rightarrow> handleAuthResult c m s
   | B_network_changed app \<Rightarrow> handleAppNetworkChanged E c app s
   | B_relay_app_deliver key x \<Rightarrow> handleRelayAppDeliver c key x s
   | B_e2e_init app h \<Rightarrow> updateLinkForConnection c (handleHandshakeInit c m app h s)
   | B_e2e_reply app h \<Rightarrow> updateLinkForApp (Some app) (handleHandshakeReply c m app h s)
   | B_e2e_ready app h t \<Rightarrow> updateLinkForApp (Some app) (handleReady E c m app h t s)
   | B_e2e_message app u _ \<Rightarrow> updateLinkForApp (Some app) (handleMessage c m app u s)
   | B_e2e_failed app \<Rightarrow> updateLinkForApp app (handleFailed c m app s)
   | B_e2e_control type \<Rightarrow> routeControl E c m type s
   | B_upgrade_committed u app \<Rightarrow>
       routeMessage E c m (upgrade_control c Path_p2p app (C_Committed u) s)
   | B_upgrade_downgrade u app r \<Rightarrow>
       routeMessage E c m (upgrade_control c Path_relay app (C_Downgrade (msg_device m) u app r) s)
   | _ \<Rightarrow> routeMessage E c m s)"

text \<open>What the parsers of the runtime and of the protocol library make of a text.\<close>

datatype raw_text = Not_json | Not_message | Parsed message

definition handleRawMessage :: "relay_env \<Rightarrow> string \<Rightarrow> raw_text \<Rightarrow> relay \<Rightarrow> relay" where
  "handleRawMessage E c raw s =
     (let s = upd c (\<lambda>k. k\<lparr>k_lastSeenAt := clock s\<rparr>) s
      in case raw of
           Not_json \<Rightarrow> close_socket c 1003 ''invalid json'' s
         | Not_message \<Rightarrow> close_socket c 1003 ''invalid protocol message'' s
         | Parsed m \<Rightarrow> dispatch E c m (emit (Store (SC_ingress c)) s))"

section \<open>Maintenance\<close>

definition expire_pending :: "string \<times> pending_auth \<Rightarrow> relay \<Rightarrow> relay" where
  "expire_pending x s = (case x of (c, p) \<Rightarrow>
     if pa_expiresAt p > clock s then s
     else (let s = s\<lparr>pendingAuth := jdel c (pendingAuth s)\<rparr> in
       if c \<in> set (connections s) \<and> k_role (obj s c) = Mobile \<and> \<not> k_authenticated (obj s c) then
         (let s = send_msg c (auth_failed_msg c (k_deviceId (obj s c))
                (if pa_approvalPending p then Approval_timeout else Malformed_proof) (Some 2000)) s;
              s = upd c (\<lambda>k. k\<lparr>k_authState := Auth_failed\<rparr>) s
          in close_socket c 1008 ''auth timeout'' s)
       else s))"

definition cleanupExpiredPendingAuth :: "relay \<Rightarrow> relay" where
  "cleanupExpiredPendingAuth s = fold expire_pending (pendingAuth s) s"

section \<open>Runs\<close>

datatype relay_event =
    Connected string endpoint string "string option"
  | Received string raw_text
  | Lost string
  | Swept
  | Upgrade_timer string
  | Device_revoked string
  | Debug_upgrade string string

definition timer_agent :: "string \<Rightarrow> relay \<Rightarrow> conn option" where
  "timer_agent key s = (case jget (sessionTimers (orchestrator s)) key of
     None \<Rightarrow> None
   | Some t \<Rightarrow> map_option (\<lambda>a. orch_conn a s) (getPrimaryAgent (Some (t_device t)) s))"

definition debug_upgrade :: "relay_env \<Rightarrow> string \<Rightarrow> string \<Rightarrow> relay \<Rightarrow> relay" where
  "debug_upgrade E d app s = (case getPrimaryAgent (Some d) s of
     None \<Rightarrow> s
   | Some a \<Rightarrow>
       if app \<notin> set (connections s) \<or> k_role (obj s app) \<noteq> Mobile \<or> k_deviceId (obj s app) \<noteq> Some d \<or>
          \<not> isPairReadyForApp app (Some d) s then s
       else run_orchestrator
         (triggerUpgrade (v_upgrade E) (rnd s) (clock s) d (orch_conn app s) (orch_conn a s) False) s)"

fun relay_event_step :: "relay_env \<Rightarrow> relay_event \<Rightarrow> relay \<Rightarrow> relay" where
  "relay_event_step E (Connected c ep ip user) s = register c ep ip user s"
| "relay_event_step E (Received c raw) s = handleRawMessage E c raw s"
| "relay_event_step E (Lost c) s = socket_lost c s"
| "relay_event_step E Swept s = cleanupExpiredAppDeliveryContexts (cleanupExpiredPendingAuth s)"
| "relay_event_step E (Upgrade_timer key) s =
     run_orchestrator (timer_fired (v_upgrade E) (rnd s) (clock s) key (timer_agent key s)) s"
| "relay_event_step E (Device_revoked d) s = closeDeviceConnections d s"
| "relay_event_step E (Debug_upgrade d app) s = debug_upgrade E d app s"

text \<open>Every event comes with the environment of its moment, its time and its random text.\<close>

definition relay_step :: "relay_env \<times> relay_event \<times> int \<times> string \<Rightarrow> relay \<Rightarrow> relay" where
  "relay_step x s = (case x of (E, e, now, r) \<Rightarrow> relay_event_step E e (s\<lparr>clock := now, rnd := r\<rparr>))"

definition new_relay :: "limiter \<Rightarrow> relay" where
  "new_relay l = \<lparr>obj = (\<lambda>_. (new_rconn Agent_endpoint [] None 0)\<lparr>k_closed := True, k_state := Closed\<rparr>),
     connections = [], agentsByDevice = [], primaryAgentByDevice = [], mobilesByDevice = [],
     pendingAuth = [], contexts = [], authLimiter = l, orchestrator = new_orch, outbox = [],
     clock = 0, rnd = []\<rparr>"

end
