(* ===== verification/BrokerInvariant.thy ===== *)
theory BrokerInvariant
  imports Broker
begin

text \<open>
  The relay's invariant (one agent per device, roles by endpoint, no pending challenge without a
  phone), kept by every handler and so by every run; who can become authenticated; and what each
  handler sends, as the frames it adds to the outbox.
\<close>

declare map_of_eq_Some_iff [simp del] Some_eq_map_of_iff [simp del]

section \<open>The invariant of the relay\<close>

text \<open>
  Beside the topology: a connection of the agents' endpoint that has not been verified has no role
  yet, so an agent is admitted once per connection.
\<close>

definition unverified :: "auth_state \<Rightarrow> bool" where
  "unverified a \<longleftrightarrow> a = Auth_none \<or> a = Auth_pending"

definition admission_ok :: "relay \<Rightarrow> bool" where
  "admission_ok s \<longleftrightarrow> (\<forall>c.
     k_endpoint (obj s c) = Agent_endpoint \<and> unverified (k_authState (obj s c)) \<longrightarrow> k_role (obj s c) = Unknown)"

definition relay_inv :: "string set \<Rightarrow> relay \<Rightarrow> bool" where
  "relay_inv H s \<longleftrightarrow> topo_inv {} H s \<and> mobiles_ok s \<and> admission_ok s"

text \<open>An update of a connection that the invariant does not notice.\<close>

definition benign :: "(rconn \<Rightarrow> rconn) \<Rightarrow> bool" where
  "benign f \<longleftrightarrow> (\<forall>k. same_ident k (f k) \<and> k_closed (f k) = k_closed k \<and> (k_state (f k) = Closed \<longrightarrow> k_state k = Closed) \<and>
     (unverified (k_authState (f k)) \<longrightarrow> unverified (k_authState k)))"

lemma relay_inv_upd [simp]: "relay_inv H s \<Longrightarrow> benign f \<Longrightarrow> relay_inv H (upd c f s)"
proof -
  assume s: "relay_inv H s" and f: "benign f"
  have b: "base_inv {} (upd c f s) = base_inv {} s"
    by (rule base_inv_cong) (use f in \<open>auto simp: same_maps_def benign_def same_ident_def\<close>)
  show ?thesis
    using s f by (auto simp: relay_inv_def topo_inv_def b open_inv_def late_inv_def mobiles_ok_def admission_ok_def benign_def same_ident_def)
qed

lemma benign_simps [simp]:
  "benign (\<lambda>k. k\<lparr>k_lastSeenAt := t\<rparr>)" "benign (\<lambda>k. k\<lparr>k_authState := Auth_failed\<rparr>)"
  "benign (\<lambda>k. k\<lparr>k_transportPath := tp\<rparr>)" "benign (set_peer app p)"
  "benign (\<lambda>k. k\<lparr>k_agentE2EPeers := jdel app (k_agentE2EPeers k)\<rparr>)" "benign (\<lambda>k. k\<lparr>k_e2eSessionId := x\<rparr>)"
  "benign (\<lambda>k. k\<lparr>k_e2eHandshakeId := h, k_e2eTranscriptHash := u, k_state := E2e_ready\<rparr>)"
  "benign (\<lambda>k. k\<lparr>k_e2eHandshakeId := h, k_e2eTranscriptHash := u, k_e2eSessionId := v, k_state := E2e_handshaking\<rparr>)"
  "benign (\<lambda>k. k\<lparr>k_state := (if k_authenticated k then Relay_pairing_verified else k_state k),
          k_e2eHandshakeId := h, k_e2eTranscriptHash := u, k_e2eSessionId := v\<rparr>)"
  by (simp_all add: benign_def same_ident_def unverified_def set_peer_def)

lemma relay_inv_emit [simp]: "relay_inv H (emit e s) = relay_inv H s"
  by (simp add: relay_inv_def mobiles_ok_def admission_ok_def)

lemma relay_inv_send [simp]: "relay_inv H (send_msg c m s) = relay_inv H s"
  by (auto simp: relay_inv_def mobiles_ok_def admission_ok_def)

lemma relay_inv_fields [simp]:
  "relay_inv H (s\<lparr>orchestrator := o'\<rparr>) = relay_inv H s" "relay_inv H (s\<lparr>authLimiter := l\<rparr>) = relay_inv H s"
  "relay_inv H (s\<lparr>contexts := x\<rparr>) = relay_inv H s" "relay_inv H (s\<lparr>clock := t\<rparr>) = relay_inv H s"
  "relay_inv H (s\<lparr>rnd := r\<rparr>) = relay_inv H s" "relay_inv H (s\<lparr>outbox := ob\<rparr>) = relay_inv H s"
  by (simp_all add: relay_inv_def mobiles_ok_def admission_ok_def)

lemma relay_inv_forward: "relay_inv H (fold forward xs s) = relay_inv H s"
  by (induction xs arbitrary: s) (simp_all add: forward_def)

lemma relay_inv_run [simp]: "relay_inv H (run_orchestrator f s) = relay_inv H s"
  by (simp add: run_orchestrator_def Let_def relay_inv_forward)

lemma relay_inv_broadcast [simp]: "relay_inv H (fold (\<lambda>x. send_msg x m) xs s) = relay_inv H s"
  by (induction xs arbitrary: s) simp_all

lemma relay_inv_pending:
  assumes "relay_inv H s" and "\<forall>c p. jget pa c = Some p \<longrightarrow> k_role (obj s c) = Mobile"
  shows "relay_inv H (s\<lparr>pendingAuth := pa\<rparr>)"
proof -
  have "base_inv {} (s\<lparr>pendingAuth := pa\<rparr>)" using assms by (simp add: base_inv_def relay_inv_def topo_inv_def)
  with assms(1) show ?thesis
    by (auto simp: relay_inv_def topo_inv_def open_inv_def late_inv_def mobiles_ok_def admission_ok_def)
qed

lemma relay_inv_pendingD:
  "relay_inv H s \<Longrightarrow> jget (pendingAuth s) c = Some p \<Longrightarrow> k_role (obj s c) = Mobile"
  by (simp add: relay_inv_def topo_inv_def base_inv_def)

lemma relay_inv_unpend [simp, intro]: "relay_inv H s \<Longrightarrow> relay_inv H (s\<lparr>pendingAuth := jdel c (pendingAuth s)\<rparr>)"
  by (rule relay_inv_pending) (auto dest: relay_inv_pendingD split: if_splits)

lemma relay_inv_pend:
  "relay_inv H s \<Longrightarrow> k_role (obj s c) = Mobile \<Longrightarrow>
   relay_inv H (s\<lparr>pendingAuth := jput c p (pendingAuth s)\<rparr>)"
  by (rule relay_inv_pending) (auto dest: relay_inv_pendingD split: if_splits)

lemma mobiles_ok_subset:
  "\<forall>e. set (members (mobilesByDevice t) e) \<subseteq> set (members (mobilesByDevice s) e) \<Longrightarrow>
   \<forall>x. k_endpoint (obj t x) = k_endpoint (obj s x) \<Longrightarrow> mobiles_ok s \<Longrightarrow> mobiles_ok t"
  by (fastforce simp: mobiles_ok_def)

lemma admission_ok_subset:
  "\<forall>x. k_endpoint (obj t x) = k_endpoint (obj s x) \<and> k_role (obj t x) = k_role (obj s x) \<and>
     (unverified (k_authState (obj t x)) \<longrightarrow> unverified (k_authState (obj s x))) \<Longrightarrow> admission_ok s \<Longrightarrow> admission_ok t"
  by (fastforce simp: admission_ok_def)

lemma relay_inv_close [simp, intro]: "relay_inv H s \<Longrightarrow> relay_inv H (close_socket c code r s)"
proof -
  assume s: "relay_inv H s"
  have m: "\<forall>e. set (members (mobilesByDevice (close_socket c code r s)) e) \<subseteq> set (members (mobilesByDevice s) e)"
    by (simp add: close_members)
  show ?thesis
    using s mobiles_ok_subset [OF m] admission_ok_subset [of "close_socket c code r s" s]
    by (simp add: relay_inv_def topo_inv_close)
qed

lemma relay_inv_lost: "relay_inv H s \<Longrightarrow> relay_inv H (socket_lost c s)"
proof -
  assume s: "relay_inv H s"
  have k: "\<And>x. k_endpoint (obj (socket_lost c s) x) = k_endpoint (obj s x)"
    "\<And>x. k_role (obj (socket_lost c s) x) = k_role (obj s x)"
    "\<And>x. k_authState (obj (socket_lost c s) x) = k_authState (obj s x)"
    by (auto simp: socket_lost_def)
  have m: "\<forall>e. set (members (mobilesByDevice (socket_lost c s)) e) \<subseteq> set (members (mobilesByDevice s) e)"
    using unregister_members [of c "upd c (\<lambda>k. k\<lparr>k_closed := True\<rparr>) s"] by (auto simp: socket_lost_def)
  show ?thesis
    using s mobiles_ok_subset [OF m] admission_ok_subset [of "socket_lost c s" s] k
    by (simp add: relay_inv_def topo_inv_lost)
qed

text \<open>A phone may change its device and become authenticated; no agent is concerned.\<close>

lemma phone_not_primary:
  "relay_inv H s \<Longrightarrow> k_endpoint (obj s c) = Mobile_endpoint \<Longrightarrow> jget (primaryAgentByDevice s) d \<noteq> Some c"
  unfolding relay_inv_def topo_inv_def base_inv_def by (metis endpoint.distinct(1))

lemma relay_inv_phone:
  assumes s: "relay_inv H s" and ep: "k_endpoint (obj s c) = Mobile_endpoint"
    and f: "k_endpoint (f (obj s c)) = Mobile_endpoint" "k_role (f (obj s c)) = Mobile"
      "k_closed (f (obj s c)) = k_closed (obj s c)" "k_state (f (obj s c)) \<noteq> Closed"
  shows "relay_inv H (upd c f s)"
proof -
  have np: "jget (primaryAgentByDevice s) d \<noteq> Some c" for d by (rule phone_not_primary [OF s ep])
  have b: "base_inv {} s" and o: "open_inv s" and l: "late_inv H s" and m: "mobiles_ok s" and a: "admission_ok s"
    using s by (simp_all add: relay_inv_def topo_inv_def)
  have "base_inv {} (upd c f s)"
    unfolding base_inv_def upd_keeps
  proof (intro conjI)
    show "\<forall>d c'. jget (primaryAgentByDevice s) d = Some c' \<longrightarrow>
        k_role (((obj s)(c := f (obj s c))) c') = Agent \<and>
        k_deviceId (((obj s)(c := f (obj s c))) c') = Some d \<and>
        k_authenticated (((obj s)(c := f (obj s c))) c') \<and> jget (agentsByDevice s) d = Some [c']"
      using b np unfolding base_inv_def by (metis fun_upd_other)
  qed (use b f in \<open>auto simp: base_inv_def\<close>)
  with o l m a f ep show ?thesis
    by (auto simp: relay_inv_def topo_inv_def open_inv_def late_inv_def mobiles_ok_def admission_ok_def)
qed

lemma relay_inv_addMobile:
  "relay_inv H s \<Longrightarrow> k_endpoint (obj s c) = Mobile_endpoint \<Longrightarrow> relay_inv H (addMobileToDevice d c s)"
  by (simp add: relay_inv_def addMobileToDevice_def admission_ok_def mobiles_ok_def)

lemma relay_inv_role:
  "relay_inv H s \<Longrightarrow> k_role (obj s c) = Mobile \<Longrightarrow> k_endpoint (obj s c) = Mobile_endpoint"
  by (simp add: relay_inv_def topo_inv_def base_inv_def)

text \<open>A new connection gets an id that nothing in the state mentions yet.\<close>

definition fresh :: "string \<Rightarrow> relay \<Rightarrow> bool" where
  "fresh c s \<longleftrightarrow> c \<notin> set (connections s) \<and> (\<forall>d. c \<notin> set (members (mobilesByDevice s) d)) \<and>
     (\<forall>d. jget (primaryAgentByDevice s) d \<noteq> Some c) \<and> jget (pendingAuth s) c = None"

lemma relay_inv_register:
  assumes s: "relay_inv H s" and c: "fresh c s"
  shows "relay_inv H (register c ep ip user s)"
proof -
  let ?t = "s\<lparr>obj := (obj s)(c := new_rconn ep ip user (clock s)), connections := jset_add c (connections s)\<rparr>"
  have b: "base_inv {} s" and o: "open_inv s" and l: "late_inv H s" and m: "mobiles_ok s" and a: "admission_ok s"
    using s by (simp_all add: relay_inv_def topo_inv_def)
  have prim: "jget (primaryAgentByDevice s) d = Some c' \<Longrightarrow> c' \<noteq> c" for d c'
    using c unfolding fresh_def by blast
  have "base_inv {} ?t"
    unfolding base_inv_def
  proof (intro conjI)
    show "\<forall>d c'. jget (primaryAgentByDevice ?t) d = Some c' \<longrightarrow>
        k_role (obj ?t c') = Agent \<and> k_deviceId (obj ?t c') = Some d \<and>
        k_authenticated (obj ?t c') \<and> jget (agentsByDevice ?t) d = Some [c']"
      using b prim by (simp add: base_inv_def)
    show "\<forall>c' p. jget (pendingAuth ?t) c' = Some p \<longrightarrow> k_role (obj ?t c') = Mobile"
      using relay_inv_pendingD [OF s] c by (auto simp: fresh_def)
  qed (use b in \<open>auto simp: base_inv_def new_rconn_def\<close>)
  moreover have "open_inv ?t" "mobiles_ok ?t" "admission_ok ?t" "late_inv H ?t"
    using o m a c l by (auto simp: open_inv_def late_inv_def mobiles_ok_def admission_ok_def fresh_def new_rconn_def)
  ultimately have "relay_inv H ?t" by (simp add: relay_inv_def topo_inv_def)
  then show ?thesis by (simp add: register_def)
qed

lemma unknown_not_agent:
  assumes "relay_inv H s" and "k_role (obj s c) = Unknown"
  shows "c \<notin> set (members (agentsByDevice s) d)"
proof
  assume "c \<in> set (members (agentsByDevice s) d)"
  then obtain as where as: "jget (agentsByDevice s) d = Some as" "c \<in> set as"
    by (cases "jget (agentsByDevice s) d") (auto simp: members_def)
  have b: "base_inv {} s" using assms(1) by (simp add: relay_inv_def topo_inv_def)
  with as have "jget (primaryAgentByDevice s) d = Some c" by (fastforce simp: base_inv_def)
  with b assms(2) show False unfolding base_inv_def by fastforce
qed

lemma topo_inv_admitted:
  assumes s: "relay_inv H s" and c: "k_endpoint (obj s c) = Agent_endpoint" "k_role (obj s c) = Unknown"
  shows "topo_inv {c} H (upd c (\<lambda>k. k\<lparr>k_userId := user, k_role := Agent, k_state := Registered_agent,
     k_deviceId := Some d, k_devicePublicKey := Some key, k_authenticated := True, k_authState := Auth_verified\<rparr>) s)"
    (is "topo_inv {c} H ?t")
proof -
  have b: "base_inv {} s" and o: "open_inv s" and l: "late_inv H s" using s by (simp_all add: relay_inv_def topo_inv_def)
  have prim: "jget (primaryAgentByDevice s) d = Some c' \<Longrightarrow> c' \<noteq> c" for d c'
    using b c(2) unfolding base_inv_def by fastforce
  have pend: "jget (pendingAuth s) c \<noteq> Some p" for p using relay_inv_pendingD [OF s] c(2) by fastforce
  have "base_inv {c} ?t"
    unfolding base_inv_def
  proof (intro conjI)
    show "\<forall>d c'. jget (primaryAgentByDevice ?t) d = Some c' \<longrightarrow>
        k_role (obj ?t c') = Agent \<and> k_deviceId (obj ?t c') = Some d \<and>
        k_authenticated (obj ?t c') \<and> jget (agentsByDevice ?t) d = Some [c']"
      using b prim by (simp add: base_inv_def)
    show "\<forall>c' p. jget (pendingAuth ?t) c' = Some p \<longrightarrow> k_role (obj ?t c') = Mobile"
      using relay_inv_pendingD [OF s] pend by (simp, blast)
  qed (use b c(1) in \<open>auto simp: base_inv_def\<close>)
  then show ?thesis using o l by (simp add: topo_inv_def open_inv_def late_inv_def)
qed

lemma relay_inv_admit:
  assumes s: "relay_inv H s" and c: "c \<in> set (connections s) \<union> H"
    and k: "k_endpoint (obj s c) = Agent_endpoint" "k_role (obj s c) = Unknown"
  shows "relay_inv H (admit_agent c m user s)"
proof -
  let ?t = "upd c (\<lambda>k. k\<lparr>k_userId := user, k_role := Agent, k_state := Registered_agent, k_deviceId := Some (ah_device_id m),
                k_devicePublicKey := Some (ah_device_public_key m), k_authenticated := True, k_authState := Auth_verified\<rparr>) s"
  have t: "topo_inv {c} H ?t" by (rule topo_inv_admitted [OF s k])
  have a: "admission_ok s" and mt: "mobiles_ok ?t" using s by (simp_all add: relay_inv_def mobiles_ok_def)
  let ?u = "addAgentToDevice (ah_device_id m) c ?t"
  have "topo_inv {} H ?u" by (rule addAgent_inv [OF t]) (use c mt in simp_all)
  moreover have "mobiles_ok ?u" using addAgent_takes_over(4) [OF t] mt by simp
  moreover have "admission_ok ?u"
    using a by (auto simp: admission_ok_def unverified_def)
  ultimately have "relay_inv H ?u" by (simp add: relay_inv_def)
  then show ?thesis by (simp add: admit_agent_def Let_def)
qed

section \<open>Every handler keeps it\<close>

lemma relay_inv_keys [simp]:
  "relay_inv H (snd (consume_key key s)) = relay_inv H s" "relay_inv H (reset_key key s) = relay_inv H s"
  by (simp_all add: consume_key_def reset_key_def split: prod.split)

lemma consume_key_keeps [simp]:
  "obj (snd (consume_key key s)) = obj s" "connections (snd (consume_key key s)) = connections s"
  "primaryAgentByDevice (snd (consume_key key s)) = primaryAgentByDevice s"
  "pendingAuth (snd (consume_key key s)) = pendingAuth s" "outbox (snd (consume_key key s)) = outbox s"
  "clock (snd (consume_key key s)) = clock s"
  "obj (reset_key key s) = obj s" "connections (reset_key key s) = connections s"
  "clock (reset_key key s) = clock s" "outbox (reset_key key s) = outbox s"
  "primaryAgentByDevice (reset_key key s) = primaryAgentByDevice s"
  by (simp_all add: consume_key_def reset_key_def split: prod.split)

lemma relay_inv_denial [simp, intro]: "relay_inv H s \<Longrightarrow> relay_inv H (execute_denial a c s)"
  by (auto simp: execute_denial_def split: denial.split)

lemma relay_inv_errors [simp]:
  "relay_inv H (sendProtocolError c code detail s) = relay_inv H s" "relay_inv H (rejectInvalidState c type s) = relay_inv H s"
  "relay_inv H (e2e_reject c type s) = relay_inv H s"
  by (simp_all add: sendProtocolError_def rejectInvalidState_def e2e_reject_def)

lemma relay_inv_fail [simp, intro]: "relay_inv H s \<Longrightarrow> relay_inv H (auth_fail c reason s)"
  by (simp add: auth_fail_def Let_def)

lemma rate_limited_cases:
  "isRateLimited E c d s = (False, s) \<or> (\<exists>r. isRateLimited E c d s = (True, close_socket c 4403 r s))"
  by (auto simp: isRateLimited_def split: option.split)

lemma attempt_cases:
  "\<exists>l. consumeInitChallengeAttempt E c s = (True, s\<lparr>authLimiter := l\<rparr>) \<or>
       (\<exists>r. consumeInitChallengeAttempt E c s = (False, close_socket c 4403 r (s\<lparr>authLimiter := l\<rparr>)))"
proof (cases "v_public_ip E (k_remoteIp (obj s c))")
  case None
  then have "consumeInitChallengeAttempt E c s = (True, s\<lparr>authLimiter := authLimiter s\<rparr>)"
    by (simp add: consumeInitChallengeAttempt_def)
  then show ?thesis by blast
next
  case (Some ip)
  then show ?thesis
    by (auto simp: consumeInitChallengeAttempt_def consume_key_def split: prod.split bool.split)
qed

lemma relay_inv_failure [simp]: "relay_inv H (recordAuthFailure E c d s) = relay_inv H s"
  by (simp add: recordAuthFailure_def split: option.split)

lemma recordAuthFailure_keeps [simp]:
  "obj (recordAuthFailure E c d s) = obj s" "connections (recordAuthFailure E c d s) = connections s"
  by (simp_all add: recordAuthFailure_def split: option.split)

lemma relay_inv_init: 
  assumes "relay_inv H s"
  shows "relay_inv H (handleAgentAuthInit E c m s)"
proof -
  have b: "relay_inv H (upd c (\<lambda>k. k\<lparr>k_authState := Auth_pending\<rparr>) t)"
    if "relay_inv H t" "unverified (k_authState (obj t c))" for t
  proof -
    have "base_inv {} (upd c (\<lambda>k. k\<lparr>k_authState := Auth_pending\<rparr>) t) = base_inv {} t"
      by (rule base_inv_cong) (auto simp: same_maps_def same_ident_def)
    with that show ?thesis
      by (auto simp: relay_inv_def topo_inv_def open_inv_def late_inv_def mobiles_ok_def admission_ok_def)
  qed
  show ?thesis
  proof (cases "k_authState (obj s c) \<noteq> Auth_none")
    case True
    with assms show ?thesis by (auto simp: handleAgentAuthInit_def)
  next
    case False
    then have u: "unverified (k_authState (obj s c))" by (simp add: unverified_def)
    from rate_limited_cases [of E c "ai_device_id m" s] show ?thesis
    proof (elim disjE exE)
      assume r: "isRateLimited E c (ai_device_id m) s = (False, s)"
      show ?thesis
      proof (cases "v_agent_init_policy E m c")
        case (Denied a)
        with assms False r show ?thesis by (auto simp: handleAgentAuthInit_def)
      next
        case (Allowed user)
        from attempt_cases [of E c s] show ?thesis
          using assms False r Allowed u b by (auto simp: handleAgentAuthInit_def)
      qed
    qed (use assms False in \<open>auto simp: handleAgentAuthInit_def\<close>)
  qed
qed

lemma relay_inv_hello:
  assumes "relay_inv H s" and "c \<in> set (connections s) \<union> H" and "k_endpoint (obj s c) = Agent_endpoint"
  shows "relay_inv H (handleAgentHello E c m s)"
proof (cases "k_authState (obj s c) = Auth_pending")
  case False
  with assms show ?thesis by (auto simp: handleAgentHello_def)
next
  case True
  then have r: "k_role (obj s c) = Unknown"
    using assms by (simp add: relay_inv_def admission_ok_def unverified_def)
  from rate_limited_cases [of E c "ah_device_id m" s] show ?thesis
    using assms True r
    by (auto simp: handleAgentHello_def split: decision.split option.split intro!: relay_inv_admit)
qed

lemma relay_inv_connect:
  assumes s: "relay_inv H s" and c: "k_endpoint (obj s c) = Mobile_endpoint"
  shows "relay_inv H (handleMobileConnect E c m s)"
proof -
  have b: "relay_inv H (bind_mobile c m user s)" for user
    unfolding bind_mobile_def by (rule relay_inv_phone [OF s c]) (use c in simp_all)
  have k: "k_role (obj (bind_mobile c m user s) c) = Mobile" "connections (bind_mobile c m user s) = connections s" for user
    by (simp_all add: bind_mobile_def)
  have pend: "relay_inv H (emit e (bind_mobile c m user s)
      \<lparr>pendingAuth := jput c p (pendingAuth (bind_mobile c m user s))\<rparr>)" for user e p
    using relay_inv_pend [of H "emit e (bind_mobile c m user s)" c p] b k by simp
  show ?thesis
    using s b pend by (auto simp: handleMobileConnect_def Let_def split: decision.split option.split)
qed

lemma relay_inv_proof: "relay_inv H s \<Longrightarrow> relay_inv H (handleAuthProof E c m s)"
  by (auto simp: handleAuthProof_def Let_def split: option.split)

lemma relay_inv_accept:
  assumes s: "relay_inv H s" and c: "k_role (obj s c) = Mobile"
  shows "relay_inv H (accept_mobile c agent s)"
proof -
  have ep: "k_endpoint (obj s c) = Mobile_endpoint" by (rule relay_inv_role [OF s c])
  let ?t = "upd c (\<lambda>k. k\<lparr>k_authenticated := True, k_authState := Auth_verified, k_state := Relay_pairing_verified\<rparr>) s"
  have t: "relay_inv H ?t" by (rule relay_inv_phone [OF s ep]) (use c ep in simp_all)
  have "relay_inv H (addMobileToDevice d c (reset_key key (emit e ?t)))" for d key e
    by (rule relay_inv_addMobile) (use t ep in simp_all)
  with t show ?thesis by (auto simp: accept_mobile_def Let_def split: option.split)
qed

lemma relay_inv_result: "relay_inv H s \<Longrightarrow> relay_inv H (handleAuthResult agent m s)"
proof -
  assume s: "relay_inv H s"
  have pend: "relay_inv H (s\<lparr>pendingAuth := jput c q (pendingAuth s)\<rparr>)" if "jget (pendingAuth s) c = Some p" for c p q
    using relay_inv_pendingD [OF s that] relay_inv_pend [OF s] by blast
  have acc: "relay_inv H (accept_mobile c agent (s\<lparr>pendingAuth := jdel c (pendingAuth s)\<rparr>))"
    if "k_role (obj s c) = Mobile" for c
    by (rule relay_inv_accept) (use s that in auto)
  show ?thesis
    using s pend acc by (auto simp: handleAuthResult_def Let_def split: option.split body.split)
qed

lemma relay_inv_contexts [simp]:
  "relay_inv H (cleanupExpiredAppDeliveryContexts s) = relay_inv H s"
  "relay_inv H (snd (rememberAppDeliveryContext E d a c s)) = relay_inv H s"
  "relay_inv H (snd (takeAppDeliveryContext key s)) = relay_inv H s"
  by (simp_all add: cleanupExpiredAppDeliveryContexts_def rememberAppDeliveryContext_def takeAppDeliveryContext_def
      Let_def split: option.split)

lemma context_eqs [simp]:
  "obj (cleanupExpiredAppDeliveryContexts s) = obj s"
  "connections (cleanupExpiredAppDeliveryContexts s) = connections s"
  "obj (snd (takeAppDeliveryContext key s)) = obj s"
  "connections (snd (takeAppDeliveryContext key s)) = connections s"
  "outbox (snd (takeAppDeliveryContext key s)) = outbox s"
  "obj (snd (rememberAppDeliveryContext E d a c s)) = obj s"
  "connections (snd (rememberAppDeliveryContext E d a c s)) = connections s"
  "outbox (snd (rememberAppDeliveryContext E d a c s)) = outbox s"
  by (simp_all add: cleanupExpiredAppDeliveryContexts_def rememberAppDeliveryContext_def takeAppDeliveryContext_def
      Let_def split: option.split)

lemma relay_inv_route [simp, intro]: "relay_inv H s \<Longrightarrow> relay_inv H (routeMessage E c m s)"
  using relay_inv_contexts(2)
  by (auto simp: routeMessage_def Let_def split_beta split: option.split)

lemma relay_inv_deliver: "relay_inv H s \<Longrightarrow> relay_inv H (handleRelayAppDeliver c key x s)"
  using relay_inv_contexts(3) [of H key s]
  by (auto simp: handleRelayAppDeliver_def Let_def split: option.split prod.split simp del: relay_inv_contexts)

lemma relay_inv_to_agent [simp]: "relay_inv H (routeMobileToAgent c m s) = relay_inv H s"
  by (simp add: routeMobileToAgent_def split: option.split)

lemma relay_inv_e2e:
  assumes "relay_inv H s"
  shows "relay_inv H (handleHandshakeInit c m app h s)" "relay_inv H (handleHandshakeReply c m app h s)"
    "relay_inv H (handleReady E c m app h t s)" "relay_inv H (handleMessage c m app u s)"
    "relay_inv H (handleFailed c m appo s)" "relay_inv H (routeControl E c m type s)"
proof -
  show "relay_inv H (handleHandshakeInit c m app h s)" "relay_inv H (handleHandshakeReply c m app h s)"
    using assms by (simp_all add: handleHandshakeInit_def handleHandshakeReply_def Let_def)
  show "relay_inv H (handleReady E c m app h t s)"
    using assms by (simp add: handleReady_def Let_def split: option.split)
  show "relay_inv H (handleMessage c m app u s)"
    using assms by (simp add: handleMessage_def Let_def split: option.split)
  show "relay_inv H (handleFailed c m appo s)" "relay_inv H (routeControl E c m type s)"
    using assms by (simp_all add: handleFailed_def routeControl_def Let_def)
qed

lemma relay_inv_links [simp]:
  "relay_inv H (updateLinkForConnection c s) = relay_inv H s" "relay_inv H (updateLinkForApp app s) = relay_inv H s"
  by (simp_all add: updateLinkForConnection_def updateLinkForApp_def Let_def split: option.split prod.split)

lemma relay_inv_upgrade_control [simp]: "relay_inv H s \<Longrightarrow> relay_inv H (upgrade_control c p app m s)"
  by (simp add: upgrade_control_def)

lemma relay_inv_network: "relay_inv H s \<Longrightarrow> relay_inv H (handleAppNetworkChanged E c app s)"
  by (simp add: handleAppNetworkChanged_def Let_def split: option.split)

lemma ensureEndpoint_cases:
  "(ensureEndpoint c ep s = (True, s) \<and> k_endpoint (obj s c) = ep) \<or>
   ensureEndpoint c ep s = (False, close_socket c 1008 (wrong_endpoint_reason ep) s)"
  by (simp add: ensureEndpoint_def)

lemma relay_inv_dispatch:
  assumes s: "relay_inv H s" and c: "c \<in> set (connections s) \<union> H"
  shows "relay_inv H (dispatch E c m s)"
proof (cases "msg_body m")
  case (B_agent_auth_init x)
  then show ?thesis using s ensureEndpoint_cases [of c Agent_endpoint s] relay_inv_init by (auto simp: dispatch_def)
next
  case (B_agent_hello x)
  then show ?thesis using s c ensureEndpoint_cases [of c Agent_endpoint s] relay_inv_hello by (auto simp: dispatch_def)
next
  case (B_mobile_connect x)
  then show ?thesis using s c ensureEndpoint_cases [of c Mobile_endpoint s] relay_inv_connect by (auto simp: dispatch_def)
qed (use s in \<open>simp_all add: dispatch_def relay_inv_proof relay_inv_result relay_inv_network relay_inv_deliver relay_inv_e2e\<close>)

lemma relay_inv_raw: "relay_inv H s \<Longrightarrow> c \<in> set (connections s) \<union> H \<Longrightarrow> relay_inv H (handleRawMessage E c raw s)"
  by (auto simp: handleRawMessage_def Let_def relay_inv_dispatch split: raw_text.split)

lemma relay_inv_expire: "relay_inv H s \<Longrightarrow> relay_inv H (expire_pending x s)"
  by (auto simp: expire_pending_def Let_def split: prod.split)

lemma relay_inv_swept: "relay_inv H s \<Longrightarrow> relay_inv H (cleanupExpiredPendingAuth s)"
proof -
  have "relay_inv H (fold expire_pending xs s)" if "relay_inv H s" for xs
    using that by (induction xs arbitrary: s) (simp_all add: relay_inv_expire)
  then show "relay_inv H s \<Longrightarrow> relay_inv H (cleanupExpiredPendingAuth s)" by (simp add: cleanupExpiredPendingAuth_def)
qed

lemma relay_inv_revoked: "relay_inv H s \<Longrightarrow> relay_inv H (closeDeviceConnections d s)"
proof -
  have "relay_inv H (fold (\<lambda>c s. if k_deviceId (obj s c) = Some d then close_socket c 4403 ''device_revoked'' s else s) xs s)"
    if "relay_inv H s" for xs using that by (induction xs arbitrary: s) auto
  then show "relay_inv H s \<Longrightarrow> relay_inv H (closeDeviceConnections d s)" by (simp add: closeDeviceConnections_def)
qed

text \<open>
  The runs. All that is asked of an event is that the id of a new connection is a new one. Messages are
  heard on every connection, a closed one as well: \<open>handleRawMessage\<close> makes no difference. The runs carry the
  set \<open>H\<close> of the connections heard so far while they were not registered (any more).
\<close>

definition new_ids :: "relay_event \<Rightarrow> relay \<Rightarrow> bool" where
  "new_ids e s \<longleftrightarrow> (case e of Connected c ep ip user \<Rightarrow> fresh c s | _ \<Rightarrow> True)"

definition heard_late :: "relay_event \<Rightarrow> relay \<Rightarrow> string set" where
  "heard_late e s = (case e of Received c raw \<Rightarrow> {c} - set (connections s) | _ \<Rightarrow> {})"

lemma relay_inv_mono: "relay_inv H s \<Longrightarrow> H \<subseteq> H' \<Longrightarrow> relay_inv H' s"
  by (auto simp: relay_inv_def topo_inv_def late_inv_def)

lemma relay_inv_step:
  assumes "relay_inv H s" and e: "new_ids e s"
  shows "relay_inv (H \<union> heard_late e s) (relay_step (E, e, now, r) s)"
proof -
  let ?H = "H \<union> heard_late e s" and ?s = "s\<lparr>clock := now, rnd := r\<rparr>"
  have s: "relay_inv ?H ?s" using relay_inv_mono [OF assms(1), of ?H] by simp
  show ?thesis
  proof (cases e)
    case (Connected c ep ip user)
    with e have "fresh c ?s" by (simp add: new_ids_def fresh_def)
    from relay_inv_register [OF s this] Connected show ?thesis by (simp add: relay_step_def)
  next
    case (Received c raw)
    then have "c \<in> set (connections ?s) \<union> ?H" by (auto simp: heard_late_def)
    from relay_inv_raw [OF s this] Received show ?thesis by (simp add: relay_step_def)
  next
    case (Debug_upgrade d app)
    with s show ?thesis by (simp add: relay_step_def debug_upgrade_def split: option.split)
  qed (use s in \<open>simp_all add: relay_step_def relay_inv_lost relay_inv_swept relay_inv_revoked\<close>)
qed

inductive relay_reach :: "limiter \<Rightarrow> string set \<Rightarrow> relay \<Rightarrow> bool" for l :: limiter where
  reach_start: "relay_reach l {} (new_relay l)"
| reach_step: "relay_reach l H s \<Longrightarrow> new_ids e s \<Longrightarrow> relay_reach l (H \<union> heard_late e s) (relay_step (E, e, now, r) s)"

lemma relay_reach_inv: "relay_reach l H s \<Longrightarrow> relay_inv H s"
proof (induction rule: relay_reach.induct)
  case reach_start
  show ?case by (simp add: new_relay_def relay_inv_def topo_inv_def base_inv_def open_inv_def late_inv_def mobiles_ok_def
        admission_ok_def members_def new_rconn_def)
next
  case (reach_step H s e E now r)
  then show ?case by (simp add: relay_inv_step)
qed

section \<open>Who becomes authenticated\<close>

lemma forward_keeps [simp]:
  "k_authenticated (obj (fold forward xs s) x) = k_authenticated (obj s x)"
  by (induction xs arbitrary: s) (simp_all add: forward_def)

lemma broadcast_keeps [simp]:
  "k_authenticated (obj (fold (\<lambda>y. send_msg y m) xs s) x) = k_authenticated (obj s x)"
  by (induction xs arbitrary: s) simp_all

lemma run_keeps [simp]: "k_authenticated (obj (run_orchestrator f s) x) = k_authenticated (obj s x)"
  by (simp add: run_orchestrator_def Let_def)

lemma errors_keep [simp]:
  "k_authenticated (obj (sendProtocolError c code detail s) x) = k_authenticated (obj s x)"
  "k_authenticated (obj (rejectInvalidState c type s) x) = k_authenticated (obj s x)"
  "k_authenticated (obj (e2e_reject c type s) x) = k_authenticated (obj s x)"
  "k_authenticated (obj (auth_fail c reason s) x) = k_authenticated (obj s x)"
  "k_authenticated (obj (execute_denial a c s) x) = k_authenticated (obj s x)"
  by (simp_all add: sendProtocolError_def rejectInvalidState_def e2e_reject_def auth_fail_def execute_denial_def
      Let_def split: denial.split)

lemma init_keeps [simp]: "k_authenticated (obj (handleAgentAuthInit E c m s) x) = k_authenticated (obj s x)"
proof -
  from rate_limited_cases [of E c "ai_device_id m" s] attempt_cases [of E c s] show ?thesis
    by (cases "v_agent_init_policy E m c") (auto simp: handleAgentAuthInit_def split: if_splits)
qed

lemma hello_keeps: "x \<noteq> c \<Longrightarrow> k_authenticated (obj (handleAgentHello E c m s) x) = k_authenticated (obj s x)"
proof -
  assume x: "x \<noteq> c"
  have a: "k_authenticated (obj (admit_agent c m user t) x) = k_authenticated (obj t x)" for user t
    using x by (simp add: admit_agent_def Let_def)
  from rate_limited_cases [of E c "ah_device_id m" s] a x show ?thesis
    by (cases "v_agent_hello_policy E m c"; cases "v_public_ip E (k_remoteIp (obj s c))";
        cases "v_authorizeAgent E (authorization_input E c m s)") (auto simp: handleAgentHello_def)
qed

lemma connect_keeps [simp]: "k_authenticated (obj (handleMobileConnect E c m s) x) = k_authenticated (obj s x)"
proof -
  have "k_authenticated (obj (bind_mobile c m user s) x) = k_authenticated (obj s x)" for user
    by (simp add: bind_mobile_def)
  then show ?thesis by (auto simp: handleMobileConnect_def Let_def split: decision.split option.split)
qed

lemma proof_keeps [simp]: "k_authenticated (obj (handleAuthProof E c m s) x) = k_authenticated (obj s x)"
  by (auto simp: handleAuthProof_def Let_def split: option.split)

lemma route_keeps [simp]: "k_authenticated (obj (routeMessage E c m s) x) = k_authenticated (obj s x)"
  by (auto simp: routeMessage_def Let_def split_beta split: option.split)

lemma deliver_keeps [simp]: "k_authenticated (obj (handleRelayAppDeliver c key y s) x) = k_authenticated (obj s x)"
proof -
  have "k_authenticated (obj (snd (takeAppDeliveryContext key s)) x) = k_authenticated (obj s x)" by simp
  then show ?thesis
    by (auto simp: handleRelayAppDeliver_def Let_def split: option.split prod.split simp del: context_eqs)
qed

lemma to_agent_keeps [simp]: "k_authenticated (obj (routeMobileToAgent c m s) x) = k_authenticated (obj s x)"
  by (simp add: routeMobileToAgent_def split: option.split)

lemma set_peer_keeps [simp]:
  "k_authenticated (set_peer app p k) = k_authenticated k" "k_deviceId (set_peer app p k) = k_deviceId k"
  "k_role (set_peer app p k) = k_role k" "k_closed (set_peer app p k) = k_closed k"
  "k_state (set_peer app p k) = k_state k"
  by (simp_all add: set_peer_def)

lemma e2e_keeps [simp]:
  "k_authenticated (obj (handleHandshakeInit c m app h s) x) = k_authenticated (obj s x)"
  "k_authenticated (obj (handleHandshakeReply c m app h s) x) = k_authenticated (obj s x)"
  "k_authenticated (obj (handleFailed c m appo s) x) = k_authenticated (obj s x)"
  "k_authenticated (obj (routeControl E c m type s) x) = k_authenticated (obj s x)"
     apply (simp add: handleHandshakeInit_def Let_def)
    apply (simp add: handleHandshakeReply_def)
   apply (simp add: handleFailed_def Let_def)
  apply (simp add: routeControl_def)
  done

lemma ready_keeps [simp]: "k_authenticated (obj (handleReady E c m app h t s) x) = k_authenticated (obj s x)"
  by (cases "jget (k_agentE2EPeers (obj s c)) app"; cases "k_deviceId (obj s c)") (simp_all add: handleReady_def Let_def)

lemma message_keeps [simp]: "k_authenticated (obj (handleMessage c m app u s) x) = k_authenticated (obj s x)"
  by (cases "jget (k_agentE2EPeers (obj s c)) app") (simp_all add: handleMessage_def Let_def)

lemma links_keep [simp]:
  "k_authenticated (obj (updateLinkForConnection c s) x) = k_authenticated (obj s x)"
  "k_authenticated (obj (updateLinkForApp app s) x) = k_authenticated (obj s x)"
  by (simp_all add: updateLinkForConnection_def updateLinkForApp_def Let_def split: option.split prod.split)

lemma control_keeps [simp]:
  "k_authenticated (obj (upgrade_control c p app m s) x) = k_authenticated (obj s x)"
  "k_authenticated (obj (handleAppNetworkChanged E c appid s) x) = k_authenticated (obj s x)"
  by (simp_all add: upgrade_control_def handleAppNetworkChanged_def Let_def split: option.split)

lemma accept_keeps: "x \<noteq> c \<Longrightarrow> k_authenticated (obj (accept_mobile c agent s) x) = k_authenticated (obj s x)"
  by (simp add: accept_mobile_def addMobileToDevice_def Let_def split: option.split)

lemma result_keeps:
  assumes "\<not> k_authenticated (obj s x)" and "k_authenticated (obj (handleAuthResult agent m s) x)"
  shows "\<exists>ok p. msg_body m = B_auth_ok ok \<and> k_role (obj s agent) = Agent \<and> x \<in> set (connections s) \<and>
    k_deviceId (obj s x) = k_deviceId (obj s agent) \<and> jget (pendingAuth s) x = Some p \<and>
    ok_matches ok x agent (Some p) s"
proof (cases "msg_body m")
  case (B_auth_ok ok)
  then have x: "x = ao_connection_id ok"
    using assms accept_keeps [of x "ao_connection_id ok" agent "s\<lparr>pendingAuth := jdel (ao_connection_id ok) (pendingAuth s)\<rparr>"]
    by (auto simp: handleAuthResult_def verdict_target_def Let_def split: if_splits)
  with B_auth_ok assms obtain p where "jget (pendingAuth s) x = Some p"
    by (cases "jget (pendingAuth s) x") (auto simp: handleAuthResult_def verdict_target_def Let_def ok_matches_def split: if_splits)
  with x B_auth_ok assms show ?thesis
    by (auto simp: handleAuthResult_def verdict_target_def Let_def ok_matches_def split: if_splits)
qed (use assms in \<open>auto simp: handleAuthResult_def verdict_target_def Let_def split: if_splits option.splits\<close>)

lemma expire_keeps [simp]: "k_authenticated (obj (expire_pending y s) x) = k_authenticated (obj s x)"
  by (simp add: expire_pending_def Let_def split: prod.split)

lemma sweep_keeps [simp]: "k_authenticated (obj (cleanupExpiredPendingAuth s) x) = k_authenticated (obj s x)"
proof -
  have "k_authenticated (obj (fold expire_pending xs s) x) = k_authenticated (obj s x)" for xs
    by (induction xs arbitrary: s) simp_all
  then show ?thesis by (simp add: cleanupExpiredPendingAuth_def)
qed

lemma revoke_keeps [simp]: "k_authenticated (obj (closeDeviceConnections d s) x) = k_authenticated (obj s x)"
proof -
  have "k_authenticated (obj (fold (\<lambda>c s. if k_deviceId (obj s c) = Some d then close_socket c 4403 ''device_revoked'' s else s) xs s) x)
      = k_authenticated (obj s x)" for xs
    by (induction xs arbitrary: s) auto
  then show ?thesis by (simp add: closeDeviceConnections_def)
qed

lemma lost_keeps [simp]: "k_authenticated (obj (socket_lost c s) x) = k_authenticated (obj s x)"
  by (simp add: socket_lost_def)

lemma dispatch_authenticates:
  assumes "\<not> k_authenticated (obj s x)" and "k_endpoint (obj s x) = Mobile_endpoint"
    and "k_authenticated (obj (dispatch E c m s) x)"
  shows "k_authenticated (obj (handleAuthResult c m s) x)"
proof -
  have hello: "k_authenticated (obj (handleAgentHello E c h s) x) = k_authenticated (obj s x)"
    if "k_endpoint (obj s c) = Agent_endpoint" for h
    using that assms(2) by (intro hello_keeps) auto
  show ?thesis
  proof (cases "msg_body m")
    case (B_agent_hello h)
    with assms(1,3) hello ensureEndpoint_cases [of c Agent_endpoint s] show ?thesis by (auto simp: dispatch_def)
  next
    case (B_agent_auth_init h)
    with assms(1,3) ensureEndpoint_cases [of c Agent_endpoint s] show ?thesis by (auto simp: dispatch_def)
  next
    case (B_mobile_connect h)
    with assms(1,3) ensureEndpoint_cases [of c Mobile_endpoint s] show ?thesis by (auto simp: dispatch_def)
  qed (use assms(1,3) in \<open>simp_all add: dispatch_def\<close>)
qed

lemma raw_authenticates:
  assumes "\<not> k_authenticated (obj s x)" and "k_endpoint (obj s x) = Mobile_endpoint"
    and "k_authenticated (obj (handleRawMessage E c raw s) x)"
  shows "\<exists>m ok p. raw = Parsed m \<and> msg_body m = B_auth_ok ok \<and> k_role (obj s c) = Agent \<and> x \<in> set (connections s) \<and>
    k_deviceId (obj s x) = k_deviceId (obj s c) \<and> jget (pendingAuth s) x = Some p \<and> ok_matches ok x c (Some p) s"
proof (cases raw)
  case (Parsed m)
  let ?t = "emit (Store (SC_ingress c)) (upd c (\<lambda>k. k\<lparr>k_lastSeenAt := clock s\<rparr>) s)"
  have "k_authenticated (obj (handleAuthResult c m ?t) x)"
    by (rule dispatch_authenticates [of _ _ E]) (use assms Parsed in \<open>auto simp: handleRawMessage_def Let_def split: if_splits\<close>)
  from result_keeps [OF _ this] assms(1) Parsed show ?thesis by (cases "x = c") (auto simp: ok_matches_def)
qed (use assms in \<open>auto simp: handleRawMessage_def Let_def split: if_splits\<close>)

lemma step_authenticates:
  assumes c: "\<not> k_authenticated (obj s c)" "k_endpoint (obj s c) = Mobile_endpoint"
    and t: "k_authenticated (obj (relay_step (E, e, now, r) s) c)"
  shows "\<exists>agent m ok p. e = Received agent (Parsed m) \<and> msg_body m = B_auth_ok ok \<and> k_role (obj s agent) = Agent \<and>
    c \<in> set (connections s) \<and> k_deviceId (obj s c) = k_deviceId (obj s agent) \<and> jget (pendingAuth s) c = Some p \<and>
    ok_matches ok c agent (Some p) s"
proof (cases e)
  case (Received agent raw)
  with t have "k_authenticated (obj (handleRawMessage E agent raw (s\<lparr>clock := now, rnd := r\<rparr>)) c)"
    by (simp add: relay_step_def)
  from raw_authenticates [OF _ _ this] c Received show ?thesis by (auto simp: ok_matches_def)
next
  case (Connected c' ep ip user)
  with c t show ?thesis by (auto simp: relay_step_def register_def new_rconn_def split: if_splits)
next
  case (Debug_upgrade d app)
  with c t show ?thesis by (auto simp: relay_step_def debug_upgrade_def split: option.splits if_splits)
qed (use c t in \<open>simp_all add: relay_step_def\<close>)

section \<open>What a handler sends\<close>

text \<open>The frames among the effects an operation adds.\<close>

definition frames :: "relay_effect list \<Rightarrow> (string \<times> message) list" where
  "frames es = concat (map (\<lambda>e. case e of Frame c m \<Rightarrow> [(c, m)] | _ \<Rightarrow> []) es)"

definition sends :: "relay \<Rightarrow> relay \<Rightarrow> (string \<times> message) list" where
  "sends s t = frames (drop (length (outbox s)) (outbox t))"

lemma frames_simps [simp]:
  "frames [] = []" "frames (xs @ ys) = frames xs @ frames ys" "frames (Frame c m # es) = (c, m) # frames es"
  "frames (Store x # es) = frames es" "frames (Sock_close c n r # es) = frames es"
  by (simp_all add: frames_def)

lemma sends_frames: "outbox t = outbox s @ es \<Longrightarrow> sends s t = frames es"
  by (simp add: sends_def)

lemma open_registered: "relay_inv H s \<Longrightarrow> c \<in> set (connections s) \<Longrightarrow> \<not> k_closed (obj s c)"
  by (simp add: relay_inv_def topo_inv_def open_inv_def)

lemma primary_agent:
  "relay_inv H s \<Longrightarrow> jget (primaryAgentByDevice s) d = Some a \<Longrightarrow>
   k_role (obj s a) = Agent \<and> k_endpoint (obj s a) = Agent_endpoint \<and> k_deviceId (obj s a) = Some d \<and>
   k_authenticated (obj s a) \<and> jget (agentsByDevice s) d = Some [a] \<and>
   (a \<in> set (connections s) \<and> \<not> k_closed (obj s a) \<or> a \<in> H \<and> a \<notin> set (connections s) \<and> k_closed (obj s a))"
  unfolding relay_inv_def topo_inv_def base_inv_def open_inv_def late_inv_def by blast

lemma registered_agent:
  "relay_inv H s \<Longrightarrow> a \<in> set (connections s) \<Longrightarrow> k_role (obj s a) = Agent \<Longrightarrow>
   getPrimaryAgent (k_deviceId (obj s a)) s = Some a"
  unfolding relay_inv_def topo_inv_def base_inv_def getPrimaryAgent_def by fastforce

lemma context_outbox [simp]:
  "outbox (cleanupExpiredAppDeliveryContexts s) = outbox s" "clock (cleanupExpiredAppDeliveryContexts s) = clock s"
  "rnd (cleanupExpiredAppDeliveryContexts s) = rnd s"
  "clock (snd (takeAppDeliveryContext key s)) = clock s"
  by (simp_all add: cleanupExpiredAppDeliveryContexts_def takeAppDeliveryContext_def Let_def split: option.split)

text \<open>What a phone's message becomes.\<close>

definition routed :: "string \<Rightarrow> string \<Rightarrow> string \<Rightarrow> message \<Rightarrow> message" where
  "routed d c ctx m = m\<lparr>msg_device := Some d, msg_app := Some c, msg_ctx := Some ctx\<rparr>"

lemma sends_send: "sends s (send_msg c m s) = (if k_closed (obj s c) then [] else [(c, m)])"
  by (simp add: sends_def send_outbox)

text \<open>A frame for a closed socket is dropped.\<close>

definition if_open :: "relay \<Rightarrow> string \<Rightarrow> message \<Rightarrow> (string \<times> message) list" where
  "if_open s x m = (if k_closed (obj s x) then [] else [(x, m)])"

lemma phone_sends:
  assumes "k_role (obj s c) = Mobile"
  shows "sends s (routeMessage E c m s) = (case k_deviceId (obj s c) of
      None \<Rightarrow> if_open s c (auth_failed_msg c None Malformed_proof (Some 2000))
    | Some d \<Rightarrow>
        if \<not> k_authenticated (obj s c) then if_open s c (auth_failed_msg c (Some d) Malformed_proof (Some 2000))
        else (case jget (primaryAgentByDevice s) d of
          None \<Rightarrow> [] | Some a \<Rightarrow> if_open s a (routed d c (''relay_ctx_'' @ rnd s) m)))"
  using assms
  by (auto simp: sends_def if_open_def routeMessage_def Let_def send_outbox getPrimaryAgent_def routed_def
      rememberAppDeliveryContext_def split: option.split)

lemma error_outbox:
  "\<exists>es. outbox (auth_fail c r s) = outbox s @ es \<and> (\<forall>(x, mm) \<in> set (frames es). \<exists>a b c. msg_body mm = B_auth_failed a b c)"
  "\<exists>es. outbox (sendProtocolError c code d s) = outbox s @ es \<and> (\<forall>(x, mm) \<in> set (frames es). \<exists>a b c. msg_body mm = B_protocol_error a b c)"
  "\<exists>es. outbox (e2e_reject c type s) = outbox s @ es \<and> (\<forall>(x, mm) \<in> set (frames es). \<exists>a b c. msg_body mm = B_protocol_error a b c)"
  by (auto simp: auth_fail_def sendProtocolError_def e2e_reject_def Let_def send_outbox auth_failed_msg_def createMessage_def)

lemma close_outbox: "\<exists>es. outbox (close_socket c code r s) = outbox s @ es \<and> frames es = []"
  by (simp add: close_socket_def)

lemma fail_no_verify:
  "(x, mm) \<in> set (sends s (auth_fail c r s')) \<Longrightarrow> outbox s' = outbox s \<Longrightarrow> msg_body mm \<noteq> B_auth_verify pr ai"
  using error_outbox(1) [of c r s'] by (fastforce simp: sends_def)

lemma fail_close_no_verify:
  "(x, mm) \<in> set (sends s (close_socket c code r' (auth_fail c r s'))) \<Longrightarrow> outbox s' = outbox s \<Longrightarrow> msg_body mm \<noteq> B_auth_verify pr ai"
  using error_outbox(1) [of c r s'] close_outbox [of c code r' "auth_fail c r s'"] by (fastforce simp: sends_def)

lemma proof_sends:
  assumes new: "(a, mm) \<in> set (sends s (handleAuthProof E c m s))" and mm: "msg_body mm = B_auth_verify pr ai"
  shows "\<exists>p. jget (pendingAuth s) c = Some p \<and> matchesPending E c p m \<and> clock s < pa_expiresAt p \<and>
      \<bar>clock s - ap_timestamp m\<bar> \<le> v_nonceTtlMs E \<and> v_verify_proof E m \<and>
      jget (primaryAgentByDevice s) (pa_deviceId p) = Some a \<and> a = pa_agentConnectionId p \<and> msg_app mm = Some c \<and>
      \<not> key_blocked (buildAuthRateLimitKey (Some (pa_deviceId p)) (Some (k_remoteIp (obj s c)))) s \<and>
      pr = m \<and> ai = pa_appInfo p"
proof -
  have nf: "(a, mm) \<notin> set (sends s (auth_fail c r s'))"
    "(a, mm) \<notin> set (sends s (close_socket c code r' (auth_fail c r s')))" if "outbox s' = outbox s" for code r r' s'
    using fail_no_verify [of a mm s c r s'] fail_close_no_verify [of a mm s c code r' r s'] that mm by blast+
  show ?thesis
  proof (cases "jget (pendingAuth s) c")
    case None
    with new nf show ?thesis by (simp add: handleAuthProof_def Let_def split: if_splits)
  next
    case (Some p)
    from new nf Some have nb: "\<not> key_blocked (buildAuthRateLimitKey (Some (pa_deviceId p)) (Some (k_remoteIp (obj s c)))) s"
      by (simp add: handleAuthProof_def Let_def split: if_splits)
    with new nf Some have ok: "matchesPending E c p m" "clock s < pa_expiresAt p" "\<bar>clock s - ap_timestamp m\<bar> \<le> v_nonceTtlMs E"
        "v_verify_proof E m"
      by (simp_all add: handleAuthProof_def Let_def split: if_splits)
    with new nf Some nb mm have "getPrimaryAgent (Some (pa_deviceId p)) s = Some a \<and> a = pa_agentConnectionId p \<and>
        msg_app mm = Some c \<and> pr = m \<and> ai = pa_appInfo p"
      by (auto simp: handleAuthProof_def Let_def sends_send createMessage_def split: option.splits if_splits)
    with Some ok nb show ?thesis by (auto simp: getPrimaryAgent_def)
  qed
qed

lemma reject_no_match:
  "(x, mm) \<in> set (sends s (e2e_reject c type s)) \<Longrightarrow> \<exists>a b c. msg_body mm = B_protocol_error a b c"
  using error_outbox(3) [of c type s] by (fastforce simp: sends_def)

lemma to_agent_sends:
  "(x, mm) \<in> set (sends s (routeMobileToAgent c m (upd c f s))) \<Longrightarrow> k_deviceId (f (obj s c)) = k_deviceId (obj s c) \<Longrightarrow>
   getPrimaryAgent (k_deviceId (obj s c)) s = Some x \<and> mm = m"
  by (auto simp: routeMobileToAgent_def sends_def send_outbox getPrimaryAgent_def split: option.splits if_splits)

lemma message_sends:
  assumes "(x, mm) \<in> set (sends s (handleMessage c m app u s))" and "\<forall>a b c. msg_body mm \<noteq> B_protocol_error a b c"
  shows "mm = m \<and> (if k_role (obj s c) = Mobile
     then app = c \<and> getPrimaryAgent (k_deviceId (obj s c)) s = Some x \<and> isPairReadyForApp c (k_deviceId (obj s c)) s \<and>
       (given (k_e2eSessionId (obj s c)) \<longrightarrow> k_e2eSessionId (obj s c) = Some u)
     else k_role (obj s c) = Agent \<and> x = app \<and> getMobileByAppConnectionId c app s \<and>
       (\<exists>p. jget (k_agentE2EPeers (obj s c)) app = Some p \<and> p_ready p \<and>
         (given (p_e2eSessionId p) \<longrightarrow> p_e2eSessionId p = Some u)))"
proof -
  have nr: "(x, mm) \<notin> set (sends s (e2e_reject c t s))" for t
    using reject_no_match [of x mm s c t] assms(2) by blast
  show ?thesis
  proof (cases "k_role (obj s c) = Mobile")
    case True
    with assms(1) nr show ?thesis
      using to_agent_sends [of x mm s c m "\<lambda>k. k\<lparr>k_e2eSessionId := Some u\<rparr>"]
      by (auto simp: handleMessage_def Let_def split: if_splits)
  next
    case False
    show ?thesis
    proof (cases "jget (k_agentE2EPeers (obj s c)) app")
      case None
      with assms(1) nr False show ?thesis by (auto simp: handleMessage_def Let_def split: if_splits)
    next
      case (Some p)
      with assms(1) nr False show ?thesis
        by (auto simp: handleMessage_def Let_def sends_def send_outbox split: if_splits)
    qed
  qed
qed

lemma deliver_sends:
  assumes new: "(x, mm) \<in> set (sends s (handleRelayAppDeliver c key y s))" and mm: "msg_body mm = B_delivered ty pl"
  shows "\<exists>ctx. (key, ctx) \<in> set (contexts s) \<and> clock s < dc_expiresAt ctx \<and> dc_agentConnectionId ctx = c \<and>
      dc_appConnectionId ctx = x \<and> k_role (obj s c) = Agent \<and> k_deviceId (obj s c) = Some (dc_deviceId ctx) \<and>
      x \<in> set (connections s) \<and> k_role (obj s x) = Mobile \<and> k_authenticated (obj s x) \<and>
      k_deviceId (obj s x) = Some (dc_deviceId ctx) \<and> mm = delivery_message (k_deviceId (obj s c)) x y"
proof -
  have nr: "(x, mm) \<notin> set (sends s (sendProtocolError c' code d s'))" if "outbox s' = outbox s" for c' code d s'
    using error_outbox(2) [of c' code d s'] that mm by (fastforce simp: sends_def)
  have role: "k_role (obj s c) = Agent" "k_deviceId (obj s c) \<noteq> None"
    using new nr [of s] by (auto simp: handleRelayAppDeliver_def split: if_splits)
  then obtain d where d: "k_deviceId (obj s c) = Some d" by auto
  show ?thesis
  proof (cases "jget (contexts (cleanupExpiredAppDeliveryContexts s)) key")
    case None
    with new nr role show ?thesis
      by (simp add: handleRelayAppDeliver_def takeAppDeliveryContext_def Let_def)
  next
    case (Some ctx)
    then have "(key, ctx) \<in> set (contexts s) \<and> clock s < dc_expiresAt ctx"
      by (auto simp: cleanupExpiredAppDeliveryContexts_def dest: map_of_SomeD)
    moreover have "dc_deviceId ctx = d \<and> dc_agentConnectionId ctx = c"
      using Some new nr role d
      by (simp add: handleRelayAppDeliver_def takeAppDeliveryContext_def Let_def split: if_splits)
    ultimately show ?thesis
      using Some new nr role d
      by (simp add: handleRelayAppDeliver_def takeAppDeliveryContext_def Let_def split: if_splits)
        (auto simp: sends_def send_outbox split: if_splits)
  qed
qed

lemma deliver_forgets:
  assumes "k_role (obj s c) = Agent" and "k_deviceId (obj s c) \<noteq> None"
  shows "(key, ctx) \<notin> set (contexts (handleRelayAppDeliver c key y s))"
proof -
  have "(key, ctx) \<notin> set (jdel key m)" for m :: "(string, delivery_context) jmap"
    by (metis jhas_def jget_del map_of_eq_None_iff fst_conv image_eqI)
  then have "(key, ctx) \<notin> set (contexts (snd (takeAppDeliveryContext key s)))"
    by (auto simp: takeAppDeliveryContext_def Let_def map_of_eq_None_iff rev_image_eqI split: option.split)
  moreover have "contexts (handleRelayAppDeliver c key y s) = contexts (snd (takeAppDeliveryContext key s))"
    using assms by (auto simp: handleRelayAppDeliver_def sendProtocolError_def Let_def split: option.split prod.split)
  ultimately show ?thesis by simp
qed

end
