(* ===== verification/BrokerFrames.thy ===== *)
theory BrokerFrames
  imports BrokerInvariant
begin

text \<open>
  Everything the relay sends while it handles one message: each frame is an answer of the relay to the
  sender, a notice of the orchestrator, a verified proof on its way to an agent, the message of a phone
  on its way to the agent of its device, or something an agent sends.
\<close>

declare map_of_eq_Some_iff [simp del] Some_eq_map_of_iff [simp del]

section \<open>The frames added between two states\<close>

definition adds :: "(string \<times> message \<Rightarrow> bool) \<Rightarrow> relay \<Rightarrow> relay \<Rightarrow> bool" where
  "adds P s t \<longleftrightarrow> (\<exists>es. outbox t = outbox s @ es \<and> (\<forall>f \<in> set (frames es). P f))"

named_theorems adds_rules

lemma adds_sends: "adds P s t \<Longrightarrow> f \<in> set (sends s t) \<Longrightarrow> P f"
  by (auto simp: adds_def sends_def)

lemma adds_refl [adds_rules]: "adds P s s"
  by (auto simp: adds_def)

lemma adds_same: "outbox t' = outbox t \<Longrightarrow> adds P s t' = adds P s t" "outbox s' = outbox s \<Longrightarrow> adds P s' t = adds P s t"
  by (simp_all add: adds_def)

lemma adds_upd [simp]: "adds P s (upd c f t) = adds P s t"
  "adds P s (t\<lparr>pendingAuth := x1\<rparr>) = adds P s t" "adds P s (t\<lparr>orchestrator := x2\<rparr>) = adds P s t"
  "adds P s (t\<lparr>contexts := x3\<rparr>) = adds P s t" "adds P s (t\<lparr>authLimiter := x4\<rparr>) = adds P s t"
  "adds P s (snd (consume_key key t)) = adds P s t" "adds P s (reset_key key t) = adds P s t"
  "adds P s (addMobileToDevice d c t) = adds P s t"
  "adds P s (t\<lparr>agentsByDevice := x5, primaryAgentByDevice := x6\<rparr>) = adds P s t"
  "adds P s (cleanupExpiredAppDeliveryContexts t) = adds P s t"
  "adds P s (snd (takeAppDeliveryContext key t)) = adds P s t"
  "adds P s (snd (rememberAppDeliveryContext E d a c t)) = adds P s t"
  by (simp_all add: adds_def addMobileToDevice_def)

lemma adds_extend: "adds P s t \<Longrightarrow> outbox t' = outbox t @ es \<Longrightarrow> \<forall>f \<in> set (frames es). P f \<Longrightarrow> adds P s t'"
  unfolding adds_def by (metis UnE append.assoc frames_simps(2) set_append)

lemma adds_store [adds_rules]: "adds P s t \<Longrightarrow> adds P s (emit (Store x) t)"
  by (rule adds_extend [where es = "[Store x]"]) simp_all

lemma adds_send [adds_rules]: "adds P s t \<Longrightarrow> P (c, m) \<Longrightarrow> adds P s (send_msg c m t)"
  by (rule adds_extend [OF _ send_outbox]) (simp_all split: if_split)

lemma adds_close [adds_rules]: "adds P s t \<Longrightarrow> adds P s (close_socket c code r t)"
  using close_outbox [of c code r t] by (auto elim!: adds_extend)

lemma adds_supersede: "adds P s t \<Longrightarrow> adds P s (supersede code c t)"
  unfolding supersede_def
  by (rule adds_extend [OF adds_close, where es = "[Store (SC_close c)]"]) simp_all

lemma adds_fold: "(\<And>x t. adds P s t \<Longrightarrow> adds P s (f x t)) \<Longrightarrow> adds P s t \<Longrightarrow> adds P s (fold f xs t)"
  by (induction xs arbitrary: t) simp_all

lemma adds_agent [adds_rules]: "adds P s t \<Longrightarrow> adds P s (addAgentToDevice d c t)"
  by (simp add: addAgentToDevice_def Let_def adds_fold adds_supersede)

lemma adds_run [adds_rules]:
  "adds P s t \<Longrightarrow> (\<And>x mm e. msg_body mm = B_orchestrator e \<Longrightarrow> P (x, mm)) \<Longrightarrow> adds P s (run_orchestrator f t)"
  unfolding run_orchestrator_def Let_def
  by (rule adds_fold) (auto simp: forward_def createMessage_def intro: adds_send)

lemma adds_links [adds_rules]:
  "adds P s t \<Longrightarrow> adds P s (updateLinkForConnection c t)" "adds P s t \<Longrightarrow> adds P s (updateLinkForApp app t)"
  by (simp_all add: updateLinkForConnection_def updateLinkForApp_def Let_def adds_store split: option.split)

lemma adds_endpoint [adds_rules]: "adds P s t \<Longrightarrow> adds P s (snd (ensureEndpoint c e t))"
  by (simp add: ensureEndpoint_def adds_close)

section \<open>The frames of one message\<close>

text \<open>What the relay says in its own name to the connection it is dealing with.\<close>

definition own_answer :: "body \<Rightarrow> bool" where
  "own_answer b \<longleftrightarrow> (case b of B_auth_failed r a t \<Rightarrow> True | B_protocol_error x d r \<Rightarrow> True | B_agent_challenge n \<Rightarrow> True
     | B_agent_auth_ok i \<Rightarrow> True | B_auth_challenge n t i a k \<Rightarrow> True | _ \<Rightarrow> False)"

text \<open>The proof \<open>pr\<close> of connection \<open>c\<close> repeats its pending challenge \<open>p\<close> and passes every check.\<close>

definition proof_good :: "relay_env \<Rightarrow> string \<Rightarrow> auth_proof \<Rightarrow> pending_auth \<Rightarrow> relay \<Rightarrow> bool" where
  "proof_good E c pr p s \<longleftrightarrow> jget (pendingAuth s) c = Some p \<and> matchesPending E c p pr \<and> clock s < pa_expiresAt p \<and>
     \<bar>clock s - ap_timestamp pr\<bar> \<le> v_nonceTtlMs E \<and> v_verify_proof E pr \<and>
     jget (primaryAgentByDevice s) (pa_deviceId p) = Some (pa_agentConnectionId p) \<and>
     \<not> key_blocked (buildAuthRateLimitKey (Some (pa_deviceId p)) (Some (k_remoteIp (obj s c)))) s"

definition verify_msg :: "string \<Rightarrow> auth_proof \<Rightarrow> pending_auth \<Rightarrow> message" where
  "verify_msg c pr p = (createMessage (Some (pa_deviceId p)) (B_auth_verify pr (pa_appInfo p)))\<lparr>msg_app := Some c\<rparr>"

text \<open>The messages of the encrypted channel name the phone they belong to.\<close>

definition e2e_of :: "string \<Rightarrow> body \<Rightarrow> bool" where
  "e2e_of c b \<longleftrightarrow> (case b of B_e2e_init a h \<Rightarrow> a = c | B_e2e_ready a h t \<Rightarrow> a = c | B_e2e_message a u x \<Rightarrow> a = c
     | B_e2e_failed a \<Rightarrow> True | _ \<Rightarrow> False)"

definition justified :: "relay_env \<Rightarrow> string \<Rightarrow> message \<Rightarrow> relay \<Rightarrow> string \<times> message \<Rightarrow> bool" where
  "justified E c m s f \<longleftrightarrow> (case f of (x, mm) \<Rightarrow>
     x = c \<and> own_answer (msg_body mm)
   \<or> (\<exists>e. msg_body mm = B_orchestrator e)
   \<or> (\<exists>pr p. msg_body m = B_auth_proof pr \<and> proof_good E c pr p s \<and> x = pa_agentConnectionId p \<and> mm = verify_msg c pr p)
   \<or> k_role (obj s c) = Mobile \<and> getPrimaryAgent (k_deviceId (obj s c)) s = Some x \<and>
       (k_authenticated (obj s c) \<and> (\<exists>d ctx. k_deviceId (obj s c) = Some d \<and> mm = routed d c ctx m) \<or>
        mm = m \<and> e2e_of c (msg_body m))
   \<or> k_role (obj s c) = Agent \<and> (mm = m \<or> own_answer (msg_body mm) \<or> (\<exists>t p. msg_body mm = B_delivered t p)))"

lemma justified_own: "own_answer (msg_body mm) \<Longrightarrow> justified E c m s (c, mm)"
  by (simp add: justified_def)

lemma justified_orch: "msg_body mm = B_orchestrator e \<Longrightarrow> justified E c m s (x, mm)"
  by (simp add: justified_def)

lemma justified_agent: "k_role (obj s c) = Agent \<Longrightarrow> justified E c m s (x, m)"
  by (simp add: justified_def)

lemma own_simps [simp]:
  "own_answer (msg_body (auth_failed_msg c d r t))" "own_answer (msg_body (createMessage d (B_protocol_error a e x)))"
  "own_answer (msg_body (createMessage d (B_agent_challenge n)))" "own_answer (msg_body (createMessage d (B_agent_auth_ok i)))"
  "own_answer (msg_body (createMessage d (B_auth_challenge n tm i a k)))"
  "own_answer (msg_body (createMessage d (B_auth_failed r io tt)))"
  by (simp_all add: own_answer_def auth_failed_msg_def createMessage_def)

lemma frames_fail [adds_rules]: "adds (justified E c m s) s t \<Longrightarrow> adds (justified E c m s) s (auth_fail c r t)"
  by (auto simp: auth_fail_def Let_def intro!: adds_rules justified_own)

lemma frames_errors [adds_rules]:
  "adds (justified E c m s) s t \<Longrightarrow> adds (justified E c m s) s (sendProtocolError c code d t)"
  "adds (justified E c m s) s t \<Longrightarrow> adds (justified E c m s) s (rejectInvalidState c type t)"
  "adds (justified E c m s) s t \<Longrightarrow> adds (justified E c m s) s (e2e_reject c type t)"
  by (auto simp: sendProtocolError_def rejectInvalidState_def e2e_reject_def intro!: adds_rules justified_own)

lemma frames_denial [adds_rules]:
  "adds (justified E c m s) s t \<Longrightarrow> adds (justified E c m s) s (execute_denial a c t)"
  by (auto simp: execute_denial_def split: denial.split intro!: adds_rules justified_own)

lemma frames_failure [adds_rules]: "adds P s t \<Longrightarrow> adds P s (recordAuthFailure E c d t)"
  by (simp add: recordAuthFailure_def split: option.split)

lemma frames_init: "adds (justified E c m s) s (handleAgentAuthInit E c i s)"
proof -
  from rate_limited_cases [of E c "ai_device_id i" s] attempt_cases [of E c s] show ?thesis
    by (cases "v_agent_init_policy E i c")
      (auto simp: handleAgentAuthInit_def intro!: adds_rules justified_own)
qed

lemma frames_hello: "adds (justified E c m s) s (handleAgentHello E c h s)"
proof -
  from rate_limited_cases [of E c "ah_device_id h" s] show ?thesis
    by (auto simp: handleAgentHello_def admit_agent_def Let_def split: decision.split option.split
        intro!: adds_rules justified_own)
qed

lemma frames_connect: "adds (justified E c m s) s (handleMobileConnect E c mc s)"
  by (auto simp: handleMobileConnect_def bind_mobile_def Let_def split: decision.split option.split
      intro!: adds_rules justified_own)

lemma frames_proof:
  assumes "msg_body m = B_auth_proof pr"
  shows "adds (justified E c m s) s (handleAuthProof E c pr s)"
proof -
  have "justified E c m s (pa_agentConnectionId p, verify_msg c pr p)" if "proof_good E c pr p s" for p
    using that assms by (auto simp: justified_def)
  then show ?thesis
    by (auto simp: handleAuthProof_def Let_def verify_msg_def [symmetric] proof_good_def getPrimaryAgent_def
        split: option.split intro!: adds_rules justified_own)
qed

lemma frames_accept: "adds P s t \<Longrightarrow> adds P s (accept_mobile x a t)"
  by (auto simp: accept_mobile_def Let_def split: option.split intro!: adds_rules)

lemma frames_result: "adds (justified E c m s) s (handleAuthResult c m s)"
proof (cases "k_role (obj s c) = Agent")
  case True
  have j: "justified E c m s (x, m)" "own_answer (msg_body mm) \<Longrightarrow> justified E c m s (x, mm)" for x mm
    using True by (simp_all add: justified_def)
  have f: "adds (justified E c m s) s t \<Longrightarrow> adds (justified E c m s) s (auth_fail x r t)" for x r t
    by (auto simp: auth_fail_def Let_def intro!: adds_rules j(2))
  show ?thesis
    by (auto simp: handleAuthResult_def Let_def split: option.split body.split intro!: adds_rules j(1) f frames_accept)
qed (simp add: handleAuthResult_def adds_rules)

lemma frames_network: "adds (justified E c m s) s (handleAppNetworkChanged E c app s)"
  by (auto simp: handleAppNetworkChanged_def Let_def split: option.split intro!: adds_rules justified_orch)

lemma frames_deliver: "adds (justified E c m s) s (handleRelayAppDeliver c key y s)"
proof (cases "k_role (obj s c) = Agent")
  case True
  have "justified E c m s (x, delivery_message d a y)" for x d a
    using True by (simp add: justified_def delivery_message_def)
  moreover have "adds (justified E c m s) s (snd (takeAppDeliveryContext key s))" by (simp add: adds_refl)
  ultimately show ?thesis
    by (auto simp: handleRelayAppDeliver_def Let_def split: option.split prod.split intro!: adds_rules simp del: adds_upd)
qed (simp add: handleRelayAppDeliver_def frames_errors adds_rules)

text \<open>The state a message is routed in may differ from the one it was received in, but not in whom it is for.\<close>

definition same_route :: "string \<Rightarrow> relay \<Rightarrow> relay \<Rightarrow> bool" where
  "same_route c s t \<longleftrightarrow> k_role (obj t c) = k_role (obj s c) \<and> k_deviceId (obj t c) = k_deviceId (obj s c) \<and>
     k_authenticated (obj t c) = k_authenticated (obj s c) \<and> primaryAgentByDevice t = primaryAgentByDevice s"

lemma frames_route:
  assumes t: "adds (justified E c m s) s t" "same_route c s t"
  shows "adds (justified E c m s) s (routeMessage E c m t)"
proof -
  consider (phone) "k_role (obj t c) = Mobile" | (agent) "k_role (obj t c) = Agent" | (none) "k_role (obj t c) = Unknown"
    by (cases "k_role (obj t c)") auto
  then show ?thesis
  proof cases
    case phone
    have "justified E c m s (a, routed d c ctx m)"
      if "k_deviceId (obj t c) = Some d" "k_authenticated (obj t c)" "jget (primaryAgentByDevice t) d = Some a" for a d ctx
    proof -
      have k: "k_role (obj s c) = Mobile" "k_authenticated (obj s c)" "k_deviceId (obj s c) = Some d"
          "getPrimaryAgent (k_deviceId (obj s c)) s = Some a"
        using that phone t(2) unfolding same_route_def getPrimaryAgent_def by (metis, metis, metis, metis option.simps(5))
      then show ?thesis unfolding justified_def by blast
    qed
    with phone t(1) show ?thesis
      by (auto simp: routeMessage_def Let_def split_beta routed_def [symmetric] getPrimaryAgent_def split: option.split
          intro!: adds_rules justified_own)
  next
    case agent
    then have "justified E c m s (x, m)" for x using t(2) by (simp add: justified_def same_route_def)
    with agent t(1) show ?thesis
      by (auto simp: routeMessage_def Let_def split: option.split intro!: adds_rules adds_fold)
  next
    case none
    with t(1) show ?thesis by (simp add: routeMessage_def)
  qed
qed

lemma frames_to_agent:
  assumes "adds (justified E c m s) s t" "same_route c s t" "k_role (obj s c) = Mobile" "e2e_of c (msg_body m)"
  shows "adds (justified E c m s) s (routeMobileToAgent c m t)"
proof -
  have "justified E c m s (a, m)" if "getPrimaryAgent (k_deviceId (obj t c)) t = Some a" for a
    using that assms(2-4) by (simp add: justified_def same_route_def getPrimaryAgent_def split: option.splits)
  with assms(1) show ?thesis
    by (auto simp: routeMobileToAgent_def split: option.split intro!: adds_rules)
qed

lemma frames_control:
  assumes "adds (justified E c m s) s t" "same_route c s t"
  shows "adds (justified E c m s) s (routeControl E c m type t)"
  using assms by (auto simp: routeControl_def intro!: adds_rules frames_route)

lemma same_route_refl [simp]: "same_route c s s"
  by (simp add: same_route_def)

lemma frames_phone_e2e:
  assumes "k_role (obj s c) = Mobile"
  shows "msg_body m = B_e2e_init a h \<Longrightarrow> adds (justified E c m s) s (handleHandshakeInit c m a h s)"
    and "msg_body m = B_e2e_reply a h \<Longrightarrow> adds (justified E c m s) s (handleHandshakeReply c m a h s)"
    and "msg_body m = B_e2e_ready a h t \<Longrightarrow> adds (justified E c m s) s (handleReady E c m a h t s)"
    and "msg_body m = B_e2e_message a u x \<Longrightarrow> adds (justified E c m s) s (handleMessage c m a u s)"
    and "msg_body m = B_e2e_failed b \<Longrightarrow> adds (justified E c m s) s (handleFailed c m b s)"
  using assms
  by (auto simp: handleHandshakeInit_def handleHandshakeReply_def handleReady_def handleMessage_def handleFailed_def
      Let_def e2e_of_def same_route_def intro!: adds_rules frames_to_agent)

lemma frames_agent_e2e:
  assumes "k_role (obj s c) \<noteq> Mobile"
  shows "adds (justified E c m s) s (handleHandshakeInit c m a h s)"
    and "adds (justified E c m s) s (handleHandshakeReply c m a h s)"
    and "adds (justified E c m s) s (handleReady E c m a h t s)"
    and "adds (justified E c m s) s (handleMessage c m a u s)"
    and "adds (justified E c m s) s (handleFailed c m b s)"
proof -
  have j: "k_role (obj s c) = Agent \<Longrightarrow> justified E c m s (x, m)" for x by (simp add: justified_def)
  show "adds (justified E c m s) s (handleHandshakeInit c m a h s)" "adds (justified E c m s) s (handleHandshakeReply c m a h s)"
    using assms by (auto simp: handleHandshakeInit_def handleHandshakeReply_def Let_def intro!: adds_rules j)
  show "adds (justified E c m s) s (handleReady E c m a h t s)"
    using assms by (auto simp: handleReady_def Let_def split: option.split intro!: adds_rules j intro: justified_orch)
  show "adds (justified E c m s) s (handleMessage c m a u s)" "adds (justified E c m s) s (handleFailed c m b s)"
    using assms by (auto simp: handleMessage_def handleFailed_def Let_def split: option.split intro!: adds_rules j)
qed

lemma same_route_send [simp]: "same_route c s (send_msg x m t) = same_route c s t"
  by (simp add: same_route_def)

lemma same_route_run [simp]: "same_route c s (run_orchestrator f t) = same_route c s t"
proof -
  have "same_route c s (fold forward xs u) = same_route c s u" for xs u
    by (induction xs arbitrary: u) (simp_all add: forward_def)
  moreover have "same_route c s (t\<lparr>orchestrator := o'\<rparr>) = same_route c s t" for o' by (simp add: same_route_def)
  ultimately show ?thesis by (simp add: run_orchestrator_def Let_def)
qed

lemma same_route_links [simp]:
  "same_route c s (updateLinkForConnection x t) = same_route c s t" "same_route c s (updateLinkForApp app t) = same_route c s t"
proof -
  have e: "same_route c s (emit e u) = same_route c s u" for e u by (simp add: same_route_def)
  show "same_route c s (updateLinkForConnection x t) = same_route c s t" for x
    by (simp add: updateLinkForConnection_def Let_def e split: option.split)
  then show "same_route c s (updateLinkForApp app t) = same_route c s t" by (simp add: updateLinkForApp_def)
qed

lemma upgrade_control_route: "same_route c s (upgrade_control c p app x s)"
  by (simp add: upgrade_control_def) (simp add: same_route_def)

lemma frames_upgrade: "adds (justified E c m s) s (upgrade_control c p app x s)"
  by (auto simp: upgrade_control_def intro!: adds_rules justified_orch)

lemma dispatch_frames: "adds (justified E c m s) s (dispatch E c m s)"
proof (cases "msg_body m")
  case (B_agent_auth_init x)
  then show ?thesis
    using ensureEndpoint_cases [of c Agent_endpoint s] frames_init by (auto simp: dispatch_def intro!: adds_rules)
next
  case (B_agent_hello x)
  then show ?thesis
    using ensureEndpoint_cases [of c Agent_endpoint s] frames_hello by (auto simp: dispatch_def intro!: adds_rules)
next
  case (B_mobile_connect x)
  then show ?thesis
    using ensureEndpoint_cases [of c Mobile_endpoint s] frames_connect by (auto simp: dispatch_def intro!: adds_rules)
next
  case (B_auth_proof x)
  then show ?thesis using frames_proof by (simp add: dispatch_def)
next
  case (B_e2e_init a h)
  then show ?thesis using frames_phone_e2e(1) frames_agent_e2e(1)
    by (cases "k_role (obj s c) = Mobile") (auto simp: dispatch_def intro!: adds_rules)
next
  case (B_e2e_reply a h)
  then show ?thesis using frames_phone_e2e(2) frames_agent_e2e(2)
    by (cases "k_role (obj s c) = Mobile") (auto simp: dispatch_def intro!: adds_rules)
next
  case (B_e2e_ready a h x)
  then show ?thesis using frames_phone_e2e(3) frames_agent_e2e(3)
    by (cases "k_role (obj s c) = Mobile") (auto simp: dispatch_def intro!: adds_rules)
next
  case (B_e2e_message a u x)
  then show ?thesis using frames_phone_e2e(4) frames_agent_e2e(4)
    by (cases "k_role (obj s c) = Mobile") (auto simp: dispatch_def intro!: adds_rules)
next
  case (B_e2e_failed b)
  then show ?thesis using frames_phone_e2e(5) frames_agent_e2e(5)
    by (cases "k_role (obj s c) = Mobile") (auto simp: dispatch_def intro!: adds_rules)
qed (simp_all add: dispatch_def frames_result frames_network frames_deliver frames_control frames_upgrade frames_route
    upgrade_control_route adds_refl)

lemma justified_received:
  "justified E c m (emit e (upd c (\<lambda>k. k\<lparr>k_lastSeenAt := t\<rparr>) s)) = justified E c m s"
  by (rule ext) (simp add: justified_def proof_good_def getPrimaryAgent_def key_blocked_def cong: option.case_cong)

lemma received_frames:
  assumes "(x, mm) \<in> set (sends s (handleRawMessage E c raw s))"
  shows "\<exists>m. raw = Parsed m \<and> justified E c m s (x, mm)"
proof (cases raw)
  case (Parsed m)
  let ?t = "emit (Store (SC_ingress c)) (upd c (\<lambda>k. k\<lparr>k_lastSeenAt := clock s\<rparr>) s)"
  have "adds (justified E c m s) ?t (dispatch E c m ?t)"
    using dispatch_frames [of E c m ?t] by (simp add: justified_received)
  then have "adds (justified E c m s) s (dispatch E c m ?t)" by (force simp: adds_def)
  with assms Parsed show ?thesis by (auto simp: handleRawMessage_def Let_def dest: adds_sends)
next
  case Not_json
  then have "adds (\<lambda>_. False) s (handleRawMessage E c raw s)" by (simp add: handleRawMessage_def Let_def adds_rules)
  from adds_sends [OF this assms] show ?thesis by simp
next
  case Not_message
  then have "adds (\<lambda>_. False) s (handleRawMessage E c raw s)" by (simp add: handleRawMessage_def Let_def adds_rules)
  from adds_sends [OF this assms] show ?thesis by simp
qed

end
