(* ===== verification/BrokerSafety.thy ===== *)
theory BrokerSafety
  imports BrokerFrames
begin

text \<open>
  The properties of the relay as a broker between phones and agents, with states of a short run
  (one agent, one phone, later a second device) at which they are applied, and the gates the code
  leaves open.
\<close>

declare map_of_eq_Some_iff [simp del] Some_eq_map_of_iff [simp del]

section \<open>A run with one agent and one phone\<close>

definition demo_env :: relay_env where
  "demo_env = \<lparr>v_upgrade = demo_config, v_pendingAuthTtlMs = 60000, v_appContextTtlMs = 60000, v_nonceTtlMs = 60000,
     v_agent_init_policy = (\<lambda>m c. Allowed None), v_agent_hello_policy = (\<lambda>m c. Allowed None),
     v_mobile_policy = (\<lambda>m u. Allowed None), v_authorizeAgent = (\<lambda>a. None), v_verify_proof = (\<lambda>p. True),
     v_identity_matches = (\<lambda>k i p. True), v_challenge = (\<lambda>d c. ''ch''), v_public_ip = (\<lambda>ip. None)\<rparr>"

definition demo_hello :: agent_hello where
  "demo_hello = \<lparr>ah_device_id = ''d1'', ah_device_public_key = ''ka'', ah_hostname = ''h'', ah_platform = ''linux'',
     ah_system_type = None, ah_uname = None, ah_agent_version = ''1''\<rparr>"

definition demo_info :: app_info where "demo_info = \<lparr>instanceId = ''i'', runtimeId = ''r''\<rparr>"

definition demo_connect :: "string \<Rightarrow> mobile_connect" where
  "demo_connect d = \<lparr>mc_device_id = d, mc_app_id = ''p1'', mc_app_public_key = ''kp'', mc_app_info = demo_info,
     mc_transport_preference = Some Prefer_p2p, mc_session_token = None\<rparr>"








definition demo_agent_conn :: rconn where
  "demo_agent_conn = (new_rconn Agent_endpoint ''ip1'' None 0)\<lparr>k_role := Agent, k_state := Registered_agent,
     k_deviceId := Some ''d1'', k_devicePublicKey := Some ''ka'', k_authenticated := True, k_lastSeenAt := 2,
     k_authState := Auth_verified\<rparr>"

definition demo_phone_conn :: rconn where
  "demo_phone_conn = (new_rconn Mobile_endpoint ''ip2'' None 3)\<lparr>k_role := Mobile, k_state := Mobile_connected,
     k_deviceId := Some ''d1'', k_appId := Some ''p1'', k_appPublicKey := Some ''kp'', k_appInfo := Some demo_info,
     k_authState := Auth_pending, k_transportPreference := Some Prefer_p2p, k_lastSeenAt := 4\<rparr>"

text \<open>The state with the agent admitted, and the one with a phone challenged as well.\<close>

definition served_state :: "relay_effect list \<Rightarrow> relay" where
  "served_state ob = (new_relay (new_limiter 5 1 60000))
     \<lparr>obj := (obj (new_relay (new_limiter 5 1 60000)))(''a1'' := demo_agent_conn),
      connections := [''a1''], agentsByDevice := [(''d1'', [''a1''])], primaryAgentByDevice := [(''d1'', ''a1'')],
      outbox := ob, clock := 2, rnd := ''n''\<rparr>"

definition challenged_state :: "relay_effect list \<Rightarrow> relay" where
  "challenged_state ob = (served_state ob)
     \<lparr>obj := (obj (served_state ob))(''m1'' := demo_phone_conn), connections := [''a1'', ''m1''],
      pendingAuth := [(''m1'', \<lparr>pa_deviceId = ''d1'', pa_agentPublicKey = ''ka'', pa_appId = ''p1'', pa_appPublicKey = ''kp'',
         pa_agentConnectionId = ''a1'', pa_nonce = ''n'', pa_appInfo = demo_info, pa_expiresAt = 60004, pa_approvalPending = False\<rparr>)],
      clock := 4\<rparr>"





lemmas relay_inv_eval = relay_inv_def topo_inv_def base_inv_def open_inv_def late_inv_def mobiles_ok_def admission_ok_def
  challenged_state_def served_state_def demo_agent_conn_def demo_phone_conn_def new_rconn_def new_relay_def members_def
  unverified_def

lemma challenged_inv: "relay_inv {} (challenged_state ob)"
  by (auto simp: relay_inv_eval split: if_splits)

text \<open>The phone accepted, and the pair ready for encrypted messages.\<close>

definition joined_state :: "relay_effect list \<Rightarrow> relay" where
  "joined_state ob = (challenged_state ob)
     \<lparr>obj := (obj (challenged_state ob))(''a1'' := demo_agent_conn\<lparr>k_lastSeenAt := 4\<rparr>,
        ''m1'' := demo_phone_conn\<lparr>k_authenticated := True, k_authState := Auth_verified,
          k_state := Relay_pairing_verified\<rparr>), pendingAuth := [], mobilesByDevice := [(''d1'', [''m1''])]\<rparr>"

lemma joined_inv: "relay_inv {} (joined_state ob)"
  by (auto simp: relay_inv_eval joined_state_def split: if_splits)

section \<open>Properties\<close>












text \<open>
  C21: a delivery context is good for one answer to one phone. What an agent delivers through a
  context reaches only the phone the context was made for, only when that agent received the
  phone's message, before the context expires, and while the phone is authenticated on the agent's
  device; and whatever the outcome, the context is gone afterwards.
\<close>

theorem context_single_use:
  assumes "(x, mm) \<in> set (sends s (handleRelayAppDeliver c key y s))" and "msg_body mm = B_delivered ty pl"
  shows "(\<exists>ctx. (key, ctx) \<in> set (contexts s) \<and> clock s < dc_expiresAt ctx \<and> dc_agentConnectionId ctx = c \<and>
      dc_appConnectionId ctx = x \<and> k_role (obj s c) = Agent \<and> k_deviceId (obj s c) = Some (dc_deviceId ctx) \<and>
      x \<in> set (connections s) \<and> k_role (obj s x) = Mobile \<and> k_authenticated (obj s x) \<and>
      k_deviceId (obj s x) = Some (dc_deviceId ctx) \<and> mm = delivery_message (k_deviceId (obj s c)) x y)
    \<and> (\<forall>ctx. (key, ctx) \<notin> set (contexts (handleRelayAppDeliver c key y s)))"
  using deliver_sends [OF assms] deliver_forgets [of s c key _ y] by fastforce

definition demo_delivery :: delivery where
  "demo_delivery = \<lparr>dl_id = None, dl_type = ''t'', dl_session_id = None, dl_surface_id = None, dl_seq = None, dl_payload = ''p''\<rparr>"

definition context_state :: relay where
  "context_state = (joined_state [])\<lparr>contexts := [(''relay_ctx_n'', \<lparr>dc_deviceId = ''d1'', dc_agentConnectionId = ''a1'',
     dc_appConnectionId = ''m1'', dc_expiresAt = 60004\<rparr>)]\<rparr>"

theorem context_single_use_witness:
  "\<exists>ctx. (''relay_ctx_n'', ctx) \<in> set (contexts context_state) \<and> dc_appConnectionId ctx = ''m1'' \<and>
     (''relay_ctx_n'', ctx) \<notin> set (contexts (handleRelayAppDeliver ''a1'' ''relay_ctx_n'' demo_delivery context_state))"
proof -
  have "(''m1'', delivery_message (Some ''d1'') ''m1'' demo_delivery)
      \<in> set (sends context_state (handleRelayAppDeliver ''a1'' ''relay_ctx_n'' demo_delivery context_state))"
    by (simp add: handleRelayAppDeliver_def takeAppDeliveryContext_def cleanupExpiredAppDeliveryContexts_def context_state_def
        joined_state_def challenged_state_def served_state_def demo_agent_conn_def demo_phone_conn_def new_rconn_def
        Let_def sends_def send_outbox)
  from context_single_use [OF this] show ?thesis by (auto simp: delivery_message_def)
qed


definition ready_state :: relay where
  "ready_state = (joined_state [])\<lparr>obj := (obj (joined_state []))
     (''a1'' := demo_agent_conn\<lparr>k_agentE2EPeers := [(''m1'', \<lparr>p_handshakeId = ''h'', p_transcriptHash = Some ''t'',
        p_e2eSessionId = None, p_ready = True\<rparr>)]\<rparr>,
      ''m1'' := (obj (joined_state []) ''m1'')\<lparr>k_state := E2e_ready, k_e2eHandshakeId := Some ''h'', k_e2eTranscriptHash := Some ''t''\<rparr>)\<rparr>"





section \<open>Where the gates are open\<close>

text \<open>
  An agent reaches any connection. The message of an agent that names a connection is passed on
  to that connection unchanged, with no look at the device the connection belongs to: a phone of another
  device, or another agent, receives it.
\<close>

theorem agent_reaches_any_connection:
  assumes "relay_inv H s" and "k_role (obj s c) = Agent" and "k_deviceId (obj s c) = Some d"
    and "x \<in> set (connections s)" and "msg_app m = Some x" and "x \<noteq> []"
  shows "sends s (routeMessage E c m s) = [(x, m)]"
  using assms open_registered [OF assms(1,4)]
  by (simp add: routeMessage_def Let_def given_def sends_send)

definition two_devices :: relay where
  "two_devices = (joined_state [])\<lparr>obj := (obj (joined_state []))(''a2'' := demo_agent_conn\<lparr>k_deviceId := Some ''d2''\<rparr>),
     connections := [''a1'', ''m1'', ''a2''], agentsByDevice := [(''d1'', [''a1'']), (''d2'', [''a2''])],
     primaryAgentByDevice := [(''d1'', ''a1''), (''d2'', ''a2'')]\<rparr>"

lemma two_devices_inv: "relay_inv {} two_devices"
  by (auto simp: relay_inv_eval two_devices_def joined_state_def split: if_splits)

theorem agent_reaches_any_connection_witness:
  "k_deviceId (obj two_devices ''m1'') = Some ''d1'' \<and> k_deviceId (obj two_devices ''a2'') = Some ''d2'' \<and>
   sends two_devices (routeMessage demo_env ''a2'' ((createMessage None (B_business ''t'' ''p''))\<lparr>msg_app := Some ''m1''\<rparr>) two_devices)
     = [(''m1'', (createMessage None (B_business ''t'' ''p''))\<lparr>msg_app := Some ''m1''\<rparr>)]"
  using agent_reaches_any_connection [OF two_devices_inv, of "''a2''" "''d2''" "''m1''"]
  by (simp add: two_devices_def joined_state_def demo_phone_conn_def demo_agent_conn_def challenged_state_def)

text \<open>
  A phone takes its access along. An authenticated phone that asks for another device over the same
  connection is bound to that device at once and stays authenticated: before the agent of
  the new device has given any verdict, the phone's messages reach it.
\<close>

theorem rebound_phone_keeps_access:
  assumes "k_role (obj s c) = Mobile" and "k_authenticated (obj s c)"
    and "v_mobile_policy E mc (k_userId (obj s c)) = Allowed user"
    and "jget (primaryAgentByDevice s) (mc_device_id mc) = Some a" and "k_devicePublicKey (obj s a) = Some key"
    and "a \<noteq> c" and "\<not> k_closed (obj s a)"
  shows "k_authenticated (obj (handleMobileConnect E c mc s) c)
    \<and> sends (handleMobileConnect E c mc s) (routeMessage E c m (handleMobileConnect E c mc s))
        = [(a, routed (mc_device_id mc) c (''relay_ctx_'' @ rnd s) m)]"
proof -
  let ?t = "handleMobileConnect E c mc s"
  have k: "k_role (obj ?t c) = Mobile" "k_deviceId (obj ?t c) = Some (mc_device_id mc)"
    "primaryAgentByDevice ?t = primaryAgentByDevice s" "rnd ?t = rnd s" "k_authenticated (obj ?t c)" "k_closed (obj ?t a) = k_closed (obj s a)"
    using assms by (simp_all add: handleMobileConnect_def bind_mobile_def getPrimaryAgent_def Let_def)
  show ?thesis using phone_sends [OF k(1)] k assms(4,7) by (simp add: if_open_def)
qed

theorem rebound_phone_keeps_access_witness:
  "sends (handleMobileConnect demo_env ''m1'' (demo_connect ''d2'') two_devices)
     (routeMessage demo_env ''m1'' (createMessage None (B_business ''t'' ''p'')) (handleMobileConnect demo_env ''m1'' (demo_connect ''d2'') two_devices))
   = [(''a2'', routed ''d2'' ''m1'' ''relay_ctx_n'' (createMessage None (B_business ''t'' ''p'')))]"
  using rebound_phone_keeps_access [of two_devices "''m1''" demo_env "demo_connect ''d2''" None "''a2''" "''ka''"]
  by (simp add: two_devices_def joined_state_def demo_phone_conn_def demo_agent_conn_def challenged_state_def served_state_def new_rconn_def
      demo_env_def demo_connect_def)

text \<open>
  A closed connection can still become the agent of a device. \<open>handleRawMessage\<close> does not ask
  whether the connection it is called for is still registered. When an \<open>agent.hello\<close> with valid
  credentials arrives on a connection that the relay has closed after the challenge, the device gets
  this dead connection as its agent: messages for the device vanish, and as the connection's close
  handler has run before, nothing ever removes it.
\<close>

theorem closed_connection_admitted:
  assumes "k_endpoint (obj s c) = Agent_endpoint" and "k_authState (obj s c) = Auth_pending" and "c \<notin> set (connections s)"
    and "k_closed (obj s c)" and "v_public_ip E (k_remoteIp (obj s c)) = None" and "v_agent_hello_policy E h c = Allowed user"
    and "\<forall>i. v_authorizeAgent E i = None" and "msg_body m = B_agent_hello h"
    and "members (agentsByDevice s) (ah_device_id h) = []" and "members (mobilesByDevice s) (ah_device_id h) = []"
    and "t = handleRawMessage E c (Parsed m) s"
  shows "jget (primaryAgentByDevice t) (ah_device_id h) = Some c \<and> c \<notin> set (connections t) \<and> k_closed (obj t c)
    \<and> socket_lost c t = t \<and> sends t (send_msg c m' t) = []"
  using assms
  by (simp add: handleRawMessage_def dispatch_def ensureEndpoint_def handleAgentHello_def isRateLimited_def admit_agent_def
      addAgentToDevice_def socket_lost_def sends_send Let_def)

theorem closed_connection_admitted_witness:
  "jget (primaryAgentByDevice (handleRawMessage demo_env ''a1'' (Parsed (createMessage None (B_agent_hello demo_hello)))
      (close_socket ''a1'' 1001 ''pong timeout'' (upd ''a1'' (\<lambda>k. k\<lparr>k_authState := Auth_pending\<rparr>)
         (register ''a1'' Agent_endpoint ''ip1'' None (new_relay (new_limiter 5 1 60000))))))) ''d1'' = Some ''a1''"
proof -
  let ?s = "close_socket ''a1'' 1001 ''pong timeout'' (upd ''a1'' (\<lambda>k. k\<lparr>k_authState := Auth_pending\<rparr>)
         (register ''a1'' Agent_endpoint ''ip1'' None (new_relay (new_limiter 5 1 60000))))"
  have s: "k_endpoint (obj ?s ''a1'') = Agent_endpoint" "k_authState (obj ?s ''a1'') = Auth_pending"
    "''a1'' \<notin> set (connections ?s)" "k_closed (obj ?s ''a1'')"
    "members (agentsByDevice ?s) (ah_device_id demo_hello) = []" "members (mobilesByDevice ?s) (ah_device_id demo_hello) = []"
    by (simp_all add: close_socket_def unregister_def leaving_def register_def new_rconn_def new_relay_def members_def)
  from closed_connection_admitted [OF s(1-4) _ _ _ _ s(5,6) refl, of demo_env None "createMessage None (B_agent_hello demo_hello)"]
  show ?thesis by (simp add: demo_env_def createMessage_def) (simp add: demo_hello_def)
qed

text \<open>
  The counters of the upgrade policy are open to everybody: a \<open>tunnel.upgrade.downgrade\<close> is booked
  before it is routed, whoever sends it. A connection that has not authenticated, not even with a role,
  names a device and an App connection, and after the third such message that App is never invited
  to a direct connection again.
\<close>

theorem stranger_feeds_backoff:
  assumes "msg_body m = B_upgrade_downgrade None (Some app) (Some ''ice_failed'')" and "msg_device m = Some d"
    and "d \<noteq> []" and "app \<notin> set (connections s)" and "k_role (obj s c) = Unknown"
    and "jget (backoffByApp (orchestrator s)) (appRouteKey d app) = Some b" and "failures b \<ge> 3"
  shows "backing_off (appRouteKey d app) now (orchestrator (dispatch E c m s)) \<longleftrightarrow> now < MAX_SAFE_INTEGER"
proof -
  have run: "orchestrator (run_orchestrator f t) = f (orchestrator t)" for f t
  proof -
    have "orchestrator (fold forward xs u) = orchestrator u" for xs u
      by (induction xs arbitrary: u) (simp_all add: forward_def)
    then show ?thesis by (simp add: run_orchestrator_def Let_def)
  qed
  have role: "k_role (obj (run_orchestrator f t) c) = k_role (obj t c)" for f t
  proof -
    have "k_role (obj (fold forward xs u) c) = k_role (obj u c)" for xs u
      by (induction xs arbitrary: u) (simp_all add: forward_def)
    then show ?thesis by (simp add: run_orchestrator_def Let_def)
  qed
  have "orchestrator (dispatch E c m s) = handleControlMessage (clock s) (C_Downgrade (Some d) None (Some app) (Some ''ice_failed'')) (orchestrator s)"
    using assms(1,2,4,5) by (simp add: dispatch_def upgrade_control_def updateLinkForApp_def routeMessage_def run role Let_def)
  moreover have "jget (backoffByApp (handleControlMessage (clock s) (C_Downgrade (Some d) None (Some app) (Some ''ice_failed''))
      (orchestrator s))) (appRouteKey d app) = Some \<lparr>failures = failures b + 1, nextAvailableAt = MAX_SAFE_INTEGER\<rparr>"
  proof -
    have "backoff_until (failures b + 1) (clock s) = MAX_SAFE_INTEGER" using assms(7) by (simp add: backoff_until_def)
    with assms(3,6) show ?thesis
      by (cases "app = []")
        (simp_all add: handleControlMessage_def handle_downgrade_def recordFailure_def given_def BACKOFF_EXEMPT_REASONS_def Let_def)
  qed
  ultimately show ?thesis by (simp add: backing_off_def)
qed

definition stranger_state :: relay where
  "stranger_state = (register ''x'' Mobile_endpoint ''ip'' None (new_relay (new_limiter 5 1 60000)))
     \<lparr>orchestrator := new_orch\<lparr>backoffByApp := [(''d1|m1'', \<lparr>failures = 3, nextAvailableAt = 0\<rparr>)]\<rparr>\<rparr>"

theorem stranger_feeds_backoff_witness:
  "backing_off ''d1|m1'' 9007199254740990 (orchestrator (dispatch demo_env ''x''
     (createMessage (Some ''d1'') (B_upgrade_downgrade None (Some ''m1'') (Some ''ice_failed''))) stranger_state))"
proof -
  have k: "appRouteKey ''d1'' ''m1'' = ''d1|m1''" by (simp add: appRouteKey_def)
  have "backing_off (appRouteKey ''d1'' ''m1'') 9007199254740990 (orchestrator (dispatch demo_env ''x''
      (createMessage (Some ''d1'') (B_upgrade_downgrade None (Some ''m1'') (Some ''ice_failed''))) stranger_state)) \<longleftrightarrow>
      9007199254740990 < MAX_SAFE_INTEGER"
    by (rule stranger_feeds_backoff [where d = "''d1''" and app = "''m1''" and b = "\<lparr>failures = 3, nextAvailableAt = 0\<rparr>"])
      (simp_all add: stranger_state_def createMessage_def register_def new_relay_def new_rconn_def k)
  then show ?thesis by (simp add: k MAX_SAFE_INTEGER_def)
qed

text \<open>
  An agent cannot rekey. The relay asks for the state \<open>e2e_ready\<close> on whoever sends
  \<open>e2e.rekey\<close> or \<open>e2e.close\<close>, and an agent is never in it: its state is \<open>registered_agent\<close> from
  its admission on. So each of these messages of an agent is answered with a protocol error.
\<close>

theorem agent_control_rejected:
  assumes "k_state (obj s c) = Registered_agent" and "\<not> k_closed (obj s c)"
  shows "sends s (routeControl E c m type s) =
    [(c, createMessage (k_deviceId (obj s c)) (B_protocol_error ''invalid_state'' (Not_allowed type Registered_agent) False))]"
  using assms by (simp add: routeControl_def e2e_reject_def sends_send)

theorem agent_control_rejected_witness:
  "sends ready_state (routeControl demo_env ''a1'' (createMessage None (B_e2e_control ''e2e.close'')) ''e2e.close'' ready_state) =
    [(''a1'', createMessage (Some ''d1'') (B_protocol_error ''invalid_state'' (Not_allowed ''e2e.close'' Registered_agent) False))]"
  using agent_control_rejected [of ready_state "''a1''"] by (simp add: ready_state_def demo_agent_conn_def new_rconn_def)
end
