(* ===== verification/Transport.thy ===== *)
theory Transport
  imports UpgradeState
begin

text \<open>
  The Agent's session transport: \<open>desktop/agent/src/transport/sessionTransport.ts\<close> with its parts
  under \<open>session-transport/\<close> (route store, peer registry, strict gate, health monitor, downgrade
  controller, event bus). It sends each message over the relay or over the direct peer connection
  of the App it is meant for, and switches an App from one path to the other.

  \<^item> A route object is shared by the store and by a suspended \<open>switchPathForConnection\<close>, so routes
    live in a heap (\<open>robj\<close>, from addresses to objects) and the store maps App connections to
    addresses.
  \<^item> \<open>switchPath\<close> waits at one \<open>await\<close>; what is left to do is a \<open>drain\<close> in \<open>suspended\<close>.
  \<^item> Peers, listeners and callbacks are numbers. What the transport does to the outside is appended
    to \<open>effects\<close> in program order; a callback is recorded, what it does in turn is not part of the
    operation. Timers are flags of the state, the events they cause can happen only while they are
    set.
  \<^item> An exception is the field \<open>thrown\<close>: the relay path throws while its socket is not open
    (\<open>relay_open\<close>), a peer of \<open>broken\<close> throws when it is written to.
\<close>

section \<open>Messages\<close>

datatype channel = Control_channel | Input_channel | Display_channel

record envelope =
  e_type :: string
  e_app :: "string option"
  e_body :: string

record queued_send =
  q_envelope :: envelope
  q_channel :: "channel option"

datatype wire = Wire_envelope envelope | Wire_ping "string option" int int | Wire_pong "string option" int int int

definition getEnvelopeAppConnectionId :: "envelope \<Rightarrow> string option" where
  "getEnvelopeAppConnectionId env = e_app env"

text \<open>The empty string is falsy: it names no connection.\<close>

definition named_app :: "string option \<Rightarrow> string option" where
  "named_app a = (if a = Some [] then None else a)"

definition channelForEnvelope :: "envelope \<Rightarrow> channel" where
  "channelForEnvelope env =
     (if e_type env \<in> {''terminal.input'', ''terminal.resize'', ''terminal.stream.start'', ''terminal.stream.stop''}
      then Input_channel
      else if e_type env \<in> {''terminal.frame'', ''terminal.stream.data''} then Display_channel
      else Control_channel)"

definition channelForP2pEnvelope :: "envelope \<Rightarrow> channel option \<Rightarrow> channel" where
  "channelForP2pEnvelope env ch =
     (if e_type env = ''e2e.message'' then Control_channel
      else case ch of Some c \<Rightarrow> c | None \<Rightarrow> channelForEnvelope env)"

section \<open>State\<close>

datatype drop_reason = Queue_overflow | Session_close | Force_close_drop

datatype transport_event =
    Path_change transport_path transport_path
  | Ping_timeout int nat
  | Pong_received int int
  | Downgraded string
  | Force_closed string
  | Strict_send_blocked string
  | Display_frame_deferred string nat
  | Pending_drop drop_reason nat

datatype transport_effect =
    To_relay envelope
  | To_peer nat channel wire
  | Close_peer nat
  | Event_to "nat list" transport_event
  | Path_to "nat list" transport_path
  | Message_to "nat list" envelope
  | Downgrade_handler nat string
  | Force_close_handler nat string
  | Failure

text \<open>
  The fields the health monitor keeps of the global path, and of each route; a timer is the
  interval or the grace it was armed with.
\<close>

record health =
  pingTimer :: "int option"
  pingSeq :: int
  pendingPings :: "(int, int) jmap"
  pongTimeoutCount :: nat
  bufferedSampleTimer :: bool
  bufferedOverflowSeconds :: nat
  iceDisconnectedTimer :: "int option"

definition new_health :: health where
  "new_health = \<lparr>pingTimer = None, pingSeq = 0, pendingPings = [], pongTimeoutCount = 0,
     bufferedSampleTimer = False, bufferedOverflowSeconds = 0, iceDisconnectedTimer = None\<rparr>"

record app_route =
  r_path :: transport_path
  r_strict :: bool
  r_onForceClose :: "nat option"
  r_forceClosed :: bool
  r_pending :: "queued_send list"
  r_switching :: bool
  r_outbound :: "queued_send list option"
  r_health :: health

definition createAppRouteState :: app_route where
  "createAppRouteState = \<lparr>r_path = Relay, r_strict = False, r_onForceClose = None, r_forceClosed = False,
     r_pending = [], r_switching = False, r_outbound = None, r_health = new_health\<rparr>"

record peer_route =
  pr_peer :: nat
  pr_listener :: nat
  pr_onDowngrade :: "nat option"
  pr_upgradeId :: "string option"

datatype drain = Drain transport_path transport_path | Drain_route nat string transport_path transport_path

record transport =
  appRoutes :: "(string, nat) jmap"
  robj :: "nat \<Rightarrow> app_route"
  next_route :: nat
  legacyPeer :: "nat option"
  legacyListener :: "nat option"
  peersByApp :: "(string, peer_route) jmap"
  listening :: "(nat, nat \<times> string option) jmap"
  next_listener :: nat
  monitor :: health
  globalPending :: "queued_send list"
  currentPath :: transport_path
  t_closed :: bool
  outboundQueue :: "queued_send list option"
  switching :: bool
  downgradeHandler :: "nat option"
  t_upgradeId :: "string option"
  strictP2p :: bool
  onForceClose :: "nat option"
  forceClosed :: bool
  messageHandlers :: "nat jset"
  pathHandlers :: "nat jset"
  eventHandlers :: "nat jset"
  suspended :: "drain list"
  now :: int
  relay_open :: bool
  broken :: "nat list"
  failed :: bool
  effects :: "transport_effect list"

definition new_transport :: "bool \<Rightarrow> nat option \<Rightarrow> transport" where
  "new_transport strict handler =
     \<lparr>appRoutes = [], robj = (\<lambda>_. createAppRouteState), next_route = 0,
      legacyPeer = None, legacyListener = None, peersByApp = [], listening = [], next_listener = 0,
      monitor = new_health, globalPending = [], currentPath = Relay, t_closed = False,
      outboundQueue = None, switching = False, downgradeHandler = None, t_upgradeId = None,
      strictP2p = strict, onForceClose = handler, forceClosed = False,
      messageHandlers = [], pathHandlers = [], eventHandlers = [], suspended = [], now = 0,
      relay_open = True, broken = [], failed = False, effects = []\<rparr>"

definition act :: "transport_effect \<Rightarrow> transport \<Rightarrow> transport" where
  "act e s = s\<lparr>effects := effects s @ [e]\<rparr>"

definition unless_failed :: "(transport \<Rightarrow> transport) \<Rightarrow> transport \<Rightarrow> transport" where
  "unless_failed f s = (if failed s then s else f s)"

definition emitEvent :: "transport_event \<Rightarrow> transport \<Rightarrow> transport" where
  "emitEvent e s = act (Event_to (eventHandlers s) e) s"

definition emitPathChange :: "transport_path \<Rightarrow> transport \<Rightarrow> transport" where
  "emitPathChange p s = act (Path_to (pathHandlers s) p) s"

definition emitMessage :: "envelope \<Rightarrow> transport \<Rightarrow> transport" where
  "emitMessage env s = act (Message_to (messageHandlers s) env) s"

definition relay_path_send :: "envelope \<Rightarrow> transport \<Rightarrow> transport" where
  "relay_path_send env s = (if relay_open s then act (To_relay env) s else s\<lparr>failed := True\<rparr>)"

definition peer_send :: "nat \<Rightarrow> wire \<Rightarrow> channel \<Rightarrow> transport \<Rightarrow> transport" where
  "peer_send p w ch s = (if p \<in> set (broken s) then s\<lparr>failed := True\<rparr> else act (To_peer p ch w) s)"

text \<open>The same inside a \<open>try\<close> that ignores the error.\<close>

definition peer_try_send :: "nat \<Rightarrow> wire \<Rightarrow> channel \<Rightarrow> transport \<Rightarrow> transport" where
  "peer_try_send p w ch s = (if p \<in> set (broken s) then s else act (To_peer p ch w) s)"

section \<open>The route store\<close>

definition route_get :: "string \<Rightarrow> transport \<Rightarrow> app_route option" where
  "route_get c s = map_option (robj s) (jget (appRoutes s) c)"

definition route_getOrCreate :: "string \<Rightarrow> transport \<Rightarrow> nat \<times> transport" where
  "route_getOrCreate c s =
     (case jget (appRoutes s) c of
        Some a \<Rightarrow> (a, s)
      | None \<Rightarrow> (next_route s,
          s\<lparr>robj := (robj s)(next_route s := createAppRouteState),
            appRoutes := jput c (next_route s) (appRoutes s), next_route := next_route s + 1\<rparr>))"

definition modify_route :: "nat \<Rightarrow> (app_route \<Rightarrow> app_route) \<Rightarrow> transport \<Rightarrow> transport" where
  "modify_route a f s = s\<lparr>robj := (robj s)(a := f (robj s a))\<rparr>"

definition routes_clear :: "transport \<Rightarrow> transport" where
  "routes_clear s = s\<lparr>appRoutes := []\<rparr>"

section \<open>The peer registry\<close>

definition registry_detach :: "string option \<Rightarrow> transport \<Rightarrow> peer_route option \<times> transport" where
  "registry_detach app s =
     (case named_app app of
        Some c \<Rightarrow>
          (case jget (peersByApp s) c of
             None \<Rightarrow> (None, s)
           | Some e \<Rightarrow>
               (let s1 = act (Close_peer (pr_peer e)) (s\<lparr>listening := jdel (pr_listener e) (listening s)\<rparr>);
                    s2 = s1\<lparr>peersByApp := jdel c (peersByApp s1)\<rparr>
                in (Some e, if legacyPeer s2 = Some (pr_peer e)
                            then s2\<lparr>legacyPeer := None, legacyListener := None\<rparr> else s2)))
      | None \<Rightarrow>
          (let s1 = (case legacyListener s of
                       None \<Rightarrow> s | Some l \<Rightarrow> s\<lparr>listening := jdel l (listening s), legacyListener := None\<rparr>);
               s2 = fold (\<lambda>(c, e) s. act (Close_peer (pr_peer e)) (s\<lparr>listening := jdel (pr_listener e) (listening s)\<rparr>))
                      (peersByApp s1) (s1\<lparr>legacyPeer := None\<rparr>)
           in (None, s2\<lparr>peersByApp := []\<rparr>)))"

definition registry_attach ::
  "nat \<Rightarrow> string option \<Rightarrow> nat option \<Rightarrow> string option \<Rightarrow> transport \<Rightarrow> transport" where
  "registry_attach p app onDowngrade uid s =
     (let l = next_listener s;
          s1 = s\<lparr>next_listener := l + 1, listening := jput l (p, named_app app) (listening s)\<rparr>
      in case named_app app of
           Some c \<Rightarrow>
             (let s2 = snd (route_getOrCreate c s1)
              in s2\<lparr>peersByApp := jput c \<lparr>pr_peer = p, pr_listener = l, pr_onDowngrade = onDowngrade, pr_upgradeId = uid\<rparr>
                                    (peersByApp s2)\<rparr>)
         | None \<Rightarrow> s1\<lparr>legacyPeer := Some p, legacyListener := Some l\<rparr>)"

section \<open>The health monitor\<close>

definition ping_interval :: "bool \<Rightarrow> int" where
  "ping_interval strict = (if strict then strictPingIntervalMs else pingIntervalMs) transport_health_policy"

definition ping_timeout_ms :: "bool \<Rightarrow> int" where
  "ping_timeout_ms strict = (if strict then strictPingTimeoutMs else pingTimeoutMs) transport_health_policy"

definition stall_grace_ms :: "bool \<Rightarrow> int" where
  "stall_grace_ms strict = (if strict then strictPingTimerStallGraceMs else pingTimerStallGraceMs) transport_health_policy"

definition ping_threshold :: "bool \<Rightarrow> nat" where
  "ping_threshold strict = (if strict then strictPingTimeoutThreshold else pingTimeoutThreshold) transport_health_policy"

definition ice_grace_ms :: "bool \<Rightarrow> int" where
  "ice_grace_ms strict = (if strict then strictIceDisconnectedGraceMs else iceDisconnectedGraceMs) transport_health_policy"

definition on_monitor :: "(health \<Rightarrow> health) \<Rightarrow> transport \<Rightarrow> transport" where
  "on_monitor f s = s\<lparr>monitor := f (monitor s)\<rparr>"

definition on_route_health :: "nat \<Rightarrow> (health \<Rightarrow> health) \<Rightarrow> transport \<Rightarrow> transport" where
  "on_route_health a f = modify_route a (\<lambda>r. r\<lparr>r_health := f (r_health r)\<rparr>)"

definition stopPingLoop :: "health \<Rightarrow> health" where
  "stopPingLoop h = h\<lparr>pingTimer := None, pendingPings := [], pongTimeoutCount := 0\<rparr>"

definition stopBufferedSampler :: "health \<Rightarrow> health" where
  "stopBufferedSampler h = h\<lparr>bufferedSampleTimer := False, bufferedOverflowSeconds := 0\<rparr>"

definition clearIceDisconnectedTimer :: "health \<Rightarrow> health" where
  "clearIceDisconnectedTimer h = h\<lparr>iceDisconnectedTimer := None\<rparr>"

definition stop_monitoring :: "health \<Rightarrow> health" where
  "stop_monitoring h = clearIceDisconnectedTimer (stopBufferedSampler (stopPingLoop h))"

definition startPingLoop :: "transport \<Rightarrow> transport" where
  "startPingLoop s =
     (if pingTimer (monitor s) \<noteq> None \<or> legacyPeer s = None then s
      else on_monitor (\<lambda>h. h\<lparr>pongTimeoutCount := 0, pingTimer := Some (ping_interval (strictP2p s))\<rparr>) s)"

definition startPingLoopForConnection :: "string \<Rightarrow> transport \<Rightarrow> transport" where
  "startPingLoopForConnection c s =
     (let (a, s1) = route_getOrCreate c s; r = robj s1 a
      in if pingTimer (r_health r) \<noteq> None \<or> \<not> jhas (peersByApp s1) c then s1
         else on_route_health a (\<lambda>h. h\<lparr>pongTimeoutCount := 0, pingTimer := Some (ping_interval (r_strict r))\<rparr>) s1)"

definition startBufferedSampler :: "transport \<Rightarrow> transport" where
  "startBufferedSampler s =
     (if bufferedSampleTimer (monitor s) \<or> legacyPeer s = None then s
      else on_monitor (\<lambda>h. h\<lparr>bufferedOverflowSeconds := 0, bufferedSampleTimer := True\<rparr>) s)"

definition startBufferedSamplerForConnection :: "string \<Rightarrow> transport \<Rightarrow> transport" where
  "startBufferedSamplerForConnection c s =
     (let (a, s1) = route_getOrCreate c s; r = robj s1 a
      in if bufferedSampleTimer (r_health r) \<or> \<not> jhas (peersByApp s1) c then s1
         else on_route_health a (\<lambda>h. h\<lparr>bufferedOverflowSeconds := 0, bufferedSampleTimer := True\<rparr>) s1)"

definition armIceDisconnectedTimer :: "transport \<Rightarrow> transport" where
  "armIceDisconnectedTimer s =
     (if iceDisconnectedTimer (monitor s) \<noteq> None then s
      else on_monitor (\<lambda>h. h\<lparr>iceDisconnectedTimer := Some (ice_grace_ms (strictP2p s))\<rparr>) s)"

definition armIceDisconnectedTimerForConnection :: "string \<Rightarrow> transport \<Rightarrow> transport" where
  "armIceDisconnectedTimerForConnection c s =
     (let (a, s1) = route_getOrCreate c s; r = robj s1 a
      in if iceDisconnectedTimer (r_health r) \<noteq> None then s1
         else on_route_health a (\<lambda>h. h\<lparr>iceDisconnectedTimer := Some (ice_grace_ms (r_strict r))\<rparr>) s1)"

definition clearIceDisconnectedTimerForConnection :: "string \<Rightarrow> transport \<Rightarrow> transport" where
  "clearIceDisconnectedTimerForConnection c s =
     (case jget (appRoutes s) c of None \<Rightarrow> s | Some a \<Rightarrow> on_route_health a clearIceDisconnectedTimer s)"

text \<open>A ping goes out and is remembered until its answer or its timeout.\<close>

definition note_ping :: "int \<Rightarrow> int \<Rightarrow> health \<Rightarrow> health" where
  "note_ping sq t h = h\<lparr>pendingPings := jput sq t (pendingPings h)\<rparr>"

definition sendPing :: "transport \<Rightarrow> transport" where
  "sendPing s =
     (case legacyPeer s of
        None \<Rightarrow> s
      | Some p \<Rightarrow>
          if currentPath s \<noteq> P2p then s
          else (let sq = pingSeq (monitor s) + 1;
                    s1 = on_monitor (\<lambda>h. h\<lparr>pingSeq := sq\<rparr>) s
                in on_monitor (note_ping sq (now s))
                     (peer_try_send p (Wire_ping (t_upgradeId s) sq (now s)) Control_channel s1)))"

definition sendPingForConnection :: "string \<Rightarrow> transport \<Rightarrow> transport" where
  "sendPingForConnection c s =
     (case (jget (appRoutes s) c, jget (peersByApp s) c) of
        (Some a, Some e) \<Rightarrow>
          if r_path (robj s a) \<noteq> P2p then s
          else (let sq = pingSeq (r_health (robj s a)) + 1;
                    s1 = on_route_health a (\<lambda>h. h\<lparr>pingSeq := sq\<rparr>) s
                in on_route_health a (note_ping sq (now s))
                     (peer_try_send (pr_peer e) (Wire_ping (pr_upgradeId e) sq (now s)) Control_channel s1))
      | _ \<Rightarrow> s)"

definition handleIncomingPing :: "string option \<Rightarrow> int \<Rightarrow> int \<Rightarrow> transport \<Rightarrow> transport" where
  "handleIncomingPing uid sq sent s =
     (case legacyPeer s of
        None \<Rightarrow> s
      | Some p \<Rightarrow> if currentPath s \<noteq> P2p then s
                  else peer_try_send p (Wire_pong uid sq sent (now s)) Control_channel s)"

definition handleIncomingPingForConnection ::
  "string \<Rightarrow> string option \<Rightarrow> int \<Rightarrow> int \<Rightarrow> transport \<Rightarrow> transport" where
  "handleIncomingPingForConnection c uid sq sent s =
     (case (route_get c s, jget (peersByApp s) c) of
        (Some r, Some e) \<Rightarrow>
          if r_path r \<noteq> P2p then s
          else peer_try_send (pr_peer e) (Wire_pong uid sq sent (now s)) Control_channel s
      | _ \<Rightarrow> s)"

definition pong_noted :: "int \<Rightarrow> health \<Rightarrow> health" where
  "pong_noted sq h = h\<lparr>pendingPings := jdel sq (pendingPings h), pongTimeoutCount := 0\<rparr>"

definition handleIncomingPong :: "int \<Rightarrow> transport \<Rightarrow> transport" where
  "handleIncomingPong sq s =
     (case jget (pendingPings (monitor s)) sq of
        None \<Rightarrow> s
      | Some sent \<Rightarrow> emitEvent (Pong_received sq (now s - sent)) (on_monitor (pong_noted sq) s))"

definition handleIncomingPongForConnection :: "string \<Rightarrow> int \<Rightarrow> transport \<Rightarrow> transport" where
  "handleIncomingPongForConnection c sq s =
     (case jget (appRoutes s) c of
        None \<Rightarrow> s
      | Some a \<Rightarrow>
          (case jget (pendingPings (r_health (robj s a))) sq of
             None \<Rightarrow> s
           | Some sent \<Rightarrow> emitEvent (Pong_received sq (now s - sent)) (on_route_health a (pong_noted sq) s)))"

section \<open>Detaching a peer\<close>

definition detached_route :: "app_route \<Rightarrow> app_route" where
  "detached_route r = r\<lparr>r_health := stop_monitoring (r_health r), r_path := Relay, r_outbound := None, r_switching := False\<rparr>"

definition detachP2pPeer :: "string option \<Rightarrow> transport \<Rightarrow> transport" where
  "detachP2pPeer app s =
     (case named_app app of
        Some c \<Rightarrow>
          (let s1 = (case jget (appRoutes s) c of None \<Rightarrow> s | Some a \<Rightarrow> modify_route a detached_route s);
               (entry, s2) = registry_detach (Some c) s1
           in if legacyPeer s2 = None \<and> entry \<noteq> None
              then s2\<lparr>downgradeHandler := None, t_upgradeId := None\<rparr> else s2)
      | None \<Rightarrow>
          (let s1 = snd (registry_detach None (on_monitor stop_monitoring s));
               s2 = fold (\<lambda>(c, a). on_route_health a stop_monitoring) (appRoutes s1) s1
           in (routes_clear s2)\<lparr>downgradeHandler := None, t_upgradeId := None\<rparr>))"

definition resetPathState :: "transport \<Rightarrow> transport" where
  "resetPathState s =
     (let s1 = s\<lparr>outboundQueue := None, switching := False\<rparr>
      in if currentPath s1 \<noteq> Relay
         then emitEvent (Path_change (currentPath s1) Relay) (emitPathChange Relay (s1\<lparr>currentPath := Relay\<rparr>))
         else s1)"

section \<open>The strict gate: dropping what is queued\<close>

definition dropGlobalQueue :: "drop_reason \<Rightarrow> transport \<Rightarrow> transport" where
  "dropGlobalQueue reason s =
     (if globalPending s = [] then s
      else emitEvent (Pending_drop reason (length (globalPending s))) (s\<lparr>globalPending := []\<rparr>))"

definition dropAppQueue :: "nat \<Rightarrow> drop_reason \<Rightarrow> transport \<Rightarrow> transport" where
  "dropAppQueue a reason s =
     (if r_pending (robj s a) = [] then s
      else emitEvent (Pending_drop reason (length (r_pending (robj s a))))
             (modify_route a (\<lambda>r. r\<lparr>r_pending := []\<rparr>) s))"

section \<open>Closing by force\<close>

definition callDowngradeHandler :: "nat option \<Rightarrow> string \<Rightarrow> transport \<Rightarrow> transport" where
  "callDowngradeHandler h reason s = (case h of None \<Rightarrow> s | Some k \<Rightarrow> act (Downgrade_handler k reason) s)"

definition callForceCloseHandler :: "nat option \<Rightarrow> string \<Rightarrow> transport \<Rightarrow> transport" where
  "callForceCloseHandler h reason s = (case h of None \<Rightarrow> s | Some k \<Rightarrow> act (Force_close_handler k reason) s)"

definition forceClose :: "string \<Rightarrow> transport \<Rightarrow> transport" where
  "forceClose reason s =
     (if \<not> strictP2p s \<or> forceClosed s then s
      else
        let dh = downgradeHandler s; fh = onForceClose s;
            s1 = emitEvent (Force_closed reason) (s\<lparr>forceClosed := True\<rparr>);
            s2 = dropGlobalQueue Force_close_drop (resetPathState (detachP2pPeer None s1));
            s3 = s2\<lparr>strictP2p := False, onForceClose := None\<rparr>
        in callForceCloseHandler fh reason (callDowngradeHandler dh reason s3))"

definition forceCloseConnection :: "string \<Rightarrow> string \<Rightarrow> transport \<Rightarrow> transport" where
  "forceCloseConnection c reason s =
     (case jget (appRoutes s) c of
        None \<Rightarrow> s
      | Some a \<Rightarrow>
          if \<not> r_strict (robj s a) \<or> r_forceClosed (robj s a) then s
          else
            let s1 = modify_route a (\<lambda>r. r\<lparr>r_forceClosed := True\<rparr>) s;
                dh = (case jget (peersByApp s) c of None \<Rightarrow> None | Some e \<Rightarrow> pr_onDowngrade e);
                fh = r_onForceClose (robj s a);
                s2 = detachP2pPeer (Some c) (emitEvent (Force_closed reason) s1);
                (b, s3) = route_getOrCreate c s2;
                s4 = modify_route b (\<lambda>r. r\<lparr>r_strict := False, r_onForceClose := None, r_forceClosed := False\<rparr>) s3
            in callForceCloseHandler fh reason (callDowngradeHandler dh reason (dropAppQueue a Force_close_drop s4)))"

section \<open>Sending\<close>

definition dispatchSend :: "queued_send \<Rightarrow> transport \<Rightarrow> transport" where
  "dispatchSend q s =
     (let env = q_envelope q; app = named_app (getEnvelopeAppConnectionId env)
      in case app of
           Some c \<Rightarrow>
             (case (jget (peersByApp s) c, route_get c s) of
                (Some e, Some r) \<Rightarrow>
                  if r_path r = P2p
                  then peer_send (pr_peer e) (Wire_envelope env) (channelForP2pEnvelope env (q_channel q)) s
                  else if r_strict r
                  then forceCloseConnection c ''peer_missing'' (emitEvent (Strict_send_blocked (e_type env)) s)
                  else relay_path_send env s
              | (_, Some r) \<Rightarrow>
                  if r_strict r
                  then forceCloseConnection c ''peer_missing'' (emitEvent (Strict_send_blocked (e_type env)) s)
                  else relay_path_send env s
              | _ \<Rightarrow> relay_path_send env s)
         | None \<Rightarrow>
             (case (currentPath s, legacyPeer s) of
                (P2p, Some p) \<Rightarrow> peer_send p (Wire_envelope env) (channelForP2pEnvelope env (q_channel q)) s
              | (P2p, None) \<Rightarrow>
                  if strictP2p s
                  then forceClose ''peer_missing'' (emitEvent (Strict_send_blocked (e_type env)) s)
                  else relay_path_send env s
              | _ \<Rightarrow> relay_path_send env s))"

text \<open>The loop over a queue; an exception ends it.\<close>

definition dispatch_all :: "queued_send list \<Rightarrow> transport \<Rightarrow> transport" where
  "dispatch_all qs = fold (\<lambda>q. unless_failed (dispatchSend q)) qs"

definition flushGlobalQueue :: "transport \<Rightarrow> transport" where
  "flushGlobalQueue s = dispatch_all (globalPending s) (s\<lparr>globalPending := []\<rparr>)"

definition flushAppQueue :: "nat option \<Rightarrow> transport \<Rightarrow> transport" where
  "flushAppQueue route s =
     (case route of
        None \<Rightarrow> s
      | Some a \<Rightarrow> dispatch_all (r_pending (robj s a)) (modify_route a (\<lambda>r. r\<lparr>r_pending := []\<rparr>) s))"

definition strict_queue_limit :: nat where
  "strict_queue_limit = strictPendingQueueLimit transport_health_policy"

definition handleGlobalSend :: "queued_send \<Rightarrow> transport \<Rightarrow> bool \<times> transport" where
  "handleGlobalSend q s =
     (if \<not> strictP2p s \<or> currentPath s = P2p \<or> is_strict_transport_control_message (e_type (q_envelope q))
      then (False, s)
      else if forceClosed s then (True, emitEvent (Strict_send_blocked (e_type (q_envelope q))) s)
      else if length (globalPending s) \<ge> strict_queue_limit
      then (True, forceClose ''strict_pending_overflow''
              (emitEvent (Pending_drop Queue_overflow (length (globalPending s))) (s\<lparr>globalPending := []\<rparr>)))
      else (True, s\<lparr>globalPending := globalPending s @ [q]\<rparr>))"

definition shouldQueueAppSend :: "app_route option \<Rightarrow> envelope \<Rightarrow> bool" where
  "shouldQueueAppSend route env =
     (case route of
        None \<Rightarrow> False
      | Some r \<Rightarrow> r_strict r \<and> r_path r \<noteq> P2p \<and> \<not> is_strict_transport_control_message (e_type env))"

definition queueAppSend :: "string \<Rightarrow> nat \<Rightarrow> queued_send \<Rightarrow> transport \<Rightarrow> transport" where
  "queueAppSend c a q s =
     (let r = robj s a
      in if r_forceClosed r then emitEvent (Strict_send_blocked (e_type (q_envelope q))) s
         else if length (r_pending r) \<ge> strict_queue_limit
         then forceCloseConnection c ''strict_pending_overflow''
                (emitEvent (Pending_drop Queue_overflow (length (r_pending r)))
                   (modify_route a (\<lambda>r. r\<lparr>r_pending := []\<rparr>) s))
         else modify_route a (\<lambda>r. r\<lparr>r_pending := r_pending r @ [q]\<rparr>) s)"

text \<open>The part of \<open>send\<close> that no route of an App has taken over.\<close>

definition send_global :: "queued_send \<Rightarrow> transport \<Rightarrow> transport" where
  "send_global q s =
     (let (taken, s1) = handleGlobalSend q s
      in if taken then s1
         else case outboundQueue s1 of
             Some out \<Rightarrow> s1\<lparr>outboundQueue := Some (out @ [q])\<rparr>
           | None \<Rightarrow> dispatchSend q s1)"

definition transport_send :: "queued_send \<Rightarrow> bool \<Rightarrow> transport \<Rightarrow> transport" where
  "transport_send q strictBypass s =
     (if t_closed s then s\<lparr>failed := True\<rparr>
      else case named_app (getEnvelopeAppConnectionId (q_envelope q)) of
          None \<Rightarrow> send_global q s
        | Some c \<Rightarrow>
            if \<not> strictBypass \<and> shouldQueueAppSend (route_get c s) (q_envelope q)
            then (let (a, s1) = route_getOrCreate c s in queueAppSend c a q s1)
            else case jget (appRoutes s) c of
                None \<Rightarrow> if strictBypass then relay_path_send (q_envelope q) s else send_global q s
              | Some a \<Rightarrow>
                  (case r_outbound (robj s a) of
                     Some out \<Rightarrow> modify_route a (\<lambda>r. r\<lparr>r_outbound := Some (out @ [q])\<rparr>) s
                   | None \<Rightarrow>
                       if strictBypass \<and> r_path (robj s a) \<noteq> P2p then relay_path_send (q_envelope q) s
                       else send_global q s))"

section \<open>Switching paths\<close>

definition switchPath :: "transport_path \<Rightarrow> transport \<Rightarrow> transport" where
  "switchPath target s =
     (if t_closed s \<or> currentPath s = target \<or> switching s then s
      else if target = P2p \<and> legacyPeer s = None then s
      else if strictP2p s \<and> target = Relay then s
      else s\<lparr>switching := True, outboundQueue := Some [], suspended := suspended s @ [Drain target (currentPath s)]\<rparr>)"

definition switchPathForConnection :: "string \<Rightarrow> transport_path \<Rightarrow> transport \<Rightarrow> transport" where
  "switchPathForConnection c target s =
     (let (a, s1) = route_getOrCreate c s; r = robj s1 a
      in if t_closed s1 \<or> r_path r = target \<or> r_switching r then s1
         else if target = P2p \<and> \<not> jhas (peersByApp s1) c then s1
         else if r_strict r \<and> target = Relay then s1
         else (modify_route a (\<lambda>r. r\<lparr>r_switching := True, r_outbound := Some []\<rparr>) s1)
                \<lparr>suspended := suspended s1 @ [Drain_route a c target (r_path r)]\<rparr>)"

text \<open>After the drain delay; \<open>finally\<close> clears \<open>switching\<close> whatever happened.\<close>

definition resume_switchPath :: "transport_path \<Rightarrow> transport_path \<Rightarrow> transport \<Rightarrow> transport" where
  "resume_switchPath target previous s =
     (let s1 = emitEvent (Path_change previous target) (emitPathChange target (s\<lparr>currentPath := target\<rparr>));
          queue = outboundQueue s1;
          s2 = dispatch_all (case queue of None \<Rightarrow> [] | Some qs \<Rightarrow> qs) (s1\<lparr>outboundQueue := None\<rparr>);
          s3 = unless_failed (\<lambda>s. if target = P2p then flushGlobalQueue (startBufferedSampler (startPingLoop s))
                                 else on_monitor (\<lambda>h. stopBufferedSampler (stopPingLoop h)) s) s2
      in s3\<lparr>switching := False\<rparr>)"

definition resume_switchPathForConnection ::
  "nat \<Rightarrow> string \<Rightarrow> transport_path \<Rightarrow> transport_path \<Rightarrow> transport \<Rightarrow> transport" where
  "resume_switchPathForConnection a c target previous s =
     (let s1 = emitEvent (Path_change previous target) (emitPathChange target (modify_route a (\<lambda>r. r\<lparr>r_path := target\<rparr>) s));
          queue = r_outbound (robj s1 a);
          s2 = dispatch_all (case queue of None \<Rightarrow> [] | Some qs \<Rightarrow> qs) (modify_route a (\<lambda>r. r\<lparr>r_outbound := None\<rparr>) s1);
          s3 = unless_failed (\<lambda>s. if target = P2p
                 then (let s' = startBufferedSamplerForConnection c (startPingLoopForConnection c s)
                       in flushAppQueue (jget (appRoutes s') c) s')
                 else on_route_health a (\<lambda>h. stopBufferedSampler (stopPingLoop h)) s) s2
      in modify_route a (\<lambda>r. r\<lparr>r_switching := False\<rparr>) s3)"

section \<open>Health downgrades\<close>

definition handleHealthDowngrade :: "string \<Rightarrow> transport \<Rightarrow> transport" where
  "handleHealthDowngrade reason s =
     (if currentPath s \<noteq> P2p then s
      else
        let s1 = emitEvent (Downgraded reason) s
        in if strictP2p s1 then forceClose reason s1
           else callDowngradeHandler (downgradeHandler s1) reason (detachP2pPeer None (switchPath Relay s1)))"

definition handleHealthDowngradeForConnection :: "string \<Rightarrow> string \<Rightarrow> transport \<Rightarrow> transport" where
  "handleHealthDowngradeForConnection c reason s =
     (case route_get c s of
        None \<Rightarrow> s
      | Some r \<Rightarrow>
          if r_path r \<noteq> P2p then s
          else
            let s1 = emitEvent (Downgraded reason) s
            in if r_strict r then forceCloseConnection c reason s1
               else callDowngradeHandler (case jget (peersByApp s1) c of None \<Rightarrow> None | Some e \<Rightarrow> pr_onDowngrade e) reason
                      (detachP2pPeer (Some c) (switchPathForConnection c Relay s1)))"

text \<open>A ping was not answered in time; a timer that fires much too late is ignored.\<close>

definition handlePongTimeout :: "int \<Rightarrow> transport \<Rightarrow> transport" where
  "handlePongTimeout sq s =
     (case jget (pendingPings (monitor s)) sq of
        None \<Rightarrow> s
      | Some sent \<Rightarrow>
          let s1 = on_monitor (\<lambda>h. h\<lparr>pendingPings := jdel sq (pendingPings h)\<rparr>) s; strict = strictP2p s
          in if now s - sent > ping_timeout_ms strict + stall_grace_ms strict then s1
             else
               let n = pongTimeoutCount (monitor s1) + 1;
                   s2 = emitEvent (Ping_timeout sq n) (on_monitor (\<lambda>h. h\<lparr>pongTimeoutCount := n\<rparr>) s1)
               in if n \<ge> ping_threshold strict then handleHealthDowngrade ''pong_timeout'' s2 else s2)"

definition handlePongTimeoutForConnection :: "string \<Rightarrow> int \<Rightarrow> transport \<Rightarrow> transport" where
  "handlePongTimeoutForConnection c sq s =
     (case jget (appRoutes s) c of
        None \<Rightarrow> s
      | Some a \<Rightarrow>
          (case jget (pendingPings (r_health (robj s a))) sq of
             None \<Rightarrow> s
           | Some sent \<Rightarrow>
               let s1 = on_route_health a (\<lambda>h. h\<lparr>pendingPings := jdel sq (pendingPings h)\<rparr>) s;
                   strict = r_strict (robj s a)
               in if now s - sent > ping_timeout_ms strict + stall_grace_ms strict then s1
                  else
                    let n = pongTimeoutCount (r_health (robj s1 a)) + 1;
                        s2 = emitEvent (Ping_timeout sq n) (on_route_health a (\<lambda>h. h\<lparr>pongTimeoutCount := n\<rparr>) s1)
                    in if n \<ge> ping_threshold strict then handleHealthDowngradeForConnection c ''pong_timeout'' s2
                       else s2))"

text \<open>One sample of the bytes a peer has buffered, and whether it is one too many.\<close>

definition sample_health :: "nat \<Rightarrow> health \<Rightarrow> health" where
  "sample_health amount h =
     h\<lparr>bufferedOverflowSeconds := (if amount > bufferedAmountLimit transport_health_policy
                                    then bufferedOverflowSeconds h + 1 else 0)\<rparr>"

definition sample_overflows :: "nat \<Rightarrow> health \<Rightarrow> bool" where
  "sample_overflows amount h \<longleftrightarrow> amount > bufferedAmountLimit transport_health_policy
     \<and> bufferedOverflowSeconds (sample_health amount h) \<ge> bufferedAmountOverflowSeconds transport_health_policy"

definition sampleBufferedAmount :: "nat \<Rightarrow> transport \<Rightarrow> transport" where
  "sampleBufferedAmount amount s =
     (if legacyPeer s = None then s
      else
        let s1 = on_monitor (sample_health amount) s
        in if sample_overflows amount (monitor s) then handleHealthDowngrade ''buffered_overflow'' s1 else s1)"

definition sampleBufferedAmountForConnection :: "string \<Rightarrow> nat \<Rightarrow> transport \<Rightarrow> transport" where
  "sampleBufferedAmountForConnection c amount s =
     (case jget (appRoutes s) c of
        None \<Rightarrow> s
      | Some a \<Rightarrow>
          if \<not> jhas (peersByApp s) c then s
          else
            let s1 = on_route_health a (sample_health amount) s
            in if sample_overflows amount (r_health (robj s a))
               then handleHealthDowngradeForConnection c ''buffered_overflow'' s1 else s1)"

definition iceTimeout :: "transport \<Rightarrow> transport" where
  "iceTimeout s = handleHealthDowngrade ''ice_disconnected'' (on_monitor clearIceDisconnectedTimer s)"

definition iceTimeoutForConnection :: "string \<Rightarrow> nat \<Rightarrow> transport \<Rightarrow> transport" where
  "iceTimeoutForConnection c a s =
     handleHealthDowngradeForConnection c ''ice_disconnected'' (on_route_health a clearIceDisconnectedTimer s)"

section \<open>Configuration, attaching, closing\<close>

definition configureStrictP2p :: "bool \<Rightarrow> nat option \<Rightarrow> transport \<Rightarrow> transport" where
  "configureStrictP2p strict handler s =
     (let s1 = resetPathState (detachP2pPeer None (s\<lparr>strictP2p := strict, onForceClose := handler, forceClosed := False\<rparr>))
      in s1\<lparr>globalPending := []\<rparr>)"

definition configureStrictP2pForConnection :: "string \<Rightarrow> bool \<Rightarrow> nat option \<Rightarrow> transport \<Rightarrow> transport" where
  "configureStrictP2pForConnection c strict handler s =
     (let (a, s1) = route_getOrCreate c s
      in modify_route a (\<lambda>r. r\<lparr>r_strict := strict, r_onForceClose := (if strict then handler else None),
                               r_forceClosed := False, r_pending := []\<rparr>) s1)"

definition clearStrictP2pForConnection :: "string \<Rightarrow> transport \<Rightarrow> transport" where
  "clearStrictP2pForConnection c s =
     (case jget (appRoutes s) c of
        None \<Rightarrow> s
      | Some a \<Rightarrow> modify_route a (\<lambda>r. r\<lparr>r_strict := False, r_onForceClose := None, r_forceClosed := False, r_pending := []\<rparr>) s)"

definition isStrictP2pForConnection :: "string \<Rightarrow> transport \<Rightarrow> bool" where
  "isStrictP2pForConnection c s = (case route_get c s of None \<Rightarrow> False | Some r \<Rightarrow> r_strict r)"

definition attachP2pPeer ::
  "nat \<Rightarrow> string option \<Rightarrow> nat option \<Rightarrow> string option \<Rightarrow> transport \<Rightarrow> transport" where
  "attachP2pPeer p app onDowngrade uid s =
     (let s1 = detachP2pPeer app s;
          s2 = (if named_app app = None then s1\<lparr>downgradeHandler := onDowngrade, t_upgradeId := uid\<rparr> else s1)
      in registry_attach p app onDowngrade uid s2)"

definition eventbus_clear :: "transport \<Rightarrow> transport" where
  "eventbus_clear s = s\<lparr>messageHandlers := [], pathHandlers := [], eventHandlers := []\<rparr>"

definition close_transport :: "transport \<Rightarrow> transport" where
  "close_transport s =
     (if t_closed s then s
      else (eventbus_clear (dropGlobalQueue Session_close (detachP2pPeer None (s\<lparr>t_closed := True\<rparr>))))\<lparr>outboundQueue := None\<rparr>)"

definition transport_dispatch :: "envelope \<Rightarrow> transport \<Rightarrow> transport" where
  "transport_dispatch env s = (if t_closed s then s else emitMessage env s)"

section \<open>What a peer reports\<close>

datatype peer_report = Peer_is_connected | Peer_is_disconnected | Peer_is_failed | Peer_is_closed | Peer_is_other

datatype peer_data = Unreadable | Ping_data "string option" int int | Pong_data int | Envelope_data envelope

definition on_peer_data :: "string option \<Rightarrow> peer_data \<Rightarrow> transport \<Rightarrow> transport" where
  "on_peer_data app d s =
     (case d of
        Unreadable \<Rightarrow> s
      | Ping_data uid sq sent \<Rightarrow>
          (case app of Some c \<Rightarrow> handleIncomingPingForConnection c uid sq sent s
                     | None \<Rightarrow> handleIncomingPing uid sq sent s)
      | Pong_data sq \<Rightarrow>
          (case app of Some c \<Rightarrow> handleIncomingPongForConnection c sq s | None \<Rightarrow> handleIncomingPong sq s)
      | Envelope_data env \<Rightarrow> transport_dispatch env s)"

definition on_peer_report :: "string option \<Rightarrow> peer_report \<Rightarrow> transport \<Rightarrow> transport" where
  "on_peer_report app st s =
     (case st of
        Peer_is_failed \<Rightarrow>
          (case app of Some c \<Rightarrow> handleHealthDowngradeForConnection c ''ice_failed'' s
                     | None \<Rightarrow> handleHealthDowngrade ''ice_failed'' s)
      | Peer_is_disconnected \<Rightarrow>
          (case app of Some c \<Rightarrow> armIceDisconnectedTimerForConnection c s | None \<Rightarrow> armIceDisconnectedTimer s)
      | Peer_is_connected \<Rightarrow>
          (case app of Some c \<Rightarrow> clearIceDisconnectedTimerForConnection c s
                     | None \<Rightarrow> on_monitor clearIceDisconnectedTimer s)
      | Peer_is_closed \<Rightarrow>
          (case app of
             Some c \<Rightarrow> if map_option r_path (route_get c s) = Some P2p
                       then handleHealthDowngradeForConnection c ''peer_closed'' s
                       else snd (registry_detach app s)
           | None \<Rightarrow> if currentPath s = P2p then handleHealthDowngrade ''peer_closed'' s
                     else snd (registry_detach None s))
      | Peer_is_other \<Rightarrow> s)"

definition emitDisplayFrameDeferred :: "string \<Rightarrow> nat \<Rightarrow> transport \<Rightarrow> transport" where
  "emitDisplayFrameDeferred c amount s = emitEvent (Display_frame_deferred c amount) s"

section \<open>Events\<close>

datatype bus = Bus_message | Bus_path | Bus_event

definition subscribe :: "bus \<Rightarrow> nat \<Rightarrow> transport \<Rightarrow> transport" where
  "subscribe b h s =
     (case b of Bus_message \<Rightarrow> s\<lparr>messageHandlers := jset_add h (messageHandlers s)\<rparr>
      | Bus_path \<Rightarrow> s\<lparr>pathHandlers := jset_add h (pathHandlers s)\<rparr>
      | Bus_event \<Rightarrow> s\<lparr>eventHandlers := jset_add h (eventHandlers s)\<rparr>)"

definition unsubscribe :: "bus \<Rightarrow> nat \<Rightarrow> transport \<Rightarrow> transport" where
  "unsubscribe b h s =
     (case b of Bus_message \<Rightarrow> s\<lparr>messageHandlers := jset_del h (messageHandlers s)\<rparr>
      | Bus_path \<Rightarrow> s\<lparr>pathHandlers := jset_del h (pathHandlers s)\<rparr>
      | Bus_event \<Rightarrow> s\<lparr>eventHandlers := jset_del h (eventHandlers s)\<rparr>)"

datatype transport_input =
    Do_send queued_send bool
  | Do_configure bool "nat option"
  | Do_configure_conn string bool "nat option"
  | Do_clear_strict string
  | Do_close
  | Do_attach nat "string option" "nat option" "string option"
  | Do_detach "string option"
  | Do_switch transport_path
  | Do_switch_conn string transport_path
  | Do_force_close string
  | Do_force_close_conn string string
  | Do_defer string nat
  | Do_subscribe bus nat
  | Do_unsubscribe bus nat
  | Relay_message envelope
  | Peer_data nat peer_data
  | Peer_report nat peer_report
  | Ping_tick
  | Ping_tick_conn string
  | Pong_late int
  | Pong_late_conn string int
  | Sample_tick nat
  | Sample_tick_conn string nat
  | Ice_expired
  | Ice_expired_conn string
  | Drained nat
  | World int bool "nat list"

definition resume_drain :: "drain \<Rightarrow> transport \<Rightarrow> transport" where
  "resume_drain d s =
     (case d of Drain target previous \<Rightarrow> resume_switchPath target previous s
      | Drain_route a c target previous \<Rightarrow> resume_switchPathForConnection a c target previous s)"

definition on_route :: "string \<Rightarrow> (app_route \<Rightarrow> bool) \<Rightarrow> (nat \<Rightarrow> transport \<Rightarrow> transport) \<Rightarrow> transport \<Rightarrow> transport" where
  "on_route c P f s = (case jget (appRoutes s) c of None \<Rightarrow> s | Some a \<Rightarrow> if P (robj s a) then f a s else s)"

definition transport_input :: "transport_input \<Rightarrow> transport \<Rightarrow> transport" where
  "transport_input i s =
     (case i of
        Do_send q bypass \<Rightarrow> transport_send q bypass s
      | Do_configure strict h \<Rightarrow> configureStrictP2p strict h s
      | Do_configure_conn c strict h \<Rightarrow> configureStrictP2pForConnection c strict h s
      | Do_clear_strict c \<Rightarrow> clearStrictP2pForConnection c s
      | Do_close \<Rightarrow> close_transport s
      | Do_attach p app h uid \<Rightarrow> attachP2pPeer p app h uid s
      | Do_detach app \<Rightarrow> detachP2pPeer app s
      | Do_switch target \<Rightarrow> switchPath target s
      | Do_switch_conn c target \<Rightarrow> switchPathForConnection c target s
      | Do_force_close reason \<Rightarrow> forceClose reason s
      | Do_force_close_conn c reason \<Rightarrow> forceCloseConnection c reason s
      | Do_defer c amount \<Rightarrow> emitDisplayFrameDeferred c amount s
      | Do_subscribe b h \<Rightarrow> subscribe b h s
      | Do_unsubscribe b h \<Rightarrow> unsubscribe b h s
      | Relay_message env \<Rightarrow> transport_dispatch env s
      | Peer_data l d \<Rightarrow> (case jget (listening s) l of None \<Rightarrow> s | Some (p, app) \<Rightarrow> on_peer_data app d s)
      | Peer_report l st \<Rightarrow> (case jget (listening s) l of None \<Rightarrow> s | Some (p, app) \<Rightarrow> on_peer_report app st s)
      | Ping_tick \<Rightarrow> if pingTimer (monitor s) \<noteq> None then sendPing s else s
      | Ping_tick_conn c \<Rightarrow> on_route c (\<lambda>r. pingTimer (r_health r) \<noteq> None) (\<lambda>a. sendPingForConnection c) s
      | Pong_late sq \<Rightarrow> handlePongTimeout sq s
      | Pong_late_conn c sq \<Rightarrow> handlePongTimeoutForConnection c sq s
      | Sample_tick amount \<Rightarrow> if bufferedSampleTimer (monitor s) then sampleBufferedAmount amount s else s
      | Sample_tick_conn c amount \<Rightarrow>
          on_route c (\<lambda>r. bufferedSampleTimer (r_health r)) (\<lambda>a. sampleBufferedAmountForConnection c amount) s
      | Ice_expired \<Rightarrow> if iceDisconnectedTimer (monitor s) \<noteq> None then iceTimeout s else s
      | Ice_expired_conn c \<Rightarrow> on_route c (\<lambda>r. iceDisconnectedTimer (r_health r) \<noteq> None) (iceTimeoutForConnection c) s
      | Drained i \<Rightarrow>
          if i < length (suspended s)
          then resume_drain (suspended s ! i) (s\<lparr>suspended := take i (suspended s) @ drop (Suc i) (suspended s)\<rparr>)
          else s
      | World t up bad \<Rightarrow> s\<lparr>now := t, relay_open := up, broken := bad\<rparr>)"

definition transport_step :: "transport_input \<Rightarrow> transport \<Rightarrow> transport" where
  "transport_step i s =
     (let s1 = transport_input i s in if failed s1 then act Failure (s1\<lparr>failed := False\<rparr>) else s1)"

end
