(* ===== verification/TransportSafety.thy ===== *)
theory TransportSafety
  imports Transport
begin

text \<open>
  The properties of the Agent's session transport: its invariant, what strict mode guarantees for
  the messages of an App and where the code breaks it, the order of messages across a switch of
  paths, and the health monitor.
\<close>

section \<open>The invariant\<close>

text \<open>
  A route outside a switch has no outbound queue, keeps at most 256 messages back, and only while
  it is strict; the marker of a forced close never outlives the close itself. Addresses are not
  shared. A listener registered for an App belongs to the peer the App is attached to. \<open>X\<close> is a
  set of addresses whose route is being worked on.
\<close>

definition route_ok :: "app_route \<Rightarrow> bool" where
  "route_ok r \<longleftrightarrow> (r_outbound r \<noteq> None \<longrightarrow> r_switching r) \<and> length (r_pending r) \<le> strict_queue_limit
     \<and> \<not> r_forceClosed r \<and> (\<not> r_strict r \<longrightarrow> r_pending r = [] \<and> r_onForceClose r = None)"

definition store_ok :: "(string, nat) jmap \<Rightarrow> nat \<Rightarrow> bool" where
  "store_ok m n \<longleftrightarrow> (\<forall>c a. jget m c = Some a \<longrightarrow> a < n) \<and> (\<forall>c d a. jget m c = Some a \<and> jget m d = Some a \<longrightarrow> c = d)"

definition routes_ok :: "nat set \<Rightarrow> transport \<Rightarrow> bool" where
  "routes_ok X s \<longleftrightarrow> store_ok (appRoutes s) (next_route s)
     \<and> (\<forall>c a. jget (appRoutes s) c = Some a \<and> a \<notin> X \<longrightarrow> route_ok (robj s a))"

definition global_ok :: "transport \<Rightarrow> bool" where
  "global_ok s \<longleftrightarrow> (outboundQueue s \<noteq> None \<longrightarrow> switching s) \<and> length (globalPending s) \<le> strict_queue_limit
     \<and> (\<not> strictP2p s \<longrightarrow> globalPending s = []) \<and> \<not> (strictP2p s \<and> forceClosed s)"

definition peers_ok :: "transport \<Rightarrow> bool" where
  "peers_ok s \<longleftrightarrow>
     (\<forall>c e. jget (peersByApp s) c = Some e \<longrightarrow>
        c \<noteq> [] \<and> jhas (appRoutes s) c \<and> jget (listening s) (pr_listener e) = Some (pr_peer e, Some c))
     \<and> (\<forall>l p c. jget (listening s) l = Some (p, Some c) \<longrightarrow>
          (\<exists>e. jget (peersByApp s) c = Some e \<and> pr_listener e = l \<and> pr_peer e = p))
     \<and> (\<forall>l. jhas (listening s) l \<longrightarrow> l < next_listener s)
     \<and> (\<forall>l. legacyListener s = Some l \<longrightarrow> (\<exists>p. jget (listening s) l = Some (p, None)))"

definition ok_but :: "nat set \<Rightarrow> transport \<Rightarrow> bool" where
  "ok_but X s \<longleftrightarrow> routes_ok X s \<and> global_ok s \<and> peers_ok s"

abbreviation transport_ok :: "transport \<Rightarrow> bool" where
  "transport_ok s \<equiv> ok_but {} s"

lemmas ok_defs = ok_but_def routes_ok_def global_ok_def peers_ok_def

named_theorems ok_intros \<open>operations that keep the invariant of the transport\<close>

lemma ok_unread [simp]:
  "ok_but X (s\<lparr>effects := x1\<rparr>) = ok_but X s"
  "ok_but X (s\<lparr>failed := x2\<rparr>) = ok_but X s"
  "ok_but X (s\<lparr>monitor := x3\<rparr>) = ok_but X s"
  "ok_but X (s\<lparr>currentPath := x4\<rparr>) = ok_but X s"
  "ok_but X (s\<lparr>suspended := x5\<rparr>) = ok_but X s"
  "ok_but X (s\<lparr>t_closed := x6\<rparr>) = ok_but X s"
  "ok_but X (s\<lparr>downgradeHandler := x7\<rparr>) = ok_but X s"
  "ok_but X (s\<lparr>t_upgradeId := x8\<rparr>) = ok_but X s"
  "ok_but X (s\<lparr>onForceClose := x9\<rparr>) = ok_but X s"
  "ok_but X (s\<lparr>messageHandlers := x10\<rparr>) = ok_but X s"
  "ok_but X (s\<lparr>pathHandlers := x10\<rparr>) = ok_but X s"
  "ok_but X (s\<lparr>eventHandlers := x10\<rparr>) = ok_but X s"
  "ok_but X (s\<lparr>now := x11\<rparr>) = ok_but X s"
  "ok_but X (s\<lparr>relay_open := x12\<rparr>) = ok_but X s"
  "ok_but X (s\<lparr>broken := x13\<rparr>) = ok_but X s"
  by (simp_all add: ok_defs)

lemma ok_act [simp]: "ok_but X (act e s) = ok_but X s"
  and ok_emitEvent [simp]: "ok_but X (emitEvent ev s) = ok_but X s"
  and ok_emitPathChange [simp]: "ok_but X (emitPathChange p s) = ok_but X s"
  and ok_emitMessage [simp]: "ok_but X (emitMessage env s) = ok_but X s"
  and ok_relay_path_send [simp]: "ok_but X (relay_path_send env s) = ok_but X s"
  and ok_peer_send [simp]: "ok_but X (peer_send q w ch s) = ok_but X s"
  and ok_peer_try_send [simp]: "ok_but X (peer_try_send q w ch s) = ok_but X s"
  and ok_on_monitor [simp]: "ok_but X (on_monitor f s) = ok_but X s"
  by (simp_all add: act_def emitEvent_def emitPathChange_def emitMessage_def relay_path_send_def
        peer_send_def peer_try_send_def on_monitor_def)

lemma ok_no_queue: "ok_but X s \<Longrightarrow> ok_but X (s\<lparr>outboundQueue := None\<rparr>)"
  by (auto simp: ok_defs)

lemma ok_modify:
  assumes "ok_but X s" and "a \<notin> X \<Longrightarrow> route_ok (robj s a) \<Longrightarrow> route_ok (f (robj s a))"
  shows "ok_but X (modify_route a f s)"
  using assms by (auto simp: ok_defs modify_route_def)

lemma ok_health [ok_intros]: "ok_but X s \<Longrightarrow> ok_but X (on_route_health a f s)"
  unfolding on_route_health_def by (erule ok_modify) (simp add: route_ok_def)

lemma new_route_ok [simp]: "route_ok createAppRouteState"
  by (simp add: createAppRouteState_def route_ok_def)

lemma routes_getOrCreate: "routes_ok X s \<Longrightarrow> routes_ok X (snd (route_getOrCreate c s))"
  by (auto simp: route_getOrCreate_def routes_ok_def store_ok_def intro: less_SucI split: option.splits)

lemma global_getOrCreate [simp]: "global_ok (snd (route_getOrCreate c s)) = global_ok s"
  by (simp add: route_getOrCreate_def global_ok_def split: option.splits)

lemma routes_unread [simp]:
  "routes_ok X (s\<lparr>next_listener := n, listening := m\<rparr>) = routes_ok X s"
  "global_ok (s\<lparr>next_listener := n, listening := m\<rparr>) = global_ok s"
  by (auto simp: routes_ok_def global_ok_def)

lemma ok_getOrCreate [ok_intros]: "ok_but X s \<Longrightarrow> ok_but X (snd (route_getOrCreate c s))"
  by (auto simp: route_getOrCreate_def ok_defs store_ok_def createAppRouteState_def route_ok_def
        intro: less_SucI split: option.splits)

lemma getOrCreate_get: "jget (appRoutes (snd (route_getOrCreate c s))) c = Some (fst (route_getOrCreate c s))"
  by (simp add: route_getOrCreate_def split: option.splits)

lemma ok_route: "ok_but X s \<Longrightarrow> jget (appRoutes s) c = Some a \<Longrightarrow> a \<notin> X \<Longrightarrow> route_ok (robj s a)"
  by (simp add: ok_defs)

lemma ok_one_app: "ok_but X s \<Longrightarrow> jget (appRoutes s) c = Some a \<Longrightarrow> jget (appRoutes s) d = Some a \<Longrightarrow> c = d"
  by (auto simp: ok_defs store_ok_def)

lemma ok_less: "ok_but X s \<Longrightarrow> jget (appRoutes s) c = Some a \<Longrightarrow> a < next_route s"
  by (auto simp: ok_defs store_ok_def)

text \<open>A route that is well formed again, or that no App has any more, need not be excepted.\<close>

lemma ok_settled:
  assumes "ok_but (insert a X) s" and "jhas (map prod.swap (appRoutes s)) a \<Longrightarrow> route_ok (robj s a)"
  shows "ok_but X s"
proof -
  have "route_ok (robj s a)" if "jget (appRoutes s) c = Some a" for c
    using assms(2) map_of_SomeD [OF that] by (force simp: jhas_keys)
  with assms(1) show ?thesis by (auto simp: ok_defs)
qed

subsection \<open>Peers\<close>

lemma peers_okI:
  assumes "\<And>c e. jget (peersByApp s) c = Some e \<Longrightarrow>
      c \<noteq> [] \<and> jhas (appRoutes s) c \<and> jget (listening s) (pr_listener e) = Some (pr_peer e, Some c)"
    and "\<And>l p c. jget (listening s) l = Some (p, Some c) \<Longrightarrow>
      \<exists>e. jget (peersByApp s) c = Some e \<and> pr_listener e = l \<and> pr_peer e = p"
    and "\<And>l. jhas (listening s) l \<Longrightarrow> l < next_listener s"
    and "\<And>l. legacyListener s = Some l \<Longrightarrow> \<exists>p. jget (listening s) l = Some (p, None)"
  shows "peers_ok s"
  unfolding peers_ok_def by (intro conjI allI impI) (simp_all add: assms)

lemma peers_okD:
  assumes "peers_ok s"
  shows peer_entry: "jget (peersByApp s) c = Some e \<Longrightarrow>
      c \<noteq> [] \<and> jhas (appRoutes s) c \<and> jget (listening s) (pr_listener e) = Some (pr_peer e, Some c)"
    and peer_listener: "jget (listening s) l = Some (p, Some c) \<Longrightarrow>
      \<exists>e. jget (peersByApp s) c = Some e \<and> pr_listener e = l \<and> pr_peer e = p"
    and listener_old: "jhas (listening s) l \<Longrightarrow> l < next_listener s"
    and legacy_listener: "legacyListener s = Some l \<Longrightarrow> \<exists>p. jget (listening s) l = Some (p, None)"
  using assms unfolding peers_ok_def by blast+

text \<open>What detaching an App's peer does to the registry.\<close>

lemma registry_detach_conn:
  assumes "c \<noteq> []"
  shows "registry_detach (Some c) s =
    (case jget (peersByApp s) c of
       None \<Rightarrow> (None, s)
     | Some e \<Rightarrow> (Some e, s\<lparr>listening := jdel (pr_listener e) (listening s), peersByApp := jdel c (peersByApp s),
         legacyPeer := (if legacyPeer s = Some (pr_peer e) then None else legacyPeer s),
         legacyListener := (if legacyPeer s = Some (pr_peer e) then None else legacyListener s),
         effects := effects s @ [Close_peer (pr_peer e)]\<rparr>))"
  using assms by (simp add: registry_detach_def named_app_def act_def Let_def split: option.split)

lemma peers_detach_conn:
  assumes "peers_ok s" and e: "jget (peersByApp s) c = Some e"
  shows "peers_ok (s\<lparr>listening := jdel (pr_listener e) (listening s), peersByApp := jdel c (peersByApp s),
      legacyPeer := lp, legacyListener := (if b then None else legacyListener s), effects := x\<rparr>)"
proof (rule peers_okI, goal_cases)
  case (1 d f)
  then have f: "jget (peersByApp s) d = Some f" and "d \<noteq> c" by (auto split: if_splits)
  with peer_entry [OF assms(1) f] peer_entry [OF assms(1) e] have "pr_listener f \<noteq> pr_listener e" by auto
  with peer_entry [OF assms(1) f] show ?case by simp
next
  case (2 l p d)
  then have "jget (listening s) l = Some (p, Some d)" and l: "l \<noteq> pr_listener e" by (auto split: if_splits)
  then obtain f where f: "jget (peersByApp s) d = Some f" "pr_listener f = l" "pr_peer f = p"
    using peer_listener [OF assms(1)] by blast
  with e l have "d \<noteq> c" by auto
  with f show ?case by simp
next
  case (3 l)
  then show ?case using listener_old [OF assms(1)] by simp
next
  case (4 l)
  then obtain p where "jget (listening s) l = Some (p, None)"
    using legacy_listener [OF assms(1)] by (auto split: if_splits)
  moreover from this peer_entry [OF assms(1) e] have "l \<noteq> pr_listener e" by auto
  ultimately show ?case by simp
qed

text \<open>Detaching everything.\<close>

lemma fold_close_peers:
  "fold (\<lambda>(c, e) s. act (Close_peer (pr_peer e)) (s\<lparr>listening := jdel (pr_listener e) (listening s)\<rparr>)) ps s
   = s\<lparr>listening := fold (\<lambda>(c, e). jdel (pr_listener e)) ps (listening s),
       effects := effects s @ map (\<lambda>(c, e). Close_peer (pr_peer e)) ps\<rparr>"
proof (induction ps arbitrary: s)
  case (Cons q ps)
  then show ?case by (cases q) (simp add: act_def)
qed simp

lemma jget_fold_del: "jget (fold (\<lambda>(c, e). jdel (pr_listener e)) ps m) l =
    (if l \<in> (\<lambda>(c, e). pr_listener e) ` set ps then None else jget m l)"
  by (induction ps arbitrary: m) (auto split: if_splits)

lemma registry_detach_all:
  "snd (registry_detach None s) =
     (let m = (case legacyListener s of None \<Rightarrow> listening s | Some l \<Rightarrow> jdel l (listening s))
      in s\<lparr>listening := fold (\<lambda>(c, e). jdel (pr_listener e)) (peersByApp s) m, legacyListener := None, legacyPeer := None,
           peersByApp := [], effects := effects s @ map (\<lambda>(c, e). Close_peer (pr_peer e)) (peersByApp s)\<rparr>)"
  by (simp add: registry_detach_def named_app_def Let_def fold_close_peers split: option.split)

lemma peers_detach_all:
  assumes "peers_ok s" shows "peers_ok (snd (registry_detach None s))"
proof (rule peers_okI, goal_cases)
  case (2 l p c)
  then have l: "jget (listening s) l = Some (p, Some c)" and no: "l \<notin> (\<lambda>(c, e). pr_listener e) ` set (peersByApp s)"
    by (auto simp: registry_detach_all jget_fold_del Let_def split: option.splits if_splits)
  from peer_listener [OF assms l] no show ?case by (force dest: map_of_SomeD)
next
  case (3 l)
  then have "jhas (listening s) l"
    by (auto simp: registry_detach_all jget_fold_del Let_def jhas_def split: option.splits if_splits)
  with listener_old [OF assms] show ?case by (simp add: registry_detach_all Let_def)
qed (simp_all add: registry_detach_all Let_def)

lemma ok_registry_detach [ok_intros]:
  assumes "ok_but X s" shows "ok_but X (snd (registry_detach app s))"
proof (cases "named_app app")
  case None
  then have "registry_detach app s = registry_detach None s" by (simp add: registry_detach_def named_app_def)
  with assms peers_detach_all [of s] show ?thesis
    by (simp add: ok_but_def) (auto simp: registry_detach_all Let_def routes_ok_def global_ok_def)
next
  case (Some c)
  then have app: "app = Some c" "c \<noteq> []" by (auto simp: named_app_def split: if_splits)
  show ?thesis
  proof (cases "jget (peersByApp s) c")
    case (Some e)
    with assms peers_detach_conn [of s c e] app show ?thesis
      by (simp add: ok_but_def registry_detach_conn) (auto simp: routes_ok_def global_ok_def)
  qed (use assms app in \<open>simp add: registry_detach_conn\<close>)
qed

lemma ok_registry_attach [ok_intros]:
  assumes "ok_but X s" and free: "\<And>c. named_app app = Some c \<Longrightarrow> \<not> jhas (peersByApp s) c"
    and "app = None \<or> app = Some [] \<Longrightarrow> legacyListener s = None"
  shows "ok_but X (registry_attach p app h uid s)"
proof (cases "named_app app")
  case None
  have p: "peers_ok s" using assms(1) by (simp add: ok_but_def)
  have "peers_ok (registry_attach p app h uid s)"
  proof (rule peers_okI, goal_cases)
    case (1 d e)
    then have d: "jget (peersByApp s) d = Some e" using None by (simp add: registry_attach_def Let_def)
    then have "pr_listener e < next_listener s"
      using peer_entry [OF p d] listener_old [OF p] by (auto simp: jhas_def)
    with None peer_entry [OF p d] show ?case by (simp add: registry_attach_def Let_def)
  next
    case (2 l q d)
    with None peer_listener [OF p] show ?case by (auto simp: registry_attach_def Let_def split: if_splits)
  next
    case (3 l)
    with None listener_old [OF p] show ?case by (auto simp: registry_attach_def Let_def intro: less_SucI)
  next
    case (4 l)
    with None show ?case by (auto simp: registry_attach_def Let_def)
  qed
  with assms(1) None show ?thesis
    by (simp add: ok_but_def) (auto simp: registry_attach_def Let_def routes_ok_def global_ok_def)
next
  case (Some c)
  let ?l = "next_listener s"
  define s2 where "s2 = snd (route_getOrCreate c (s\<lparr>next_listener := ?l + 1, listening := jput ?l (p, Some c) (listening s)\<rparr>))"
  have p: "peers_ok s" using assms(1) by (simp add: ok_but_def)
  have s2: "peersByApp s2 = peersByApp s" "listening s2 = jput ?l (p, Some c) (listening s)"
    "next_listener s2 = ?l + 1" "legacyListener s2 = legacyListener s" "jhas (appRoutes s2) c"
    "jhas (appRoutes s) d \<Longrightarrow> jhas (appRoutes s2) d" for d
    by (auto simp: s2_def route_getOrCreate_def jhas_def split: option.splits)
  have r: "routes_ok X s2" "global_ok s2"
    unfolding s2_def using assms(1) by (simp_all add: routes_getOrCreate ok_but_def)
  have att: "registry_attach p app h uid s =
      s2\<lparr>peersByApp := jput c \<lparr>pr_peer = p, pr_listener = ?l, pr_onDowngrade = h, pr_upgradeId = uid\<rparr> (peersByApp s)\<rparr>"
    using Some s2(1) by (simp add: registry_attach_def Let_def s2_def)
  have c: "c \<noteq> []" using Some by (auto simp: named_app_def split: if_splits)
  have "peers_ok (registry_attach p app h uid s)"
  proof (rule peers_okI, goal_cases)
    case (1 d e)
    show ?case
    proof (cases "d = c")
      case False
      with 1 have d: "jget (peersByApp s) d = Some e" by (simp add: att)
      then have "pr_listener e < next_listener s"
        using peer_entry [OF p d] listener_old [OF p] by (auto simp: jhas_def)
      with peer_entry [OF p d] s2 show ?thesis by (simp add: att)
    qed (use 1 s2 c in \<open>auto simp: att\<close>)
  next
    case (2 l q d)
    show ?case
    proof (cases "l = ?l")
      case False
      with 2 have l: "jget (listening s) l = Some (q, Some d)" by (simp add: att s2)
      with peer_listener [OF p l] free [OF Some] have "d \<noteq> c" by (auto simp: jhas_def)
      with peer_listener [OF p l] show ?thesis by (simp add: att)
    next
      case True
      with 2 have "q = p" "d = c" by (auto simp: att s2)
      with True show ?thesis by (simp add: att)
    qed
  next
    case (3 l)
    with listener_old [OF p] show ?case by (auto simp: att s2 intro: less_SucI)
  next
    case (4 l)
    with legacy_listener [OF p] obtain q where q: "jget (listening s) l = Some (q, None)" by (auto simp: att s2)
    then have "l < ?l" using listener_old [OF p] by (auto simp: jhas_def)
    with q show ?case by (simp add: att s2)
  qed
  with r show ?thesis by (simp add: ok_but_def) (auto simp: att routes_ok_def global_ok_def)
qed

subsection \<open>Detaching, dropping, closing\<close>

lemma modify_fields [simp]:
  "appRoutes (modify_route a f s) = appRoutes s" "next_route (modify_route a f s) = next_route s"
  "peersByApp (modify_route a f s) = peersByApp s" "effects (modify_route a f s) = effects s"
  "suspended (modify_route a f s) = suspended s" "legacyPeer (modify_route a f s) = legacyPeer s"
  "currentPath (modify_route a f s) = currentPath s" "strictP2p (modify_route a f s) = strictP2p s"
  "outboundQueue (modify_route a f s) = outboundQueue s" "failed (modify_route a f s) = failed s"
  "globalPending (modify_route a f s) = globalPending s" "listening (modify_route a f s) = listening s"
  "robj (modify_route a f s) = (robj s)(a := f (robj s a))"
  "t_closed (modify_route a f s) = t_closed s" "eventHandlers (modify_route a f s) = eventHandlers s"
  "legacyListener (modify_route a f s) = legacyListener s" "relay_open (modify_route a f s) = relay_open s"
  by (simp_all add: modify_route_def)

lemma fold_stop:
  "fold (\<lambda>(c, a). on_route_health a f) m s
   = s\<lparr>robj := fold (\<lambda>(c, a) g. g(a := (g a)\<lparr>r_health := f (r_health (g a))\<rparr>)) m (robj s)\<rparr>"
proof (induction m arbitrary: s)
  case (Cons q m)
  then show ?case by (cases q) (simp add: on_route_health_def modify_route_def)
qed simp

text \<open>Without an App, \<open>detachP2pPeer\<close> forgets every route and every peer.\<close>

lemma detach_all_fields [simp]:
  assumes "named_app app = None"
  shows "appRoutes (detachP2pPeer app s) = []" "peersByApp (detachP2pPeer app s) = []"
    "legacyPeer (detachP2pPeer app s) = None" "strictP2p (detachP2pPeer app s) = strictP2p s"
    "legacyListener (detachP2pPeer app s) = None" "next_route (detachP2pPeer app s) = next_route s"
    "suspended (detachP2pPeer app s) = suspended s" "globalPending (detachP2pPeer app s) = globalPending s"
    "currentPath (detachP2pPeer app s) = currentPath s" "failed (detachP2pPeer app s) = failed s"
    "outboundQueue (detachP2pPeer app s) = outboundQueue s"
  using assms by (simp_all add: detachP2pPeer_def registry_detach_all fold_stop routes_clear_def on_monitor_def Let_def)

lemma ok_detach_all:
  assumes "ok_but X s" and "named_app app = None"
  shows "ok_but {} (detachP2pPeer app s)"
proof -
  have "ok_but X (snd (registry_detach None (on_monitor stop_monitoring s)))"
    using assms(1) by (intro ok_registry_detach) simp
  with assms show ?thesis
    by (simp add: detachP2pPeer_def fold_stop routes_clear_def)
       (auto simp: ok_but_def routes_ok_def global_ok_def peers_ok_def store_ok_def registry_detach_all Let_def
          on_monitor_def)
qed

text \<open>What detaching one App leaves.\<close>

lemma detach_conn_eq:
  assumes "c \<noteq> []"
  shows "detachP2pPeer (Some c) s =
    (let s1 = (case jget (appRoutes s) c of None \<Rightarrow> s | Some a \<Rightarrow> modify_route a detached_route s);
         s2 = snd (registry_detach (Some c) s1)
     in if legacyPeer s2 = None \<and> jhas (peersByApp s) c then s2\<lparr>downgradeHandler := None, t_upgradeId := None\<rparr> else s2)"
  using assms
  by (auto simp: detachP2pPeer_def registry_detach_conn Let_def named_app_def jhas_def split: option.split)

lemma detach_conn_fields [simp]:
  assumes "c \<noteq> []"
  shows "appRoutes (detachP2pPeer (Some c) s) = appRoutes s" "next_route (detachP2pPeer (Some c) s) = next_route s"
    "peersByApp (detachP2pPeer (Some c) s) = (if jhas (peersByApp s) c then jdel c (peersByApp s) else peersByApp s)"
    "robj (detachP2pPeer (Some c) s) =
       (case jget (appRoutes s) c of None \<Rightarrow> robj s | Some a \<Rightarrow> (robj s)(a := detached_route (robj s a)))"
    "suspended (detachP2pPeer (Some c) s) = suspended s" "strictP2p (detachP2pPeer (Some c) s) = strictP2p s"
    "currentPath (detachP2pPeer (Some c) s) = currentPath s" "outboundQueue (detachP2pPeer (Some c) s) = outboundQueue s"
    "failed (detachP2pPeer (Some c) s) = failed s" "globalPending (detachP2pPeer (Some c) s) = globalPending s"
    "eventHandlers (detachP2pPeer (Some c) s) = eventHandlers s" "t_closed (detachP2pPeer (Some c) s) = t_closed s"
    "relay_open (detachP2pPeer (Some c) s) = relay_open s"
    "effects (detachP2pPeer (Some c) s) = effects s @
       (case jget (peersByApp s) c of None \<Rightarrow> [] | Some e \<Rightarrow> [Close_peer (pr_peer e)])"
  using assms
  by (simp_all add: detach_conn_eq registry_detach_conn Let_def jhas_def split: option.split)

lemma detached_ok: "route_ok r \<Longrightarrow> route_ok (detached_route r)"
  by (simp add: route_ok_def detached_route_def)

lemma ok_detach_conn:
  assumes "ok_but X s" and "c \<noteq> []" shows "ok_but X (detachP2pPeer (Some c) s)"
proof -
  have "ok_but X (case jget (appRoutes s) c of None \<Rightarrow> s | Some a \<Rightarrow> modify_route a detached_route s)"
    using assms(1) by (auto intro: ok_modify detached_ok split: option.split)
  then show ?thesis using assms(2) by (simp add: detach_conn_eq Let_def ok_registry_detach)
qed

lemma ok_detach [ok_intros]: "ok_but X s \<Longrightarrow> ok_but X (detachP2pPeer app s)"
proof (cases "named_app app")
  case None
  assume "ok_but X s"
  from ok_detach_all [OF this None] show ?thesis by (auto simp: ok_but_def routes_ok_def)
next
  case (Some c)
  assume "ok_but X s"
  with Some show ?thesis using ok_detach_conn [of X s c] by (auto simp: named_app_def split: if_splits)
qed

lemma ok_resetPathState [ok_intros]: "ok_but X s \<Longrightarrow> ok_but X (resetPathState s)"
proof -
  assume "ok_but X s"
  then have "ok_but X (s\<lparr>outboundQueue := None, switching := False\<rparr>)" by (auto simp: ok_defs)
  then show ?thesis by (simp add: resetPathState_def Let_def)
qed

lemma ok_dropAppQueue [ok_intros]: "ok_but X s \<Longrightarrow> ok_but X (dropAppQueue a r s)"
  by (auto simp: dropAppQueue_def route_ok_def intro: ok_modify)

lemma ok_handlers [simp]:
  "ok_but X (callDowngradeHandler h reason s) = ok_but X s" "ok_but X (callForceCloseHandler h reason s) = ok_but X s"
  by (simp_all add: callDowngradeHandler_def callForceCloseHandler_def split: option.split)

lemma peers_unread [simp]:
  "peers_ok (s\<lparr>effects := x1\<rparr>) = peers_ok s" "peers_ok (s\<lparr>monitor := x2\<rparr>) = peers_ok s"
  "peers_ok (s\<lparr>robj := x3\<rparr>) = peers_ok s" "peers_ok (s\<lparr>forceClosed := x4\<rparr>) = peers_ok s"
  "peers_ok (s\<lparr>downgradeHandler := x5\<rparr>) = peers_ok s" "peers_ok (s\<lparr>t_upgradeId := x6\<rparr>) = peers_ok s"
  "peers_ok (s\<lparr>outboundQueue := x7\<rparr>) = peers_ok s" "peers_ok (s\<lparr>switching := x8\<rparr>) = peers_ok s"
  "peers_ok (s\<lparr>currentPath := x9\<rparr>) = peers_ok s" "peers_ok (s\<lparr>globalPending := x10\<rparr>) = peers_ok s"
  "peers_ok (s\<lparr>strictP2p := x11\<rparr>) = peers_ok s" "peers_ok (s\<lparr>onForceClose := x12\<rparr>) = peers_ok s"
  by (simp_all add: peers_ok_def)

lemma registry_all_fields:
  "peersByApp (snd (registry_detach None s)) = []" "legacyListener (snd (registry_detach None s)) = None"
  by (simp_all add: registry_detach_all Let_def)

lemma peers_detach_none: "peers_ok s \<Longrightarrow> peers_ok (detachP2pPeer None s)"
  using peers_detach_all [of "on_monitor stop_monitoring s"] registry_all_fields [of "on_monitor stop_monitoring s"]
  by (simp add: detachP2pPeer_def fold_stop routes_clear_def named_app_def)
     (simp add: peers_ok_def on_monitor_def Let_def)

lemma ok_forceClose [ok_intros]:
  assumes "ok_but X s" shows "ok_but X (forceClose reason s)"
proof (cases "\<not> strictP2p s \<or> forceClosed s")
  case False
  let ?s1 = "emitEvent (Force_closed reason) (s\<lparr>forceClosed := True\<rparr>)"
  obtain t where t: "t = resetPathState (detachP2pPeer None ?s1)" by simp
  have g: "outboundQueue t = None" "length (globalPending t) \<le> strict_queue_limit" "appRoutes t = []"
    using assms by (simp_all add: t resetPathState_def Let_def named_app_def emitEvent_def act_def emitPathChange_def ok_defs)
  have "peers_ok ?s1" using assms by (simp add: ok_but_def emitEvent_def act_def)
  then have "peers_ok t"
    using peers_detach_none by (simp add: t resetPathState_def Let_def emitEvent_def act_def emitPathChange_def)
  then have "ok_but X ((dropGlobalQueue Force_close_drop t)\<lparr>strictP2p := False, onForceClose := None\<rparr>)"
    using g by (simp add: dropGlobalQueue_def ok_but_def routes_ok_def global_ok_def store_ok_def emitEvent_def act_def)
  with False show ?thesis by (simp add: forceClose_def Let_def t)
qed (use assms in \<open>simp add: forceClose_def\<close>)

text \<open>A forced close of an App, spelt out.\<close>

lemma forceCloseConnection_eq:
  assumes "jget (appRoutes s) c = Some a" and "r_strict (robj s a)" and "\<not> r_forceClosed (robj s a)" and "c \<noteq> []"
  shows "forceCloseConnection c reason s =
    callForceCloseHandler (r_onForceClose (robj s a)) reason
      (callDowngradeHandler (case jget (peersByApp s) c of None \<Rightarrow> None | Some e \<Rightarrow> pr_onDowngrade e) reason
        (dropAppQueue a Force_close_drop
          (modify_route a (\<lambda>r. r\<lparr>r_strict := False, r_onForceClose := None, r_forceClosed := False\<rparr>)
            (detachP2pPeer (Some c) (emitEvent (Force_closed reason) (modify_route a (\<lambda>r. r\<lparr>r_forceClosed := True\<rparr>) s))))))"
  using assms by (simp add: forceCloseConnection_def Let_def route_getOrCreate_def emitEvent_def act_def)

lemma ok_forceCloseConnection [ok_intros]:
  assumes ok: "transport_ok s" shows "transport_ok (forceCloseConnection c reason s)"
proof (cases "jget (appRoutes s) c")
  case (Some a)
  show ?thesis
  proof (cases "\<not> r_strict (robj s a) \<or> r_forceClosed (robj s a)")
    case False
    let ?s1 = "modify_route a (\<lambda>r. r\<lparr>r_forceClosed := True\<rparr>) s"
    let ?s2 = "detachP2pPeer (Some c) (emitEvent (Force_closed reason) ?s1)"
    have s1: "ok_but {a} ?s1" using ok by (intro ok_modify) (auto simp: ok_defs)
    show ?thesis
    proof (cases "c = []")
      case True
      have "transport_ok ?s2" by (rule ok_detach_all [of "{a}"]) (use s1 True in \<open>simp_all add: named_app_def\<close>)
      then have "transport_ok (snd (route_getOrCreate c ?s2))" by (rule ok_getOrCreate)
      moreover have "robj (snd (route_getOrCreate c ?s2)) (fst (route_getOrCreate c ?s2)) = createAppRouteState"
        using True by (simp add: route_getOrCreate_def named_app_def)
      ultimately show ?thesis
        using False Some by (auto simp: forceCloseConnection_def Let_def route_ok_def createAppRouteState_def split: prod.split
            intro!: ok_dropAppQueue ok_modify)
    next
      case c: False
      let ?s3 = "modify_route a (\<lambda>r. r\<lparr>r_strict := False, r_onForceClose := None, r_forceClosed := False\<rparr>) ?s2"
      have "ok_but {a} (dropAppQueue a Force_close_drop ?s3)"
        by (intro ok_dropAppQueue ok_modify ok_detach) (use s1 in auto)
      moreover have "route_ok (robj (dropAppQueue a Force_close_drop ?s3) a)"
        using c Some ok_route [OF ok Some]
        by (simp add: dropAppQueue_def route_ok_def detached_route_def emitEvent_def act_def)
      ultimately have "transport_ok (dropAppQueue a Force_close_drop ?s3)" by (auto intro: ok_settled)
      then show ?thesis using False Some c by (simp add: forceCloseConnection_eq)
    qed
  qed (use ok Some in \<open>simp add: forceCloseConnection_def\<close>)
qed (use ok in \<open>simp add: forceCloseConnection_def\<close>)

subsection \<open>Sending and switching\<close>

lemma ok_failed [ok_intros]: "ok_but X s \<Longrightarrow> ok_but X (s\<lparr>failed := b\<rparr>)"
  by simp

lemma ok_dispatchSend [ok_intros]: "transport_ok s \<Longrightarrow> transport_ok (dispatchSend q s)"
  by (auto simp: dispatchSend_def Let_def intro!: ok_intros split: option.split transport_path.split)

lemma ok_unless_failed: "(transport_ok s \<Longrightarrow> transport_ok (f s)) \<Longrightarrow> transport_ok s \<Longrightarrow> transport_ok (unless_failed f s)"
  by (simp add: unless_failed_def)

lemma ok_dispatch_all [ok_intros]: "transport_ok s \<Longrightarrow> transport_ok (dispatch_all qs s)"
  unfolding dispatch_all_def
  by (induction qs arbitrary: s) (auto intro!: ok_unless_failed ok_dispatchSend)

lemma ok_flushAppQueue [ok_intros]: "transport_ok s \<Longrightarrow> transport_ok (flushAppQueue a s)"
  by (auto simp: flushAppQueue_def route_ok_def intro!: ok_intros ok_modify split: option.split)

lemma ok_flushGlobalQueue [ok_intros]: "transport_ok s \<Longrightarrow> transport_ok (flushGlobalQueue s)"
  unfolding flushGlobalQueue_def by (rule ok_dispatch_all) (auto simp: ok_defs)

lemma ok_handleGlobalSend: "transport_ok s \<Longrightarrow> transport_ok (snd (handleGlobalSend q s))"
proof -
  assume ok: "transport_ok s"
  then have "transport_ok (s\<lparr>globalPending := []\<rparr>)" by (auto simp: ok_defs)
  moreover have "transport_ok (s\<lparr>globalPending := globalPending s @ [q]\<rparr>)"
    if "strictP2p s" "length (globalPending s) < strict_queue_limit" using that ok by (auto simp: ok_defs)
  ultimately show ?thesis using ok by (auto simp: handleGlobalSend_def not_le intro!: ok_intros)
qed

lemma ok_send_global [ok_intros]: "transport_ok s \<Longrightarrow> transport_ok (send_global q s)"
  using ok_handleGlobalSend [of s q]
  by (cases "handleGlobalSend q s")
     (auto simp: send_global_def intro!: ok_dispatchSend split: option.split, auto simp: ok_defs)

lemma ok_queueAppSend:
  assumes "transport_ok s" and "a < next_route s" and "r_strict (robj s a)"
  shows "transport_ok (queueAppSend c a q s)"
proof -
  have "transport_ok (modify_route a (\<lambda>r. r\<lparr>r_pending := []\<rparr>) s)"
    using assms by (intro ok_modify) (simp_all add: route_ok_def)
  moreover have "transport_ok (modify_route a (\<lambda>r. r\<lparr>r_pending := r_pending r @ [q]\<rparr>) s)"
    if "length (r_pending (robj s a)) < strict_queue_limit"
    using assms that by (intro ok_modify) (simp_all add: route_ok_def)
  ultimately show ?thesis
    using assms(1) by (auto simp: queueAppSend_def Let_def not_le intro!: ok_forceCloseConnection)
qed

lemma ok_send [ok_intros]: "transport_ok s \<Longrightarrow> transport_ok (transport_send q bypass s)"
proof -
  assume ok: "transport_ok s"
  have queue: "transport_ok (queueAppSend c a q s)" if "jget (appRoutes s) c = Some a" "r_strict (robj s a)" for c a
    using ok_queueAppSend [OF ok ok_less [OF ok that(1)] that(2)] .
  have out: "transport_ok (modify_route a (\<lambda>r. r\<lparr>r_outbound := Some (out @ [q])\<rparr>) s)"
    if "r_outbound (robj s a) = Some out" for a out
    using ok that by (intro ok_modify) (auto simp: route_ok_def)
  show ?thesis
    using ok queue out
    by (auto simp: transport_send_def shouldQueueAppSend_def route_get_def route_getOrCreate_def
        intro!: ok_send_global split: option.split)
qed

lemma ok_switchPath [ok_intros]: "transport_ok s \<Longrightarrow> transport_ok (switchPath target s)"
  by (auto simp: switchPath_def ok_defs)

lemma ok_switchPathForConnection [ok_intros]: "transport_ok s \<Longrightarrow> transport_ok (switchPathForConnection c target s)"
  using ok_getOrCreate [of "{}" s c]
  by (auto simp: switchPathForConnection_def Let_def route_ok_def intro!: ok_modify split: prod.split)

lemma ok_monitoring [ok_intros]:
  assumes "transport_ok s"
  shows "transport_ok (startPingLoop s)" "transport_ok (startBufferedSampler s)"
    "transport_ok (startPingLoopForConnection c s)" "transport_ok (startBufferedSamplerForConnection c s)"
    "transport_ok (armIceDisconnectedTimer s)" "transport_ok (armIceDisconnectedTimerForConnection c s)"
    "transport_ok (clearIceDisconnectedTimerForConnection c s)"
    "transport_ok (sendPing s)" "transport_ok (sendPingForConnection c s)"
    "transport_ok (handleIncomingPing u sq t s)" "transport_ok (handleIncomingPingForConnection c u sq t s)"
    "transport_ok (handleIncomingPong sq s)" "transport_ok (handleIncomingPongForConnection c sq s)"
  using assms ok_getOrCreate [OF assms, of c]
  by (auto simp: startPingLoop_def startBufferedSampler_def startPingLoopForConnection_def
      startBufferedSamplerForConnection_def armIceDisconnectedTimer_def armIceDisconnectedTimerForConnection_def
      clearIceDisconnectedTimerForConnection_def sendPing_def sendPingForConnection_def handleIncomingPing_def
      handleIncomingPingForConnection_def handleIncomingPong_def handleIncomingPongForConnection_def Let_def
      intro!: ok_health split: option.split prod.split)

text \<open>Nothing on the way of a message opens an outbound queue.\<close>

lemma act_fields [simp]:
  "robj (act e s) = robj s" "outboundQueue (act e s) = outboundQueue s"
  "robj (emitEvent ev s) = robj s" "outboundQueue (emitEvent ev s) = outboundQueue s"
  "robj (emitPathChange p s) = robj s" "outboundQueue (emitPathChange p s) = outboundQueue s"
  "robj (relay_path_send env s) = robj s" "outboundQueue (relay_path_send env s) = outboundQueue s"
  "robj (peer_send q w ch s) = robj s" "outboundQueue (peer_send q w ch s) = outboundQueue s"
  "robj (callDowngradeHandler h r s) = robj s" "outboundQueue (callDowngradeHandler h r s) = outboundQueue s"
  "robj (callForceCloseHandler h r s) = robj s" "outboundQueue (callForceCloseHandler h r s) = outboundQueue s"
  "robj (on_monitor f s) = robj s" "outboundQueue (on_monitor f s) = outboundQueue s"
  by (simp_all add: act_def emitEvent_def emitPathChange_def relay_path_send_def peer_send_def on_monitor_def
      callDowngradeHandler_def callForceCloseHandler_def split: option.split)

lemma fold_stop_outbound:
  "r_outbound (fold (\<lambda>(c, a) g. g(a := (g a)\<lparr>r_health := f (r_health (g a))\<rparr>)) m g b) = r_outbound (g b)"
  by (induction m arbitrary: g) (auto split: if_splits)

lemma detach_outbound: "r_outbound (robj s b) = None \<Longrightarrow> r_outbound (robj (detachP2pPeer app s) b) = None"
proof (cases "named_app app")
  case None
  assume "r_outbound (robj s b) = None"
  with None show ?thesis
    by (simp add: detachP2pPeer_def fold_stop routes_clear_def fold_stop_outbound Let_def)
       (simp add: registry_detach_all Let_def)
next
  case (Some c)
  assume "r_outbound (robj s b) = None"
  with Some show ?thesis
    by (auto simp: named_app_def detached_route_def split: if_splits option.split)
qed

lemma detach_queue: "outboundQueue (detachP2pPeer app s) = outboundQueue s"
  by (cases "named_app app") (auto simp: named_app_def split: if_splits)

lemma getOrCreate_outbound:
  "r_outbound (robj s b) = None \<Longrightarrow> r_outbound (robj (snd (route_getOrCreate c s)) b) = None"
  by (auto simp: route_getOrCreate_def createAppRouteState_def split: option.split)

lemma getOrCreate_queue [simp]: "outboundQueue (snd (route_getOrCreate c s)) = outboundQueue s"
  by (simp add: route_getOrCreate_def split: option.split)

lemma drop_outbound:
  "r_outbound (robj (dropAppQueue a r s) b) = r_outbound (robj s b)" "robj (dropGlobalQueue r s) = robj s"
  "outboundQueue (dropAppQueue a r s) = outboundQueue s" "outboundQueue (dropGlobalQueue r s) = outboundQueue s"
  by (simp_all add: dropAppQueue_def dropGlobalQueue_def)

lemma reset_outbound [simp]: "robj (resetPathState s) = robj s" "outboundQueue (resetPathState s) = None"
  by (simp_all add: resetPathState_def Let_def)

lemma close_outbound:
  assumes "r_outbound (robj s b) = None"
  shows "r_outbound (robj (forceClose reason s) b) = None" "r_outbound (robj (forceCloseConnection c reason s) b) = None"
  using assms
  by (auto simp: forceClose_def forceCloseConnection_def Let_def drop_outbound split_beta
      intro!: detach_outbound getOrCreate_outbound split: option.split)

lemma close_queue:
  "outboundQueue s = None \<Longrightarrow> outboundQueue (forceClose reason s) = None"
  "outboundQueue (forceCloseConnection c reason s) = outboundQueue s"
  by (simp_all add: forceClose_def forceCloseConnection_def Let_def drop_outbound split_beta detach_queue
      split: option.split)

lemma dispatch_outbound: "r_outbound (robj s b) = None \<Longrightarrow> r_outbound (robj (dispatchSend q s) b) = None"
  by (auto simp: dispatchSend_def Let_def intro!: close_outbound split: option.split transport_path.split)

lemma dispatch_queue: "outboundQueue s = None \<Longrightarrow> outboundQueue (dispatchSend q s) = None"
  by (auto simp: dispatchSend_def Let_def close_queue split: option.split transport_path.split)

lemma dispatch_all_outbound: "r_outbound (robj s b) = None \<Longrightarrow> r_outbound (robj (dispatch_all qs s) b) = None"
  unfolding dispatch_all_def by (induction qs arbitrary: s) (auto simp: unless_failed_def dispatch_outbound)

lemma dispatch_all_queue: "outboundQueue s = None \<Longrightarrow> outboundQueue (dispatch_all qs s) = None"
  unfolding dispatch_all_def by (induction qs arbitrary: s) (auto simp: unless_failed_def dispatch_queue)

lemma monitoring_outbound:
  "r_outbound (robj s b) = None \<Longrightarrow> r_outbound (robj (startPingLoopForConnection c s) b) = None"
  "r_outbound (robj s b) = None \<Longrightarrow> r_outbound (robj (startBufferedSamplerForConnection c s) b) = None"
  using getOrCreate_outbound [of s b c]
  by (auto simp: startPingLoopForConnection_def startBufferedSamplerForConnection_def on_route_health_def Let_def
      split: prod.split)

lemma ok_resume_switchPath: 
  assumes "transport_ok s" shows "transport_ok (resume_switchPath target previous s)"
proof -
  let ?s1 = "emitEvent (Path_change previous target) (emitPathChange target (s\<lparr>currentPath := target\<rparr>))"
  let ?s2 = "dispatch_all (case outboundQueue ?s1 of None \<Rightarrow> [] | Some qs \<Rightarrow> qs) (?s1\<lparr>outboundQueue := None\<rparr>)"
  let ?s3 = "unless_failed (\<lambda>s. if target = P2p then flushGlobalQueue (startBufferedSampler (startPingLoop s))
                 else on_monitor (\<lambda>h. stopBufferedSampler (stopPingLoop h)) s) ?s2"
  have "outboundQueue ?s2 = None" by (rule dispatch_all_queue) simp
  then have q: "outboundQueue ?s3 = None"
    by (simp add: unless_failed_def flushGlobalQueue_def startBufferedSampler_def startPingLoop_def dispatch_all_queue)
  have "transport_ok ?s2" using assms by (intro ok_dispatch_all ok_no_queue) simp
  then have "transport_ok ?s3" by (auto simp: unless_failed_def intro!: ok_flushGlobalQueue ok_monitoring)
  with q have "transport_ok (?s3\<lparr>switching := False\<rparr>)" by (auto simp: ok_defs)
  then show ?thesis by (simp add: resume_switchPath_def Let_def)
qed

lemma ok_resume_switchPathForConnection:
  assumes "transport_ok s" shows "transport_ok (resume_switchPathForConnection a c target previous s)"
proof -
  let ?s1 = "emitEvent (Path_change previous target) (emitPathChange target (modify_route a (\<lambda>r. r\<lparr>r_path := target\<rparr>) s))"
  let ?qs = "case r_outbound (robj ?s1 a) of None \<Rightarrow> [] | Some qs \<Rightarrow> qs"
  let ?s2 = "dispatch_all ?qs (modify_route a (\<lambda>r. r\<lparr>r_outbound := None\<rparr>) ?s1)"
  let ?s3 = "unless_failed (\<lambda>s. if target = P2p
                 then (let s' = startBufferedSamplerForConnection c (startPingLoopForConnection c s)
                       in flushAppQueue (jget (appRoutes s') c) s')
                 else on_route_health a (\<lambda>h. stopBufferedSampler (stopPingLoop h)) s) ?s2"
  have "r_outbound (robj ?s2 a) = None" by (rule dispatch_all_outbound) simp
  then have q: "r_outbound (robj ?s3 a) = None"
    by (auto simp: unless_failed_def flushAppQueue_def on_route_health_def Let_def
        intro!: dispatch_all_outbound monitoring_outbound split: option.split)
  have "transport_ok ?s2" using assms by (intro ok_dispatch_all ok_modify) (auto simp: route_ok_def intro: ok_modify)
  then have "transport_ok ?s3" by (auto simp: unless_failed_def Let_def intro!: ok_flushAppQueue ok_monitoring ok_health)
  with q have "transport_ok (modify_route a (\<lambda>r. r\<lparr>r_switching := False\<rparr>) ?s3)"
    by (intro ok_modify) (auto simp: route_ok_def)
  then show ?thesis by (simp add: resume_switchPathForConnection_def Let_def)
qed

lemma ok_downgrade [ok_intros]:
  assumes "transport_ok s"
  shows "transport_ok (handleHealthDowngrade reason s)" "transport_ok (handleHealthDowngradeForConnection c reason s)"
  using assms
  by (auto simp: handleHealthDowngrade_def handleHealthDowngradeForConnection_def Let_def intro!: ok_intros
      split: option.split)

lemma ok_timers [ok_intros]:
  assumes "transport_ok s"
  shows "transport_ok (handlePongTimeout sq s)" "transport_ok (handlePongTimeoutForConnection c sq s)"
    "transport_ok (sampleBufferedAmount n s)" "transport_ok (sampleBufferedAmountForConnection c n s)"
    "transport_ok (iceTimeout s)" "transport_ok (iceTimeoutForConnection c a s)"
  using assms
  by (auto simp: handlePongTimeout_def handlePongTimeoutForConnection_def sampleBufferedAmount_def
      sampleBufferedAmountForConnection_def iceTimeout_def iceTimeoutForConnection_def Let_def
      intro!: ok_downgrade ok_health split: option.split)

lemma ok_configure [ok_intros]:
  assumes "transport_ok s" shows "transport_ok (configureStrictP2p strict h s)"
proof -
  let ?s0 = "s\<lparr>strictP2p := strict, onForceClose := h, forceClosed := False\<rparr>"
  obtain t where t: "t = resetPathState (detachP2pPeer None ?s0)" by simp
  have "peers_ok t" using assms peers_detach_none [of ?s0]
    by (simp add: t resetPathState_def Let_def emitEvent_def act_def emitPathChange_def ok_but_def)
  moreover have "appRoutes t = []" "outboundQueue t = None" "forceClosed t = False"
    by (simp_all add: t resetPathState_def Let_def emitEvent_def act_def emitPathChange_def named_app_def
        detachP2pPeer_def registry_detach_all fold_stop routes_clear_def on_monitor_def)
  ultimately show ?thesis
    by (simp add: configureStrictP2p_def Let_def t [symmetric] ok_but_def routes_ok_def global_ok_def store_ok_def)
qed

lemma ok_configure_conn [ok_intros]:
  assumes "transport_ok s"
  shows "transport_ok (configureStrictP2pForConnection c strict h s)" "transport_ok (clearStrictP2pForConnection c s)"
  using assms ok_getOrCreate [OF assms, of c]
  by (auto simp: configureStrictP2pForConnection_def clearStrictP2pForConnection_def Let_def route_ok_def
      intro!: ok_modify split: option.split prod.split)

lemma ok_attach [ok_intros]:
  assumes "transport_ok s" shows "transport_ok (attachP2pPeer p app h uid s)"
proof -
  have "transport_ok (detachP2pPeer app s)" using assms by (rule ok_detach)
  moreover have "\<not> jhas (peersByApp (detachP2pPeer app s)) c" if "named_app app = Some c" for c
    using that by (auto simp: named_app_def jhas_def split: if_splits)
  moreover have "legacyListener (detachP2pPeer app s) = None" if "app = None \<or> app = Some []"
    using that by (intro detach_all_fields) (auto simp: named_app_def)
  ultimately show ?thesis
    unfolding attachP2pPeer_def Let_def by (intro ok_registry_attach) auto
qed

lemma ok_no_pending: "ok_but X s \<Longrightarrow> ok_but X (s\<lparr>globalPending := []\<rparr>)"
  by (auto simp: ok_defs)

lemma ok_dropGlobalQueue: "ok_but X s \<Longrightarrow> ok_but X (dropGlobalQueue r s)"
  by (simp add: dropGlobalQueue_def ok_no_pending)

lemma ok_close [ok_intros]:
  assumes "transport_ok s" shows "transport_ok (close_transport s)"
proof -
  have "transport_ok (detachP2pPeer None (s\<lparr>t_closed := True\<rparr>))" using assms by (intro ok_detach) simp
  then have "transport_ok (dropGlobalQueue Session_close (detachP2pPeer None (s\<lparr>t_closed := True\<rparr>)))"
    by (rule ok_dropGlobalQueue)
  then show ?thesis using assms by (auto simp: close_transport_def eventbus_clear_def intro!: ok_no_queue)
qed

lemma ok_peer_events [ok_intros]:
  assumes "transport_ok s"
  shows "transport_ok (on_peer_data app d s)" "transport_ok (on_peer_report app st s)"
  using assms
  by (auto simp: on_peer_data_def on_peer_report_def transport_dispatch_def
      intro!: ok_monitoring ok_downgrade ok_registry_detach split: peer_data.split peer_report.split option.split)

lemma ok_input: "transport_ok s \<Longrightarrow> transport_ok (transport_input i s)"
proof (cases i)
  case (Drained j)
  assume "transport_ok s"
  with Drained show ?thesis
    by (auto simp: transport_input_def resume_drain_def ok_resume_switchPath ok_resume_switchPathForConnection
        split: drain.split)
qed (auto simp: transport_input_def subscribe_def unsubscribe_def transport_dispatch_def on_route_def
       emitDisplayFrameDeferred_def intro!: ok_intros split: bus.split option.split)

lemma transport_step_ok: "transport_ok s \<Longrightarrow> transport_ok (transport_step i s)"
  using ok_input [of s i] by (simp add: transport_step_def Let_def)

lemma new_transport_ok: "transport_ok (new_transport strict h)"
  by (simp add: new_transport_def ok_defs store_ok_def jhas_def)

interpretation transport_life: invariant_machine transport_step transport_ok "\<lambda>_. True"
  by unfold_locales (rule transport_step_ok)

definition transport_run :: "transport_input list \<Rightarrow> transport \<Rightarrow> transport" where
  "transport_run is s = fold transport_step is s"

lemma transport_run_ok: "transport_ok s \<Longrightarrow> transport_ok (transport_run is s)"
  unfolding transport_run_def by (rule transport_life.run_inv) simp_all

end
