(* ===== verification/TransportStrict.thy ===== *)
theory TransportStrict
  imports TransportSafety
begin

text \<open>
  How the messages of one App are followed through the session transport: strict mode keeps them off
  the relay and in order for as long as the route stays strict. One lemma per operation, put together
  for runs in \<open>fifo_run\<close>.
\<close>

declare map_of_eq_Some_iff [simp del] Some_eq_map_of_iff [simp del]

section \<open>Following messages\<close>

text \<open>
  \<open>P\<close> says which envelopes are followed. \<open>peer_log\<close> and \<open>relay_log\<close> are the followed envelopes
  written to a peer and to the relay, in order.
\<close>

definition peer_log :: "(envelope \<Rightarrow> bool) \<Rightarrow> transport_effect list \<Rightarrow> envelope list" where
  "peer_log P es = concat (map (\<lambda>e. case e of To_peer p ch (Wire_envelope env) \<Rightarrow> if P env then [env] else [] | _ \<Rightarrow> []) es)"

definition relay_log :: "(envelope \<Rightarrow> bool) \<Rightarrow> transport_effect list \<Rightarrow> envelope list" where
  "relay_log P es = concat (map (\<lambda>e. case e of To_relay env \<Rightarrow> if P env then [env] else [] | _ \<Rightarrow> []) es)"

definition followed :: "(envelope \<Rightarrow> bool) \<Rightarrow> queued_send list \<Rightarrow> envelope list" where
  "followed P qs = filter P (map q_envelope qs)"

lemma logs_append [simp]:
  "peer_log P (xs @ ys) = peer_log P xs @ peer_log P ys" "peer_log P [] = []"
  "relay_log P (xs @ ys) = relay_log P xs @ relay_log P ys" "relay_log P [] = []"
  "followed P (qs @ rs) = followed P qs @ followed P rs" "followed P [] = []"
  "followed P (q # rs) = (if P (q_envelope q) then [q_envelope q] else []) @ followed P rs"
  by (simp_all add: peer_log_def relay_log_def followed_def)

lemma logs_more [simp]:
  "peer_log P (x # y # ys) = peer_log P [x] @ peer_log P (y # ys)"
  "relay_log P (x # y # ys) = relay_log P [x] @ relay_log P (y # ys)"
  by (simp_all add: peer_log_def relay_log_def)

lemma logs_one [simp]:
  "peer_log P [To_relay env] = []" "relay_log P [To_relay env] = (if P env then [env] else [])"
  "peer_log P [To_peer p ch (Wire_envelope env)] = (if P env then [env] else [])"
  "peer_log P [To_peer p ch (Wire_ping u k t)] = []" "peer_log P [To_peer p ch (Wire_pong u k t t')] = []"
  "relay_log P [To_peer p ch w] = []"
  "peer_log P [Close_peer p] = []" "relay_log P [Close_peer p] = []"
  "peer_log P [Event_to hs ev] = []" "relay_log P [Event_to hs ev] = []"
  "peer_log P [Path_to hs x] = []" "relay_log P [Path_to hs x] = []"
  "peer_log P [Message_to hs env] = []" "relay_log P [Message_to hs env] = []"
  "peer_log P [Downgrade_handler h r] = []" "relay_log P [Downgrade_handler h r] = []"
  "peer_log P [Force_close_handler h r] = []" "relay_log P [Force_close_handler h r] = []"
  "peer_log P [Failure] = []" "relay_log P [Failure] = []"
  by (simp_all add: peer_log_def relay_log_def)

text \<open>
  A transport used per App only, as the Agent uses it: the global path is never switched and never
  strict. \<open>dead\<close>: something has thrown.
\<close>

definition app_only :: "transport \<Rightarrow> bool" where
  "app_only s \<longleftrightarrow> \<not> strictP2p s \<and> currentPath s = Relay \<and> outboundQueue s = None"

definition dead :: "transport \<Rightarrow> bool" where
  "dead s \<longleftrightarrow> failed s \<or> Failure \<in> set (effects s)"

text \<open>
  Every followed message accepted (\<open>acc\<close>) has been written to a peer, is in flight (\<open>fl\<close>) or is
  kept back, in this order, and none has gone to the relay. \<open>m\<close> is false only while a route that
  has just been switched to its peer is being flushed.
\<close>

definition fifo_route :: "bool \<Rightarrow> (envelope \<Rightarrow> bool) \<Rightarrow> nat \<Rightarrow> envelope list \<Rightarrow> envelope list \<Rightarrow> transport \<Rightarrow> bool" where
  "fifo_route m P a fl acc s \<longleftrightarrow>
     peer_log P (effects s) @ fl @ followed P (r_pending (robj s a)) = acc
     \<and> relay_log P (effects s) = []
     \<and> (r_outbound (robj s a) \<noteq> None \<longrightarrow> r_path (robj s a) = Relay)
     \<and> (m \<and> r_path (robj s a) = P2p \<longrightarrow> followed P (r_pending (robj s a)) = [])
     \<and> (\<forall>b out. r_outbound (robj s b) = Some out \<longrightarrow> followed P out = [])
     \<and> (\<forall>b. b \<noteq> a \<longrightarrow> followed P (r_pending (robj s b)) = [])"

definition fifo :: "bool \<Rightarrow> (envelope \<Rightarrow> bool) \<Rightarrow> string \<Rightarrow> envelope list \<Rightarrow> envelope list \<Rightarrow> transport \<Rightarrow> bool" where
  "fifo m P c fl acc s \<longleftrightarrow> transport_ok s \<and> app_only s
     \<and> (\<forall>a. jget (appRoutes s) c = Some a \<and> r_strict (robj s a) \<and> \<not> dead s \<longrightarrow> fifo_route m P a fl acc s)"

lemmas fifo_defs = fifo_def fifo_route_def app_only_def dead_def

lemma fifo_ok: "fifo m P c fl acc s \<Longrightarrow> transport_ok s"
  by (simp add: fifo_def)

text \<open>Effects that write no followed message.\<close>

lemma fifo_act:
  assumes "peer_log P [e] = []" and "relay_log P [e] = []"
  shows "fifo m P c fl acc s \<Longrightarrow> fifo m P c fl acc (act e s)"
  using assms by (auto simp: fifo_defs act_def)

lemma fifo_emit:
  assumes "fifo m P c fl acc s"
  shows "fifo m P c fl acc (emitEvent ev s)" "fifo m P c fl acc (emitPathChange p s)"
    "fifo m P c fl acc (callDowngradeHandler h r s)" "fifo m P c fl acc (callForceCloseHandler h r s)"
  using assms
  by (auto simp: emitEvent_def emitPathChange_def callDowngradeHandler_def callForceCloseHandler_def
      intro!: fifo_act split: option.split)

lemma fifo_monitor: "fifo m P c fl acc s \<Longrightarrow> fifo m P c fl acc (on_monitor f s)"
  by (auto simp: fifo_defs on_monitor_def)

lemma fifo_peer_try: "peer_log P [To_peer p ch w] = [] \<Longrightarrow> fifo m P c fl acc s \<Longrightarrow> fifo m P c fl acc (peer_try_send p w ch s)"
  by (simp add: peer_try_send_def fifo_act)

text \<open>An update of a route that keeps what is followed.\<close>

lemma fifo_modify:
  assumes s: "fifo m P c fl acc s" and "transport_ok (modify_route b f s)"
    and strict: "r_strict (f (robj s b)) \<Longrightarrow> r_strict (robj s b) \<and> r_pending (f (robj s b)) = r_pending (robj s b)
        \<and> (m \<and> r_path (f (robj s b)) = P2p \<longrightarrow> r_path (robj s b) = P2p)
        \<and> (r_outbound (f (robj s b)) \<noteq> None \<longrightarrow> r_path (f (robj s b)) = Relay)
      \<or> jget (appRoutes s) c \<noteq> Some b"
    and out: "\<And>out. r_outbound (f (robj s b)) = Some out \<Longrightarrow> r_outbound (robj s b) = Some out \<or> followed P out = []"
    and pending: "followed P (r_pending (robj s b)) = [] \<Longrightarrow> followed P (r_pending (f (robj s b))) = []"
  shows "fifo m P c fl acc (modify_route b f s)"
proof -
  have "fifo_route m P a fl acc (modify_route b f s)"
    if a: "jget (appRoutes s) c = Some a" "r_strict (robj (modify_route b f s) a)" "\<not> dead (modify_route b f s)" for a
  proof (cases "a = b")
    case True
    with strict a have "r_strict (robj s b)" "r_pending (f (robj s b)) = r_pending (robj s b)"
      "r_outbound (f (robj s b)) \<noteq> None \<longrightarrow> r_path (f (robj s b)) = Relay"
      "m \<and> r_path (f (robj s b)) = P2p \<longrightarrow> r_path (robj s b) = P2p" by auto
    moreover from this True a s have "fifo_route m P a fl acc s" by (auto simp: fifo_def dead_def)
    ultimately show ?thesis using True out by (force simp: fifo_route_def)
  next
    case False
    with a s have "fifo_route m P a fl acc s" by (auto simp: fifo_def dead_def)
    with False out pending show ?thesis by (force simp: fifo_route_def)
  qed
  with assms(1,2) show ?thesis by (simp add: fifo_def app_only_def)
qed

lemma fifo_health: "fifo m P c fl acc s \<Longrightarrow> fifo m P c fl acc (on_route_health b f s)"
proof -
  assume s: "fifo m P c fl acc s"
  have o: "(r_outbound (robj s b) \<noteq> None \<longrightarrow> r_path (robj s b) = Relay)"
    if "jget (appRoutes s) c = Some b" "r_strict (robj s b)" "\<not> dead s"
    using s that by (auto simp: fifo_def fifo_route_def)
  show ?thesis
  proof (cases "dead s")
    case True
    with s ok_health [OF fifo_ok [OF s]] show ?thesis
      by (simp add: fifo_def dead_def on_route_health_def app_only_def)
  next
    case False
    with s o show ?thesis unfolding on_route_health_def
      by (intro fifo_modify) (auto simp: ok_health [unfolded on_route_health_def] fifo_ok)
  qed
qed

text \<open>A step after which the App has no strict route any more ends the promise.\<close>

lemma fifo_lifted:
  assumes "transport_ok s" and "app_only s" and "\<And>a. jget (appRoutes s) c = Some a \<Longrightarrow> \<not> r_strict (robj s a)"
  shows "fifo m P c fl acc s"
  using assms by (auto simp: fifo_def)

lemma fifo_getOrCreate:
  assumes "fifo m P c fl acc s" shows "fifo m P c fl acc (snd (route_getOrCreate d s))"
proof (cases "jget (appRoutes s) d")
  case None
  have ok: "transport_ok (snd (route_getOrCreate d s))" using assms by (intro ok_getOrCreate) (simp add: fifo_def)
  have "a < next_route s" if "jget (appRoutes s) c = Some a" for a using ok_less [OF fifo_ok [OF assms] that] .
  with ok None assms show ?thesis
    by (auto simp: fifo_def route_getOrCreate_def app_only_def dead_def fifo_route_def createAppRouteState_def followed_def)
qed (use assms in \<open>simp add: route_getOrCreate_def\<close>)

lemma fifo_registry_detach:
  assumes "fifo m P c fl acc s" shows "fifo m P c fl acc (snd (registry_detach app s))"
proof -
  have ok: "transport_ok (snd (registry_detach app s))" using assms by (intro ok_registry_detach) (simp add: fifo_def)
  have logs: "peer_log P (map (\<lambda>(c, e). Close_peer (pr_peer e)) ps) = []"
    "relay_log P (map (\<lambda>(c, e). Close_peer (pr_peer e)) ps) = []"
    "Failure \<notin> set (map (\<lambda>(c, e). Close_peer (pr_peer e)) ps)" for ps
    by (auto simp: peer_log_def relay_log_def)
  show ?thesis
  proof (cases "named_app app")
    case None
    then have "registry_detach app s = registry_detach None s" by (simp add: registry_detach_def named_app_def)
    with ok assms logs [of "peersByApp s"] show ?thesis
      by (auto simp: fifo_defs registry_detach_all Let_def)
  next
    case (Some d)
    then have "app = Some d" "d \<noteq> []" by (auto simp: named_app_def split: if_splits)
    with ok assms show ?thesis by (auto simp: fifo_defs registry_detach_conn split: option.split_asm)
  qed
qed

lemma fifo_unread [simp]:
  "fifo m P c fl acc (s\<lparr>downgradeHandler := x1, t_upgradeId := x2\<rparr>) = fifo m P c fl acc s"
  "fifo m P c fl acc (s\<lparr>suspended := x3\<rparr>) = fifo m P c fl acc s"
  by (auto simp: fifo_defs)

lemma fifo_detach:
  assumes "fifo m P c fl acc s" shows "fifo m P c fl acc (detachP2pPeer app s)"
proof (cases "named_app app")
  case None
  show ?thesis
    by (rule fifo_lifted) (use None assms in \<open>simp_all add: fifo_def ok_detach app_only_def\<close>)
next
  case (Some d)
  then have app: "app = Some d" "d \<noteq> []" by (auto simp: named_app_def split: if_splits)
  have "fifo m P c fl acc (case jget (appRoutes s) d of None \<Rightarrow> s | Some a \<Rightarrow> modify_route a detached_route s)"
  proof (cases "jget (appRoutes s) d")
    case (Some a)
    have "fifo m P c fl acc (modify_route a detached_route s)"
      using assms by (intro fifo_modify) (auto simp: detached_route_def fifo_ok intro!: ok_modify dest: ok_route
          simp: route_ok_def)
    with Some show ?thesis by simp
  qed (use assms in simp)
  then show ?thesis using app by (simp add: detach_conn_eq Let_def fifo_registry_detach)
qed

lemma app_only_more [simp]:
  "app_only (dropAppQueue a r s) = app_only s" "app_only (emitEvent ev s) = app_only s"
  "app_only (callDowngradeHandler h x s) = app_only s" "app_only (callForceCloseHandler h x s) = app_only s"
  "app_only (relay_path_send env s) = app_only s"
  "app_only (modify_route a f s) = app_only s" "app_only (snd (route_getOrCreate d s)) = app_only s"
  "app_only (detachP2pPeer app s) = app_only s"
  by (cases "named_app app";
      auto simp: app_only_def dropAppQueue_def emitEvent_def act_def relay_path_send_def callDowngradeHandler_def callForceCloseHandler_def
        route_getOrCreate_def named_app_def split: option.split if_splits)+

lemma routes_more [simp]:
  "appRoutes (dropAppQueue a r s) = appRoutes s" "appRoutes (emitEvent ev s) = appRoutes s"
  "appRoutes (callDowngradeHandler h x s) = appRoutes s" "appRoutes (callForceCloseHandler h x s) = appRoutes s"
  "peersByApp (emitEvent ev s) = peersByApp s" "appRoutes (relay_path_send env s) = appRoutes s"
  by (simp_all add: dropAppQueue_def emitEvent_def act_def relay_path_send_def callDowngradeHandler_def callForceCloseHandler_def
      split: option.split)

lemma drop_strict [simp]: "r_strict (robj (dropAppQueue a r s) b) = r_strict (robj s b)"
  by (simp add: dropAppQueue_def)

text \<open>A forced close lifts strict mode.\<close>

lemma forced_not_strict:
  assumes "jget (appRoutes (forceCloseConnection c reason s)) c = Some a" and "transport_ok s"
  shows "\<not> r_strict (robj (forceCloseConnection c reason s) a)"
proof (cases "jget (appRoutes s) c")
  case None
  with assms show ?thesis by (simp add: forceCloseConnection_def)
next
  case (Some b)
  show ?thesis
  proof (cases "r_strict (robj s b) \<and> \<not> r_forceClosed (robj s b)")
    case False
    with ok_route [OF assms(2) Some] have "\<not> r_strict (robj s b)" by (auto simp: route_ok_def)
    with Some assms(1) show ?thesis by (simp add: forceCloseConnection_def)
  next
    case True
    let ?s2 = "detachP2pPeer (Some c) (emitEvent (Force_closed reason) (modify_route b (\<lambda>r. r\<lparr>r_forceClosed := True\<rparr>) s))"
    have "a = fst (route_getOrCreate c ?s2)"
      using assms(1) True Some getOrCreate_get [of c ?s2]
      by (simp add: forceCloseConnection_def Let_def split_beta)
    with True Some show ?thesis by (simp add: forceCloseConnection_def Let_def split_beta)
  qed
qed

lemma fifo_forceCloseConnection:
  assumes s: "fifo m P c fl acc s" shows "fifo m P c fl acc (forceCloseConnection d reason s)"
proof (cases "\<exists>b. jget (appRoutes s) d = Some b \<and> r_strict (robj s b) \<and> \<not> r_forceClosed (robj s b)")
  case True
  then obtain b where b: "jget (appRoutes s) d = Some b" "r_strict (robj s b)" "\<not> r_forceClosed (robj s b)" by blast
  have ok: "transport_ok (forceCloseConnection d reason s)" using s by (intro ok_forceCloseConnection) (rule fifo_ok)
  have app: "app_only (forceCloseConnection d reason s)"
    using b s by (simp add: forceCloseConnection_def Let_def split_beta fifo_def)
  show ?thesis
  proof (cases "d = c \<or> d = []")
    case True
    show ?thesis
    proof (rule fifo_lifted [OF ok app])
      fix a assume a: "jget (appRoutes (forceCloseConnection d reason s)) c = Some a"
      have "d = c"
        using True a b by (auto simp: forceCloseConnection_def Let_def split_beta route_getOrCreate_def named_app_def
            split: if_splits)
      with a show "\<not> r_strict (robj (forceCloseConnection d reason s) a)" using forced_not_strict fifo_ok [OF s] by blast
    qed
  next
    case d: False
    have other: "jget (appRoutes s) c \<noteq> Some b" using ok_one_app [OF fifo_ok [OF s] b(1)] d by blast
    let ?s1 = "modify_route b (\<lambda>r. r\<lparr>r_forceClosed := True\<rparr>) s"
    have "fifo_route m P a fl acc (forceCloseConnection d reason s)"
      if a: "jget (appRoutes (forceCloseConnection d reason s)) c = Some a"
        "r_strict (robj (forceCloseConnection d reason s) a)" "\<not> dead (forceCloseConnection d reason s)" for a
    proof -
      have "jget (appRoutes s) c = Some a" "a \<noteq> b" using a(1) b d other by (auto simp: forceCloseConnection_eq)
      moreover from this a(2) have "r_strict (robj s a)"
        using b d by (simp add: forceCloseConnection_eq)
      moreover have "\<not> dead s" using a(3) b d
        by (auto simp: forceCloseConnection_eq dead_def dropAppQueue_def emitEvent_def act_def
            callDowngradeHandler_def callForceCloseHandler_def split: option.splits if_splits)
      ultimately have "fifo_route m P a fl acc s" using s by (simp add: fifo_def)
      with \<open>a \<noteq> b\<close> b d show ?thesis
        by (simp add: forceCloseConnection_eq fifo_route_def dropAppQueue_def emitEvent_def act_def
            callDowngradeHandler_def callForceCloseHandler_def detached_route_def split: option.split)
    qed
    with ok app show ?thesis by (simp add: fifo_def)
  qed
qed (use s in \<open>auto simp: forceCloseConnection_def split: option.split\<close>)

subsection \<open>Sending\<close>

text \<open>The envelopes followed are business messages of the App \<open>c\<close>.\<close>

definition business :: "string \<Rightarrow> envelope \<Rightarrow> bool" where
  "business c env \<longleftrightarrow> named_app (getEnvelopeAppConnectionId env) = Some c \<and> \<not> is_strict_transport_control_message (e_type env)"

definition follows_business :: "(envelope \<Rightarrow> bool) \<Rightarrow> string \<Rightarrow> bool" where
  "follows_business P c \<longleftrightarrow> (\<forall>env. P env \<longrightarrow> business c env)"

lemma fifo_dead:
  assumes "transport_ok s" and "app_only s" and "dead s" shows "fifo m P c fl acc s"
  using assms by (simp add: fifo_def)

lemma fifo_failed: "fifo m P c fl acc s \<Longrightarrow> fifo m P c fl' acc' (s\<lparr>failed := True\<rparr>)"
  by (simp add: fifo_def app_only_def dead_def)

lemma fifo_write:
  assumes "P env" and "fifo m P c (env # fl) acc s"
  shows "fifo m P c fl acc (peer_send p (Wire_envelope env) ch s)"
  using assms by (auto simp: peer_send_def fifo_defs act_def)

lemma fifo_other_write:
  assumes "\<not> P env" and "fifo m P c fl acc s"
  shows "fifo m P c fl acc (peer_send p (Wire_envelope env) ch s)" "fifo m P c fl acc (relay_path_send env s)"
  using assms by (auto simp: peer_send_def relay_path_send_def intro: fifo_act fifo_failed)

text \<open>A dispatched message of the App leaves through its peer, or strict mode is over.\<close>

lemma fifo_dispatch:
  assumes P: "follows_business P c" and s: "fifo m P c ((if P (q_envelope q) then [q_envelope q] else []) @ fl) acc s"
  shows "fifo m P c fl acc (dispatchSend q s)"
proof (cases "P (q_envelope q)")
  case False
  with s have "fifo m P c fl acc s" by simp
  with False show ?thesis
    by (auto simp: dispatchSend_def Let_def intro!: fifo_other_write fifo_forceCloseConnection fifo_emit
        split: option.split transport_path.split)
       (auto simp: fifo_def app_only_def)
next
  case True
  with P have c: "named_app (getEnvelopeAppConnectionId (q_envelope q)) = Some c"
    by (simp add: follows_business_def business_def)
  from True s have s: "fifo m P c (q_envelope q # fl) acc s" by simp
  show ?thesis
  proof (cases "jget (appRoutes s) c")
    case None
    with s have "fifo m P c fl acc (relay_path_send (q_envelope q) s)"
      by (intro fifo_lifted) (auto simp: fifo_def)
    with None c show ?thesis by (simp add: dispatchSend_def Let_def route_get_def split: option.split)
  next
    case (Some a)
    then consider (peer) e where "jget (peersByApp s) c = Some e" "r_path (robj s a) = P2p"
      | (closed) "r_strict (robj s a)" "\<not> (jhas (peersByApp s) c \<and> r_path (robj s a) = P2p)"
      | (relay) "\<not> r_strict (robj s a)" "\<not> (jhas (peersByApp s) c \<and> r_path (robj s a) = P2p)"
      by (cases "r_strict (robj s a)"; cases "jget (peersByApp s) c") (auto simp: jhas_def)
    then show ?thesis
    proof cases
      case peer
      then show ?thesis using Some c fifo_write [of P, OF True s] by (simp add: dispatchSend_def Let_def route_get_def)
    next
      case closed
      let ?t = "forceCloseConnection c ''peer_missing'' (emitEvent (Strict_send_blocked (e_type (q_envelope q))) s)"
      have t: "transport_ok ?t" "app_only ?t"
        using fifo_forceCloseConnection [OF fifo_emit(1) [OF s], of c "''peer_missing''"] by (simp_all add: fifo_def)
      have "fifo m P c fl acc ?t"
        by (rule fifo_lifted [OF t]) (use forced_not_strict fifo_ok [OF fifo_emit(1) [OF s]] in blast)
      with closed Some c show ?thesis by (auto simp: dispatchSend_def Let_def route_get_def jhas_def split: option.split)
    next
      case relay
      then have "fifo m P c fl acc (relay_path_send (q_envelope q) s)"
        using s Some by (intro fifo_lifted) (auto simp: fifo_def)
      with relay Some c show ?thesis by (auto simp: dispatchSend_def Let_def route_get_def jhas_def split: option.split)
    qed
  qed
qed

lemma fifo_dispatch_all:
  assumes P: "follows_business P c" and "fifo m P c (followed P qs @ fl) acc s"
  shows "fifo m P c fl acc (dispatch_all qs s)"
  using assms(2)
proof (induction qs arbitrary: s)
  case (Cons q qs)
  show ?case
  proof (cases "failed s")
    case True
    have "dispatch_all qs s = s" for qs
      using True unfolding dispatch_all_def by (induction qs) (simp_all add: unless_failed_def)
    with True Cons.prems show ?thesis by (auto simp: fifo_def dead_def)
  next
    case False
    have "fifo m P c (followed P qs @ fl) acc (dispatchSend q s)"
      using Cons.prems by (intro fifo_dispatch [OF P]) simp
    from Cons.IH [OF this] False show ?thesis by (simp add: dispatch_all_def unless_failed_def)
  qed
qed (simp add: dispatch_all_def)

subsection \<open>Queues\<close>

lemma fifo_change_flight:
  assumes "fifo m P c fl acc s"
    and "\<And>a. jget (appRoutes s) c = Some a \<Longrightarrow> r_strict (robj s a) \<Longrightarrow> \<not> dead s \<Longrightarrow> fl' = fl"
  shows "fifo m P c fl' acc s"
  using assms by (auto simp: fifo_def)

lemma fifo_take_pending:
  assumes s: "fifo m P c [] acc s"
  shows "fifo m P c (followed P (r_pending (robj s b)) @ []) acc (modify_route b (\<lambda>r. r\<lparr>r_pending := []\<rparr>) s)"
proof -
  have "transport_ok (modify_route b (\<lambda>r. r\<lparr>r_pending := []\<rparr>) s)"
    using fifo_ok [OF s] by (intro ok_modify) (auto simp: route_ok_def)
  with s show ?thesis by (auto simp: fifo_def fifo_route_def dead_def)
qed

lemma fifo_flushAppQueue:
  assumes P: "follows_business P c" and s: "fifo m P c [] acc s"
  shows "fifo m P c [] acc (flushAppQueue b s)"
  using fifo_dispatch_all [OF P fifo_take_pending [OF s]] s by (simp add: flushAppQueue_def split: option.split)

lemma fifo_monitoring:
  assumes "fifo m P c fl acc s"
  shows "fifo m P c fl acc (startPingLoopForConnection d s)" "fifo m P c fl acc (startBufferedSamplerForConnection d s)"
    "fifo m P c fl acc (armIceDisconnectedTimerForConnection d s)"
    "fifo m P c fl acc (clearIceDisconnectedTimerForConnection d s)"
  using assms fifo_getOrCreate [OF assms, of d]
  by (auto simp: startPingLoopForConnection_def startBufferedSamplerForConnection_def Let_def
      armIceDisconnectedTimerForConnection_def clearIceDisconnectedTimerForConnection_def
      intro!: fifo_health split: prod.split option.split)

text \<open>What has been kept back for the App stays empty while messages are dispatched.\<close>

lemma fold_stop_pending:
  "r_pending (fold (\<lambda>(c, a) g. g(a := (g a)\<lparr>r_health := f (r_health (g a))\<rparr>)) m g b) = r_pending (g b)"
  by (induction m arbitrary: g) (auto split: if_splits)

lemma detach_pending [simp]: "r_pending (robj (detachP2pPeer app s) b) = r_pending (robj s b)"
proof (cases "named_app app")
  case None
  then show ?thesis
    by (simp add: detachP2pPeer_def fold_stop routes_clear_def fold_stop_pending Let_def)
       (simp add: registry_detach_all Let_def)
qed (auto simp: named_app_def detached_route_def split: if_splits option.split)

lemma getOrCreate_pending:
  "r_pending (robj s b) = [] \<Longrightarrow> r_pending (robj (snd (route_getOrCreate c s)) b) = []"
  by (auto simp: route_getOrCreate_def createAppRouteState_def split: option.split)

lemma dispatch_pending: "r_pending (robj s b) = [] \<Longrightarrow> r_pending (robj (dispatchSend q s) b) = []"
proof -
  assume b: "r_pending (robj s b) = []"
  have drop: "r_pending (robj s b) = [] \<Longrightarrow> r_pending (robj (dropAppQueue a r s) b) = []" for a r s
    by (simp add: dropAppQueue_def)
  have "r_pending (robj s b) = [] \<Longrightarrow> r_pending (robj (forceCloseConnection c reason s) b) = []" for c reason s
    by (auto simp: forceCloseConnection_def Let_def split_beta intro!: drop getOrCreate_pending split: option.split)
  moreover have "r_pending (robj s b) = [] \<Longrightarrow> r_pending (robj (forceClose reason s) b) = []" for reason s
    by (simp add: forceClose_def Let_def drop_outbound)
  ultimately show ?thesis using b
    by (auto simp: dispatchSend_def Let_def split: option.split transport_path.split)
qed

lemma dispatch_all_pending: "r_pending (robj s b) = [] \<Longrightarrow> r_pending (robj (dispatch_all qs s) b) = []"
  unfolding dispatch_all_def by (induction qs arbitrary: s) (auto simp: unless_failed_def dispatch_pending)

lemma flushed_pending: "jget (appRoutes s) c = Some b \<Longrightarrow> r_pending (robj (flushAppQueue (jget (appRoutes s) c) s) b) = []"
  by (simp add: flushAppQueue_def dispatch_all_pending)

lemma fifo_settle:
  assumes "fifo False P c fl acc s"
    and "\<And>a. jget (appRoutes s) c = Some a \<Longrightarrow> r_strict (robj s a) \<Longrightarrow> \<not> dead s \<Longrightarrow> r_pending (robj s a) = []"
  shows "fifo m P c fl acc s"
  using assms by (auto simp: fifo_def fifo_route_def)

lemma fifo_weaken: "fifo m P c fl acc s \<Longrightarrow> fifo False P c fl acc s"
  by (auto simp: fifo_def fifo_route_def)

text \<open>Dispatching never makes a route strict.\<close>

definition strict_at :: "string \<Rightarrow> nat \<Rightarrow> transport \<Rightarrow> bool" where
  "strict_at c a s \<longleftrightarrow> jget (appRoutes s) c = Some a \<and> r_strict (robj s a)"

lemma strict_detach: "strict_at c a (detachP2pPeer app s) \<Longrightarrow> strict_at c a s"
  by (cases "named_app app")
     (auto simp: strict_at_def named_app_def detached_route_def split: if_splits option.splits)

lemma strict_getOrCreate: "strict_at c a (snd (route_getOrCreate d s)) \<Longrightarrow> strict_at c a s"
  by (auto simp: strict_at_def route_getOrCreate_def createAppRouteState_def split: option.splits if_splits)

lemma strict_forceClose: "strict_at c a (forceClose reason s) \<Longrightarrow> strict_at c a s"
  by (auto simp: strict_at_def forceClose_def Let_def dropGlobalQueue_def resetPathState_def emitEvent_def act_def
      emitPathChange_def callDowngradeHandler_def callForceCloseHandler_def named_app_def split: option.splits if_splits)

lemma strict_forceCloseConnection: "strict_at c a (forceCloseConnection d reason s) \<Longrightarrow> strict_at c a s"
proof -
  assume a: "strict_at c a (forceCloseConnection d reason s)"
  have more: "strict_at c a (callForceCloseHandler h x s) = strict_at c a s"
    "strict_at c a (callDowngradeHandler h x s) = strict_at c a s" "strict_at c a (emitEvent ev s) = strict_at c a s"
    "strict_at c a (dropAppQueue b r s) = strict_at c a s" for h x s ev b r
    by (simp_all add: strict_at_def)
  have sub: "strict_at c a (modify_route b f s) \<Longrightarrow> (\<And>r. r_strict (f r) \<Longrightarrow> r_strict r) \<Longrightarrow> strict_at c a s" for b f s
    by (auto simp: strict_at_def split: if_splits)
  show ?thesis
  proof (cases "jget (appRoutes s) d")
    case (Some b)
    show ?thesis
    proof (cases "r_strict (robj s b) \<and> \<not> r_forceClosed (robj s b)")
      case True
      let ?s1 = "modify_route b (\<lambda>r. r\<lparr>r_forceClosed := True\<rparr>) s"
      let ?s2 = "detachP2pPeer (Some d) (emitEvent (Force_closed reason) ?s1)"
      have "strict_at c a (snd (route_getOrCreate d ?s2))"
        using a Some True by (auto simp: forceCloseConnection_def Let_def split_beta more dest: sub)
      then have "strict_at c a ?s1" using strict_getOrCreate strict_detach by (metis more(3))
      then show ?thesis by (rule sub) simp
    qed (use a Some in \<open>auto simp: forceCloseConnection_def\<close>)
  qed (use a in \<open>simp add: forceCloseConnection_def\<close>)
qed

lemma dispatchSend_cases:
  obtains (peer) p ch where "dispatchSend q s = peer_send p (Wire_envelope (q_envelope q)) ch s"
  | (relay) "dispatchSend q s = relay_path_send (q_envelope q) s"
  | (app) c where "dispatchSend q s =
      forceCloseConnection c ''peer_missing'' (emitEvent (Strict_send_blocked (e_type (q_envelope q))) s)"
  | (all) "dispatchSend q s = forceClose ''peer_missing'' (emitEvent (Strict_send_blocked (e_type (q_envelope q))) s)"
proof -
  let ?b = "emitEvent (Strict_send_blocked (e_type (q_envelope q))) s"
  have "(\<exists>p ch. dispatchSend q s = peer_send p (Wire_envelope (q_envelope q)) ch s)
      \<or> dispatchSend q s = relay_path_send (q_envelope q) s
      \<or> (\<exists>c. dispatchSend q s = forceCloseConnection c ''peer_missing'' ?b)
      \<or> dispatchSend q s = forceClose ''peer_missing'' ?b"
  proof (cases "named_app (getEnvelopeAppConnectionId (q_envelope q))")
    case None
    then show ?thesis
      by (cases "currentPath s"; cases "legacyPeer s"; cases "strictP2p s") (simp_all add: dispatchSend_def Let_def, blast+)
  next
    case (Some c)
    show ?thesis
    proof (cases "route_get c s")
      case (Some r)
      then show ?thesis using \<open>named_app _ = Some c\<close>
        by (cases "jget (peersByApp s) c"; cases "r_path r"; cases "r_strict r")
           (simp_all add: dispatchSend_def Let_def, blast+)
    qed (use Some in \<open>simp add: dispatchSend_def Let_def split: option.split\<close>)
  qed
  then show ?thesis using that by blast
qed

lemma strict_dispatch: "strict_at c a (dispatchSend q s) \<Longrightarrow> strict_at c a s"
proof -
  have more: "strict_at c a (emitEvent ev s) = strict_at c a s" "strict_at c a (relay_path_send env s) = strict_at c a s"
    "strict_at c a (peer_send p w ch s) = strict_at c a s" for ev s env p w ch
    by (simp_all add: strict_at_def peer_send_def act_def)
  assume a: "strict_at c a (dispatchSend q s)"
  show ?thesis
  proof (cases rule: dispatchSend_cases [of q s])
    case (app d)
    with a show ?thesis by (metis more(1) strict_forceCloseConnection)
  next
    case all
    with a show ?thesis by (metis more(1) strict_forceClose)
  qed (use a in \<open>simp_all add: more\<close>)
qed

lemma strict_dispatch_all: "strict_at c a (dispatch_all qs s) \<Longrightarrow> strict_at c a s"
  unfolding dispatch_all_def
  by (induction qs arbitrary: s) (auto simp: unless_failed_def dest: strict_dispatch split: if_splits)

lemma fifo_flush_settles:
  assumes P: "follows_business P c" and s: "fifo False P c [] acc s"
  shows "fifo m P c [] acc (flushAppQueue (jget (appRoutes s) c) s)"
proof (rule fifo_settle)
  show "fifo False P c [] acc (flushAppQueue (jget (appRoutes s) c) s)" using P s by (rule fifo_flushAppQueue)
  fix a assume "jget (appRoutes (flushAppQueue (jget (appRoutes s) c) s)) c = Some a"
    "r_strict (robj (flushAppQueue (jget (appRoutes s) c) s) a)"
  then have "strict_at c a (flushAppQueue (jget (appRoutes s) c) s)" by (simp add: strict_at_def)
  then have "jget (appRoutes s) c = Some a"
    by (auto simp: flushAppQueue_def strict_at_def dest!: strict_dispatch_all [unfolded strict_at_def]
        split: option.splits)
  then show "r_pending (robj (flushAppQueue (jget (appRoutes s) c) s) a) = []" by (rule flushed_pending)
qed

subsection \<open>Switching\<close>

lemma fifo_switchPathForConnection:
  assumes s: "fifo True P c [] acc s" shows "fifo True P c [] acc (switchPathForConnection d target s)"
proof -
  obtain a s1 where g: "route_getOrCreate d s = (a, s1)" by fastforce
  then have s1: "fifo True P c [] acc s1" "transport_ok s1"
    using fifo_getOrCreate [OF s, of d] by (auto simp: fifo_def)
  have "fifo True P c [] acc (modify_route a (\<lambda>r. r\<lparr>r_switching := True, r_outbound := Some []\<rparr>) s1)"
    if "r_path (robj s1 a) \<noteq> target" "\<not> (r_strict (robj s1 a) \<and> target = Relay)"
  proof -
    have "r_strict (robj s1 a) \<Longrightarrow> r_path (robj s1 a) = Relay"
      using that by (cases "r_path (robj s1 a)"; cases target) auto
    with s1 show ?thesis by (intro fifo_modify) (auto simp: route_ok_def intro!: ok_modify)
  qed
  with s1 show ?thesis by (auto simp: switchPathForConnection_def g Let_def)
qed

lemma modify_emit:
  "modify_route a f (emitEvent ev s) = emitEvent ev (modify_route a f s)"
  "modify_route a f (emitPathChange p s) = emitPathChange p (modify_route a f s)"
  "modify_route a f (modify_route a g s) = modify_route a (\<lambda>r. f (g r)) s"
  by (simp_all add: modify_route_def emitEvent_def emitPathChange_def act_def)

lemma fifo_resume_conn:
  assumes P: "follows_business P c" and s: "fifo True P c [] acc s"
    and own: "jget (appRoutes s) c = Some a \<Longrightarrow> d = c"
  shows "fifo True P c [] acc (resume_switchPathForConnection a d target previous s)"
proof -
  let ?m = "\<not> (jget (appRoutes s) c = Some a \<and> target = P2p)"
  let ?qs = "case r_outbound (robj s a) of None \<Rightarrow> [] | Some qs \<Rightarrow> qs"
  let ?s0 = "modify_route a (\<lambda>r. r\<lparr>r_path := target, r_outbound := None\<rparr>) s"
  let ?s1 = "emitEvent (Path_change previous target) (emitPathChange target ?s0)"
  let ?s2 = "dispatch_all ?qs ?s1"
  have ok0: "transport_ok ?s0" using fifo_ok [OF s] by (intro ok_modify) (auto simp: route_ok_def)
  have m: "fifo ?m P c [] acc s" using s by (auto simp: fifo_def fifo_route_def)
  have "fifo ?m P c [] acc ?s0"
    using m ok0 by (intro fifo_modify) auto
  then have s1: "fifo ?m P c [] acc ?s1" by (intro fifo_emit)
  have "followed P ?qs = []" if "jget (appRoutes s) c = Some b" "r_strict (robj s b)" "\<not> dead s" for b
    using s that by (auto simp: fifo_def fifo_route_def split: option.split)
  then have "fifo ?m P c (followed P ?qs @ []) acc ?s1"
    using s1 by (intro fifo_change_flight [OF s1])
      (auto simp: dead_def emitEvent_def emitPathChange_def act_def split: if_splits)
  then have s2: "fifo ?m P c [] acc ?s2" by (rule fifo_dispatch_all [OF P])
  let ?go = "\<lambda>s. if target = P2p
                 then (let s' = startBufferedSamplerForConnection d (startPingLoopForConnection d s)
                       in flushAppQueue (jget (appRoutes s') d) s')
                 else on_route_health a (\<lambda>h. stopBufferedSampler (stopPingLoop h)) s"
  have s3: "fifo True P c [] acc (unless_failed ?go ?s2)"
  proof (cases "failed ?s2")
    case True
    with s2 show ?thesis by (auto simp: unless_failed_def fifo_def dead_def)
  next
    case False
    show ?thesis
    proof (cases ?m)
      case True
      then show ?thesis using s2 False
        by (auto simp: unless_failed_def Let_def intro!: fifo_flushAppQueue [OF P] fifo_monitoring fifo_health)
    next
      case own': False
      then have "target = P2p" "d = c" using own by auto
      moreover have "fifo False P c [] acc (startBufferedSamplerForConnection c (startPingLoopForConnection c ?s2))"
        using fifo_weaken [OF s2] by (intro fifo_monitoring)
      ultimately show ?thesis using False fifo_flush_settles [OF P] by (simp add: unless_failed_def Let_def)
    qed
  qed
  have "r_outbound (robj (unless_failed ?go ?s2) a) = None"
    by (auto simp: unless_failed_def flushAppQueue_def on_route_health_def Let_def
        intro!: dispatch_all_outbound monitoring_outbound split: option.split)
  then have "fifo True P c [] acc (modify_route a (\<lambda>r. r\<lparr>r_switching := False\<rparr>) (unless_failed ?go ?s2))"
    using s3 by (intro fifo_modify) (auto simp: fifo_ok route_ok_def intro!: ok_modify)
  moreover have "resume_switchPathForConnection a d target previous s =
      modify_route a (\<lambda>r. r\<lparr>r_switching := False\<rparr>) (unless_failed ?go ?s2)"
    by (simp add: resume_switchPathForConnection_def Let_def modify_emit)
  ultimately show ?thesis by simp
qed

subsection \<open>Suspended switches\<close>

text \<open>A suspended switch is the switch of one App's route; no later App gets that route's address.\<close>

fun drain_owned :: "(string, nat) jmap \<Rightarrow> nat \<Rightarrow> drain \<Rightarrow> bool" where
  "drain_owned m n (Drain target previous) = False"
| "drain_owned m n (Drain_route b d target previous) = (b < n \<and> (\<forall>c. jget m c = Some b \<longrightarrow> c = d))"

definition drains_ok :: "transport \<Rightarrow> bool" where
  "drains_ok s \<longleftrightarrow> (\<forall>x \<in> set (suspended s). drain_owned (appRoutes s) (next_route s) x)"

definition grows :: "transport \<Rightarrow> transport \<Rightarrow> bool" where
  "grows s t \<longleftrightarrow> suspended t = suspended s \<and> next_route s \<le> next_route t
     \<and> (\<forall>c b. jget (appRoutes t) c = Some b \<longrightarrow> jget (appRoutes s) c = Some b \<or> next_route s \<le> b)"

named_theorems grows_intros \<open>operations that leave the suspended switches alone\<close>

lemma grows_refl [grows_intros]: "grows s s"
  by (simp add: grows_def)

lemma grows_trans: "grows s t \<Longrightarrow> grows t u \<Longrightarrow> grows s u"
  by (fastforce simp: grows_def)

lemma grows_drains: "grows s t \<Longrightarrow> drains_ok s \<Longrightarrow> drains_ok t"
proof -
  assume g: "grows s t" and d: "drains_ok s"
  have "drain_owned (appRoutes t) (next_route t) x" if "x \<in> set (suspended s)" for x
    using g d that by (cases x) (force simp: grows_def drains_ok_def)+
  with g show ?thesis by (simp add: grows_def drains_ok_def)
qed

lemma grows_same: "appRoutes t = appRoutes s \<Longrightarrow> next_route t = next_route s \<Longrightarrow> suspended t = suspended s \<Longrightarrow> grows s t"
  by (simp add: grows_def)

lemma grows_prims [grows_intros]:
  "grows s u \<Longrightarrow> grows s (act e u)" "grows s u \<Longrightarrow> grows s (emitEvent ev u)" "grows s u \<Longrightarrow> grows s (emitPathChange p u)"
  "grows s u \<Longrightarrow> grows s (emitMessage env u)"
  "grows s u \<Longrightarrow> grows s (relay_path_send env u)" "grows s u \<Longrightarrow> grows s (peer_send q w ch u)"
  "grows s u \<Longrightarrow> grows s (peer_try_send q w ch u)" "grows s u \<Longrightarrow> grows s (on_monitor f u)"
  "grows s u \<Longrightarrow> grows s (modify_route a g u)" "grows s u \<Longrightarrow> grows s (on_route_health a h u)"
  "grows s u \<Longrightarrow> grows s (callDowngradeHandler k r u)" "grows s u \<Longrightarrow> grows s (callForceCloseHandler k r u)"
  "grows s u \<Longrightarrow> grows s (dropAppQueue a d u)"
  by (erule grows_trans; rule grows_same;
      simp add: act_def emitEvent_def emitPathChange_def emitMessage_def relay_path_send_def peer_send_def
        peer_try_send_def on_monitor_def on_route_health_def callDowngradeHandler_def callForceCloseHandler_def
        dropAppQueue_def split: option.split)+

lemma grows_getOrCreate [grows_intros]: "grows s u \<Longrightarrow> grows s (snd (route_getOrCreate c u))"
  by (erule grows_trans) (auto simp: grows_def route_getOrCreate_def split: option.split)

lemma grows_registry_detach [grows_intros]: "grows s u \<Longrightarrow> grows s (snd (registry_detach app u))"
proof (erule grows_trans)
  show "grows u (snd (registry_detach app u))"
  proof (cases "named_app app")
    case None
    then have "registry_detach app u = registry_detach None u" by (simp add: registry_detach_def named_app_def)
    then show ?thesis by (simp add: registry_detach_all Let_def grows_def)
  qed (auto simp: registry_detach_conn named_app_def grows_def split: option.split if_splits)
qed

lemma grows_detach [grows_intros]: "grows s u \<Longrightarrow> grows s (detachP2pPeer app u)"
  by (erule grows_trans, cases "named_app app") (auto simp: grows_def named_app_def split: if_splits)

lemma grows_forceCloseConnection [grows_intros]: "grows s u \<Longrightarrow> grows s (forceCloseConnection c reason u)"
  by (auto simp: forceCloseConnection_def Let_def split_beta intro!: grows_intros split: option.split)

lemma grows_forceClose [grows_intros]: "grows s u \<Longrightarrow> grows s (forceClose reason u)"
proof (erule grows_trans)
  show "grows u (forceClose reason u)"
    by (simp add: forceClose_def Let_def dropGlobalQueue_def resetPathState_def emitEvent_def emitPathChange_def act_def
        callDowngradeHandler_def callForceCloseHandler_def grows_def named_app_def split: option.split)
qed

lemma grows_dispatch [grows_intros]: "grows s u \<Longrightarrow> grows s (dispatchSend q u)"
  by (cases rule: dispatchSend_cases [of q u]) (auto intro: grows_intros)

lemma grows_dispatch_all [grows_intros]: "grows s u \<Longrightarrow> grows s (dispatch_all qs u)"
  unfolding dispatch_all_def by (induction qs arbitrary: u) (auto simp: unless_failed_def intro: grows_dispatch)

lemma grows_flush [grows_intros]: "grows s u \<Longrightarrow> grows s (flushAppQueue a u)"
  by (auto simp: flushAppQueue_def intro!: grows_intros split: option.split)

lemma grows_monitoring [grows_intros]:
  assumes "grows s u"
  shows "grows s (startPingLoopForConnection c u)" "grows s (startBufferedSamplerForConnection c u)"
    "grows s (armIceDisconnectedTimer u)"
    "grows s (armIceDisconnectedTimerForConnection c u)" "grows s (clearIceDisconnectedTimerForConnection c u)"
    "grows s (sendPing u)" "grows s (sendPingForConnection c u)"
    "grows s (handleIncomingPing x sq t u)" "grows s (handleIncomingPingForConnection c x sq t u)"
    "grows s (handleIncomingPong sq u)" "grows s (handleIncomingPongForConnection c sq u)"
  using assms
  by (auto simp: startPingLoopForConnection_def startBufferedSamplerForConnection_def armIceDisconnectedTimer_def
      armIceDisconnectedTimerForConnection_def clearIceDisconnectedTimerForConnection_def sendPing_def
      sendPingForConnection_def handleIncomingPing_def handleIncomingPingForConnection_def handleIncomingPong_def
      handleIncomingPongForConnection_def Let_def split_beta intro!: grows_intros split: option.split)

lemma grows_resume: "grows s (resume_switchPathForConnection a c target previous s)"
  by (auto simp: resume_switchPathForConnection_def Let_def unless_failed_def intro!: grows_intros)

lemma drains_switch: "transport_ok s \<Longrightarrow> drains_ok s \<Longrightarrow> drains_ok (switchPathForConnection c target s)"
proof -
  assume s: "transport_ok s" "drains_ok s"
  obtain a s1 where g: "route_getOrCreate c s = (a, s1)" by fastforce
  have "drains_ok s1" using grows_drains [OF grows_getOrCreate [OF grows_refl] s(2)] g by (metis snd_conv)
  moreover have "transport_ok s1" using ok_getOrCreate [OF s(1), of c] g by simp
  moreover have "jget (appRoutes s1) c = Some a" using getOrCreate_get [of c s] g by simp
  ultimately show ?thesis
    by (auto simp: switchPathForConnection_def g Let_def drains_ok_def dest: ok_less ok_one_app)
qed

subsection \<open>Every operation on one App keeps the promise\<close>

lemma app_only_forced [simp]: "app_only (forceCloseConnection d reason s) = app_only s"
  by (simp add: forceCloseConnection_def Let_def split_beta split: option.split)

lemma fifo_append_pending:
  assumes s: "fifo True P c [] acc s" and a: "jget (appRoutes s) d = Some a"
    and room: "length (r_pending (robj s a)) < strict_queue_limit" and "r_strict (robj s a)" and "r_path (robj s a) \<noteq> P2p"
    and P: "P (q_envelope q) \<Longrightarrow> d = c"
  shows "fifo True P c [] (acc @ followed P [q]) (modify_route a (\<lambda>r. r\<lparr>r_pending := r_pending r @ [q]\<rparr>) s)"
proof -
  have ok: "transport_ok (modify_route a (\<lambda>r. r\<lparr>r_pending := r_pending r @ [q]\<rparr>) s)"
    using fifo_ok [OF s] room assms(4) by (intro ok_modify) (auto simp: route_ok_def)
  have "fifo_route True P b [] (acc @ followed P [q]) (modify_route a (\<lambda>r. r\<lparr>r_pending := r_pending r @ [q]\<rparr>) s)"
    if b: "jget (appRoutes s) c = Some b" "r_strict (robj s b)" "\<not> dead s" for b
  proof -
    have f: "fifo_route True P b [] acc s" using s b by (simp add: fifo_def)
    show ?thesis
    proof (cases "b = a")
      case True
      with f assms(5) show ?thesis by (auto simp: fifo_route_def)
    next
      case False
      with b a P have "\<not> P (q_envelope q)" by auto
      with f False show ?thesis by (auto simp: fifo_route_def)
    qed
  qed
  with s ok show ?thesis using assms(4) by (auto simp: fifo_def dead_def split: if_splits)
qed

lemma fifo_direct:
  assumes P: "follows_business P c" and s: "fifo True P c [] acc s"
    and unqueued: "P (q_envelope q) \<Longrightarrow> \<not> shouldQueueAppSend (route_get c s) (q_envelope q)"
  shows "fifo True P c [] (acc @ followed P [q]) (send_global q s)"
proof -
  have "fifo True P c (followed P [q] @ []) (acc @ followed P [q]) s"
  proof -
    have "fifo_route True P a (followed P [q]) (acc @ followed P [q]) s"
      if a: "jget (appRoutes s) c = Some a" "r_strict (robj s a)" "\<not> dead s" for a
    proof (cases "P (q_envelope q)")
      case True
      with P have "business c (q_envelope q)" by (simp add: follows_business_def)
      with unqueued [OF True] a have "r_path (robj s a) = P2p"
        by (simp add: shouldQueueAppSend_def route_get_def business_def)
      with s a show ?thesis by (auto simp: fifo_def fifo_route_def)
    qed (use s a in \<open>auto simp: fifo_def fifo_route_def\<close>)
    with s show ?thesis by (simp add: fifo_def)
  qed
  then have "fifo True P c [] (acc @ followed P [q]) (dispatchSend q s)"
    by (intro fifo_dispatch [OF P]) simp
  with s show ?thesis by (simp add: send_global_def handleGlobalSend_def fifo_def app_only_def)
qed

lemma fifo_send:
  assumes P: "follows_business P c" and s: "fifo True P c [] acc s"
    and bypass: "bypass \<Longrightarrow> \<not> P (q_envelope q)"
  shows "fifo True P c [] (acc @ followed P [q]) (transport_send q bypass s)"
proof -
  let ?acc = "acc @ followed P [q]"
  have Pc: "named_app (getEnvelopeAppConnectionId (q_envelope q)) = Some c"
      "\<not> is_strict_transport_control_message (e_type (q_envelope q))" if "P (q_envelope q)"
    using P that by (auto simp: follows_business_def business_def)
  show ?thesis
  proof (cases "t_closed s")
    case True
    then show ?thesis using s by (simp add: transport_send_def fifo_failed)
  next
    case open': False
    show ?thesis
    proof (cases "named_app (getEnvelopeAppConnectionId (q_envelope q))")
      case None
      with Pc have "\<not> P (q_envelope q)" by auto
      with open' None fifo_direct [OF P s, of q] show ?thesis by (simp add: transport_send_def)
    next
      case (Some d)
      have dc: "d = c" if "P (q_envelope q)" using Pc [OF that] Some by simp
      show ?thesis
      proof (cases "\<not> bypass \<and> shouldQueueAppSend (route_get d s) (q_envelope q)")
        case True
        then obtain a where a: "jget (appRoutes s) d = Some a" "r_strict (robj s a)" "r_path (robj s a) \<noteq> P2p"
          by (auto simp: shouldQueueAppSend_def route_get_def split: option.splits)
        have nf: "\<not> r_forceClosed (robj s a)" using ok_route [OF fifo_ok [OF s] a(1)] by (simp add: route_ok_def)
        have "fifo True P c [] ?acc (queueAppSend d a q s)"
        proof (cases "length (r_pending (robj s a)) \<ge> strict_queue_limit")
          case False
          then show ?thesis using fifo_append_pending [OF s a(1) _ a(2) a(3), of q] dc nf
            by (simp add: queueAppSend_def Let_def)
        next
          case over: True
          let ?s1 = "modify_route a (\<lambda>r. r\<lparr>r_pending := []\<rparr>) s"
          let ?s2 = "emitEvent (Pending_drop Queue_overflow (length (r_pending (robj s a)))) ?s1"
          have q: "queueAppSend d a q s = forceCloseConnection d ''strict_pending_overflow'' ?s2"
            using over nf by (simp add: queueAppSend_def Let_def)
          have ok: "transport_ok ?s1" using fifo_ok [OF s] by (intro ok_modify) (auto simp: route_ok_def)
          show ?thesis
          proof (cases "d = c")
            case True
            have t: "transport_ok (forceCloseConnection d ''strict_pending_overflow'' ?s2)"
              using ok by (intro ok_forceCloseConnection) simp
            have "app_only (forceCloseConnection d ''strict_pending_overflow'' ?s2)" using s by (simp add: fifo_def)
            moreover have "\<not> r_strict (robj (forceCloseConnection d ''strict_pending_overflow'' ?s2) b)"
              if "jget (appRoutes (forceCloseConnection d ''strict_pending_overflow'' ?s2)) c = Some b" for b
              using forced_not_strict [of d _ ?s2 b] that ok True by simp
            ultimately show ?thesis unfolding q by (intro fifo_lifted t)
          next
            case False
            then have nP: "\<not> P (q_envelope q)" using dc by blast
            have "fifo True P c [] acc ?s1"
              using s ok ok_one_app [OF fifo_ok [OF s] a(1)] False by (intro fifo_modify) auto
            with nP show ?thesis unfolding q
              by (intro fifo_forceCloseConnection fifo_emit) simp
          qed
        qed
        with True a open' Some show ?thesis by (simp add: transport_send_def route_getOrCreate_def)
      next
        case unqueued: False
        have sg: "fifo True P c [] ?acc (send_global q s)"
          using fifo_direct [OF P s, of q] unqueued dc bypass by blast
        have rs: "fifo True P c [] ?acc (relay_path_send (q_envelope q) s)" if bypass
          using fifo_other_write(2) [of P, OF bypass [OF that] s] bypass [OF that] by simp
        show ?thesis
        proof (cases "jget (appRoutes s) d")
          case None
          with open' Some unqueued sg rs show ?thesis
            by (simp add: transport_send_def shouldQueueAppSend_def route_get_def)
        next
          case a: (Some a)
          show ?thesis
          proof (cases "r_outbound (robj s a)")
            case None
            with a open' Some unqueued sg rs show ?thesis by (auto simp: transport_send_def)
          next
            case out: (Some out)
            let ?t = "modify_route a (\<lambda>r. r\<lparr>r_outbound := Some (out @ [q])\<rparr>) s"
            have ok: "transport_ok ?t"
              using fifo_ok [OF s] out by (intro ok_modify) (auto simp: route_ok_def)
            have "fifo_route True P b [] ?acc ?t"
              if b: "jget (appRoutes s) c = Some b" "r_strict (robj s b)" "\<not> dead s" for b
            proof -
              from s b have f: "fifo_route True P b [] acc s" by (simp add: fifo_def)
              have "\<not> P (q_envelope q)"
              proof
                assume p: "P (q_envelope q)"
                with dc a b have "a = b" "r_strict (robj s a)" by auto
                with out f have "r_path (robj s a) = Relay" by (auto simp: fifo_route_def)
                with unqueued bypass p a b \<open>a = b\<close> Pc(2) [OF p] show False
                  by (auto simp: shouldQueueAppSend_def route_get_def)
              qed
              with f out show ?thesis by (auto simp: fifo_route_def)
            qed
            then have "fifo True P c [] ?acc ?t" using ok s by (auto simp: fifo_def dead_def)
            with a out open' Some unqueued show ?thesis by (auto simp: transport_send_def)
          qed
        qed
      qed
    qed
  qed
qed

lemma fifo_quiet:
  assumes "app_only s" shows "handleHealthDowngrade r s = s" "forceClose r s = s"
  using assms by (simp_all add: app_only_def handleHealthDowngrade_def forceClose_def)

lemma app_only_monitor [simp]: "app_only (on_monitor f s) = app_only s"
  by (simp add: app_only_def on_monitor_def)

lemma fifo_app: "fifo m P c fl acc s \<Longrightarrow> app_only s"
  by (simp add: fifo_def)

lemma fifo_forceClose: "fifo m P c fl acc s \<Longrightarrow> fifo m P c fl acc (forceClose r s)"
  by (simp add: fifo_quiet fifo_app)

lemma fifo_downgrade_global: "fifo m P c fl acc s \<Longrightarrow> fifo m P c fl acc (handleHealthDowngrade r s)"
  by (simp add: fifo_quiet fifo_app)

lemma fifo_downgrade:
  assumes s: "fifo True P c [] acc s" shows "fifo True P c [] acc (handleHealthDowngradeForConnection d r s)"
  using s
  by (auto simp: handleHealthDowngradeForConnection_def Let_def split: option.split
      intro!: fifo_forceCloseConnection fifo_emit fifo_detach fifo_switchPathForConnection)

lemma fifo_pings:
  assumes "fifo m P c fl acc s"
  shows "fifo m P c fl acc (sendPing s)" "fifo m P c fl acc (sendPingForConnection d s)"
    "fifo m P c fl acc (handleIncomingPing u sq t s)" "fifo m P c fl acc (handleIncomingPingForConnection d u sq t s)"
    "fifo m P c fl acc (handleIncomingPong sq s)" "fifo m P c fl acc (handleIncomingPongForConnection d sq s)"
    "fifo m P c fl acc (armIceDisconnectedTimer s)"
  using assms
  by (auto simp: sendPing_def sendPingForConnection_def handleIncomingPing_def handleIncomingPingForConnection_def
      handleIncomingPong_def handleIncomingPongForConnection_def armIceDisconnectedTimer_def Let_def
      intro!: fifo_monitor fifo_health fifo_peer_try fifo_emit split: option.split)

lemma fifo_timers:
  assumes "fifo True P c [] acc s"
  shows "fifo True P c [] acc (handlePongTimeout sq s)" "fifo True P c [] acc (handlePongTimeoutForConnection d sq s)"
    "fifo True P c [] acc (sampleBufferedAmount n s)" "fifo True P c [] acc (sampleBufferedAmountForConnection d n s)"
    "fifo True P c [] acc (iceTimeout s)" "fifo True P c [] acc (iceTimeoutForConnection d a s)"
  using assms
  by (auto simp: handlePongTimeout_def handlePongTimeoutForConnection_def sampleBufferedAmount_def
      sampleBufferedAmountForConnection_def iceTimeout_def iceTimeoutForConnection_def Let_def
      intro!: fifo_downgrade fifo_downgrade_global fifo_monitor fifo_health fifo_emit split: option.split)

lemma fifo_configure_other:
  assumes s: "fifo True P c [] acc s" and "d \<noteq> c"
  shows "fifo True P c [] acc (configureStrictP2pForConnection d strict h s)"
proof -
  obtain a s1 where g: "route_getOrCreate d s = (a, s1)" by fastforce
  then have s1: "fifo True P c [] acc s1" using fifo_getOrCreate [OF s, of d] by simp
  have "jget (appRoutes s1) d = Some a" using getOrCreate_get [of d s] g by simp
  then have "jget (appRoutes s1) c \<noteq> Some a" using ok_one_app [OF fifo_ok [OF s1]] assms(2) by blast
  with s1 show ?thesis
    by (auto simp: configureStrictP2pForConnection_def g intro!: fifo_modify ok_modify fifo_ok [OF s1])
       (auto simp: route_ok_def)
qed

lemma fifo_clear_strict:
  assumes s: "fifo True P c [] acc s" shows "fifo True P c [] acc (clearStrictP2pForConnection d s)"
  using s ok_configure_conn(2) [OF fifo_ok [OF s], of d]
  by (auto simp: clearStrictP2pForConnection_def intro!: fifo_modify split: option.split)

lemma fifo_registry_attach:
  assumes s: "fifo m P c fl acc s" and ok: "transport_ok (registry_attach p app h uid s)"
  shows "fifo m P c fl acc (registry_attach p app h uid s)"
proof (cases "named_app app")
  case None
  with s ok show ?thesis by (auto simp: registry_attach_def Let_def fifo_defs)
next
  case (Some d)
  let ?u = "s\<lparr>next_listener := next_listener s + 1, listening := jput (next_listener s) (p, named_app app) (listening s)\<rparr>"
  have "route_getOrCreate d ?u = (fst (route_getOrCreate d s),
      (snd (route_getOrCreate d s))\<lparr>next_listener := next_listener s + 1,
         listening := jput (next_listener s) (p, named_app app) (listening s)\<rparr>)"
    by (simp add: route_getOrCreate_def split: option.split)
  with fifo_getOrCreate [OF s, of d] ok Some show ?thesis
    by (auto simp: registry_attach_def Let_def fifo_def fifo_route_def app_only_def dead_def)
qed

lemma fifo_attach:
  assumes s: "fifo m P c fl acc s" shows "fifo m P c fl acc (attachP2pPeer p app h uid s)"
proof -
  have d: "fifo m P c fl acc (detachP2pPeer app s)" using s by (rule fifo_detach)
  have ok: "transport_ok (attachP2pPeer p app h uid s)" using fifo_ok [OF s] by (rule ok_attach)
  let ?t = "if named_app app = None then (detachP2pPeer app s)\<lparr>downgradeHandler := h, t_upgradeId := uid\<rparr> else detachP2pPeer app s"
  from d have t: "fifo m P c fl acc ?t" by simp
  from ok have "transport_ok (registry_attach p app h uid ?t)" by (simp add: attachP2pPeer_def Let_def)
  with t show ?thesis unfolding attachP2pPeer_def Let_def by (rule fifo_registry_attach)
qed

lemma fifo_close: "fifo m P c fl acc s \<Longrightarrow> fifo m P c fl acc (close_transport s)"
proof -
  assume s: "fifo m P c fl acc s"
  show ?thesis
  proof (cases "t_closed s")
    case False
    have ok: "transport_ok (close_transport s)" using fifo_ok [OF s] by (rule ok_close)
    have "app_only (detachP2pPeer None (s\<lparr>t_closed := True\<rparr>))" using s by (simp add: fifo_def) (simp add: app_only_def)
    with ok False show ?thesis
      by (intro fifo_lifted)
         (auto simp: close_transport_def eventbus_clear_def dropGlobalQueue_def emitEvent_def act_def app_only_def named_app_def
           split: if_splits)
  qed (use s in \<open>simp add: close_transport_def\<close>)
qed

lemma fifo_peer:
  assumes "fifo True P c [] acc s"
  shows "fifo True P c [] acc (on_peer_data app x s)" "fifo True P c [] acc (on_peer_report app st s)"
proof -
  show "fifo True P c [] acc (on_peer_data app x s)"
    using assms by (auto simp: on_peer_data_def transport_dispatch_def emitMessage_def intro!: fifo_pings fifo_act
        split: peer_data.split option.split)
  show "fifo True P c [] acc (on_peer_report app st s)"
    using assms by (auto simp: on_peer_report_def intro!: fifo_pings fifo_monitoring fifo_monitor fifo_downgrade
        fifo_downgrade_global fifo_registry_detach split: peer_report.split option.split)
qed

subsection \<open>Runs\<close>

text \<open>
  What may happen while the App's messages are followed: everything except the operations on the
  global path, and a followed message sent past the strict gate. The App itself may be configured
  again, as a strict one, which the Agent does on every strict proposal.
\<close>

definition follows_input :: "(envelope \<Rightarrow> bool) \<Rightarrow> string \<Rightarrow> transport_input \<Rightarrow> bool" where
  "follows_input P c i =
     (case i of Do_send q bypass \<Rightarrow> \<not> (bypass \<and> P (q_envelope q)) | Do_configure strict h \<Rightarrow> False
      | Do_switch target \<Rightarrow> False | Do_configure_conn d strict h \<Rightarrow> d = c \<longrightarrow> strict | _ \<Rightarrow> True)"

definition reconfigures :: "string \<Rightarrow> transport_input \<Rightarrow> bool" where
  "reconfigures c i \<longleftrightarrow> (case i of Do_configure_conn d strict h \<Rightarrow> d = c | _ \<Rightarrow> False)"

definition accepted :: "(envelope \<Rightarrow> bool) \<Rightarrow> transport_input \<Rightarrow> envelope list" where
  "accepted P i = (case i of Do_send q bypass \<Rightarrow> followed P [q] | _ \<Rightarrow> [])"

lemma fifo_subscribe: "fifo m P c fl acc (subscribe b h s) = fifo m P c fl acc s"
  "fifo m P c fl acc (unsubscribe b h s) = fifo m P c fl acc s"
  by (auto simp: subscribe_def unsubscribe_def fifo_defs split: bus.split)

lemma fifo_world: "fifo m P c fl acc (s\<lparr>now := t, relay_open := up, broken := bad\<rparr>) = fifo m P c fl acc s"
  by (auto simp: fifo_defs)

lemma drains_some: "drains_ok s \<Longrightarrow> i < length (suspended s) \<Longrightarrow>
    \<exists>a d target previous. suspended s ! i = Drain_route a d target previous \<and> (\<forall>c. jget (appRoutes s) c = Some a \<longrightarrow> c = d)"
  unfolding drains_ok_def by (drule bspec, rule nth_mem, assumption) (cases "suspended s ! i"; auto)

text \<open>
  The messages that are still expected to leave: every message accepted is added; a new configuration
  withdraws the ones that are kept back at this moment, the last of them.
\<close>

definition kept_back :: "(envelope \<Rightarrow> bool) \<Rightarrow> string \<Rightarrow> transport \<Rightarrow> envelope list" where
  "kept_back P c s = (case route_get c s of None \<Rightarrow> [] | Some r \<Rightarrow> followed P (r_pending r))"

fun expected :: "(envelope \<Rightarrow> bool) \<Rightarrow> string \<Rightarrow> transport_input list \<Rightarrow> transport \<Rightarrow> envelope list \<Rightarrow> envelope list" where
  "expected P c [] s acc = acc"
| "expected P c (i # is) s acc = expected P c is (transport_step i s)
     (if reconfigures c i then take (length acc - length (kept_back P c s)) acc else acc @ accepted P i)"

fun stays_strict :: "string \<Rightarrow> transport_input list \<Rightarrow> transport \<Rightarrow> bool" where
  "stays_strict c [] s = isStrictP2pForConnection c s"
| "stays_strict c (i # is) s = (isStrictP2pForConnection c s \<and> stays_strict c is (transport_step i s))"

lemma fifo_reconfigure:
  assumes s: "fifo True P c [] acc s" and strict: "isStrictP2pForConnection c s"
  shows "fifo True P c [] (take (length acc - length (kept_back P c s)) acc) (configureStrictP2pForConnection c True h s)"
proof -
  from strict obtain a where a: "jget (appRoutes s) c = Some a" "r_strict (robj s a)"
    by (auto simp: isStrictP2pForConnection_def route_get_def split: option.splits)
  let ?f = "\<lambda>r. r\<lparr>r_strict := True, r_onForceClose := h, r_forceClosed := False, r_pending := []\<rparr>"
  have t: "configureStrictP2pForConnection c True h s = modify_route a ?f s"
    using a by (simp add: configureStrictP2pForConnection_def route_getOrCreate_def)
  have ok: "transport_ok (modify_route a ?f s)" using ok_configure_conn(1) [OF fifo_ok [OF s], of c True h] t by simp
  have app: "app_only (modify_route a ?f s)" using s by (simp add: fifo_def)
  show ?thesis
  proof (cases "dead s")
    case True
    then show ?thesis unfolding t by (intro fifo_dead [OF ok app]) (simp add: dead_def)
  next
    case False
    with s a have r: "fifo_route True P a [] acc s" by (simp add: fifo_def)
    then have "acc = peer_log P (effects s) @ kept_back P c s"
      using a by (simp add: fifo_route_def kept_back_def route_get_def)
    with r have "fifo_route True P a [] (take (length acc - length (kept_back P c s)) acc) (modify_route a ?f s)"
      by (auto simp: fifo_route_def split: if_splits)
    with ok app a show ?thesis unfolding t by (simp add: fifo_def)
  qed
qed

lemma fifo_input:
  assumes P: "follows_business P c" and s: "fifo True P c [] acc s" and d: "drains_ok s" and i: "follows_input P c i"
    and n: "\<not> reconfigures c i"
  shows "fifo True P c [] (acc @ accepted P i) (transport_input i s)"
proof (cases i)
  case (Do_send q bypass)
  with fifo_send [OF P s, of bypass q] i show ?thesis by (simp add: transport_input_def follows_input_def accepted_def)
next
  case (Drained j)
  show ?thesis
  proof (cases "j < length (suspended s)")
    case True
    from drains_some [OF d this] obtain a e target previous where
      e: "suspended s ! j = Drain_route a e target previous" "\<forall>c. jget (appRoutes s) c = Some a \<longrightarrow> c = e" by blast
    have "fifo True P c [] acc (resume_switchPathForConnection a e target previous
        (s\<lparr>suspended := take j (suspended s) @ drop (Suc j) (suspended s)\<rparr>))"
      using s e(2) by (intro fifo_resume_conn [OF P]) auto
    with Drained True e(1) show ?thesis by (simp add: transport_input_def accepted_def resume_drain_def)
  qed (use Drained s in \<open>simp add: transport_input_def accepted_def\<close>)
qed (use s i n in \<open>auto simp: transport_input_def accepted_def follows_input_def reconfigures_def on_route_def transport_dispatch_def
       emitMessage_def emitDisplayFrameDeferred_def fifo_subscribe fifo_world
       intro!: fifo_configure_other fifo_clear_strict fifo_close fifo_attach fifo_detach fifo_switchPathForConnection
         fifo_forceClose fifo_forceCloseConnection fifo_peer fifo_pings fifo_timers fifo_emit fifo_act
       split: option.split\<close>)

lemma grows_send: "app_only s \<Longrightarrow> grows s (transport_send q bypass s)"
proof -
  have q: "grows s (queueAppSend c a q u)" if "grows s u" for c a u
    using that by (auto simp: queueAppSend_def Let_def intro!: grows_intros)
  have failed: "grows s (s\<lparr>failed := True\<rparr>)" by (simp add: grows_same)
  assume "app_only s"
  then have "send_global q s = dispatchSend q s" by (simp add: send_global_def handleGlobalSend_def app_only_def)
  then have "grows s (send_global q s)" by (auto intro: grows_intros)
  with failed show ?thesis
    by (auto simp: transport_send_def split_beta intro!: q grows_intros split: option.split)
qed

lemma drains_downgrade:
  assumes "transport_ok s" and "drains_ok s" shows "drains_ok (handleHealthDowngradeForConnection d r s)"
proof -
  have e: "drains_ok (emitEvent (Downgraded r) s)"
    by (rule grows_drains [OF grows_prims(2) [OF grows_refl] assms(2)])
  have k: "drains_ok (callDowngradeHandler h r (detachP2pPeer a u))" if "drains_ok u" for h a u
    by (rule grows_drains [OF grows_prims(11) [OF grows_detach [OF grows_refl]] that])
  have f: "drains_ok (forceCloseConnection d r (emitEvent (Downgraded r) s))"
    by (rule grows_drains [OF grows_forceCloseConnection [OF grows_refl] e])
  show ?thesis
    using assms f k drains_switch [OF _ e] by (auto simp: handleHealthDowngradeForConnection_def Let_def split: option.split)
qed

lemma drains_unread [simp]:
  "drains_ok (emitEvent ev s) = drains_ok s" "drains_ok (act e s) = drains_ok s"
  "drains_ok (modify_route a f s) = drains_ok s" "drains_ok (on_route_health a h s) = drains_ok s"
  "drains_ok (on_monitor h s) = drains_ok s"
  by (simp_all add: drains_ok_def emitEvent_def act_def on_route_health_def on_monitor_def)

lemma drains_timers:
  assumes "transport_ok s" and "drains_ok s"
  shows "drains_ok (handlePongTimeoutForConnection d sq s)" "drains_ok (sampleBufferedAmountForConnection d n s)"
    "drains_ok (iceTimeoutForConnection d a s)"
  using assms
  by (auto simp: handlePongTimeoutForConnection_def sampleBufferedAmountForConnection_def iceTimeoutForConnection_def
      Let_def intro!: drains_downgrade ok_health split: option.split)

lemma drains_peer:
  assumes "transport_ok s" and "app_only s" and "drains_ok s"
  shows "drains_ok (on_peer_data app x s)" "drains_ok (on_peer_report app st s)"
proof -
  have g: "drains_ok u" if "grows s u" for u using that assms(3) by (rule grows_drains)
  show "drains_ok (on_peer_data app x s)"
    by (auto simp: on_peer_data_def transport_dispatch_def intro!: g grows_intros split: peer_data.split option.split)
  show "drains_ok (on_peer_report app st s)"
    using assms by (auto simp: on_peer_report_def fifo_quiet intro!: drains_downgrade intro: g grows_intros
        split: peer_report.split option.split)
qed

lemma grows_attach: "grows s (attachP2pPeer p app h uid s)"
proof -
  have "grows u (registry_attach p app h uid u)" for u
  proof (cases "named_app app")
    case (Some c)
    have "grows u (u\<lparr>next_listener := l, listening := m\<rparr>)" for l m by (simp add: grows_same)
    then have "grows u (snd (route_getOrCreate c (u\<lparr>next_listener := l, listening := m\<rparr>)))" for l m
      by (intro grows_getOrCreate)
    with Some show ?thesis by (simp add: registry_attach_def Let_def) (simp add: grows_def)
  qed (simp add: registry_attach_def Let_def grows_same)
  moreover have "grows s (if named_app app = None then (detachP2pPeer app s)\<lparr>downgradeHandler := h, t_upgradeId := uid\<rparr>
      else detachP2pPeer app s)"
    using grows_detach [OF grows_refl, of s app] by (simp add: grows_def)
  ultimately show ?thesis unfolding attachP2pPeer_def Let_def by (blast intro: grows_trans)
qed

lemma grows_close: "grows s (close_transport s)"
  by (simp add: close_transport_def eventbus_clear_def dropGlobalQueue_def emitEvent_def act_def grows_def named_app_def)

lemma drains_drop: "drains_ok s \<Longrightarrow> drains_ok (s\<lparr>suspended := take j (suspended s) @ drop k (suspended s)\<rparr>)"
  by (auto simp: drains_ok_def dest: in_set_takeD in_set_dropD)

lemma drains_input:
  assumes ok: "transport_ok s" and app: "app_only s" and d: "drains_ok s" and i: "follows_input P c i"
  shows "drains_ok (transport_input i s)"
proof -
  have g: "drains_ok u" if "grows s u" for u using that d by (rule grows_drains)
  show ?thesis
  proof (cases i)
    case (Drained j)
    show ?thesis
    proof (cases "j < length (suspended s)")
      case True
      from drains_some [OF d this] obtain a e target previous where
        "suspended s ! j = Drain_route a e target previous" by blast
      with Drained True show ?thesis
        using grows_drains [OF grows_resume drains_drop [OF d]] by (simp add: transport_input_def resume_drain_def)
    qed (use Drained d in \<open>simp add: transport_input_def\<close>)
  next
    case (Do_send q bypass)
    then show ?thesis using g grows_send [OF app] by (simp add: transport_input_def)
  next
    case (Do_attach p a h uid)
    then show ?thesis using g grows_attach by (simp add: transport_input_def)
  next
    case Do_close
    then show ?thesis using g grows_close by (simp add: transport_input_def)
  next
    case (Do_subscribe b h)
    then show ?thesis by (intro g grows_same) (simp_all add: transport_input_def subscribe_def split: bus.split)
  next
    case (Do_unsubscribe b h)
    then show ?thesis by (intro g grows_same) (simp_all add: transport_input_def unsubscribe_def split: bus.split)
  next
    case (World t up bad)
    then show ?thesis by (intro g grows_same) (simp_all add: transport_input_def)
  qed (use i ok app d in \<open>auto simp: transport_input_def follows_input_def on_route_def transport_dispatch_def
         emitDisplayFrameDeferred_def configureStrictP2pForConnection_def clearStrictP2pForConnection_def split_beta
         handlePongTimeout_def sampleBufferedAmount_def iceTimeout_def fifo_quiet Let_def
         intro!: drains_switch drains_timers drains_peer drains_downgrade intro: g grows_intros split: option.split\<close>)
qed

lemma fifo_settled:
  assumes "fifo True P c [] acc s"
  shows "fifo True P c [] acc (if failed s then act Failure (s\<lparr>failed := False\<rparr>) else s)"
  using assms by (auto simp: fifo_def app_only_def dead_def act_def)

lemma drains_settled: "drains_ok s \<Longrightarrow> drains_ok (if failed s then act Failure (s\<lparr>failed := False\<rparr>) else s)"
  by (simp add: drains_ok_def act_def)

lemma fifo_step:
  assumes P: "follows_business P c" and s: "fifo True P c [] acc s" and d: "drains_ok s" and i: "follows_input P c i"
    and strict: "isStrictP2pForConnection c s"
  shows "fifo True P c [] (if reconfigures c i then take (length acc - length (kept_back P c s)) acc else acc @ accepted P i)
      (transport_step i s)"
    and "drains_ok (transport_step i s)"
proof -
  have "fifo True P c [] (if reconfigures c i then take (length acc - length (kept_back P c s)) acc else acc @ accepted P i)
      (transport_input i s)"
  proof (cases "reconfigures c i")
    case True
    with i obtain h where "i = Do_configure_conn c True h"
      by (cases i) (auto simp: reconfigures_def follows_input_def)
    with True fifo_reconfigure [OF s strict] show ?thesis by (simp add: transport_input_def)
  qed (use fifo_input [OF P s d i] in simp)
  then show "fifo True P c [] (if reconfigures c i then take (length acc - length (kept_back P c s)) acc else acc @ accepted P i)
      (transport_step i s)"
    unfolding transport_step_def Let_def by (rule fifo_settled)
  show "drains_ok (transport_step i s)"
    using s d i unfolding transport_step_def Let_def by (intro drains_settled drains_input) (auto simp: fifo_def)
qed

lemma fifo_run:
  assumes P: "follows_business P c" and "fifo True P c [] acc s" and "drains_ok s" and "\<forall>i \<in> set is. follows_input P c i"
    and "stays_strict c is s"
  shows "fifo True P c [] (expected P c is s acc) (transport_run is s)"
  using assms(2-5)
proof (induction "is" arbitrary: acc s)
  case (Cons i "is")
  from Cons.prems fifo_step [OF P Cons.prems(1,2), of i] Cons.IH show ?case by (simp add: transport_run_def)
qed (simp add: transport_run_def)

text \<open>A state that has not met the followed messages, with no switch of the App under way.\<close>

definition unseen :: "(envelope \<Rightarrow> bool) \<Rightarrow> transport \<Rightarrow> bool" where
  "unseen P s \<longleftrightarrow> peer_log P (effects s) = [] \<and> relay_log P (effects s) = []
     \<and> (\<forall>b. followed P (r_pending (robj s b)) = []
          \<and> (\<forall>out. r_outbound (robj s b) = Some out \<longrightarrow> followed P out = []))"

definition per_app_state :: "transport \<Rightarrow> bool" where
  "per_app_state s \<longleftrightarrow> transport_ok s \<and> app_only s \<and> drains_ok s"

definition not_switching :: "string \<Rightarrow> transport \<Rightarrow> bool" where
  "not_switching c s \<longleftrightarrow> (case route_get c s of None \<Rightarrow> True | Some r \<Rightarrow> \<not> r_switching r)"

lemma fifo_configured:
  assumes s: "per_app_state s" "unseen P s" "not_switching c s"
  shows "fifo True P c [] [] (transport_step (Do_configure_conn c True h) s)"
    "drains_ok (transport_step (Do_configure_conn c True h) s)"
proof -
  obtain a s1 where g: "route_getOrCreate c s = (a, s1)" by fastforce
  let ?t = "modify_route a (\<lambda>r. r\<lparr>r_strict := True, r_onForceClose := h, r_forceClosed := False, r_pending := []\<rparr>) s1"
  have c: "jget (appRoutes s1) c = Some a" using getOrCreate_get [of c s] g by simp
  have ok: "transport_ok ?t" using ok_configure_conn(1) [of s c True h] s(1)
    by (simp add: configureStrictP2pForConnection_def g per_app_state_def)
  have d: "drains_ok ?t" using s(1) grows_drains [OF grows_getOrCreate [OF grows_refl], of s c] g
    by (simp add: per_app_state_def)
  have "unseen P s1" using s(2) g
    by (auto simp: route_getOrCreate_def unseen_def createAppRouteState_def split: option.splits if_splits)
  moreover have "r_outbound (robj s1 a) = None"
    using s(1,3) g ok_route [of "{}" s c]
    by (auto simp: per_app_state_def not_switching_def route_get_def route_getOrCreate_def route_ok_def
        createAppRouteState_def split: option.splits)
  ultimately have f: "fifo_route True P a [] [] ?t"
    by (auto simp: fifo_route_def unseen_def)
  have "app_only ?t" using s(1) g app_only_more(7) [of c s] by (simp add: per_app_state_def)
  with f ok c have "fifo True P c [] [] ?t" by (auto simp: fifo_def)
  with d show "fifo True P c [] [] (transport_step (Do_configure_conn c True h) s)"
    "drains_ok (transport_step (Do_configure_conn c True h) s)"
    using fifo_settled [of P c "[]" ?t] drains_settled [of ?t]
    by (simp_all add: transport_step_def transport_input_def configureStrictP2pForConnection_def g Let_def)
qed

end
