(* ===== verification/TransportProperties.thy ===== *)
theory TransportProperties
  imports TransportStrict
begin

text \<open>
  The properties of the Agent's session transport: what strict mode guarantees and where the code
  breaks it, the order of messages across a switch of paths, the bounds of its queues, and the
  health monitor.
\<close>

declare map_of_eq_Some_iff [simp del] Some_eq_map_of_iff [simp del]

section \<open>Strict mode\<close>

definition demo_message :: "string \<Rightarrow> queued_send" where
  "demo_message body = \<lparr>q_envelope = \<lparr>e_type = ''session.list'', e_app = Some ''a'', e_body = body\<rparr>, q_channel = None\<rparr>"



lemma new_per_app: "per_app_state (new_transport False h)"
  by (simp add: per_app_state_def new_transport_ok) (simp add: app_only_def drains_ok_def new_transport_def)

lemma new_unseen: "unseen P (new_transport False h)"
  by (simp add: unseen_def new_transport_def createAppRouteState_def)

named_theorems transport_eval \<open>definitions that evaluate a run of the transport\<close>

lemmas [transport_eval] =
  transport_step_def transport_input_def new_transport_def createAppRouteState_def new_health_def
  act_def unless_failed_def emitEvent_def emitPathChange_def relay_path_send_def peer_send_def
  route_get_def route_getOrCreate_def modify_route_def on_route_health_def on_monitor_def
  registry_detach_def registry_attach_def named_app_def jhas_def Let_def
  startPingLoopForConnection_def startBufferedSamplerForConnection_def ping_interval_def transport_health_policy_def
  detached_route_def detachP2pPeer_def stop_monitoring_def stopPingLoop_def stopBufferedSampler_def
  clearIceDisconnectedTimer_def dropAppQueue_def callDowngradeHandler_def callForceCloseHandler_def
  forceCloseConnection_def dispatchSend_def dispatch_all_def flushAppQueue_def strict_queue_limit_def
  shouldQueueAppSend_def queueAppSend_def transport_send_def send_global_def handleGlobalSend_def
  switchPathForConnection_def resume_switchPathForConnection_def resume_drain_def
  handleHealthDowngradeForConnection_def configureStrictP2pForConnection_def attachP2pPeer_def
  on_peer_report_def getEnvelopeAppConnectionId_def

lemma transport_run_simps:
  "transport_run [] s = s" "transport_run (i # is) s = transport_run is (transport_step i s)"
  by (simp_all add: transport_run_def)

lemma strict_demo:
  "is_strict_transport_control_message ''session.list'' = False"
  by code_simp






text \<open>
  A second strict proposal loses what the first one kept back: the Agent configures the route again,
  which empties its queue, with no event that says so.
\<close>

theorem proposal_drops_queue:
  assumes "c \<noteq> []" and "business c (q_envelope m)"
    and "t = transport_run [Do_configure_conn c True None, Do_send m False, Do_configure_conn c True None] (new_transport False None)"
  shows "effects t = [] \<and> map_option r_pending (route_get c t) = Some [] \<and> isStrictP2pForConnection c t"
proof -
  have "e_app (q_envelope m) = Some c" "\<not> is_strict_transport_control_message (e_type (q_envelope m))"
    using assms(2) by (auto simp: business_def getEnvelopeAppConnectionId_def named_app_def split: if_splits)
  with assms(1,3) show ?thesis by (simp add: transport_run_simps isStrictP2pForConnection_def transport_eval)
qed

theorem proposal_drops_queue_witness:
  "effects (transport_run [Do_configure_conn ''a'' True None, Do_send (demo_message ''1'') False, Do_configure_conn ''a'' True None]
      (new_transport False None)) = []"
  using proposal_drops_queue [of "''a''" "demo_message ''1''", OF _ _ refl]
  by (simp add: business_def demo_message_def getEnvelopeAppConnectionId_def named_app_def strict_demo)

section \<open>Where strict mode is lifted\<close>

text \<open>
  A leak. If the peer's control channel closes while the App is being switched to it, the queue
  of a strict route is flushed without a peer: the first message kept back closes the route by
  force, which lifts strict mode, and the second one goes out over the relay.
\<close>

definition leak_run :: "string \<Rightarrow> queued_send \<Rightarrow> queued_send \<Rightarrow> transport_input list" where
  "leak_run c m1 m2 = [Do_configure_conn c True None, Do_send m1 False, Do_send m2 False, Do_attach 7 (Some c) None None,
     Do_switch_conn c P2p, Peer_report 0 Peer_is_closed, Drained 0]"

theorem strict_queue_leaks:
  assumes "c \<noteq> []" and "business c (q_envelope m1)" and "business c (q_envelope m2)"
  shows "effects (transport_run (leak_run c m1 m2) (new_transport False None)) =
    [Close_peer 7, Path_to [] P2p, Event_to [] (Path_change Relay P2p),
     Event_to [] (Strict_send_blocked (e_type (q_envelope m1))), Event_to [] (Force_closed ''peer_missing''),
     To_relay (q_envelope m2)]"
proof -
  have "e_app (q_envelope m1) = Some c" "e_app (q_envelope m2) = Some c"
    "\<not> is_strict_transport_control_message (e_type (q_envelope m1))"
    "\<not> is_strict_transport_control_message (e_type (q_envelope m2))"
    using assms by (auto simp: business_def getEnvelopeAppConnectionId_def named_app_def split: if_splits)
  with assms(1) show ?thesis by (simp add: leak_run_def transport_run_simps transport_eval)
qed

theorem strict_queue_leaks_witness:
  "To_relay (q_envelope (demo_message ''2'')) \<in>
     set (effects (transport_run (leak_run ''a'' (demo_message ''1'') (demo_message ''2'')) (new_transport False None)))"
  using strict_queue_leaks [of "''a''" "demo_message ''1''" "demo_message ''2''"]
  by (simp add: business_def demo_message_def getEnvelopeAppConnectionId_def named_app_def strict_demo)

text \<open>
  After a forced close the transport treats the App as an ordinary one: the next business
  message goes over the relay. The guard that would block it (\<open>forceClosed\<close>) is never found set.
\<close>

theorem forced_close_opens_relay:
  assumes "per_app_state s" and "c \<noteq> []" and "isStrictP2pForConnection c s" and "business c (q_envelope m)"
    and "\<not> t_closed s" and "\<not> failed s" and "relay_open s"
  shows "\<exists>es. effects (transport_run [Do_force_close_conn c reason, Do_send m False] s) = effects s @ es @ [To_relay (q_envelope m)]"
proof -
  from assms(3) obtain a where a: "jget (appRoutes s) c = Some a" "r_strict (robj s a)"
    by (auto simp: isStrictP2pForConnection_def route_get_def split: option.splits)
  have "transport_ok s" using assms(1) by (simp add: per_app_state_def)
  from ok_route [OF this a(1)] have nf: "\<not> r_forceClosed (robj s a)" by (simp add: route_ok_def)
  let ?t = "forceCloseConnection c reason s"
  have fields: "jget (appRoutes ?t) c = Some a" "r_strict (robj ?t a) = False" "r_path (robj ?t a) = Relay"
    "r_outbound (robj ?t a) = None" "t_closed ?t = t_closed s" "relay_open ?t = relay_open s" "failed ?t = failed s"
    "\<exists>es. effects ?t = effects s @ es"
    using a nf assms(2)
    by (auto simp: forceCloseConnection_eq dropAppQueue_def emitEvent_def act_def callDowngradeHandler_def
        callForceCloseHandler_def detached_route_def split: option.split)
  have app: "app_only ?t" using assms(1) by (simp add: per_app_state_def)
  have e: "named_app (getEnvelopeAppConnectionId (q_envelope m)) = Some c" using assms(4) by (simp add: business_def)
  have "transport_send m False ?t = act (To_relay (q_envelope m)) ?t"
    using fields(1-7) e assms(5,7) app
    by (simp add: transport_send_def shouldQueueAppSend_def route_get_def send_global_def handleGlobalSend_def app_only_def
        dispatchSend_def relay_path_send_def Let_def split: option.split)
  with fields assms(6) show ?thesis
    by (auto simp: transport_run_simps transport_step_def transport_input_def act_def Let_def)
qed

theorem forced_close_opens_relay_witness:
  "\<exists>es. effects (transport_run [Do_force_close_conn ''a'' ''pong_timeout'', Do_send (demo_message ''4'') False]
      (transport_step (Do_configure_conn ''a'' True None) (new_transport False None)))
    = [] @ es @ [To_relay (q_envelope (demo_message ''4''))]"
proof -
  let ?s = "transport_step (Do_configure_conn ''a'' True None) (new_transport False None)"
  have "per_app_state ?s"
    using fifo_configured [OF new_per_app new_unseen [of "\<lambda>_. False" None], where c = "''a''" and h = None]
    by (auto simp: fifo_def per_app_state_def not_switching_def route_get_def new_transport_def)
  moreover have "isStrictP2pForConnection ''a'' ?s" "effects ?s = []" "\<not> t_closed ?s" "\<not> failed ?s" "relay_open ?s"
    by (simp_all add: isStrictP2pForConnection_def transport_eval)
  moreover have "business ''a'' (q_envelope (demo_message ''4''))"
    by (simp add: business_def demo_message_def getEnvelopeAppConnectionId_def named_app_def strict_demo)
  ultimately show ?thesis
    using forced_close_opens_relay [of ?s "''a''" "demo_message ''4''" "''pong_timeout''"] by simp
qed

text \<open>
  Messages queued while an App is being switched are lost, without a trace, when its peer is
  detached before the switch is over.
\<close>

definition lost_run :: "string \<Rightarrow> queued_send \<Rightarrow> transport_input list" where
  "lost_run c m = [Do_attach 7 (Some c) None None, Do_switch_conn c P2p, Do_send m False, Do_detach (Some c), Drained 0]"

theorem detach_loses_messages:
  assumes "c \<noteq> []" and "business c (q_envelope m)"
  shows "effects (transport_run (lost_run c m) (new_transport False None)) =
      [Close_peer 7, Path_to [] P2p, Event_to [] (Path_change Relay P2p)]
    \<and> (\<forall>b. r_pending (robj (transport_run (lost_run c m) (new_transport False None)) b) = []
         \<and> r_outbound (robj (transport_run (lost_run c m) (new_transport False None)) b) = None)"
proof -
  have "e_app (q_envelope m) = Some c" "\<not> is_strict_transport_control_message (e_type (q_envelope m))"
    using assms by (auto simp: business_def getEnvelopeAppConnectionId_def named_app_def split: if_splits)
  with assms(1) show ?thesis by (simp add: lost_run_def transport_run_simps transport_eval)
qed

theorem detach_loses_messages_witness:
  "effects (transport_run (lost_run ''a'' (demo_message ''1'')) (new_transport False None)) =
      [Close_peer 7, Path_to [] P2p, Event_to [] (Path_change Relay P2p)]"
  using detach_loses_messages [of "''a''" "demo_message ''1''"]
  by (simp add: business_def demo_message_def getEnvelopeAppConnectionId_def named_app_def strict_demo)

section \<open>Queues and peers\<close>

text \<open>
  C28: Whatever the transport is asked to do, a route keeps at most 256 messages back, and only
  while it is strict; messages wait in an outbound queue only during a switch; and the global path
  obeys the same bounds.
\<close>

theorem queues_bounded:
  assumes "route_get c (transport_run is (new_transport strict h)) = Some r"
  shows "length (r_pending r) \<le> 256 \<and> (r_strict r \<or> r_pending r = []) \<and> (r_switching r \<or> r_outbound r = None)
    \<and> \<not> r_forceClosed r
    \<and> length (globalPending (transport_run is (new_transport strict h))) \<le> 256"
proof -
  let ?s = "transport_run is (new_transport strict h)"
  have ok: "transport_ok ?s" by (rule transport_run_ok [OF new_transport_ok])
  from assms obtain a where "jget (appRoutes ?s) c = Some a" "r = robj ?s a" by (auto simp: route_get_def)
  with ok_route [OF ok] have "route_ok r" by simp
  moreover have "global_ok ?s" using ok by (simp add: ok_but_def)
  ultimately show ?thesis
    by (auto simp: route_ok_def global_ok_def strict_queue_limit_def transport_health_policy_def)
qed

theorem queues_bounded_witness:
  "length (r_pending (the (route_get ''a'' (transport_run [Do_configure_conn ''a'' True None, Do_send (demo_message ''1'') False]
      (new_transport False None))))) \<le> 256"
proof -
  let ?s = "transport_run [Do_configure_conn ''a'' True None, Do_send (demo_message ''1'') False] (new_transport False None)"
  have "\<exists>r. route_get ''a'' ?s = Some r" by (simp add: transport_run_simps demo_message_def strict_demo transport_eval)
  then show ?thesis using queues_bounded [of "''a''" _ False None] by fastforce
qed

text \<open>
  C31: A listener of an App belongs to the peer attached to it: at any time at most one peer can
  deliver messages in the App's name or report its state, and the App has a route.
\<close>

theorem one_peer_per_app:
  assumes "jget (listening (transport_run is (new_transport strict h))) l = Some (p, Some c)"
  shows "c \<noteq> [] \<and> route_get c (transport_run is (new_transport strict h)) \<noteq> None
    \<and> map_option pr_peer (jget (peersByApp (transport_run is (new_transport strict h))) c) = Some p
    \<and> (\<forall>l' p'. jget (listening (transport_run is (new_transport strict h))) l' = Some (p', Some c) \<longrightarrow> l' = l)"
proof -
  let ?s = "transport_run is (new_transport strict h)"
  have "transport_ok ?s" by (rule transport_run_ok [OF new_transport_ok])
  then have p: "peers_ok ?s" by (simp add: ok_but_def)
  from peer_listener [OF p assms] obtain e where
    e: "jget (peersByApp ?s) c = Some e" "pr_listener e = l" "pr_peer e = p" by blast
  with peer_entry [OF p e(1)] peer_listener [OF p] show ?thesis
    by (fastforce simp: route_get_def jhas_def)
qed

theorem one_peer_per_app_witness:
  "map_option pr_peer (jget (peersByApp (transport_run [Do_attach 1 (Some ''a'') None None, Do_attach 2 (Some ''a'') None None]
      (new_transport False None))) ''a'') = Some 2"
proof -
  have "jget (listening (transport_run [Do_attach 1 (Some ''a'') None None, Do_attach 2 (Some ''a'') None None]
      (new_transport False None))) 1 = Some (2, Some ''a'')"
    by (simp add: transport_run_simps transport_eval)
  from one_peer_per_app [OF this] show ?thesis by blast
qed

section \<open>Order across a switch\<close>





definition demo_attached :: transport where
  "demo_attached = transport_run [Do_attach 7 (Some ''a'') (Some 3) None] (new_transport False None)"


section \<open>Health\<close>

definition over_limit :: "nat \<Rightarrow> bool" where
  "over_limit amount \<longleftrightarrow> amount > bufferedAmountLimit transport_health_policy"

lemma sample_seconds: "bufferedOverflowSeconds (sample_health a h) = (if over_limit a then bufferedOverflowSeconds h + 1 else 0)"
  by (simp add: sample_health_def over_limit_def)

lemma sampled_seconds:
  assumes "bufferedOverflowSeconds h = 0"
  shows "bufferedOverflowSeconds (fold sample_health as h) = length (takeWhile over_limit (rev as))"
  using assms by (induction as rule: rev_induct) (simp_all add: sample_seconds)

text \<open>
  The downgrade for a full send buffer comes exactly when five samples in a row, the present
  one included, have found more than the limit buffered; one sample below the limit starts the
  count again.
\<close>

theorem overflow_after_five_samples:
  assumes "bufferedOverflowSeconds h = 0"
  shows "sample_overflows amount (fold sample_health as h) \<longleftrightarrow> 5 \<le> length (takeWhile over_limit (rev (as @ [amount])))"
proof -
  have "sample_overflows amount g \<longleftrightarrow> over_limit amount \<and> 5 \<le> bufferedOverflowSeconds (sample_health amount g)" for g
    by (simp add: sample_overflows_def over_limit_def transport_health_policy_def)
  then show ?thesis using assms by (simp add: sample_seconds sampled_seconds)
qed

theorem overflow_after_five_samples_witness:
  "sample_overflows 1000001 (fold sample_health [7, 2000000, 2000000, 2000000, 2000000] new_health)"
  using overflow_after_five_samples [of new_health 1000001 "[7, 2000000, 2000000, 2000000, 2000000]"]
  by (simp add: new_health_def over_limit_def transport_health_policy_def)

text \<open>Taking an App off its peer for its health: the peer closed, the route on the relay, the owner told.\<close>

lemma health_downgrade:
  assumes "jget (appRoutes s) c = Some a" "jget (peersByApp s) c = Some e" "c \<noteq> []"
    and "r_path (robj s a) = P2p" "\<not> r_strict (robj s a)" "\<not> r_switching (robj s a)" "\<not> t_closed s"
    and t: "t = handleHealthDowngradeForConnection c k s"
  shows "effects t = effects s @ [Event_to (eventHandlers s) (Downgraded k), Close_peer (pr_peer e)]
      @ (case pr_onDowngrade e of None \<Rightarrow> [] | Some h \<Rightarrow> [Downgrade_handler h k])"
    and "r_path (robj t a) = Relay" "jget (peersByApp t) c = None" "pingTimer (r_health (robj t a)) = None" "failed t = failed s"
proof -
  define s3 where "s3 = emitEvent (Downgraded k) s"
  have 3: "appRoutes s3 = appRoutes s" "peersByApp s3 = peersByApp s" "robj s3 = robj s" "failed s3 = failed s"
    "effects s3 = effects s @ [Event_to (eventHandlers s) (Downgraded k)]" "t_closed s3 = t_closed s"
    by (simp_all add: s3_def emitEvent_def act_def)
  define s4 where "s4 = (modify_route a (\<lambda>r. r\<lparr>r_switching := True, r_outbound := Some []\<rparr>) s3)
       \<lparr>suspended := suspended s3 @ [Drain_route a c Relay P2p]\<rparr>"
  have sw: "switchPathForConnection c Relay s3 = s4"
    using assms 3 by (simp add: switchPathForConnection_def route_getOrCreate_def s4_def)
  have 4: "appRoutes s4 = appRoutes s" "peersByApp s4 = peersByApp s" "effects s4 = effects s3" "failed s4 = failed s"
    using 3 by (simp_all add: s4_def)
  have down: "t = callDowngradeHandler (pr_onDowngrade e) k (detachP2pPeer (Some c) s4)"
    using assms 3 sw by (simp add: t handleHealthDowngradeForConnection_def route_get_def Let_def flip: s3_def)
  have handler: "failed (callDowngradeHandler h r u) = failed u" "effects (callDowngradeHandler h r u) =
      effects u @ (case h of None \<Rightarrow> [] | Some h \<Rightarrow> [Downgrade_handler h r])"
    "peersByApp (callDowngradeHandler h r u) = peersByApp u" "robj (callDowngradeHandler h r u) = robj u" for h r u
    by (simp_all add: callDowngradeHandler_def act_def split: option.split)
  have "robj (detachP2pPeer (Some c) s4) a = detached_route (robj s4 a)"
    "effects (detachP2pPeer (Some c) s4) = effects s4 @ [Close_peer (pr_peer e)]"
    "jget (peersByApp (detachP2pPeer (Some c) s4)) c = None" "failed (detachP2pPeer (Some c) s4) = failed s"
    using assms(1-3) 4 by (simp_all add: jhas_def)
  moreover have "r_path (detached_route r) = Relay" "pingTimer (r_health (detached_route r)) = None" for r
    by (simp_all add: detached_route_def stop_monitoring_def stopPingLoop_def stopBufferedSampler_def
        clearIceDisconnectedTimer_def)
  ultimately show "effects t = effects s @ [Event_to (eventHandlers s) (Downgraded k), Close_peer (pr_peer e)]
      @ (case pr_onDowngrade e of None \<Rightarrow> [] | Some h \<Rightarrow> [Downgrade_handler h k])"
    "r_path (robj t a) = Relay" "jget (peersByApp t) c = None" "pingTimer (r_health (robj t a)) = None" "failed t = failed s"
    using 3 4 by (simp_all add: down handler)
qed

text \<open>
  Unanswered pings. A ping of an App that is not answered in time counts, unless its timer
  fired so late that the process must have been stalled; the fourth one in a row (the sixth on a
  strict route) takes the App off its peer: the peer is closed, the route is back on the relay and
  the owner is told. Before that only the count changes.
\<close>

theorem unanswered_pings:
  assumes "jget (appRoutes s) c = Some a" and "jget (peersByApp s) c = Some e" and "c \<noteq> []"
    and "r_path (robj s a) = P2p" and "\<not> r_strict (robj s a)" and "\<not> r_switching (robj s a)"
    and "jget (pendingPings (r_health (robj s a))) sq = Some sent" and "\<not> t_closed s" and "\<not> failed s"
    and "n = pongTimeoutCount (r_health (robj s a))" and "t = transport_step (Pong_late_conn c sq) s"
  shows "(now s - sent > 7500 \<longrightarrow> effects t = effects s \<and> pongTimeoutCount (r_health (robj t a)) = n)
    \<and> (now s - sent \<le> 7500 \<and> n < 3 \<longrightarrow>
         effects t = effects s @ [Event_to (eventHandlers s) (Ping_timeout sq (n + 1))]
         \<and> pongTimeoutCount (r_health (robj t a)) = n + 1 \<and> r_path (robj t a) = P2p)
    \<and> (now s - sent \<le> 7500 \<and> n \<ge> 3 \<longrightarrow>
         effects t = effects s @ [Event_to (eventHandlers s) (Ping_timeout sq (n + 1)),
             Event_to (eventHandlers s) (Downgraded ''pong_timeout''), Close_peer (pr_peer e)]
           @ (case pr_onDowngrade e of None \<Rightarrow> [] | Some h \<Rightarrow> [Downgrade_handler h ''pong_timeout''])
         \<and> r_path (robj t a) = Relay \<and> jget (peersByApp t) c = None \<and> pingTimer (r_health (robj t a)) = None)"
proof -
  have th: "ping_timeout_ms False = 2500" "stall_grace_ms False = 5000" "ping_threshold False = 4"
    by (simp_all add: ping_timeout_ms_def stall_grace_ms_def ping_threshold_def transport_health_policy_def)
  define s1 where "s1 = on_route_health a (\<lambda>h. h\<lparr>pendingPings := jdel sq (pendingPings h)\<rparr>) s"
  define s2 where "s2 = emitEvent (Ping_timeout sq (n + 1)) (on_route_health a (\<lambda>h. h\<lparr>pongTimeoutCount := n + 1\<rparr>) s1)"
  have 1: "pongTimeoutCount (r_health (robj s1 a)) = n" "effects s1 = effects s" "failed s1 = failed s"
    using assms(10) by (simp_all add: s1_def on_route_health_def)
  have 2: "jget (appRoutes s2) c = Some a" "jget (peersByApp s2) c = Some e" "eventHandlers s2 = eventHandlers s"
    "effects s2 = effects s @ [Event_to (eventHandlers s) (Ping_timeout sq (n + 1))]" "failed s2 = failed s"
    "pongTimeoutCount (r_health (robj s2 a)) = n + 1" "r_path (robj s2 a) = P2p" "\<not> r_strict (robj s2 a)"
    "\<not> r_switching (robj s2 a)" "\<not> t_closed s2"
    using assms(1,2,4-6,8) by (simp_all add: s1_def s2_def on_route_health_def emitEvent_def act_def)
  have step: "transport_input (Pong_late_conn c sq) s =
    (if now s - sent > 7500 then s1
     else if n + 1 \<ge> 4 then handleHealthDowngradeForConnection c ''pong_timeout'' s2 else s2)"
    using assms(1,5,7) 1 th
    by (simp add: transport_input_def handlePongTimeoutForConnection_def Let_def flip: s1_def) (simp add: s2_def)
  note d = health_downgrade[OF 2(1,2) assms(3) 2(7-10) refl, of "''pong_timeout''"]
  consider (stalled) "now s - sent > 7500" | (counted) "now s - sent \<le> 7500" "n < 3" | (late) "now s - sent \<le> 7500" "n \<ge> 3"
    by linarith
  then show ?thesis
  proof cases
    case late
    then have "t = handleHealthDowngradeForConnection c ''pong_timeout'' s2"
      using d(5) assms(9) 2(5) by (simp add: assms(11) transport_step_def step)
    then show ?thesis using late by (simp add: d 2)
  qed (use 1 2 assms(9) in \<open>simp_all add: assms(11) transport_step_def step\<close>)
qed

text \<open>The App's route on its peer with three pings missed and a fourth one out.\<close>

definition demo_late :: transport where
  "demo_late = modify_route 0 (\<lambda>r. r\<lparr>r_path := P2p, r_health := new_health\<lparr>pingTimer := Some 5000, pingSeq := 4,
     pendingPings := [(4, 0)], pongTimeoutCount := 3\<rparr>\<rparr>) demo_attached"

definition late_facts :: "transport \<Rightarrow> bool" where
  "late_facts s \<longleftrightarrow> jget (appRoutes s) ''a'' = Some 0 \<and> r_path (robj s 0) = P2p \<and> \<not> r_strict (robj s 0)
    \<and> \<not> r_switching (robj s 0) \<and> pongTimeoutCount (r_health (robj s 0)) = 3
    \<and> jget (pendingPings (r_health (robj s 0))) 4 = Some 0 \<and> now s = 0 \<and> \<not> t_closed s \<and> \<not> failed s
    \<and> jget (peersByApp s) ''a'' = Some \<lparr>pr_peer = 7, pr_listener = 0, pr_onDowngrade = Some 3, pr_upgradeId = None\<rparr>"

lemma demo_late_facts: "late_facts demo_late"
  by (simp add: demo_late_def demo_attached_def transport_run_simps transport_eval)
     (simp add: late_facts_def)

theorem unanswered_pings_witness:
  "r_path (robj (transport_step (Pong_late_conn ''a'' 4) demo_late) 0) = Relay"
proof -
  have f: "jget (appRoutes demo_late) ''a'' = Some 0" "r_path (robj demo_late 0) = P2p" "\<not> r_strict (robj demo_late 0)"
    "\<not> r_switching (robj demo_late 0)" "3 = pongTimeoutCount (r_health (robj demo_late 0))"
    "jget (pendingPings (r_health (robj demo_late 0))) 4 = Some 0" "now demo_late = 0" "\<not> t_closed demo_late"
    "\<not> failed demo_late"
    "jget (peersByApp demo_late) ''a'' = Some \<lparr>pr_peer = 7, pr_listener = 0, pr_onDowngrade = Some 3, pr_upgradeId = None\<rparr>"
    using demo_late_facts unfolding late_facts_def by simp_all
  have "''a'' \<noteq> []" by simp
  from unanswered_pings [OF f(1) f(10) this f(2-4) f(6) f(8,9) f(5) refl] f(7) show ?thesis by simp
qed

end
