(* ===== verification/DeviceStatus.thy ===== *)
theory DeviceStatus
  imports Prelude "HOL-Library.Product_Lexorder" "HOL-Library.List_Lexorder"
begin

text \<open>
  The relay's table of device statuses (\<open>relay/server/src/relayDeviceStatusStore.ts\<close>): one row per
  device, kept across restarts. The SQL statements are functions on a keyed list of rows;
  \<open>presence_store\<close> states what the state store of the relay relies on, and is interpreted on them.
  Opening the database file and its pragmas are not modelled.
\<close>

declare map_of_eq_Some_iff [simp del] Some_eq_map_of_iff [simp del]

section \<open>Rows\<close>

datatype presence = Online | Degraded | Offline
datatype close_role = Closed_agent | Closed_mobile

record device_row =
  row_status :: presence
  row_first_seen :: int
  row_last_seen :: int
  row_offline_at :: "int option"
  row_agent_connection :: "string option"
  row_agent_ip :: "string option"
  row_app_ip :: "string option"
  row_close_role :: "close_role option"
  row_close_reason :: "string option"
  row_bytes_in :: nat
  row_bytes_out :: nat
  row_messages_in :: nat
  row_messages_out :: nat
  row_updated :: int

record status_upsert =
  up_device :: string
  up_status :: presence
  up_seen_at :: int
  up_offline_at :: "int option"
  up_agent_connection :: "string option"
  up_agent_ip :: "string option"
  up_app_ip :: "string option"
  up_close_role :: "close_role option"
  up_close_reason :: "string option"

record traffic_delta =
  dt_bytes_in :: nat
  dt_bytes_out :: nat
  dt_messages_in :: nat
  dt_messages_out :: nat

type_synonym status_table = "(string, device_row) jmap"

section \<open>Statements\<close>

definition coalesce :: "'a option \<Rightarrow> 'a option \<Rightarrow> 'a option" where
  "coalesce a b = (case a of Some x \<Rightarrow> Some x | None \<Rightarrow> b)"

text \<open>The row an upsert leaves: a new one, or the old one with \<open>DO UPDATE SET\<close> applied.\<close>

definition merged_row :: "status_upsert \<Rightarrow> device_row option \<Rightarrow> device_row" where
  "merged_row u old = (case old of
     None \<Rightarrow> \<lparr>row_status = up_status u, row_first_seen = up_seen_at u, row_last_seen = up_seen_at u,
       row_offline_at = up_offline_at u, row_agent_connection = up_agent_connection u,
       row_agent_ip = up_agent_ip u, row_app_ip = up_app_ip u, row_close_role = up_close_role u,
       row_close_reason = up_close_reason u, row_bytes_in = 0, row_bytes_out = 0,
       row_messages_in = 0, row_messages_out = 0, row_updated = up_seen_at u\<rparr>
   | Some r \<Rightarrow> r\<lparr>row_status := up_status u, row_last_seen := up_seen_at u, row_offline_at := up_offline_at u,
       row_agent_connection := coalesce (up_agent_connection u) (row_agent_connection r),
       row_agent_ip := coalesce (up_agent_ip u) (row_agent_ip r),
       row_app_ip := coalesce (up_app_ip u) (row_app_ip r),
       row_close_role := coalesce (up_close_role u) (row_close_role r),
       row_close_reason := coalesce (up_close_reason u) (row_close_reason r),
       row_updated := up_seen_at u\<rparr>)"

definition upsert :: "status_upsert \<Rightarrow> status_table \<Rightarrow> status_table" where
  "upsert u t = jput (up_device u) (merged_row u (jget t (up_device u))) t"

definition credited :: "traffic_delta \<Rightarrow> int \<Rightarrow> device_row \<Rightarrow> device_row" where
  "credited x now r = r\<lparr>row_bytes_in := row_bytes_in r + dt_bytes_in x,
     row_bytes_out := row_bytes_out r + dt_bytes_out x,
     row_messages_in := row_messages_in r + dt_messages_in x,
     row_messages_out := row_messages_out r + dt_messages_out x,
     row_last_seen := max (row_last_seen r) now, row_updated := now\<rparr>"

text \<open>An \<open>UPDATE\<close> of a device that has no row changes nothing.\<close>

definition addTraffic :: "string \<Rightarrow> traffic_delta \<Rightarrow> int \<Rightarrow> status_table \<Rightarrow> status_table" where
  "addTraffic d x now t = (case jget t d of None \<Rightarrow> t | Some r \<Rightarrow> jput d (credited x now r) t)"

text \<open>\<open>device_id\<close> is compared by its bytes; a negative \<open>LIMIT\<close> is none.\<close>

definition list_devices :: "bool \<Rightarrow> int \<Rightarrow> status_table \<Rightarrow> (string \<times> device_row) list" where
  "list_devices includeOffline limit t =
     (let rows = sort_key (\<lambda>(d, r). (- row_last_seen r, map (of_char :: char \<Rightarrow> nat) d))
                   (filter (\<lambda>(d, r). includeOffline \<or> row_status r \<noteq> Offline) t)
      in if limit < 0 then rows else take (nat limit) rows)"

definition summary :: "status_table \<Rightarrow> nat \<times> nat" where
  "summary t = (length t, length (filter (\<lambda>(d, r). row_status r = Offline) t))"

definition expired_row :: "int \<Rightarrow> device_row \<Rightarrow> bool" where
  "expired_row cutoff r \<longleftrightarrow> row_status r = Offline \<and>
     (case row_offline_at r of None \<Rightarrow> False | Some since \<Rightarrow> since < cutoff)"

definition pruneOffline :: "int \<Rightarrow> status_table \<Rightarrow> status_table \<times> nat" where
  "pruneOffline cutoff t = (let kept = filter (\<lambda>(d, r). \<not> expired_row cutoff r) t in (kept, length t - length kept))"

section \<open>The contract\<close>

text \<open>Credits are given one after the other by \<open>flush\<close>; \<open>ok\<close> is the primary key.\<close>

locale presence_store =
  fixes find :: "'t \<Rightarrow> string \<Rightarrow> device_row option"
    and put :: "status_upsert \<Rightarrow> 't \<Rightarrow> 't"
    and credit :: "string \<Rightarrow> traffic_delta \<Rightarrow> int \<Rightarrow> 't \<Rightarrow> 't"
    and prune :: "int \<Rightarrow> 't \<Rightarrow> 't"
    and ok :: "'t \<Rightarrow> bool"
  assumes find_put: "find (put u t) d = (if d = up_device u then Some (merged_row u (find t d)) else find t d)"
    and find_credit: "find (credit d x now t) d' = (if d' = d then map_option (credited x now) (find t d) else find t d')"
    and find_prune: "ok t \<Longrightarrow> find (prune cutoff t) d =
          (case find t d of Some r \<Rightarrow> if expired_row cutoff r then None else Some r | None \<Rightarrow> None)"
    and ok_put: "ok t \<Longrightarrow> ok (put u t)"
    and ok_credit: "ok t \<Longrightarrow> ok (credit d x now t)"
    and ok_prune: "ok t \<Longrightarrow> ok (prune cutoff t)"
begin

definition flush :: "int \<Rightarrow> (string \<times> traffic_delta) list \<Rightarrow> 't \<Rightarrow> 't" where
  "flush now ps t = fold (\<lambda>(d, x). credit d x now) ps t"

lemma find_flush_other: "d \<notin> fst ` set ps \<Longrightarrow> find (flush now ps t) d = find t d"
  unfolding flush_def by (induction ps arbitrary: t) (auto simp: find_credit split_beta)

lemma find_flush:
  "distinct (map fst ps) \<Longrightarrow> find (flush now ps t) d =
     (case map_of ps d of None \<Rightarrow> find t d | Some x \<Rightarrow> map_option (credited x now) (find t d))"
proof (induction ps arbitrary: t)
  case Nil
  then show ?case by (simp add: flush_def)
next
  case (Cons p ps)
  obtain d' x where p: "p = (d', x)" by (cases p)
  have step: "flush now ((d', x) # ps) t = flush now ps (credit d' x now t)" by (simp add: flush_def)
  show ?case
  proof (cases "d = d'")
    case True
    with Cons.prems p have "d \<notin> fst ` set ps" by auto
    with True p show ?thesis by (simp add: step find_flush_other find_credit)
  next
    case False
    with Cons p show ?thesis by (auto simp: step find_credit split: option.splits)
  qed
qed

lemma ok_flush: "ok t \<Longrightarrow> ok (flush now ps t)"
  unfolding flush_def by (induction ps arbitrary: t) (auto simp: ok_credit split_beta)

lemma flush_keeps_rows: "distinct (map fst ps) \<Longrightarrow> (find (flush now ps t) d = None) = (find t d = None)"
  by (auto simp: find_flush split: option.splits)

lemma flush_status:
  "distinct (map fst ps) \<Longrightarrow> map_option row_status (find (flush now ps t) d) = map_option row_status (find t d)"
  by (auto simp: find_flush credited_def option.map_comp comp_def split: option.splits)

text \<open>A device that is not offline survives every pruning.\<close>

lemma prune_keeps_live:
  "ok t \<Longrightarrow> find t d = Some r \<Longrightarrow> row_status r \<noteq> Offline \<Longrightarrow> find (prune cutoff t) d = Some r"
  by (simp add: find_prune expired_row_def)

end

lemma upsert_find: "jget (upsert u t) d = (if d = up_device u then Some (merged_row u (jget t d)) else jget t d)"
  by (simp add: upsert_def)

lemma addTraffic_find:
  "jget (addTraffic d x now t) d' = (if d' = d then map_option (credited x now) (jget t d) else jget t d')"
  by (auto simp: addTraffic_def split: option.splits)

lemma prune_find:
  "jwf t \<Longrightarrow> jget (fst (pruneOffline cutoff t)) d =
     (case jget t d of Some r \<Rightarrow> if expired_row cutoff r then None else Some r | None \<Rightarrow> None)"
  by (auto simp: pruneOffline_def Let_def jget_filter split: option.splits)

interpretation device_status: presence_store
    map_of upsert addTraffic "\<lambda>cutoff t. fst (pruneOffline cutoff t)" "\<lambda>t. distinct (map fst t)"
proof unfold_locales
  fix u :: status_upsert and t :: status_table and d
  show "map_of (upsert u t) d = (if d = up_device u then Some (merged_row u (map_of t d)) else map_of t d)"
    by (rule upsert_find)
next
  fix t :: status_table and d x now d'
  show "map_of (addTraffic d x now t) d' =
      (if d' = d then map_option (credited x now) (map_of t d) else map_of t d')"
    by (rule addTraffic_find)
next
  fix t :: status_table and cutoff d
  assume "distinct (map fst t)"
  then show "map_of (fst (pruneOffline cutoff t)) d =
      (case map_of t d of Some r \<Rightarrow> if expired_row cutoff r then None else Some r | None \<Rightarrow> None)"
    by (rule prune_find)
next
  fix t :: status_table and u
  assume "distinct (map fst t)"
  then show "distinct (map fst (upsert u t))" by (auto simp: upsert_def)
next
  fix t :: status_table and d x now
  assume "distinct (map fst t)"
  then show "distinct (map fst (addTraffic d x now t))" by (auto simp: addTraffic_def split: option.splits)
next
  fix t :: status_table and cutoff
  assume "distinct (map fst t)"
  then show "distinct (map fst (fst (pruneOffline cutoff t)))"
    by (auto simp: pruneOffline_def Let_def)
qed

text \<open>What \<open>pruneOffline\<close> reports is the number of rows that went.\<close>

lemma prune_count: "length (fst (pruneOffline cutoff t)) + snd (pruneOffline cutoff t) = length t"
  by (simp add: pruneOffline_def Let_def)

end
