(* ===== verification/RelayState.thy ===== *)
theory RelayState
  imports Topology DeviceStatus
begin

text \<open>
  The relay's state store (\<open>relay/server/src/relayStateStore.ts\<close>): what the admin pages show of
  devices, agents, phones, links and traffic, and what it writes to the table of device statuses.
  The entries are objects updated in place that only their own map holds, so an update of the map
  models them; \<open>connections\<close> holds the live objects of the topology, of which only the ids are kept
  here (\<open>runtimeSnapshot\<close> takes their states as an argument). \<open>Date.now()\<close> is the argument \<open>now\<close>.
  Sets whose order nothing observes are duplicate-free lists.
\<close>

declare map_of_eq_Some_iff [simp del] Some_eq_map_of_iff [simp del]

section \<open>Counters\<close>

datatype direction = In | Out

record counters =
  bytes_in :: nat
  bytes_out :: nat
  messages_in :: nat
  messages_out :: nat
  messages_in_by_type :: "(string, nat) jmap"
  messages_out_by_type :: "(string, nat) jmap"

definition emptyCounters :: counters where
  "emptyCounters = \<lparr>bytes_in = 0, bytes_out = 0, messages_in = 0, messages_out = 0,
     messages_in_by_type = [], messages_out_by_type = []\<rparr>"

definition tally :: "'k \<Rightarrow> nat \<Rightarrow> ('k, nat) jmap \<Rightarrow> ('k, nat) jmap" where
  "tally k n m = jput k (case_option 0 id (jget m k) + n) m"

definition incrementCounters :: "direction \<Rightarrow> string \<Rightarrow> nat \<Rightarrow> counters \<Rightarrow> counters" where
  "incrementCounters dir type bytes k = (case dir of
     In \<Rightarrow> k\<lparr>bytes_in := bytes_in k + bytes, messages_in := messages_in k + 1,
             messages_in_by_type := tally type 1 (messages_in_by_type k)\<rparr>
   | Out \<Rightarrow> k\<lparr>bytes_out := bytes_out k + bytes, messages_out := messages_out k + 1,
             messages_out_by_type := tally type 1 (messages_out_by_type k)\<rparr>)"

definition mergeCounterMap :: "(string, nat) jmap \<Rightarrow> (string, nat) jmap \<Rightarrow> (string, nat) jmap" where
  "mergeCounterMap target source = fold (\<lambda>(k, v). tally k v) source target"

definition mergeCounters :: "counters \<Rightarrow> counters \<Rightarrow> counters" where
  "mergeCounters target source =
     \<lparr>bytes_in = bytes_in target + bytes_in source, bytes_out = bytes_out target + bytes_out source,
      messages_in = messages_in target + messages_in source,
      messages_out = messages_out target + messages_out source,
      messages_in_by_type = mergeCounterMap (messages_in_by_type target) (messages_in_by_type source),
      messages_out_by_type = mergeCounterMap (messages_out_by_type target) (messages_out_by_type source)\<rparr>"

definition emptyDeviceTrafficDelta :: traffic_delta where
  "emptyDeviceTrafficDelta = \<lparr>dt_bytes_in = 0, dt_bytes_out = 0, dt_messages_in = 0, dt_messages_out = 0\<rparr>"

definition add_delta :: "direction \<Rightarrow> nat \<Rightarrow> traffic_delta \<Rightarrow> traffic_delta" where
  "add_delta dir bytes x = (case dir of
     In \<Rightarrow> x\<lparr>dt_bytes_in := dt_bytes_in x + bytes, dt_messages_in := dt_messages_in x + 1\<rparr>
   | Out \<Rightarrow> x\<lparr>dt_bytes_out := dt_bytes_out x + bytes, dt_messages_out := dt_messages_out x + 1\<rparr>)"

section \<open>Entries\<close>

datatype accuracy = City | Region | Country | Private | Reserved | Unknown_place
datatype location_source = Geoip | Fallback

record location =
  loc_id :: string
  loc_label :: string
  loc_latitude :: rat
  loc_longitude :: rat
  loc_accuracy :: accuracy
  loc_source :: location_source
  loc_country_code :: "string option"
  loc_country :: "string option"
  loc_region :: "string option"
  loc_city :: "string option"

text \<open>A connection as the store reads it: the object of the topology with its id and its location.\<close>

record live_conn = rconn +
  k_id :: string
  k_location :: "location option"

record conn_entry =
  en_connection_id :: string
  en_device_id :: string
  en_remote_ip :: string
  en_location :: "location option"
  en_connected_at :: int
  en_last_seen_at :: int
  en_state :: conn_state
  en_path :: path
  en_counters :: counters

record app_entry = conn_entry +
  en_app_info :: "app_info option"
  en_auth_state :: auth_state
  en_preference :: "TransportPreference option"

record link_entry =
  ln_link_id :: string
  ln_device_id :: string
  ln_agent :: string
  ln_app :: string
  ln_state :: link_state
  ln_created_at :: int
  ln_last_seen_at :: int
  ln_session :: "string option"
  ln_path :: path
  ln_counters :: counters
  ln_app_to_agent :: nat
  ln_agent_to_app :: nat

record device_entry =
  dv_agents :: "string jset"
  dv_apps :: "string jset"
  dv_links :: "string jset"
  dv_first_seen_at :: int
  dv_last_seen_at :: int
  dv_status :: presence
  dv_counters :: counters

record store =
  rs_started_at :: int
  rs_statuses :: "status_table option"
  rs_counters :: counters
  rs_auth_failed :: nat
  rs_dropped :: nat
  rs_errors_sent :: nat
  rs_devices :: "(string, device_entry) jmap"
  rs_connections :: "string jset"
  rs_agents :: "(string, conn_entry) jmap"
  rs_apps :: "(string, app_entry) jmap"
  rs_links :: "(string, link_entry) jmap"
  rs_linkByApp :: "(string, string) jmap"
  rs_pending :: "(string, traffic_delta) jmap"

definition new_store :: "int \<Rightarrow> status_table option \<Rightarrow> store" where
  "new_store now t = \<lparr>rs_started_at = now, rs_statuses = t, rs_counters = emptyCounters, rs_auth_failed = 0,
     rs_dropped = 0, rs_errors_sent = 0, rs_devices = [], rs_connections = [], rs_agents = [], rs_apps = [],
     rs_links = [], rs_linkByApp = [], rs_pending = []\<rparr>"

text \<open>An optional string that a condition of the code takes for true.\<close>

definition truthy :: "string option \<Rightarrow> bool" where
  "truthy x \<longleftrightarrow> x \<noteq> None \<and> x \<noteq> Some []"

definition activeCount :: "('e \<Rightarrow> bool) \<Rightarrow> string jset \<Rightarrow> (string, 'e) jmap \<Rightarrow> nat" where
  "activeCount ended ids m =
     length (filter (\<lambda>i. case jget m i of None \<Rightarrow> False | Some e \<Rightarrow> \<not> ended e) ids)"

abbreviation entry_closed :: "('a) conn_entry_scheme \<Rightarrow> bool" where
  "entry_closed e \<equiv> en_state e = Closed"

abbreviation link_closed :: "link_entry \<Rightarrow> bool" where
  "link_closed l \<equiv> ln_state l = L_closed"

definition new_device :: "int \<Rightarrow> device_entry" where
  "new_device now = \<lparr>dv_agents = [], dv_apps = [], dv_links = [], dv_first_seen_at = now,
     dv_last_seen_at = now, dv_status = Online, dv_counters = emptyCounters\<rparr>"

text \<open>The device \<open>ensureDevice\<close> returns; the caller puts it back with what it changed.\<close>

definition ensureDevice :: "string \<Rightarrow> int \<Rightarrow> store \<Rightarrow> device_entry" where
  "ensureDevice d now s = (case jget (rs_devices s) d of Some v \<Rightarrow> v | None \<Rightarrow> new_device now)"

definition put_device :: "string \<Rightarrow> device_entry \<Rightarrow> store \<Rightarrow> store" where
  "put_device d v s = s\<lparr>rs_devices := jput d v (rs_devices s)\<rparr>"

definition on_statuses :: "(status_table \<Rightarrow> status_table) \<Rightarrow> store \<Rightarrow> store" where
  "on_statuses f s = s\<lparr>rs_statuses := map_option f (rs_statuses s)\<rparr>"

definition status_note :: "string \<Rightarrow> presence \<Rightarrow> int \<Rightarrow> status_upsert" where
  "status_note d st seen = \<lparr>up_device = d, up_status = st, up_seen_at = seen, up_offline_at = None,
     up_agent_connection = None, up_agent_ip = None, up_app_ip = None, up_close_role = None,
     up_close_reason = None\<rparr>"

section \<open>Connections come and go\<close>

definition registerConnection :: "live_conn \<Rightarrow> store \<Rightarrow> store" where
  "registerConnection k s = s\<lparr>rs_connections := jset_add (k_id k) (rs_connections s)\<rparr>"

definition presence_of :: "nat \<Rightarrow> nat \<Rightarrow> presence" where
  "presence_of agents apps = (if agents > 0 then Online else if apps > 0 then Degraded else Offline)"

definition refreshDeviceStatus :: "string \<Rightarrow> int \<Rightarrow> (status_upsert \<Rightarrow> status_upsert) \<Rightarrow> store \<Rightarrow> store" where
  "refreshDeviceStatus d now cause s = (case jget (rs_devices s) d of
     None \<Rightarrow> s
   | Some v \<Rightarrow>
      (let status = presence_of (activeCount entry_closed (dv_agents v) (rs_agents s))
                      (activeCount entry_closed (dv_apps v) (rs_apps s));
           s = put_device d (v\<lparr>dv_last_seen_at := now, dv_status := status\<rparr>) s;
           s = on_statuses (upsert (cause ((status_note d status now)
                 \<lparr>up_offline_at := (if status = Offline then Some now else None)\<rparr>))) s
       in if status = Offline \<and> dv_agents v = [] \<and> dv_apps v = [] \<and> dv_links v = []
          then s\<lparr>rs_devices := jdel d (rs_devices s)\<rparr> else s))"

definition on_device :: "string \<Rightarrow> (device_entry \<Rightarrow> device_entry) \<Rightarrow> store \<Rightarrow> store" where
  "on_device d f s = (case jget (rs_devices s) d of None \<Rightarrow> s | Some v \<Rightarrow> put_device d (f v) s)"

definition close_agent :: "string \<Rightarrow> int \<Rightarrow> store \<Rightarrow> store" where
  "close_agent c now s = (case jget (rs_agents s) c of
     None \<Rightarrow> s
   | Some a \<Rightarrow> refreshDeviceStatus (en_device_id a) now
        (\<lambda>u. u\<lparr>up_close_role := Some Closed_agent, up_agent_connection := Some (en_connection_id a),
               up_agent_ip := Some (en_remote_ip a)\<rparr>)
        (on_device (en_device_id a) (\<lambda>v. v\<lparr>dv_agents := jset_del c (dv_agents v)\<rparr>)
          (s\<lparr>rs_agents := jdel c (rs_agents s)\<rparr>)))"

definition drop_link :: "string \<Rightarrow> string \<Rightarrow> store \<Rightarrow> store" where
  "drop_link c d s = (case jget (rs_linkByApp s) c of
     None \<Rightarrow> s
   | Some l \<Rightarrow> if l = [] then s else on_device d (\<lambda>v. v\<lparr>dv_links := jset_del l (dv_links v)\<rparr>)
        (s\<lparr>rs_links := jdel l (rs_links s), rs_linkByApp := jdel c (rs_linkByApp s)\<rparr>))"

definition close_app :: "string \<Rightarrow> int \<Rightarrow> store \<Rightarrow> store" where
  "close_app c now s = (case jget (rs_apps s) c of
     None \<Rightarrow> s
   | Some p \<Rightarrow> refreshDeviceStatus (en_device_id p) now
        (\<lambda>u. u\<lparr>up_close_role := Some Closed_mobile, up_app_ip := Some (en_remote_ip p)\<rparr>)
        (drop_link c (en_device_id p)
          (on_device (en_device_id p) (\<lambda>v. v\<lparr>dv_apps := jset_del c (dv_apps v)\<rparr>)
            (s\<lparr>rs_apps := jdel c (rs_apps s)\<rparr>))))"

definition closeConnection :: "string \<Rightarrow> int \<Rightarrow> store \<Rightarrow> store" where
  "closeConnection c now s =
     close_app c now (close_agent c now (s\<lparr>rs_connections := jset_del c (rs_connections s)\<rparr>))"

definition new_entry :: "string \<Rightarrow> 'a live_conn_scheme \<Rightarrow> conn_entry" where
  "new_entry d k = \<lparr>en_connection_id = k_id k, en_device_id = d, en_remote_ip = k_remoteIp k,
     en_location = k_location k, en_connected_at = k_connectedAt k, en_last_seen_at = k_lastSeenAt k,
     en_state = k_state k, en_path = k_transportPath k, en_counters = emptyCounters\<rparr>"

definition new_app_entry :: "string \<Rightarrow> 'a live_conn_scheme \<Rightarrow> app_entry" where
  "new_app_entry d k = conn_entry.extend (new_entry d k)
     \<lparr>en_app_info = k_appInfo k, en_auth_state = k_authState k, en_preference = k_transportPreference k\<rparr>"

definition registerAgent :: "live_conn \<Rightarrow> store \<Rightarrow> store" where
  "registerAgent k s = (if \<not> truthy (k_deviceId k) then s else
     (let d = the (k_deviceId k); v = ensureDevice d (k_lastSeenAt k) s;
          s = put_device d (v\<lparr>dv_agents := jset_add (k_id k) (dv_agents v),
                dv_last_seen_at := k_lastSeenAt k, dv_status := Online\<rparr>) s;
          s = on_statuses (upsert ((status_note d Online (k_lastSeenAt k))
                \<lparr>up_agent_connection := Some (k_id k), up_agent_ip := Some (k_remoteIp k)\<rparr>)) s
      in s\<lparr>rs_agents := jput (k_id k) (new_entry d k) (rs_agents s)\<rparr>))"

definition registerApp :: "live_conn \<Rightarrow> store \<Rightarrow> store" where
  "registerApp k s = (if \<not> truthy (k_deviceId k) then s else
     (let d = the (k_deviceId k); v = ensureDevice d (k_lastSeenAt k) s;
          status = (if activeCount entry_closed (dv_agents v) (rs_agents s) > 0 then Online else Degraded);
          s = put_device d (v\<lparr>dv_apps := jset_add (k_id k) (dv_apps v),
                dv_last_seen_at := k_lastSeenAt k, dv_status := status\<rparr>) s;
          s = on_statuses (upsert ((status_note d status (k_lastSeenAt k))
                \<lparr>up_app_ip := Some (k_remoteIp k)\<rparr>)) s
      in s\<lparr>rs_apps := jput (k_id k) (new_app_entry d k) (rs_apps s)\<rparr>))"

section \<open>Links\<close>

definition link_id_for :: "string \<Rightarrow> string \<Rightarrow> string \<Rightarrow> string" where
  "link_id_for d a c = ''link_'' @ d @ ''_'' @ a @ ''_'' @ c"

definition new_link :: "string \<Rightarrow> string \<Rightarrow> string \<Rightarrow> string \<Rightarrow> link_state \<Rightarrow> path \<Rightarrow> int \<Rightarrow> link_entry" where
  "new_link l d a c st p now = \<lparr>ln_link_id = l, ln_device_id = d, ln_agent = a, ln_app = c, ln_state = st,
     ln_created_at = now, ln_last_seen_at = now, ln_session = None, ln_path = p,
     ln_counters = emptyCounters, ln_app_to_agent = 0, ln_agent_to_app = 0\<rparr>"

definition createOrUpdateLink ::
    "string \<Rightarrow> string \<Rightarrow> string \<Rightarrow> link_state \<Rightarrow> path \<Rightarrow> string option \<Rightarrow> int \<Rightarrow> store \<Rightarrow> store" where
  "createOrUpdateLink d a c st p session now s =
     (let l = (case jget (rs_linkByApp s) c of Some l \<Rightarrow> l | None \<Rightarrow> link_id_for d a c);
          link = (case jget (rs_links s) l of Some x \<Rightarrow> x | None \<Rightarrow> new_link l d a c st p now);
          link = link\<lparr>ln_state := st, ln_last_seen_at := now, ln_path := p, ln_session := session\<rparr>;
          v = ensureDevice d now s;
          s = s\<lparr>rs_links := jput l link (rs_links s), rs_linkByApp := jput c l (rs_linkByApp s)\<rparr>;
          s = put_device d (v\<lparr>dv_links := jset_add l (dv_links v), dv_last_seen_at := now\<rparr>) s
      in on_statuses (upsert (status_note d (dv_status v) now)) s)"

definition authenticateApp :: "live_conn \<Rightarrow> string option \<Rightarrow> int \<Rightarrow> store \<Rightarrow> store" where
  "authenticateApp k agent now s =
     (let s = registerApp k s;
          s = (case jget (rs_apps s) (k_id k) of
                 None \<Rightarrow> s
               | Some p \<Rightarrow> s\<lparr>rs_apps := jput (k_id k) (p\<lparr>en_state := k_state k, en_auth_state := k_authState k,
                     en_last_seen_at := k_lastSeenAt k\<rparr>) (rs_apps s)\<rparr>)
      in if truthy (k_deviceId k) \<and> truthy agent
         then createOrUpdateLink (the (k_deviceId k)) (the agent) (k_id k) L_authenticated
                (k_transportPath k) None now s
         else s)"

section \<open>Traffic\<close>

definition addPendingDeviceTraffic :: "string \<Rightarrow> direction \<Rightarrow> nat \<Rightarrow> store \<Rightarrow> store" where
  "addPendingDeviceTraffic d dir bytes s =
     s\<lparr>rs_pending := jput d (add_delta dir bytes
         (case jget (rs_pending s) d of Some x \<Rightarrow> x | None \<Rightarrow> emptyDeviceTrafficDelta)) (rs_pending s)\<rparr>"

definition linkIdForTraffic :: "live_conn \<Rightarrow> string option \<Rightarrow> store \<Rightarrow> string option" where
  "linkIdForTraffic k app s =
     (if k_role k = Mobile then jget (rs_linkByApp s) (k_id k)
      else if k_role k = Agent \<and> truthy app then jget (rs_linkByApp s) (the app)
      else None)"

definition incrementLinkDirection :: "live_conn \<Rightarrow> nat \<Rightarrow> link_entry \<Rightarrow> link_entry" where
  "incrementLinkDirection k bytes l =
     (if k_role k = Mobile then l\<lparr>ln_app_to_agent := ln_app_to_agent l + bytes\<rparr>
      else if k_role k = Agent then l\<lparr>ln_agent_to_app := ln_agent_to_app l + bytes\<rparr>
      else l)"

definition count_entry :: "live_conn \<Rightarrow> (counters \<Rightarrow> counters) \<Rightarrow> 'a conn_entry_scheme \<Rightarrow> 'a conn_entry_scheme" where
  "count_entry k f e = e\<lparr>en_counters := f (en_counters e), en_last_seen_at := k_lastSeenAt k,
     en_state := k_state k, en_path := k_transportPath k\<rparr>"

definition count_connection :: "live_conn \<Rightarrow> (counters \<Rightarrow> counters) \<Rightarrow> store \<Rightarrow> store" where
  "count_connection k f s = (case k_role k of
     Agent \<Rightarrow> (case jget (rs_agents s) (k_id k) of None \<Rightarrow> s
        | Some e \<Rightarrow> s\<lparr>rs_agents := jput (k_id k) (count_entry k f e) (rs_agents s)\<rparr>)
   | Mobile \<Rightarrow> (case jget (rs_apps s) (k_id k) of None \<Rightarrow> s
        | Some e \<Rightarrow> s\<lparr>rs_apps := jput (k_id k) (count_entry k f e) (rs_apps s)\<rparr>)
   | Unknown \<Rightarrow> s)"

definition count_link :: "live_conn \<Rightarrow> direction \<Rightarrow> string option \<Rightarrow> nat \<Rightarrow> (counters \<Rightarrow> counters) \<Rightarrow> store \<Rightarrow> store" where
  "count_link k dir app bytes f s =
     (let id = linkIdForTraffic k app s
      in if \<not> truthy id then s else case jget (rs_links s) (the id) of
           None \<Rightarrow> s
         | Some l \<Rightarrow> (let l = l\<lparr>ln_counters := f (ln_counters l)\<rparr>;
                          l = (if dir = In then incrementLinkDirection k bytes l else l)
                      in s\<lparr>rs_links := jput (the id) (l\<lparr>ln_last_seen_at := k_lastSeenAt k,
                             ln_path := k_transportPath k\<rparr>) (rs_links s)\<rparr>))"

definition recordTraffic :: "live_conn \<Rightarrow> direction \<Rightarrow> string \<Rightarrow> string option \<Rightarrow> nat \<Rightarrow> int \<Rightarrow> store \<Rightarrow> store" where
  "recordTraffic k dir type app bytes now s =
     (let f = incrementCounters dir type bytes;
          s = s\<lparr>rs_counters := f (rs_counters s)\<rparr>;
          s = (if truthy (k_deviceId k) then
                 (let d = the (k_deviceId k); v = ensureDevice d now s
                  in addPendingDeviceTraffic d dir bytes
                       (put_device d (v\<lparr>dv_counters := f (dv_counters v)\<rparr>) s))
               else s)
      in count_link k dir app bytes f (count_connection k f s))"

section \<open>The rest of the operations\<close>

definition recordAuthFailed :: "store \<Rightarrow> store" where
  "recordAuthFailed s = s\<lparr>rs_auth_failed := rs_auth_failed s + 1\<rparr>"

definition recordRouteDropped :: "store \<Rightarrow> store" where
  "recordRouteDropped s = s\<lparr>rs_dropped := rs_dropped s + 1\<rparr>"

definition recordProtocolErrorSent :: "store \<Rightarrow> store" where
  "recordProtocolErrorSent s = s\<lparr>rs_errors_sent := rs_errors_sent s + 1\<rparr>"

definition flushDeviceStatus :: "int \<Rightarrow> store \<Rightarrow> store" where
  "flushDeviceStatus now s =
     (on_statuses (fold (\<lambda>(d, x). addTraffic d x now) (rs_pending s)) s)\<lparr>rs_pending := []\<rparr>"

definition sweep :: "int \<Rightarrow> int \<Rightarrow> store \<Rightarrow> store" where
  "sweep retention now s =
     on_statuses (\<lambda>t. fst (pruneOffline (now - retention) t)) (flushDeviceStatus now s)"

text \<open>One event of the relay: a call of the store, with the connection as it is at that moment.\<close>

datatype store_event =
    Registers live_conn | Closes string | Agent_joins live_conn | App_joins live_conn
  | Authenticates live_conn "string option"
  | Links string string string link_state path "string option"
  | Carries live_conn direction string "string option" nat
  | Auth_fails | Route_drops | Error_sent | Flushes | Sweeps int

fun store_step :: "store_event \<times> int \<Rightarrow> store \<Rightarrow> store" where
  "store_step (Registers k, now) s = registerConnection k s"
| "store_step (Closes c, now) s = closeConnection c now s"
| "store_step (Agent_joins k, now) s = registerAgent k s"
| "store_step (App_joins k, now) s = registerApp k s"
| "store_step (Authenticates k agent, now) s = authenticateApp k agent now s"
| "store_step (Links d a c st p e2e, now) s = createOrUpdateLink d a c st p e2e now s"
| "store_step (Carries k dir type app bytes, now) s = recordTraffic k dir type app bytes now s"
| "store_step (Auth_fails, now) s = recordAuthFailed s"
| "store_step (Route_drops, now) s = recordRouteDropped s"
| "store_step (Error_sent, now) s = recordProtocolErrorSent s"
| "store_step (Flushes, now) s = flushDeviceStatus now s"
| "store_step (Sweeps retention, now) s = sweep retention now s"

end
