(* ===== verification/StateTraffic.thy ===== *)
theory StateTraffic
  imports RelayState
begin

text \<open>
  The shape of the state store and its accounting. \<open>store_wf\<close> is the invariant of its data: keys are
  unique and agree with the entries, the tallies by message type add up to the message counts, and a
  link's two directions add up to its bytes. \<open>credit\<close> is what is booked for a device, in its row
  and still pending.
\<close>

declare map_of_eq_Some_iff [simp del] Some_eq_map_of_iff [simp del]

section \<open>Tallies\<close>

definition tally_sum :: "('k, nat) jmap \<Rightarrow> nat" where
  "tally_sum m = sum_list (map snd m)"

lemma tally_sum_put:
  "jwf m \<Longrightarrow> tally_sum (jput k n m) + case_option 0 id (jget m k) = tally_sum m + n"
proof (induction m)
  case Nil
  then show ?case by (simp add: tally_sum_def)
next
  case (Cons p m)
  obtain a b where p: "p = (a, b)" by (cases p)
  show ?case
  proof (cases "a = k")
    case True
    with p show ?thesis by (simp add: tally_sum_def)
  next
    case False
    have "tally_sum (jput k n m) + case_option 0 id (jget m k) = tally_sum m + n"
      using Cons by simp
    with False p show ?thesis by (simp add: tally_sum_def)
  qed
qed

lemma jwf_tally [simp, intro]: "jwf m \<Longrightarrow> jwf (tally k n m)"
  by (auto simp: tally_def)

lemma tally_sum_tally: "jwf m \<Longrightarrow> tally_sum (tally k n m) = tally_sum m + n"
  using tally_sum_put[of m k "case_option 0 id (jget m k) + n"] by (simp add: tally_def)

lemma tally_sum_merge:
  "jwf target \<Longrightarrow> jwf (mergeCounterMap target source)
     \<and> tally_sum (mergeCounterMap target source) = tally_sum target + tally_sum source"
  unfolding mergeCounterMap_def
  by (induction source arbitrary: target)
     (auto simp: tally_sum_tally[unfolded tally_sum_def] tally_sum_def split_beta)

definition counters_ok :: "counters \<Rightarrow> bool" where
  "counters_ok k \<longleftrightarrow> jwf (messages_in_by_type k) \<and> jwf (messages_out_by_type k)
     \<and> tally_sum (messages_in_by_type k) = messages_in k
     \<and> tally_sum (messages_out_by_type k) = messages_out k"

lemma counters_ok_empty [simp]: "counters_ok emptyCounters"
  by (simp add: counters_ok_def emptyCounters_def tally_sum_def)

lemma counters_ok_increment [simp, intro]: "counters_ok k \<Longrightarrow> counters_ok (incrementCounters dir type n k)"
  by (cases dir) (auto simp: counters_ok_def incrementCounters_def tally_sum_tally)

lemma counters_ok_merge: "counters_ok a \<Longrightarrow> counters_ok b \<Longrightarrow> counters_ok (mergeCounters a b)"
  by (simp add: counters_ok_def mergeCounters_def tally_sum_merge)

section \<open>Well-formed stores\<close>

definition jall :: "('k \<Rightarrow> 'v \<Rightarrow> bool) \<Rightarrow> ('k, 'v) jmap \<Rightarrow> bool" where
  "jall P m \<longleftrightarrow> (\<forall>k v. jget m k = Some v \<longrightarrow> P k v)"

lemma jallD: "jall P m \<Longrightarrow> jget m k = Some v \<Longrightarrow> P k v"
  by (simp add: jall_def)

lemma jall_empty [simp]: "jall P []"
  by (simp add: jall_def)

lemma jall_put [intro]: "jall P m \<Longrightarrow> P k v \<Longrightarrow> jall P (jput k v m)"
  by (simp add: jall_def)

lemma jall_del [intro]: "jall P m \<Longrightarrow> jall P (jdel k m)"
  by (simp add: jall_def)

definition entry_wf :: "string \<Rightarrow> 'a conn_entry_scheme \<Rightarrow> bool" where
  "entry_wf c e \<longleftrightarrow> en_connection_id e = c \<and> counters_ok (en_counters e)"

definition link_wf :: "string \<Rightarrow> link_entry \<Rightarrow> bool" where
  "link_wf l x \<longleftrightarrow> ln_link_id x = l \<and> counters_ok (ln_counters x)
     \<and> ln_app_to_agent x + ln_agent_to_app x = bytes_in (ln_counters x)"

definition device_wf :: "string \<Rightarrow> device_entry \<Rightarrow> bool" where
  "device_wf d v \<longleftrightarrow> counters_ok (dv_counters v) \<and> distinct (dv_agents v) \<and> distinct (dv_apps v)
     \<and> distinct (dv_links v)"

definition keys_unique :: "store \<Rightarrow> bool" where
  "keys_unique s \<longleftrightarrow> jwf (rs_devices s) \<and> jwf (rs_agents s) \<and> jwf (rs_apps s) \<and> jwf (rs_links s)
     \<and> jwf (rs_linkByApp s) \<and> jwf (rs_pending s) \<and> pred_option (\<lambda>t. jwf t) (rs_statuses s)
     \<and> distinct (rs_connections s)"

definition store_wf :: "store \<Rightarrow> bool" where
  "store_wf s \<longleftrightarrow> keys_unique s \<and> counters_ok (rs_counters s) \<and> jall device_wf (rs_devices s)
     \<and> jall entry_wf (rs_agents s) \<and> jall entry_wf (rs_apps s) \<and> jall link_wf (rs_links s)"

lemma store_wfD:
  "store_wf s \<Longrightarrow> jget (rs_devices s) d = Some v \<Longrightarrow> device_wf d v"
  "store_wf s \<Longrightarrow> jget (rs_agents s) c = Some e \<Longrightarrow> entry_wf c e"
  "store_wf s \<Longrightarrow> jget (rs_apps s) c = Some p \<Longrightarrow> entry_wf c p"
  "store_wf s \<Longrightarrow> jget (rs_links s) l = Some x \<Longrightarrow> link_wf l x"
  by (auto simp: store_wf_def jall_def)

lemma device_wf_new [simp]: "device_wf d (new_device now)"
  by (simp add: device_wf_def new_device_def)

lemma ensureDevice_wf: "store_wf s \<Longrightarrow> device_wf d (ensureDevice d now s)"
  by (auto simp: ensureDevice_def store_wf_def dest: jallD split: option.splits)

lemma wf_put_device: "store_wf s \<Longrightarrow> device_wf d v \<Longrightarrow> store_wf (put_device d v s)"
  by (auto simp: store_wf_def keys_unique_def put_device_def)

lemma wf_on_device:
  "store_wf s \<Longrightarrow> (\<And>v. device_wf d v \<Longrightarrow> device_wf d (f v)) \<Longrightarrow> store_wf (on_device d f s)"
  by (auto simp: on_device_def store_wf_def intro!: wf_put_device[unfolded store_wf_def] dest: jallD split: option.splits)

lemma wf_on_statuses:
  "store_wf s \<Longrightarrow> (\<And>t. jwf t \<Longrightarrow> jwf (f t)) \<Longrightarrow> store_wf (on_statuses f s)"
  by (auto simp: store_wf_def keys_unique_def on_statuses_def option.pred_map pred_option_def)

lemma wf_agents: "store_wf s \<Longrightarrow> entry_wf c e \<Longrightarrow> store_wf (s\<lparr>rs_agents := jput c e (rs_agents s)\<rparr>)"
  by (auto simp: store_wf_def keys_unique_def)

lemma wf_apps: "store_wf s \<Longrightarrow> entry_wf c e \<Longrightarrow> store_wf (s\<lparr>rs_apps := jput c e (rs_apps s)\<rparr>)"
  by (auto simp: store_wf_def keys_unique_def)

lemma wf_links: "store_wf s \<Longrightarrow> link_wf l x \<Longrightarrow> store_wf (s\<lparr>rs_links := jput l x (rs_links s)\<rparr>)"
  by (auto simp: store_wf_def keys_unique_def)

lemma wf_refresh:
  assumes "store_wf s"
  shows "store_wf (refreshDeviceStatus d now cause s)"
proof (cases "jget (rs_devices s) d")
  case None
  with assms show ?thesis by (simp add: refreshDeviceStatus_def)
next
  case (Some v)
  define st where "st = presence_of (activeCount entry_closed (dv_agents v) (rs_agents s))
                      (activeCount entry_closed (dv_apps v) (rs_apps s))"
  define u where "u = cause ((status_note d st now)\<lparr>up_offline_at := (if st = Offline then Some now else None)\<rparr>)"
  define t where "t = on_statuses (upsert u) (put_device d (v\<lparr>dv_last_seen_at := now, dv_status := st\<rparr>) s)"
  have "device_wf d v" using assms Some by (rule store_wfD)
  then have "store_wf t" unfolding t_def
    by (intro wf_on_statuses wf_put_device assms) (auto simp: device_wf_def upsert_def)
  moreover from this have "store_wf (t\<lparr>rs_devices := jdel d (rs_devices t)\<rparr>)"
    by (auto simp: store_wf_def keys_unique_def)
  moreover have "refreshDeviceStatus d now cause s = t
      \<or> refreshDeviceStatus d now cause s = t\<lparr>rs_devices := jdel d (rs_devices t)\<rparr>"
    by (simp add: refreshDeviceStatus_def Some Let_def t_def u_def st_def)
  ultimately show ?thesis by metis
qed

lemma wf_drop_link: "store_wf s \<Longrightarrow> store_wf (drop_link c d s)"
  by (auto simp: drop_link_def intro!: wf_on_device split: option.splits)
     (auto simp: store_wf_def keys_unique_def device_wf_def)

lemma wf_close_agent: "store_wf s \<Longrightarrow> store_wf (close_agent c now s)"
  by (auto simp: close_agent_def intro!: wf_refresh wf_on_device split: option.splits)
     (auto simp: store_wf_def keys_unique_def device_wf_def)

lemma wf_close_app: "store_wf s \<Longrightarrow> store_wf (close_app c now s)"
  by (auto simp: close_app_def intro!: wf_refresh wf_drop_link wf_on_device split: option.splits)
     (auto simp: store_wf_def keys_unique_def device_wf_def)

lemma wf_connections: "store_wf s \<Longrightarrow> distinct cs \<Longrightarrow> store_wf (s\<lparr>rs_connections := cs\<rparr>)"
  by (simp add: store_wf_def keys_unique_def)

lemma wf_closeConnection: "store_wf s \<Longrightarrow> store_wf (closeConnection c now s)"
  unfolding closeConnection_def
  by (intro wf_close_app wf_close_agent wf_connections) (auto simp: store_wf_def keys_unique_def)

lemma wf_new_entry: "entry_wf (k_id k) (new_entry d k)" "entry_wf (k_id k) (new_app_entry d k)"
  by (simp_all add: entry_wf_def new_entry_def new_app_entry_def conn_entry.defs)

lemma wf_registerAgent: "store_wf s \<Longrightarrow> store_wf (registerAgent k s)"
  unfolding registerAgent_def Let_def
  by (auto intro!: wf_agents wf_on_statuses wf_put_device wf_new_entry simp: upsert_def)
     (auto simp: device_wf_def dest: ensureDevice_wf[unfolded device_wf_def])

lemma wf_registerApp: "store_wf s \<Longrightarrow> store_wf (registerApp k s)"
  unfolding registerApp_def Let_def
  by (auto intro!: wf_apps wf_on_statuses wf_put_device wf_new_entry simp: upsert_def)
     (auto simp: device_wf_def dest: ensureDevice_wf[unfolded device_wf_def])

lemma wf_createOrUpdateLink:
  assumes "store_wf s"
  shows "store_wf (createOrUpdateLink d a c st p session now s)"
proof -
  define l where "l = (case jget (rs_linkByApp s) c of Some l \<Rightarrow> l | None \<Rightarrow> link_id_for d a c)"
  define x where "x = (case jget (rs_links s) l of Some x \<Rightarrow> x | None \<Rightarrow> new_link l d a c st p now)"
  define v where "v = ensureDevice d now s"
  have "link_wf l x" using assms
    by (auto simp: x_def store_wf_def link_wf_def new_link_def emptyCounters_def counters_ok_def tally_sum_def
        dest: jallD split: option.splits)
  then have "store_wf (s\<lparr>rs_links := jput l (x\<lparr>ln_state := st, ln_last_seen_at := now, ln_path := p,
      ln_session := session\<rparr>) (rs_links s), rs_linkByApp := jput c l (rs_linkByApp s)\<rparr>)" (is "store_wf ?t")
    using assms by (auto simp: store_wf_def keys_unique_def link_wf_def)
  moreover have "device_wf d (v\<lparr>dv_links := jset_add l (dv_links v), dv_last_seen_at := now\<rparr>)"
    using ensureDevice_wf[OF assms, of d now] by (simp add: v_def device_wf_def)
  ultimately have "store_wf (on_statuses (upsert (status_note d (dv_status v) now))
      (put_device d (v\<lparr>dv_links := jset_add l (dv_links v), dv_last_seen_at := now\<rparr>) ?t))"
    by (intro wf_on_statuses wf_put_device) (auto simp: upsert_def)
  then show ?thesis by (simp only: createOrUpdateLink_def Let_def l_def x_def v_def)
qed

lemma wf_authenticateApp: "store_wf s \<Longrightarrow> store_wf (authenticateApp k agent now s)"
proof -
  assume "store_wf s"
  then have r: "store_wf (registerApp k s)" (is "store_wf ?r") by (rule wf_registerApp)
  have "store_wf (?r\<lparr>rs_apps := jput (k_id k) (p\<lparr>en_state := k_state k, en_auth_state := k_authState k,
         en_last_seen_at := k_lastSeenAt k\<rparr>) (rs_apps ?r)\<rparr>)" if "jget (rs_apps ?r) (k_id k) = Some p" for p
  proof (rule wf_apps[OF r])
    have "entry_wf (k_id k) p" by (rule store_wfD(3)[OF r that])
    then show "entry_wf (k_id k) (p\<lparr>en_state := k_state k, en_auth_state := k_authState k,
         en_last_seen_at := k_lastSeenAt k\<rparr>)" by (simp add: entry_wf_def)
  qed
  with r have "store_wf (case jget (rs_apps ?r) (k_id k) of None \<Rightarrow> ?r
      | Some p \<Rightarrow> ?r\<lparr>rs_apps := jput (k_id k) (p\<lparr>en_state := k_state k, en_auth_state := k_authState k,
         en_last_seen_at := k_lastSeenAt k\<rparr>) (rs_apps ?r)\<rparr>)"
    by (cases "jget (rs_apps ?r) (k_id k)") simp_all
  then show ?thesis
    unfolding authenticateApp_def Let_def by (simp only: wf_createOrUpdateLink split: if_split) blast
qed

lemma wf_count_connection:
  assumes s: "store_wf s" and f: "\<And>c. counters_ok c \<Longrightarrow> counters_ok (f c)"
  shows "store_wf (count_connection k f s)"
proof (cases "k_role k")
  case Unknown
  with s show ?thesis by (simp add: count_connection_def)
next
  case Agent
  have "entry_wf c (count_entry k f e)" if "jget (rs_agents s) c = Some e" for c e
    using store_wfD(2)[OF s that] f by (simp add: entry_wf_def count_entry_def)
  with Agent s show ?thesis by (auto simp: count_connection_def intro!: wf_agents split: option.splits)
next
  case Mobile
  have "entry_wf c (count_entry k f e)" if "jget (rs_apps s) c = Some e" for c e
    using store_wfD(3)[OF s that] f by (simp add: entry_wf_def count_entry_def)
  with Mobile s show ?thesis by (auto simp: count_connection_def intro!: wf_apps split: option.splits)
qed

text \<open>An outgoing message adds to neither direction of the link and to none of its incoming bytes.\<close>

lemma link_wf_count:
  assumes "link_wf l x" and "k_role k \<noteq> Unknown"
  shows "link_wf l ((if dir = In then incrementLinkDirection k bytes
      (x\<lparr>ln_counters := incrementCounters dir type bytes (ln_counters x)\<rparr>)
      else x\<lparr>ln_counters := incrementCounters dir type bytes (ln_counters x)\<rparr>)
      \<lparr>ln_last_seen_at := seen, ln_path := p\<rparr>)"
proof (cases dir)
  case In
  with assms show ?thesis
    by (cases "k_role k") (auto simp: link_wf_def incrementLinkDirection_def, auto simp: incrementCounters_def)
next
  case Out
  with assms show ?thesis by (auto simp: link_wf_def) (simp add: incrementCounters_def)
qed

lemma wf_count_link:
  assumes s: "store_wf s"
  shows "store_wf (count_link k dir app bytes (incrementCounters dir type bytes) s)"
proof (cases "truthy (linkIdForTraffic k app s)")
  case False
  with s show ?thesis by (simp add: count_link_def Let_def)
next
  case True
  then have role: "k_role k \<noteq> Unknown" by (auto simp: linkIdForTraffic_def truthy_def)
  show ?thesis
  proof (cases "jget (rs_links s) (the (linkIdForTraffic k app s))")
    case None
    with s show ?thesis by (simp add: count_link_def Let_def)
  next
    case (Some x)
    then have "link_wf (the (linkIdForTraffic k app s)) x" by (rule store_wfD(4)[OF s])
    note link_wf_count[OF this role, where dir = dir and bytes = bytes and type = type
        and seen = "k_lastSeenAt k" and p = "k_transportPath k"]
    from wf_links[OF s this] True Some show ?thesis by (simp add: count_link_def Let_def)
  qed
qed

lemma wf_counted:
  assumes "store_wf s"
  shows "store_wf (addPendingDeviceTraffic d dir bytes (put_device d ((ensureDevice d now s)
      \<lparr>dv_counters := incrementCounters dir type bytes (dv_counters (ensureDevice d now s))\<rparr>) s))"
proof -
  have "store_wf (put_device d ((ensureDevice d now s)
      \<lparr>dv_counters := incrementCounters dir type bytes (dv_counters (ensureDevice d now s))\<rparr>) s)"
    using assms ensureDevice_wf[OF assms, of d now] by (intro wf_put_device) (auto simp: device_wf_def)
  then show ?thesis by (auto simp: addPendingDeviceTraffic_def store_wf_def keys_unique_def)
qed

lemma wf_recordTraffic:
  assumes "store_wf s"
  shows "store_wf (recordTraffic k dir type app bytes now s)"
proof -
  define s1 where "s1 = s\<lparr>rs_counters := incrementCounters dir type bytes (rs_counters s)\<rparr>"
  have "store_wf s1" using assms by (auto simp: s1_def store_wf_def keys_unique_def)
  note wf_counted[OF this, where d = "the (k_deviceId k)" and dir = dir and bytes = bytes and now = now and type = type]
  with \<open>store_wf s1\<close> show ?thesis
    by (auto simp: recordTraffic_def Let_def s1_def[symmetric] intro!: wf_count_link wf_count_connection)
qed

lemma wf_flush: "store_wf s \<Longrightarrow> store_wf (flushDeviceStatus now s)"
proof -
  assume "store_wf s"
  then have "store_wf (on_statuses (device_status.flush now (rs_pending s)) s)"
    by (intro wf_on_statuses) (auto intro: device_status.ok_flush)
  then show ?thesis
    by (simp add: flushDeviceStatus_def device_status.flush_def[abs_def] store_wf_def keys_unique_def)
qed

lemma wf_step: "store_wf s \<Longrightarrow> store_wf (store_step e s)"
proof (cases "(e, s)" rule: store_step.cases)
  case (12 retention now t)
  assume "store_wf s"
  with 12 have "store_wf (sweep retention now t)"
    unfolding sweep_def by (intro wf_on_statuses wf_flush) (auto intro: device_status.ok_prune)
  with 12 show ?thesis by simp
qed (auto intro: wf_closeConnection wf_registerAgent wf_registerApp wf_authenticateApp wf_createOrUpdateLink
      wf_recordTraffic wf_flush simp: registerConnection_def recordAuthFailed_def recordRouteDropped_def
      recordProtocolErrorSent_def, auto simp: store_wf_def keys_unique_def)

interpretation store_life: invariant_machine store_step store_wf "\<lambda>_. True"
  by unfold_locales (rule wf_step)

lemma new_store_wf: "pred_option (\<lambda>t. jwf t) t \<Longrightarrow> store_wf (new_store now t)"
  by (simp add: store_wf_def new_store_def keys_unique_def)

section \<open>What is booked for a device\<close>

definition delta_plus :: "traffic_delta \<Rightarrow> traffic_delta \<Rightarrow> traffic_delta" where
  "delta_plus a b = \<lparr>dt_bytes_in = dt_bytes_in a + dt_bytes_in b, dt_bytes_out = dt_bytes_out a + dt_bytes_out b,
     dt_messages_in = dt_messages_in a + dt_messages_in b, dt_messages_out = dt_messages_out a + dt_messages_out b\<rparr>"

definition row_delta :: "device_row \<Rightarrow> traffic_delta" where
  "row_delta r = \<lparr>dt_bytes_in = row_bytes_in r, dt_bytes_out = row_bytes_out r,
     dt_messages_in = row_messages_in r, dt_messages_out = row_messages_out r\<rparr>"

lemma delta_plus_simps [simp]:
  "delta_plus a emptyDeviceTrafficDelta = a" "delta_plus emptyDeviceTrafficDelta a = a"
  "delta_plus (delta_plus a b) c = delta_plus a (delta_plus b c)"
  by (simp_all add: delta_plus_def emptyDeviceTrafficDelta_def)

lemma delta_plus_commute: "delta_plus a b = delta_plus b a"
  by (simp add: delta_plus_def)

lemma add_delta_plus: "add_delta dir n x = delta_plus (add_delta dir n emptyDeviceTrafficDelta) x"
  by (cases dir) (simp_all add: add_delta_def delta_plus_def emptyDeviceTrafficDelta_def)

lemma row_delta_credited: "row_delta (credited x now r) = delta_plus (row_delta r) x"
  by (simp add: row_delta_def credited_def delta_plus_def)

lemma row_delta_merged: "row_delta (merged_row u (Some r)) = row_delta r"
  by (simp add: row_delta_def merged_row_def)

definition status_row :: "string \<Rightarrow> store \<Rightarrow> device_row option" where
  "status_row d s = (case rs_statuses s of None \<Rightarrow> None | Some t \<Rightarrow> jget t d)"

definition pending_delta :: "string \<Rightarrow> store \<Rightarrow> traffic_delta" where
  "pending_delta d s = (case jget (rs_pending s) d of Some x \<Rightarrow> x | None \<Rightarrow> emptyDeviceTrafficDelta)"

definition credit :: "string \<Rightarrow> store \<Rightarrow> traffic_delta" where
  "credit d s = delta_plus (case status_row d s of Some r \<Rightarrow> row_delta r | None \<Rightarrow> emptyDeviceTrafficDelta)
     (pending_delta d s)"

text \<open>What an event carries for the device.\<close>

definition carried :: "string \<Rightarrow> store_event \<times> int \<Rightarrow> traffic_delta" where
  "carried d e = (case fst e of
     Carries k dir type app bytes \<Rightarrow>
       if truthy (k_deviceId k) \<and> the (k_deviceId k) = d then add_delta dir bytes emptyDeviceTrafficDelta
       else emptyDeviceTrafficDelta
   | _ \<Rightarrow> emptyDeviceTrafficDelta)"

definition all_carried :: "string \<Rightarrow> (store_event \<times> int) list \<Rightarrow> traffic_delta" where
  "all_carried d es = foldl (\<lambda>x e. delta_plus x (carried d e)) emptyDeviceTrafficDelta es"

text \<open>
  Everything but \<open>recordTraffic\<close>, a flush and a sweep leaves the pending traffic alone and touches the
  table only by upserts: \<open>books\<close> says so, and composes.
\<close>

definition books :: "store \<Rightarrow> store \<Rightarrow> bool" where
  "books s t \<longleftrightarrow> rs_pending t = rs_pending s \<and>
     (\<forall>d r. status_row d s = Some r \<longrightarrow> (\<exists>r'. status_row d t = Some r' \<and> row_delta r' = row_delta r))"

lemma books_refl [simp]: "books s s"
  by (simp add: books_def)

lemma books_trans: "books s t \<Longrightarrow> books t u \<Longrightarrow> books s u"
  unfolding books_def by metis

lemma books_same: "rs_pending t = rs_pending s \<Longrightarrow> rs_statuses t = rs_statuses s \<Longrightarrow> books s t"
  by (simp add: books_def status_row_def)

lemma books_upsert [simp]: "books s (on_statuses (upsert u) s)"
  by (auto simp: books_def on_statuses_def status_row_def upsert_find row_delta_merged split: option.splits)

lemma books_device [simp]: "books s (put_device d v s)" "books s (on_device d f s)"
  by (auto simp: books_same put_device_def on_device_def split: option.splits)

lemma books_refresh [simp]: "books s (refreshDeviceStatus d now cause s)"
proof (cases "jget (rs_devices s) d")
  case None
  then show ?thesis by (simp add: refreshDeviceStatus_def)
next
  case (Some v)
  have up: "books s (on_statuses (upsert u) (put_device d w s))" for u w
    by (rule books_trans[OF books_device(1) books_upsert])
  moreover have "books s ((on_statuses (upsert u) (put_device d w s))\<lparr>rs_devices := m\<rparr>)" for u w m
    by (rule books_trans[OF up[of u w]]) (simp add: books_same)
  ultimately show ?thesis by (simp add: refreshDeviceStatus_def Some Let_def)
qed

lemma books_close: "books s (closeConnection c now s)"
proof -
  have drop: "books s (drop_link c d s)" for s d
    unfolding drop_link_def by (auto intro: books_trans[OF books_same books_device(2)] split: option.splits)
  have agent: "books s (close_agent c now s)" for s
    unfolding close_agent_def
    by (auto intro!: books_trans[OF _ books_refresh] books_trans[OF _ books_device(2)] books_same split: option.splits)
  have app: "books s (close_app c now s)" for s
    unfolding close_app_def
    by (auto intro!: books_trans[OF _ books_refresh] books_trans[OF _ drop] books_trans[OF _ books_device(2)] books_same
        split: option.splits)
  have "books s (s\<lparr>rs_connections := jset_del c (rs_connections s)\<rparr>)" by (simp add: books_same)
  from books_trans[OF books_trans[OF this agent] app] show ?thesis by (simp add: closeConnection_def)
qed

lemma books_fields [simp]:
  "books s (s\<lparr>rs_agents := m\<rparr>)" "books s (s\<lparr>rs_apps := p\<rparr>)"
  "books s (s\<lparr>rs_links := l, rs_linkByApp := b\<rparr>)" "books s (s\<lparr>rs_connections := cs\<rparr>)"
  by (simp_all add: books_same)

lemma books_joins: "books s (registerAgent k s)" "books s (registerApp k s)"
  unfolding registerAgent_def registerApp_def Let_def
  by (auto intro: books_trans[OF books_trans[OF books_device(1) books_upsert] books_fields(1)]
      books_trans[OF books_trans[OF books_device(1) books_upsert] books_fields(2)])

lemma books_link: "books s (createOrUpdateLink d a c st p session now s)"
  unfolding createOrUpdateLink_def Let_def
  by (rule books_trans[OF books_trans[OF books_fields(3) books_device(1)] books_upsert])

lemma books_authenticate: "books s (authenticateApp k agent now s)"
proof -
  have "books s (case jget (rs_apps (registerApp k s)) (k_id k) of None \<Rightarrow> registerApp k s
     | Some p \<Rightarrow> (registerApp k s)\<lparr>rs_apps := f p\<rparr>)" for f
    by (auto intro: books_joins books_trans[OF books_joins(2) books_fields(2)] split: option.splits)
  then show ?thesis
    unfolding authenticateApp_def Let_def by (simp only: books_trans[OF _ books_link] split: if_split) blast
qed

lemma books_credit:
  assumes "books s t" and "status_row d s \<noteq> None"
  shows "credit d t = credit d s"
proof -
  obtain r where r: "status_row d s = Some r" using assms(2) by blast
  with assms(1) obtain r' where "status_row d t = Some r'" "row_delta r' = row_delta r" "rs_pending t = rs_pending s"
    unfolding books_def by blast
  with r show ?thesis by (simp add: credit_def pending_delta_def)
qed

section \<open>Conservation\<close>

lemma recordTraffic_books:
  "status_row d (recordTraffic k dir type app bytes now s) = status_row d s"
  "pending_delta d (recordTraffic k dir type app bytes now s) =
     delta_plus (carried d (Carries k dir type app bytes, now)) (pending_delta d s)"
proof -
  have conn: "rs_statuses (count_connection k f u) = rs_statuses u \<and> rs_pending (count_connection k f u) = rs_pending u"
    for f u by (cases "k_role k") (auto simp: count_connection_def split: option.splits)
  have link: "rs_statuses (count_link k dir app bytes f u) = rs_statuses u
      \<and> rs_pending (count_link k dir app bytes f u) = rs_pending u" for f u
    by (auto simp: count_link_def Let_def split: option.splits)
  show "status_row d (recordTraffic k dir type app bytes now s) = status_row d s"
    by (simp add: recordTraffic_def Let_def status_row_def link conn addPendingDeviceTraffic_def put_device_def)
  show "pending_delta d (recordTraffic k dir type app bytes now s) =
      delta_plus (carried d (Carries k dir type app bytes, now)) (pending_delta d s)"
    by (auto simp: recordTraffic_def Let_def pending_delta_def link conn addPendingDeviceTraffic_def put_device_def
        carried_def add_delta_plus[of dir bytes "case_option _ _ _"] split: option.splits)
qed

lemma flush_credit:
  assumes "store_wf s" and "status_row d s \<noteq> None"
  shows "credit d (flushDeviceStatus now s) = credit d s"
proof -
  obtain t r where t: "rs_statuses s = Some t" "jget t d = Some r"
    using assms(2) by (auto simp: status_row_def split: option.splits)
  have uniq: "distinct (map fst (rs_pending s))" using assms(1) by (simp add: store_wf_def keys_unique_def)
  have "rs_statuses (flushDeviceStatus now s) = Some (device_status.flush now (rs_pending s) t)"
    by (simp add: flushDeviceStatus_def on_statuses_def t device_status.flush_def)
  then have "status_row d (flushDeviceStatus now s) = (case jget (rs_pending s) d of None \<Rightarrow> Some r
      | Some x \<Rightarrow> Some (credited x now r))"
    by (simp add: status_row_def device_status.find_flush[OF uniq] t split: option.splits)
  moreover have "pending_delta d (flushDeviceStatus now s) = emptyDeviceTrafficDelta"
    by (simp add: flushDeviceStatus_def pending_delta_def)
  moreover have "status_row d s = Some r" by (simp add: status_row_def t)
  ultimately show ?thesis by (simp add: credit_def pending_delta_def row_delta_credited split: option.splits)
qed

lemma sweep_credit:
  assumes "store_wf s" and "status_row d (sweep retention now s) \<noteq> None"
  shows "credit d (sweep retention now s) = credit d (flushDeviceStatus now s)"
proof -
  have "store_wf (flushDeviceStatus now s)" using assms(1) by (rule wf_flush)
  then have ok: "pred_option (\<lambda>t. distinct (map fst t)) (rs_statuses (flushDeviceStatus now s))"
    by (simp add: store_wf_def keys_unique_def)
  with assms(2) have "status_row d (sweep retention now s) = status_row d (flushDeviceStatus now s)"
    by (auto simp: sweep_def status_row_def on_statuses_def device_status.find_prune split: option.splits if_splits)
  then show ?thesis by (simp add: credit_def pending_delta_def sweep_def on_statuses_def)
qed

lemma step_credit:
  assumes "store_wf s" and "status_row d s \<noteq> None" and "status_row d (store_step e s) \<noteq> None"
  shows "credit d (store_step e s) = delta_plus (credit d s) (carried d e)"
proof -
  note quiet = books_credit[OF _ assms(2)]
  from assms(3) show ?thesis
  proof (cases "(e, s)" rule: store_step.cases)
    case (12 retention now t)
    with assms show ?thesis by (simp add: sweep_credit flush_credit carried_def)
  next
    case (7 k dir type app bytes now t)
    then show ?thesis
      by (simp add: credit_def recordTraffic_books delta_plus_commute[of "carried d _"])
  qed (use assms in \<open>auto simp: carried_def flush_credit registerConnection_def recordAuthFailed_def
      recordRouteDropped_def recordProtocolErrorSent_def books_same
      intro!: quiet books_close books_joins books_authenticate books_link\<close>)
qed

end
