(* ===== verification/StatePresence.thy ===== *)
theory StatePresence
  imports StateTraffic
begin

text \<open>
  What the state store promises of presence, against an abstract specification: the \<open>roster\<close> keeps only
  which connection serves which device, as an agent or as a phone, and a device is online if an agent
  serves it, degraded if only phones ask for it, and offline otherwise. The store refines the roster
  step by step, whatever the order of its calls. Its device entries and its table of statuses agree
  with it as long as the calls are \<open>lawful\<close>: a connection stays with one device, is
  not registered when closed, and a link is made only for a registered phone.
\<close>

declare map_of_eq_Some_iff [simp del] Some_eq_map_of_iff [simp del]

section \<open>The specification\<close>

record roster =
  ro_agents :: "string \<Rightarrow> string option"
  ro_apps :: "string \<Rightarrow> string option"

definition agents_of :: "string \<Rightarrow> roster \<Rightarrow> string set" where
  "agents_of d r = {c. ro_agents r c = Some d}"

definition apps_of :: "string \<Rightarrow> roster \<Rightarrow> string set" where
  "apps_of d r = {c. ro_apps r c = Some d}"

definition presence :: "string \<Rightarrow> roster \<Rightarrow> presence" where
  "presence d r = (if agents_of d r \<noteq> {} then Online else if apps_of d r \<noteq> {} then Degraded else Offline)"

definition join_agent :: "live_conn \<Rightarrow> roster \<Rightarrow> roster" where
  "join_agent k r = (if truthy (k_deviceId k) then r\<lparr>ro_agents := (ro_agents r)(k_id k := k_deviceId k)\<rparr> else r)"

definition join_app :: "live_conn \<Rightarrow> roster \<Rightarrow> roster" where
  "join_app k r = (if truthy (k_deviceId k) then r\<lparr>ro_apps := (ro_apps r)(k_id k := k_deviceId k)\<rparr> else r)"

fun roster_step :: "store_event \<Rightarrow> roster \<Rightarrow> roster" where
  "roster_step (Agent_joins k) r = join_agent k r"
| "roster_step (App_joins k) r = join_app k r"
| "roster_step (Authenticates k agent) r = join_app k r"
| "roster_step (Closes c) r = r\<lparr>ro_agents := (ro_agents r)(c := None), ro_apps := (ro_apps r)(c := None)\<rparr>"
| "roster_step _ r = r"

definition roster_of :: "store \<Rightarrow> roster" where
  "roster_of s = \<lparr>ro_agents = (\<lambda>c. map_option en_device_id (jget (rs_agents s) c)),
     ro_apps = (\<lambda>c. map_option en_device_id (jget (rs_apps s) c))\<rparr>"

section \<open>The store refines the roster\<close>

lemma roster_same:
  "rs_agents t = rs_agents s \<Longrightarrow> rs_apps t = rs_apps s \<Longrightarrow> roster_of t = roster_of s"
  by (simp add: roster_of_def)

lemma people_prims [simp]:
  "rs_agents (put_device d v s) = rs_agents s" "rs_apps (put_device d v s) = rs_apps s"
  "rs_agents (on_statuses f s) = rs_agents s" "rs_apps (on_statuses f s) = rs_apps s"
  "rs_agents (on_device d g s) = rs_agents s" "rs_apps (on_device d g s) = rs_apps s"
  by (auto simp: put_device_def on_statuses_def on_device_def split: option.splits)

lemma people_refresh [simp]:
  "rs_agents (refreshDeviceStatus d now cause s) = rs_agents s"
  "rs_apps (refreshDeviceStatus d now cause s) = rs_apps s"
  by (auto simp: refreshDeviceStatus_def Let_def split: option.splits)

lemma people_drop [simp]: "rs_agents (drop_link c d s) = rs_agents s" "rs_apps (drop_link c d s) = rs_apps s"
  by (auto simp: drop_link_def split: option.splits)

lemma people_link [simp]:
  "rs_agents (createOrUpdateLink d a c st p session now s) = rs_agents s"
  "rs_apps (createOrUpdateLink d a c st p session now s) = rs_apps s"
  by (simp_all add: createOrUpdateLink_def Let_def)

lemma people_flush [simp]:
  "rs_agents (flushDeviceStatus now s) = rs_agents s" "rs_apps (flushDeviceStatus now s) = rs_apps s"
  by (simp_all add: flushDeviceStatus_def)

lemma roster_prims [simp]:
  "roster_of (put_device d v s) = roster_of s" "roster_of (on_statuses f s) = roster_of s"
  "roster_of (createOrUpdateLink d a c st p session now s) = roster_of s"
  "roster_of (flushDeviceStatus now s) = roster_of s" "roster_of (s\<lparr>rs_counters := k\<rparr>) = roster_of s"
  "roster_of (addPendingDeviceTraffic d dir bytes s) = roster_of s"
  by (simp_all add: roster_of_def addPendingDeviceTraffic_def)

lemma served_put [simp]:
  "(\<lambda>c. map_option f (jget (jput k v m) c)) = (\<lambda>c. map_option f (jget m c))(k := Some (f v))"
  "(\<lambda>c. map_option f (jget (jdel k m) c)) = (\<lambda>c. map_option f (jget m c))(k := None)"
  by (simp_all add: fun_eq_iff)

lemma roster_agent: "roster_of (registerAgent k s) = join_agent k (roster_of s)"
proof (cases "truthy (k_deviceId k)")
  case False
  then show ?thesis by (simp add: registerAgent_def join_agent_def)
next
  case True
  then obtain d where "k_deviceId k = Some d" by (auto simp: truthy_def)
  with True show ?thesis
    by (simp add: registerAgent_def Let_def join_agent_def) (simp add: roster_of_def new_entry_def fun_eq_iff)
qed

lemma roster_app: "roster_of (registerApp k s) = join_app k (roster_of s)"
proof (cases "truthy (k_deviceId k)")
  case False
  then show ?thesis by (simp add: registerApp_def join_app_def)
next
  case True
  then obtain d where "k_deviceId k = Some d" by (auto simp: truthy_def)
  with True show ?thesis
    by (simp add: registerApp_def Let_def join_app_def)
       (simp add: roster_of_def new_app_entry_def new_entry_def conn_entry.defs fun_eq_iff)
qed

lemma roster_close_agent:
  "roster_of (close_agent c now s) = (roster_of s)\<lparr>ro_agents := (ro_agents (roster_of s))(c := None)\<rparr>"
  by (auto simp: close_agent_def roster_of_def split: option.splits)

lemma roster_close_app:
  "roster_of (close_app c now s) = (roster_of s)\<lparr>ro_apps := (ro_apps (roster_of s))(c := None)\<rparr>"
  by (auto simp: close_app_def roster_of_def split: option.splits)

lemma roster_close:
  "roster_of (closeConnection c now s) = roster_step (Closes c) (roster_of s)"
  by (simp add: closeConnection_def roster_close_app roster_close_agent) (simp add: roster_of_def)

lemma roster_authenticate: "roster_of (authenticateApp k agent now s) = join_app k (roster_of s)"
proof -
  define t where "t = (case jget (rs_apps (registerApp k s)) (k_id k) of None \<Rightarrow> registerApp k s
     | Some p \<Rightarrow> (registerApp k s)\<lparr>rs_apps := jput (k_id k) (p\<lparr>en_state := k_state k,
         en_auth_state := k_authState k, en_last_seen_at := k_lastSeenAt k\<rparr>) (rs_apps (registerApp k s))\<rparr>)"
  have "roster_of t = roster_of (registerApp k s)"
    by (cases "jget (rs_apps (registerApp k s)) (k_id k)") (simp_all add: t_def roster_of_def fun_eq_iff)
  moreover have "roster_of (authenticateApp k agent now s) = roster_of t"
    unfolding authenticateApp_def Let_def t_def[symmetric] by simp
  ultimately show ?thesis by (simp add: roster_app)
qed

lemma roster_traffic: "roster_of (recordTraffic k dir type app bytes now s) = roster_of s"
proof -
  have "roster_of (count_link k dir app bytes f t) = roster_of t" for f t
    by (auto simp: count_link_def Let_def roster_of_def split: option.splits)
  moreover have "roster_of (count_connection k f t) = roster_of t" for f t
    by (cases "k_role k")
       (auto simp: count_connection_def roster_of_def count_entry_def fun_eq_iff split: option.splits)
  ultimately show ?thesis by (simp add: recordTraffic_def Let_def)
qed

lemma roster_refines: "roster_of (store_step e s) = roster_step (fst e) (roster_of s)"
  by (cases "(e, s)" rule: store_step.cases)
     (simp_all add: roster_close roster_agent roster_app roster_authenticate roster_traffic sweep_def
       del: roster_step.simps(4),
      simp_all add: roster_of_def registerConnection_def recordAuthFailed_def recordRouteDropped_def
       recordProtocolErrorSent_def)

lemma roster_run: "roster_of (fold store_step es s) = fold (\<lambda>e. roster_step (fst e)) es (roster_of s)"
  by (induction es arbitrary: s) (simp_all add: roster_refines)

end
