(* ===== verification/StatePromise.thy ===== *)
theory StatePromise
  imports StatePresence
begin

text \<open>
  The device entries and the persisted statuses agree with the roster along lawful runs.
  \<open>agrees d s\<close> is the agreement for one device: its sets are exactly the connections that
  serve it, its status is the roster's as long as somebody serves it, and so is its row's.
\<close>

declare map_of_eq_Some_iff [simp del] Some_eq_map_of_iff [simp del]

section \<open>Lawful calls and the agreement\<close>

definition keeps_device :: "(string \<Rightarrow> string option) \<Rightarrow> live_conn \<Rightarrow> bool" where
  "keeps_device served k \<longleftrightarrow> k_state k \<noteq> Closed \<and> (served (k_id k) = None \<or> served (k_id k) = k_deviceId k)"

definition lawful :: "store_event \<Rightarrow> store \<Rightarrow> bool" where
  "lawful e s = (case e of
     Agent_joins k \<Rightarrow> keeps_device (ro_agents (roster_of s)) k
   | App_joins k \<Rightarrow> keeps_device (ro_apps (roster_of s)) k
   | Authenticates k agent \<Rightarrow> keeps_device (ro_apps (roster_of s)) k
   | Links d a c st p session \<Rightarrow> ro_apps (roster_of s) c = Some d
   | Carries k dir type app bytes \<Rightarrow> k_state k \<noteq> Closed
   | _ \<Rightarrow> True)"

definition open_entries :: "store \<Rightarrow> bool" where
  "open_entries s \<longleftrightarrow> jall (\<lambda>c e. \<not> entry_closed e) (rs_agents s) \<and> jall (\<lambda>c e. \<not> entry_closed e) (rs_apps s)"

definition sets_agree :: "string \<Rightarrow> store \<Rightarrow> bool" where
  "sets_agree d s = (case jget (rs_devices s) d of
     None \<Rightarrow> agents_of d (roster_of s) = {} \<and> apps_of d (roster_of s) = {}
   | Some v \<Rightarrow> set (dv_agents v) = agents_of d (roster_of s) \<and> set (dv_apps v) = apps_of d (roster_of s))"

definition status_agrees :: "string \<Rightarrow> store \<Rightarrow> bool" where
  "status_agrees d s = (case jget (rs_devices s) d of
     None \<Rightarrow> True
   | Some v \<Rightarrow> presence d (roster_of s) \<noteq> Offline \<longrightarrow> dv_status v = presence d (roster_of s))"

definition row_agrees :: "string \<Rightarrow> store \<Rightarrow> bool" where
  "row_agrees d s = (case status_row d s of
     None \<Rightarrow> presence d (roster_of s) = Offline
   | Some r \<Rightarrow> row_status r = presence d (roster_of s))"

definition agrees :: "string \<Rightarrow> store \<Rightarrow> bool" where
  "agrees d s \<longleftrightarrow> sets_agree d s \<and> status_agrees d s \<and> row_agrees d s"

definition presence_ok :: "store \<Rightarrow> bool" where
  "presence_ok s \<longleftrightarrow> store_wf s \<and> rs_statuses s \<noteq> None \<and> open_entries s \<and> (\<forall>d. agrees d s)"

section \<open>Frames\<close>

lemma activeCount_pos: "activeCount ended ids m > 0 \<longleftrightarrow> (\<exists>i \<in> set ids. \<exists>e. jget m i = Some e \<and> \<not> ended e)"
  by (auto simp: activeCount_def filter_empty_conv split: option.splits)

text \<open>An operation that leaves a device's people, entry and row status alone leaves the agreement alone.\<close>

lemma agrees_frame:
  assumes "agrees d s"
    and "agents_of d (roster_of t) = agents_of d (roster_of s)" "apps_of d (roster_of t) = apps_of d (roster_of s)"
    and "jget (rs_devices t) d = jget (rs_devices s) d"
    and "map_option row_status (status_row d t) = map_option row_status (status_row d s)"
  shows "agrees d t"
proof -
  have "presence d (roster_of t) = presence d (roster_of s)" using assms(2, 3) by (simp add: presence_def)
  with assms show ?thesis
    by (cases "status_row d s"; cases "status_row d t"; cases "jget (rs_devices s) d")
       (simp_all add: agrees_def sets_agree_def status_agrees_def row_agrees_def)
qed

lemma devices_prims [simp]:
  "rs_devices (put_device d v s) = jput d v (rs_devices s)" "rs_devices (on_statuses f s) = rs_devices s"
  "status_row d' (put_device d v s) = status_row d' s"
  "rs_statuses (put_device d v s) = rs_statuses s"
  "(rs_statuses (on_statuses f s) = None) = (rs_statuses s = None)"
  by (simp_all add: put_device_def on_statuses_def status_row_def)

lemma refresh_statuses [simp]: "(rs_statuses (refreshDeviceStatus d now cause s) = None) = (rs_statuses s = None)"
  by (cases "jget (rs_devices s) d") (simp_all add: refreshDeviceStatus_def Let_def del: not_None_eq)

lemma status_row_upsert:
  "rs_statuses s \<noteq> None \<Longrightarrow> status_row d (on_statuses (upsert u) s) =
     (if d = up_device u then Some (merged_row u (status_row d s)) else status_row d s)"
  by (auto simp: status_row_def on_statuses_def upsert_find)

lemma merged_status [simp]: "row_status (merged_row u r) = up_status u"
  by (simp add: merged_row_def split: option.splits)

lemma note_fields [simp]: "up_device (status_note d st now) = d" "up_status (status_note d st now) = st"
  by (simp_all add: status_note_def)

section \<open>Refreshing a device\<close>

definition keeps_note :: "(status_upsert \<Rightarrow> status_upsert) \<Rightarrow> bool" where
  "keeps_note cause \<longleftrightarrow> (\<forall>u. up_device (cause u) = up_device u \<and> up_status (cause u) = up_status u)"

lemma counted_presence:
  assumes "open_entries s" and "set (dv_agents v) = agents_of d (roster_of s)" "set (dv_apps v) = apps_of d (roster_of s)"
  shows "presence_of (activeCount entry_closed (dv_agents v) (rs_agents s))
      (activeCount entry_closed (dv_apps v) (rs_apps s)) = presence d (roster_of s)"
proof -
  have "activeCount entry_closed (dv_agents v) (rs_agents s) > 0 \<longleftrightarrow> agents_of d (roster_of s) \<noteq> {}"
    using assms(1) unfolding activeCount_pos assms(2)
    by (fastforce simp: agents_of_def roster_of_def open_entries_def jall_def)
  moreover have "activeCount entry_closed (dv_apps v) (rs_apps s) > 0 \<longleftrightarrow> apps_of d (roster_of s) \<noteq> {}"
    using assms(1) unfolding activeCount_pos assms(3)
    by (fastforce simp: apps_of_def roster_of_def open_entries_def jall_def)
  ultimately show ?thesis by (simp add: presence_of_def presence_def)
qed

lemma refresh_other:
  assumes "d' \<noteq> d" and "keeps_note cause" and "rs_statuses s \<noteq> None"
  shows "jget (rs_devices (refreshDeviceStatus d now cause s)) d' = jget (rs_devices s) d'"
    and "status_row d' (refreshDeviceStatus d now cause s) = status_row d' s"
proof -
  have row: "status_row d' (s\<lparr>rs_devices := m\<rparr>) = status_row d' s" for s m by (simp add: status_row_def)
  show "jget (rs_devices (refreshDeviceStatus d now cause s)) d' = jget (rs_devices s) d'"
    using assms(1) by (simp add: refreshDeviceStatus_def Let_def split: option.splits)
  show "status_row d' (refreshDeviceStatus d now cause s) = status_row d' s"
    using assms by (simp add: refreshDeviceStatus_def Let_def row status_row_upsert keeps_note_def split: option.splits)
qed

lemma refresh_agrees:
  assumes "open_entries s" "rs_statuses s \<noteq> None" "keeps_note cause"
    and v: "jget (rs_devices s) d = Some v"
    and sets: "set (dv_agents v) = agents_of d (roster_of s)" "set (dv_apps v) = apps_of d (roster_of s)"
  shows "agrees d (refreshDeviceStatus d now cause s)"
proof -
  define p where "p = presence d (roster_of s)"
  define u where "u = cause ((status_note d p now)\<lparr>up_offline_at := (if p = Offline then Some now else None)\<rparr>)"
  define w where "w = v\<lparr>dv_last_seen_at := now, dv_status := p\<rparr>"
  define t where "t = on_statuses (upsert u) (put_device d w s)"
  define gone where "gone \<longleftrightarrow> p = Offline \<and> dv_agents v = [] \<and> dv_apps v = [] \<and> dv_links v = []"
  have u: "up_device u = d" "up_status u = p" using assms(3) by (simp_all add: u_def keeps_note_def)
  have eq: "refreshDeviceStatus d now cause s = (if gone then t\<lparr>rs_devices := jdel d (rs_devices t)\<rparr> else t)"
    unfolding refreshDeviceStatus_def v option.case Let_def counted_presence[OF assms(1) sets]
    by (simp add: t_def u_def w_def p_def gone_def)
  have rows: "status_row d t = Some (merged_row u (status_row d s))"
    unfolding t_def using assms(2) u by (subst status_row_upsert) simp_all
  have ros: "roster_of t = roster_of s" by (simp add: t_def)
  have dev: "jget (rs_devices t) d = Some w" by (simp add: t_def)
  show ?thesis
  proof (cases gone)
    case True
    then have "agents_of d (roster_of s) = {}" "apps_of d (roster_of s) = {}" "p = Offline"
      using sets by (auto simp: gone_def)
    then show ?thesis using True rows ros u
      by (simp add: eq agrees_def sets_agree_def status_agrees_def row_agrees_def roster_of_def[of "t\<lparr>rs_devices := _\<rparr>"]
          status_row_def[of _ "t\<lparr>rs_devices := _\<rparr>"]) (simp add: roster_of_def status_row_def p_def)
  next
    case False
    then show ?thesis using rows ros dev sets u
      by (simp add: eq agrees_def sets_agree_def status_agrees_def row_agrees_def w_def p_def)
  qed
qed

section \<open>Every lawful call keeps the promise\<close>

lemma presence_okD:
  assumes "presence_ok s"
  shows "store_wf s" "rs_statuses s \<noteq> None" "open_entries s" "agrees d s"
  using assms by (auto simp: presence_ok_def)

lemma served_device:
  assumes "agrees d s" and "presence d (roster_of s) \<noteq> Offline"
  obtains v where "jget (rs_devices s) d = Some v" "set (dv_agents v) = agents_of d (roster_of s)"
    "set (dv_apps v) = apps_of d (roster_of s)" "dv_status v = presence d (roster_of s)"
  using assms by (cases "jget (rs_devices s) d")
    (auto simp: agrees_def sets_agree_def status_agrees_def presence_def split: if_splits)

lemma keeps_note_close [simp]:
  "keeps_note (\<lambda>u. u\<lparr>up_close_role := r, up_agent_connection := c, up_agent_ip := i\<rparr>)"
  "keeps_note (\<lambda>u. u\<lparr>up_close_role := r, up_app_ip := i\<rparr>)"
  by (simp_all add: keeps_note_def)

text \<open>Somebody leaves \<open>d\<close>: only \<open>d\<close> changes, its sets lose them, and the refresh restores the rest.\<close>

lemma roster_leave_keeps:
  assumes ok: "presence_ok s" and d: "presence d (roster_of s) \<noteq> Offline"
    and wf: "store_wf (refreshDeviceStatus d now cause t)" and cause: "keeps_note cause"
    and live: "open_entries t"
    and others: "\<And>d'. d' \<noteq> d \<Longrightarrow> agents_of d' (roster_of t) = agents_of d' (roster_of s)
      \<and> apps_of d' (roster_of t) = apps_of d' (roster_of s) \<and> jget (rs_devices t) d' = jget (rs_devices s) d'"
    and rows: "rs_statuses t = rs_statuses s"
    and own: "\<And>v. jget (rs_devices s) d = Some v \<Longrightarrow> set (dv_agents v) = agents_of d (roster_of s) \<Longrightarrow>
      set (dv_apps v) = apps_of d (roster_of s) \<Longrightarrow> \<exists>w. jget (rs_devices t) d = Some w
        \<and> set (dv_agents w) = agents_of d (roster_of t) \<and> set (dv_apps w) = apps_of d (roster_of t)"
  shows "presence_ok (refreshDeviceStatus d now cause t)"
proof -
  have st: "rs_statuses t \<noteq> None" using presence_okD(2)[OF ok] rows by simp
  obtain v where "jget (rs_devices s) d = Some v" "set (dv_agents v) = agents_of d (roster_of s)"
    "set (dv_apps v) = apps_of d (roster_of s)"
    using served_device[OF presence_okD(4)[OF ok] d] by metis
  from own[OF this] obtain w where w: "jget (rs_devices t) d = Some w"
    "set (dv_agents w) = agents_of d (roster_of t)" "set (dv_apps w) = apps_of d (roster_of t)" by blast
  have ros: "roster_of (refreshDeviceStatus d now cause t) = roster_of t" by (simp add: roster_of_def)
  have rows_eq: "status_row d' t = status_row d' s" for d' by (simp add: status_row_def rows)
  have "agrees d' (refreshDeviceStatus d now cause t)" for d'
  proof (cases "d' = d")
    case True
    with refresh_agrees[OF live st cause w] show ?thesis by simp
  next
    case False
    with others show ?thesis
      by (intro agrees_frame[OF presence_okD(4)[OF ok]])
         (simp_all add: ros refresh_other[OF False cause st] rows_eq)
  qed
  moreover have "open_entries (refreshDeviceStatus d now cause t)" using live by (simp add: open_entries_def)
  moreover have "rs_statuses (refreshDeviceStatus d now cause t) \<noteq> None" using st by simp
  ultimately show ?thesis using wf by (simp add: presence_ok_def)
qed

lemma on_device_get: "jget (rs_devices (on_device d f s)) d' =
    (if d' = d then map_option f (jget (rs_devices s) d) else jget (rs_devices s) d')"
  by (simp add: on_device_def split: option.splits)

lemma on_device_other [simp]: "rs_statuses (on_device d f s) = rs_statuses s"
  by (simp add: on_device_def split: option.splits)

lemma presence_served:
  "ro_agents r c = Some d \<Longrightarrow> presence d r \<noteq> Offline" "ro_apps r c = Some d \<Longrightarrow> presence d r \<noteq> Offline"
  by (auto simp: presence_def agents_of_def apps_of_def)

lemma ok_close_agent:
  assumes ok: "presence_ok s"
  shows "presence_ok (close_agent c now s)"
proof (cases "jget (rs_agents s) c")
  case None
  with ok show ?thesis by (simp add: close_agent_def)
next
  case (Some a)
  define d where "d = en_device_id a"
  define t where "t = on_device d (\<lambda>v. v\<lparr>dv_agents := jset_del c (dv_agents v)\<rparr>) (s\<lparr>rs_agents := jdel c (rs_agents s)\<rparr>)"
  have ros: "roster_of t = (roster_of s)\<lparr>ro_agents := (ro_agents (roster_of s))(c := None)\<rparr>"
    by (simp add: t_def roster_of_def fun_eq_iff)
  have served: "ro_agents (roster_of s) c = Some d" by (simp add: roster_of_def Some d_def)
  define cause where "cause = (\<lambda>u :: status_upsert. u\<lparr>up_close_role := Some Closed_agent,
      up_agent_connection := Some (en_connection_id a), up_agent_ip := Some (en_remote_ip a)\<rparr>)"
  have eq: "close_agent c now s = refreshDeviceStatus d now cause t"
    by (simp add: close_agent_def Some d_def t_def cause_def)
  have "presence_ok (refreshDeviceStatus d now cause t)"
  proof (rule roster_leave_keeps[OF ok presence_served(1)[OF served]])
    show "store_wf (refreshDeviceStatus d now cause t)"
      using wf_close_agent[OF presence_okD(1)[OF ok], of c now] by (simp add: eq)
    show "keeps_note cause" by (simp add: cause_def)
    show "open_entries t" using presence_okD(3)[OF ok] by (auto simp: open_entries_def t_def)
    show "rs_statuses t = rs_statuses s" by (simp add: t_def)
    fix d' assume other: "d' \<noteq> d"
    then have "jget (rs_devices t) d' = jget (rs_devices s) d'" by (simp add: t_def on_device_get)
    with other served show "agents_of d' (roster_of t) = agents_of d' (roster_of s)
      \<and> apps_of d' (roster_of t) = apps_of d' (roster_of s) \<and> jget (rs_devices t) d' = jget (rs_devices s) d'"
      by (auto simp: ros agents_of_def apps_of_def)
  next
    fix v assume v: "jget (rs_devices s) d = Some v" "set (dv_agents v) = agents_of d (roster_of s)"
      "set (dv_apps v) = apps_of d (roster_of s)"
    then have "jget (rs_devices t) d = Some (v\<lparr>dv_agents := jset_del c (dv_agents v)\<rparr>)"
      by (simp add: t_def on_device_get)
    with v show "\<exists>w. jget (rs_devices t) d = Some w \<and> set (dv_agents w) = agents_of d (roster_of t)
      \<and> set (dv_apps w) = apps_of d (roster_of t)"
      by (auto simp: ros agents_of_def apps_of_def)
  qed
  then show ?thesis by (simp add: eq)
qed

lemma drop_link_device:
  "jget (rs_devices (drop_link c d s)) d' = jget (rs_devices s) d'
   \<or> d' = d \<and> (\<exists>v ls. jget (rs_devices s) d = Some v \<and> jget (rs_devices (drop_link c d s)) d = Some (v\<lparr>dv_links := ls\<rparr>))"
  by (cases "jget (rs_devices s) d") (auto simp: drop_link_def on_device_get split: option.splits)

lemma drop_link_statuses [simp]: "rs_statuses (drop_link c d s) = rs_statuses s"
  by (simp add: drop_link_def split: option.splits)

lemma ok_close_app:
  assumes ok: "presence_ok s"
  shows "presence_ok (close_app c now s)"
proof (cases "jget (rs_apps s) c")
  case None
  with ok show ?thesis by (simp add: close_app_def)
next
  case (Some p)
  define d where "d = en_device_id p"
  define t0 where "t0 = on_device d (\<lambda>v. v\<lparr>dv_apps := jset_del c (dv_apps v)\<rparr>) (s\<lparr>rs_apps := jdel c (rs_apps s)\<rparr>)"
  define t where "t = drop_link c d t0"
  have ros: "roster_of t = (roster_of s)\<lparr>ro_apps := (ro_apps (roster_of s))(c := None)\<rparr>"
    by (simp add: t_def t0_def roster_of_def fun_eq_iff)
  have served: "ro_apps (roster_of s) c = Some d" by (simp add: roster_of_def Some d_def)
  define cause where "cause = (\<lambda>u :: status_upsert. u\<lparr>up_close_role := Some Closed_mobile,
      up_app_ip := Some (en_remote_ip p)\<rparr>)"
  have eq: "close_app c now s = refreshDeviceStatus d now cause t"
    by (simp add: close_app_def Some d_def t_def t0_def cause_def)
  have "presence_ok (refreshDeviceStatus d now cause t)"
  proof (rule roster_leave_keeps[OF ok presence_served(2)[OF served]])
    show "store_wf (refreshDeviceStatus d now cause t)"
      using wf_close_app[OF presence_okD(1)[OF ok], of c now] by (simp add: eq)
    show "keeps_note cause" by (simp add: cause_def)
    show "open_entries t" using presence_okD(3)[OF ok] by (auto simp: open_entries_def t_def t0_def)
    show "rs_statuses t = rs_statuses s" by (simp add: t_def t0_def)
    fix d' assume other: "d' \<noteq> d"
    with drop_link_device[of c d t0 d'] have "jget (rs_devices t) d' = jget (rs_devices s) d'"
      by (simp add: t_def t0_def on_device_get)
    with other served show "agents_of d' (roster_of t) = agents_of d' (roster_of s)
      \<and> apps_of d' (roster_of t) = apps_of d' (roster_of s) \<and> jget (rs_devices t) d' = jget (rs_devices s) d'"
      by (auto simp: ros agents_of_def apps_of_def)
  next
    fix v assume v: "jget (rs_devices s) d = Some v" "set (dv_agents v) = agents_of d (roster_of s)"
      "set (dv_apps v) = apps_of d (roster_of s)"
    have "jget (rs_devices t0) d = Some (v\<lparr>dv_apps := jset_del c (dv_apps v)\<rparr>)"
      using v by (simp add: t0_def on_device_get)
    with drop_link_device[of c d t0 d] obtain ls w where "jget (rs_devices t) d = Some w"
      "dv_agents w = dv_agents v" "dv_apps w = jset_del c (dv_apps v)" by (auto simp: t_def)
    with v show "\<exists>w. jget (rs_devices t) d = Some w \<and> set (dv_agents w) = agents_of d (roster_of t)
      \<and> set (dv_apps w) = apps_of d (roster_of t)"
      by (auto simp: ros agents_of_def apps_of_def)
  qed
  then show ?thesis by (simp add: eq)
qed

text \<open>Somebody joins \<open>d\<close>, or is heard of: only \<open>d\<close> changes, and it is written with the roster's status.\<close>

lemma join_keeps:
  assumes ok: "presence_ok s" and wf: "store_wf t" and live: "open_entries t"
    and statuses: "rs_statuses t \<noteq> None"
    and others: "\<And>d'. d' \<noteq> d \<Longrightarrow> agents_of d' (roster_of t) = agents_of d' (roster_of s)
      \<and> apps_of d' (roster_of t) = apps_of d' (roster_of s) \<and> jget (rs_devices t) d' = jget (rs_devices s) d'
      \<and> status_row d' t = status_row d' s"
    and dev: "jget (rs_devices t) d = Some w" "set (dv_agents w) = agents_of d (roster_of t)"
      "set (dv_apps w) = apps_of d (roster_of t)" "dv_status w = presence d (roster_of t)"
    and row: "status_row d t = Some r" "row_status r = presence d (roster_of t)"
  shows "presence_ok t"
proof -
  have "agrees d' t" for d'
  proof (cases "d' = d")
    case True
    with dev row show ?thesis by (simp add: agrees_def sets_agree_def status_agrees_def row_agrees_def)
  next
    case False
    with others show ?thesis by (intro agrees_frame[OF presence_okD(4)[OF ok]]) simp_all
  qed
  with wf live statuses show ?thesis by (simp add: presence_ok_def)
qed

lemma ensured_sets:
  assumes "agrees d s"
  shows "set (dv_agents (ensureDevice d now s)) = agents_of d (roster_of s)"
    and "set (dv_apps (ensureDevice d now s)) = apps_of d (roster_of s)"
  using assms by (auto simp: agrees_def sets_agree_def ensureDevice_def new_device_def split: option.splits)

lemma status_row_fields [simp]:
  "status_row d (s\<lparr>rs_agents := m\<rparr>) = status_row d s" "status_row d (s\<lparr>rs_apps := p\<rparr>) = status_row d s"
  "status_row d (s\<lparr>rs_devices := v\<rparr>) = status_row d s"
  "status_row d (s\<lparr>rs_links := l, rs_linkByApp := b\<rparr>) = status_row d s"
  by (simp_all add: status_row_def)

lemma presence_join_agent:
  "truthy (k_deviceId k) \<Longrightarrow> k_deviceId k = Some d \<Longrightarrow> presence d (join_agent k r) = Online"
  by (auto simp: presence_def join_agent_def agents_of_def)

lemma ok_registerAgent:
  assumes ok: "presence_ok s" and lawful: "keeps_device (ro_agents (roster_of s)) k"
  shows "presence_ok (registerAgent k s)"
proof (cases "truthy (k_deviceId k)")
  case False
  with ok show ?thesis by (simp add: registerAgent_def)
next
  case True
  then obtain d where d: "k_deviceId k = Some d" by (auto simp: truthy_def)
  define v where "v = ensureDevice d (k_lastSeenAt k) s"
  define w where "w = v\<lparr>dv_agents := jset_add (k_id k) (dv_agents v), dv_last_seen_at := k_lastSeenAt k, dv_status := Online\<rparr>"
  define u where "u = (status_note d Online (k_lastSeenAt k))\<lparr>up_agent_connection := Some (k_id k), up_agent_ip := Some (k_remoteIp k)\<rparr>"
  define t where "t = registerAgent k s"
  have eq: "t = (on_statuses (upsert u) (put_device d w s))\<lparr>rs_agents := jput (k_id k) (new_entry d k) (rs_agents s)\<rparr>"
    unfolding t_def registerAgent_def using True by (simp add: d Let_def u_def w_def v_def)
  have ros: "roster_of t = join_agent k (roster_of s)" by (simp add: t_def roster_agent)
  have st: "rs_statuses s \<noteq> None" by (rule presence_okD[OF ok])
  have up: "up_device u = d" "up_status u = Online" by (simp_all add: u_def)
  have row: "status_row d' t = (if d' = d then Some (merged_row u (status_row d s)) else status_row d' s)" for d'
    using st up by (simp add: eq status_row_upsert)
  have sets: "set (dv_agents v) = agents_of d (roster_of s)" "set (dv_apps v) = apps_of d (roster_of s)"
    using ensured_sets[OF presence_okD(4)[OF ok]] by (simp_all add: v_def)
  have "presence_ok t"
  proof (rule join_keeps[OF ok, where d = d and w = w and r = "merged_row u (status_row d s)"])
    show "store_wf t" using wf_registerAgent[OF presence_okD(1)[OF ok]] by (simp add: t_def)
    show "open_entries t" using presence_okD(3)[OF ok] lawful
      by (auto simp: open_entries_def eq keeps_device_def new_entry_def)
    show "rs_statuses t \<noteq> None" using st by (simp add: eq)
    show "jget (rs_devices t) d = Some w" by (simp add: eq)
    show "set (dv_agents w) = agents_of d (roster_of t)" "set (dv_apps w) = apps_of d (roster_of t)"
      using sets True d by (auto simp: w_def ros join_agent_def agents_of_def apps_of_def)
    show "dv_status w = presence d (roster_of t)"
      "row_status (merged_row u (status_row d s)) = presence d (roster_of t)"
      using up by (simp_all add: w_def ros presence_join_agent[OF True d])
    show "status_row d t = Some (merged_row u (status_row d s))" by (simp add: row)
    fix d' assume other: "d' \<noteq> d"
    then have "jget (rs_devices t) d' = jget (rs_devices s) d'" "status_row d' t = status_row d' s"
      by (simp add: eq, simp add: row)
    with other lawful True d show "agents_of d' (roster_of t) = agents_of d' (roster_of s)
      \<and> apps_of d' (roster_of t) = apps_of d' (roster_of s) \<and> jget (rs_devices t) d' = jget (rs_devices s) d'
      \<and> status_row d' t = status_row d' s"
      by (auto simp: ros join_agent_def agents_of_def apps_of_def keeps_device_def)
  qed
  then show ?thesis by (simp add: t_def)
qed

lemma ok_registerApp:
  assumes ok: "presence_ok s" and lawful: "keeps_device (ro_apps (roster_of s)) k"
  shows "presence_ok (registerApp k s)"
proof (cases "truthy (k_deviceId k)")
  case False
  with ok show ?thesis by (simp add: registerApp_def)
next
  case True
  then obtain d where d: "k_deviceId k = Some d" by (auto simp: truthy_def)
  define v where "v = ensureDevice d (k_lastSeenAt k) s"
  define p where "p = (if activeCount entry_closed (dv_agents v) (rs_agents s) > 0 then Online else Degraded)"
  define w where "w = v\<lparr>dv_apps := jset_add (k_id k) (dv_apps v), dv_last_seen_at := k_lastSeenAt k, dv_status := p\<rparr>"
  define u where "u = (status_note d p (k_lastSeenAt k))\<lparr>up_app_ip := Some (k_remoteIp k)\<rparr>"
  define t where "t = registerApp k s"
  have eq: "t = (on_statuses (upsert u) (put_device d w s))\<lparr>rs_apps := jput (k_id k) (new_app_entry d k) (rs_apps s)\<rparr>"
    unfolding t_def registerApp_def using True by (simp add: d Let_def u_def w_def v_def p_def)
  have ros: "roster_of t = join_app k (roster_of s)" by (simp add: t_def roster_app)
  have st: "rs_statuses s \<noteq> None" by (rule presence_okD[OF ok])
  have up: "up_device u = d" "up_status u = p" by (simp_all add: u_def)
  have row: "status_row d' t = (if d' = d then Some (merged_row u (status_row d s)) else status_row d' s)" for d'
    using st up by (simp add: eq status_row_upsert)
  have sets: "set (dv_agents v) = agents_of d (roster_of s)" "set (dv_apps v) = apps_of d (roster_of s)"
    using ensured_sets[OF presence_okD(4)[OF ok]] by (simp_all add: v_def)
  have "activeCount entry_closed (dv_agents v) (rs_agents s) > 0 \<longleftrightarrow> agents_of d (roster_of s) \<noteq> {}"
    using presence_okD(3)[OF ok] unfolding activeCount_pos sets(1)
    by (fastforce simp: agents_of_def roster_of_def open_entries_def jall_def)
  then have p: "p = presence d (join_app k (roster_of s))"
    using True d by (auto simp: p_def presence_def join_app_def agents_of_def apps_of_def)
  have "presence_ok t"
  proof (rule join_keeps[OF ok, where d = d and w = w and r = "merged_row u (status_row d s)"])
    show "store_wf t" using wf_registerApp[OF presence_okD(1)[OF ok]] by (simp add: t_def)
    show "open_entries t" using presence_okD(3)[OF ok] lawful
      by (auto simp: open_entries_def eq keeps_device_def new_app_entry_def new_entry_def conn_entry.defs)
    show "rs_statuses t \<noteq> None" using st by (simp add: eq)
    show "jget (rs_devices t) d = Some w" by (simp add: eq)
    show "set (dv_agents w) = agents_of d (roster_of t)" "set (dv_apps w) = apps_of d (roster_of t)"
      using sets True d by (auto simp: w_def ros join_app_def agents_of_def apps_of_def)
    show "dv_status w = presence d (roster_of t)"
      "row_status (merged_row u (status_row d s)) = presence d (roster_of t)"
      using up by (simp_all add: w_def ros p)
    show "status_row d t = Some (merged_row u (status_row d s))" by (simp add: row)
    fix d' assume other: "d' \<noteq> d"
    then have "jget (rs_devices t) d' = jget (rs_devices s) d'" "status_row d' t = status_row d' s"
      by (simp add: eq, simp add: row)
    with other lawful True d show "agents_of d' (roster_of t) = agents_of d' (roster_of s)
      \<and> apps_of d' (roster_of t) = apps_of d' (roster_of s) \<and> jget (rs_devices t) d' = jget (rs_devices s) d'
      \<and> status_row d' t = status_row d' s"
      by (auto simp: ros join_app_def agents_of_def apps_of_def keeps_device_def)
  qed
  then show ?thesis by (simp add: t_def)
qed

lemma ok_createOrUpdateLink:
  assumes ok: "presence_ok s" and served: "ro_apps (roster_of s) c = Some d"
  shows "presence_ok (createOrUpdateLink d a c st p session now s)"
proof -
  obtain v where v: "jget (rs_devices s) d = Some v" "set (dv_agents v) = agents_of d (roster_of s)"
    "set (dv_apps v) = apps_of d (roster_of s)" "dv_status v = presence d (roster_of s)"
    using served_device[OF presence_okD(4)[OF ok] presence_served(2)[OF served]] by metis
  define t where "t = createOrUpdateLink d a c st p session now s"
  define u where "u = status_note d (dv_status v) now"
  obtain ls x m where eq: "t = on_statuses (upsert u) (put_device d
      (v\<lparr>dv_links := ls, dv_last_seen_at := now\<rparr>) (s\<lparr>rs_links := x, rs_linkByApp := m\<rparr>))"
    by (simp add: t_def createOrUpdateLink_def Let_def ensureDevice_def v(1) u_def)
  have ros: "roster_of t = roster_of s" by (simp add: t_def)
  have st: "rs_statuses s \<noteq> None" by (rule presence_okD[OF ok])
  have row: "status_row d' t = (if d' = d then Some (merged_row u (status_row d s)) else status_row d' s)" for d'
    using st by (simp add: eq status_row_upsert u_def)
  have dev: "jget (rs_devices t) d' =
      (if d' = d then Some (v\<lparr>dv_links := ls, dv_last_seen_at := now\<rparr>) else jget (rs_devices s) d')" for d'
    by (simp add: eq)
  have "presence_ok t"
  proof (rule join_keeps[OF ok, where d = d and w = "v\<lparr>dv_links := ls, dv_last_seen_at := now\<rparr>"
        and r = "merged_row u (status_row d s)"])
    show "store_wf t" using wf_createOrUpdateLink[OF presence_okD(1)[OF ok]] by (simp add: t_def)
    show "open_entries t" using presence_okD(3)[OF ok] by (simp add: t_def open_entries_def)
    show "rs_statuses t \<noteq> None" using st by (simp add: eq)
  qed (simp_all add: ros v row dev u_def)
  then show ?thesis by (simp add: t_def)
qed

lemma ok_authenticateApp:
  assumes ok: "presence_ok s" and lawful: "keeps_device (ro_apps (roster_of s)) k"
  shows "presence_ok (authenticateApp k agent now s)"
proof -
  define r where "r = registerApp k s"
  define t where "t = (case jget (rs_apps r) (k_id k) of None \<Rightarrow> r
     | Some p \<Rightarrow> r\<lparr>rs_apps := jput (k_id k) (p\<lparr>en_state := k_state k, en_auth_state := k_authState k,
         en_last_seen_at := k_lastSeenAt k\<rparr>) (rs_apps r)\<rparr>)"
  have r: "presence_ok r" unfolding r_def by (rule ok_registerApp[OF ok lawful])
  have eq: "authenticateApp k agent now s = (if truthy (k_deviceId k) \<and> truthy agent
      then createOrUpdateLink (the (k_deviceId k)) (the agent) (k_id k) L_authenticated (k_transportPath k) None now t else t)"
    unfolding authenticateApp_def Let_def t_def r_def by (rule refl)
  have same: "rs_devices t = rs_devices r" "rs_statuses t = rs_statuses r" "roster_of t = roster_of r"
    by (cases "jget (rs_apps r) (k_id k)"; simp add: t_def roster_of_def fun_eq_iff)+
  have wf: "store_wf t"
  proof (cases "jget (rs_apps r) (k_id k)")
    case None
    then show ?thesis using presence_okD(1)[OF r] by (simp add: t_def)
  next
    case (Some p)
    then have "entry_wf (k_id k) p" by (rule store_wfD(3)[OF presence_okD(1)[OF r]])
    then show ?thesis unfolding t_def Some option.case
      by (intro wf_apps presence_okD(1)[OF r]) (simp add: entry_wf_def)
  qed
  have "open_entries t" using presence_okD(3)[OF r] lawful
    by (cases "jget (rs_apps r) (k_id k)") (auto simp: t_def open_entries_def keeps_device_def)
  moreover have "agrees d t" for d
    by (rule agrees_frame[OF presence_okD(4)[OF r]]) (simp_all add: same status_row_def)
  ultimately have t: "presence_ok t" using wf presence_okD(2)[OF r] by (simp add: presence_ok_def same)
  have "ro_apps (roster_of t) (k_id k) = k_deviceId k" if "truthy (k_deviceId k)"
    using that by (simp add: same r_def roster_app join_app_def)
  with t show ?thesis by (auto simp: eq truthy_def intro!: ok_createOrUpdateLink)
qed

lemma ok_recordTraffic:
  assumes ok: "presence_ok s" and live: "k_state k \<noteq> Closed"
  shows "presence_ok (recordTraffic k dir type app bytes now s)" (is "presence_ok ?t")
proof -
  have conn: "open_entries (count_connection k f u)" if "open_entries u" for f u
    using that live
    by (cases "k_role k") (auto simp: count_connection_def open_entries_def jall_def count_entry_def split: option.splits)
  have conn_dev: "rs_devices (count_connection k f u) = rs_devices u" "rs_statuses (count_connection k f u) = rs_statuses u"
    for f u by (cases "k_role k"; auto simp: count_connection_def split: option.splits)+
  have link: "open_entries (count_link k dir app bytes f u) = open_entries u"
    "rs_devices (count_link k dir app bytes f u) = rs_devices u"
    "rs_statuses (count_link k dir app bytes f u) = rs_statuses u" for f u
    by (auto simp: count_link_def Let_def open_entries_def split: option.splits)
  have dev: "jget (rs_devices ?t) d = jget (rs_devices s) d \<or>
      jget (rs_devices ?t) d = Some ((ensureDevice d now s)\<lparr>dv_counters := incrementCounters dir type bytes
        (dv_counters (ensureDevice d now s))\<rparr>)" for d
    by (auto simp: recordTraffic_def Let_def link conn_dev addPendingDeviceTraffic_def ensureDevice_def)
  have "open_entries ?t" using presence_okD(3)[OF ok]
    by (simp only: recordTraffic_def Let_def link)
       (rule conn, simp add: open_entries_def addPendingDeviceTraffic_def put_device_def)
  moreover have st: "rs_statuses ?t = rs_statuses s"
    by (simp add: recordTraffic_def Let_def link conn_dev addPendingDeviceTraffic_def)
  moreover have "store_wf ?t" by (rule wf_recordTraffic[OF presence_okD(1)[OF ok]])
  moreover have "agrees d ?t" for d
  proof -
    have a: "agrees d s" by (rule presence_okD[OF ok])
    have row: "status_row d ?t = status_row d s" by (simp add: status_row_def st)
    show ?thesis
    proof (cases "jget (rs_devices s) d")
      case (Some v)
      with dev[of d] obtain w where "jget (rs_devices ?t) d = Some w" "dv_agents w = dv_agents v"
        "dv_apps w = dv_apps v" "dv_status w = dv_status v" by (auto simp: ensureDevice_def)
      with a Some show ?thesis
        by (cases "status_row d s")
           (simp_all add: agrees_def sets_agree_def status_agrees_def row_agrees_def roster_traffic row)
    next
      case None
      with a have none: "agents_of d (roster_of s) = {}" "apps_of d (roster_of s) = {}" "presence d (roster_of s) = Offline"
        by (auto simp: agrees_def sets_agree_def presence_def)
      with a dev[of d] None show ?thesis
        by (auto simp: agrees_def sets_agree_def status_agrees_def row_agrees_def roster_traffic row
            ensureDevice_def new_device_def split: option.splits)
    qed
  qed
  ultimately show ?thesis using presence_okD(2)[OF ok] by (simp add: presence_ok_def)
qed

lemma flush_row:
  assumes "store_wf s"
  shows "map_option row_status (status_row d (flushDeviceStatus now s)) = map_option row_status (status_row d s)"
proof -
  have "distinct (map fst (rs_pending s))" using assms by (simp add: store_wf_def keys_unique_def)
  from device_status.flush_status[OF this] show ?thesis
    by (simp add: flushDeviceStatus_def status_row_def on_statuses_def device_status.flush_def[abs_def] split: option.splits)
qed

lemma ok_flush_status:
  assumes ok: "presence_ok s"
  shows "presence_ok (flushDeviceStatus now s)"
proof -
  have "agrees d (flushDeviceStatus now s)" for d
    by (rule agrees_frame[OF presence_okD(4)[OF ok]])
       (simp_all add: flush_row[OF presence_okD(1)[OF ok]], simp add: flushDeviceStatus_def)
  moreover have "rs_statuses (flushDeviceStatus now s) \<noteq> None"
    using presence_okD(2)[OF ok] by (simp add: flushDeviceStatus_def on_statuses_def)
  ultimately show ?thesis using wf_flush[OF presence_okD(1)[OF ok]] presence_okD(3)[OF ok]
    by (simp add: presence_ok_def open_entries_def)
qed

text \<open>Pruning removes rows of offline devices only, so a missing row still means offline.\<close>

lemma ok_sweep:
  assumes "presence_ok s"
  shows "presence_ok (sweep retention now s)"
proof -
  define u where "u = flushDeviceStatus now s"
  have u: "presence_ok u" unfolding u_def by (rule ok_flush_status[OF assms])
  then obtain t where t: "rs_statuses u = Some t" by (auto simp: presence_ok_def)
  have uniq: "distinct (map fst t)" using presence_okD(1)[OF u] t by (simp add: store_wf_def keys_unique_def)
  have eq: "sweep retention now s = on_statuses (\<lambda>t. fst (pruneOffline (now - retention) t)) u"
    by (simp add: sweep_def u_def)
  have row: "status_row d (sweep retention now s) = (case status_row d u of None \<Rightarrow> None
      | Some r \<Rightarrow> if expired_row (now - retention) r then None else Some r)" for d
    by (simp add: eq status_row_def on_statuses_def t device_status.find_prune[OF uniq] split: option.splits)
  have same: "rs_devices (sweep retention now s) = rs_devices u" "roster_of (sweep retention now s) = roster_of u"
    by (simp_all add: eq)
  have "agrees d (sweep retention now s)" for d
  proof -
    have "agrees d u" by (rule presence_okD[OF u])
    then show ?thesis
      by (auto simp: agrees_def sets_agree_def status_agrees_def row_agrees_def row same expired_row_def
          split: option.splits)
  qed
  moreover have "store_wf (sweep retention now s)" using wf_step[OF presence_okD(1)[OF assms], of "(Sweeps retention, now)"]
    by simp
  ultimately show ?thesis using presence_okD(2,3)[OF u] by (simp add: presence_ok_def eq open_entries_def)
qed

lemma ok_frame:
  assumes "presence_ok s" and "store_wf t" and "rs_devices t = rs_devices s" "rs_statuses t = rs_statuses s"
    "rs_agents t = rs_agents s" "rs_apps t = rs_apps s"
  shows "presence_ok t"
proof -
  have ros: "roster_of t = roster_of s" using assms by (simp add: roster_of_def)
  have "agrees d t" for d
    by (rule agrees_frame[OF presence_okD(4)[OF assms(1)]]) (simp_all add: ros assms(3,4) status_row_def)
  with assms show ?thesis by (simp add: presence_ok_def open_entries_def)
qed

lemma presence_step:
  assumes ok: "presence_ok s" and law: "lawful (fst e) s"
  shows "presence_ok (store_step e s)"
proof -
  note wf = wf_step[OF presence_okD(1)[OF ok], of e]
  show ?thesis
  proof (cases "(e, s)" rule: store_step.cases)
    case (2 c now t)
    have "presence_ok (s\<lparr>rs_connections := jset_del c (rs_connections s)\<rparr>)"
      by (rule ok_frame[OF ok wf_connections[OF presence_okD(1)[OF ok]]])
         (use presence_okD(1)[OF ok] in \<open>auto simp: store_wf_def keys_unique_def\<close>)
    with 2 show ?thesis by (simp add: closeConnection_def ok_close_app ok_close_agent)
  qed (use ok law wf in \<open>auto simp: lawful_def ok_registerAgent ok_registerApp ok_authenticateApp
      ok_createOrUpdateLink ok_recordTraffic ok_flush_status ok_sweep registerConnection_def recordAuthFailed_def
      recordRouteDropped_def recordProtocolErrorSent_def elim!: ok_frame\<close>)
qed

section \<open>Lawful runs\<close>

inductive lawful_run :: "store \<Rightarrow> (store_event \<times> int) list \<Rightarrow> store \<Rightarrow> bool" where
  idle: "lawful_run s [] s"
| call: "lawful (fst e) s \<Longrightarrow> lawful_run (store_step e s) es t \<Longrightarrow> lawful_run s (e # es) t"

inductive_simps lawful_run_simps [simp]: "lawful_run s [] t" "lawful_run s (e # es) t"

lemma lawful_run_ok: "lawful_run s es t \<Longrightarrow> presence_ok s \<Longrightarrow> presence_ok t"
  by (induction rule: lawful_run.induct) (auto intro: presence_step)

lemma lawful_run_fold: "lawful_run s es t \<Longrightarrow> t = fold store_step es s"
  by (induction rule: lawful_run.induct) simp_all

definition empty_roster :: roster where
  "empty_roster = \<lparr>ro_agents = (\<lambda>c. None), ro_apps = (\<lambda>c. None)\<rparr>"

lemma new_store_ok: "presence_ok (new_store now (Some []))"
  by (simp add: presence_ok_def new_store_wf)
     (simp add: new_store_def open_entries_def agrees_def sets_agree_def status_agrees_def row_agrees_def
      status_row_def roster_of_def agents_of_def apps_of_def presence_def)

lemma new_store_roster: "roster_of (new_store now t) = empty_roster"
  by (simp add: new_store_def roster_of_def empty_roster_def)

end
