(* ===== verification/StateViews.thy ===== *)
theory StateViews
  imports RelayState
begin

text \<open>
  What the admin pages read from the state store: the snapshots of \<open>relayStateStore.ts\<close> and the traffic
  map. Timestamps stay numbers (\<open>toIso\<close> prints them). Two things are parameters: \<open>place\<close>, the location
  the code falls back to for an address without one (\<open>trafficLocationFromIp\<close>), and \<open>rank\<close>, the order of
  \<open>localeCompare\<close> on device ids. \<open>Array.sort\<close> is stable, as is \<^const>\<open>sort_key\<close>.
\<close>

declare map_of_eq_Some_iff [simp del] Some_eq_map_of_iff [simp del]

section \<open>Snapshots\<close>

definition entries :: "('k, 'v) jmap \<Rightarrow> 'v list" where
  "entries m = map snd m"

definition active_agents :: "store \<Rightarrow> conn_entry list" where
  "active_agents s = filter (\<lambda>e. \<not> entry_closed e) (entries (rs_agents s))"

definition active_apps :: "store \<Rightarrow> app_entry list" where
  "active_apps s = filter (\<lambda>e. \<not> entry_closed e) (entries (rs_apps s))"

definition active_links :: "store \<Rightarrow> link_entry list" where
  "active_links s = filter (\<lambda>l. \<not> link_closed l) (entries (rs_links s))"

record runtime_snapshot =
  rt_uptime_ms :: int
  rt_device_count :: nat
  rt_agent_count :: nat
  rt_app_count :: nat
  rt_link_count :: nat
  rt_connection_count :: nat
  rt_known_devices :: nat
  rt_offline_devices :: nat
  rt_traffic :: counters
  rt_auth_failed :: nat
  rt_dropped :: nat
  rt_errors_sent :: nat

definition runtimeSnapshot :: "(string \<Rightarrow> conn_state) \<Rightarrow> int \<Rightarrow> store \<Rightarrow> runtime_snapshot" where
  "runtimeSnapshot state_of now s =
     \<lparr>rt_uptime_ms = now - rs_started_at s, rt_device_count = length (rs_devices s),
      rt_agent_count = length (active_agents s), rt_app_count = length (active_apps s),
      rt_link_count = length (active_links s),
      rt_connection_count = length (filter (\<lambda>c. state_of c \<noteq> Closed) (rs_connections s)),
      rt_known_devices = (case rs_statuses s of None \<Rightarrow> length (rs_devices s) | Some t \<Rightarrow> fst (summary t)),
      rt_offline_devices = (case rs_statuses s of None \<Rightarrow> 0 | Some t \<Rightarrow> snd (summary t)),
      rt_traffic = rs_counters s, rt_auth_failed = rs_auth_failed s, rt_dropped = rs_dropped s,
      rt_errors_sent = rs_errors_sent s\<rparr>"

datatype view_source = Active | Persisted

record device_view =
  vw_device_id :: string
  vw_agent_count :: nat
  vw_app_count :: nat
  vw_link_count :: nat
  vw_first_seen_at :: int
  vw_last_seen_at :: int
  vw_offline_at :: "int option"
  vw_status :: presence
  vw_counters :: counters
  vw_source :: view_source
  vw_agent_connection :: "string option"
  vw_agent_ip :: "string option"
  vw_app_ip :: "string option"
  vw_close_role :: "close_role option"
  vw_close_reason :: "string option"

definition active_view :: "store \<Rightarrow> string \<times> device_entry \<Rightarrow> device_view" where
  "active_view s dv = (case dv of (d, v) \<Rightarrow>
     \<lparr>vw_device_id = d, vw_agent_count = activeCount entry_closed (dv_agents v) (rs_agents s),
      vw_app_count = activeCount entry_closed (dv_apps v) (rs_apps s),
      vw_link_count = activeCount link_closed (dv_links v) (rs_links s),
      vw_first_seen_at = dv_first_seen_at v, vw_last_seen_at = dv_last_seen_at v, vw_offline_at = None,
      vw_status = dv_status v, vw_counters = dv_counters v, vw_source = Active,
      vw_agent_connection = None, vw_agent_ip = None, vw_app_ip = None, vw_close_role = None,
      vw_close_reason = None\<rparr>)"

text \<open>\<open>offline_at\<close> is shown unless it is absent or the number 0.\<close>

definition persistedDeviceToSnapshot :: "string \<times> device_row \<Rightarrow> device_view" where
  "persistedDeviceToSnapshot dr = (case dr of (d, r) \<Rightarrow>
     \<lparr>vw_device_id = d, vw_agent_count = 0, vw_app_count = 0, vw_link_count = 0,
      vw_first_seen_at = row_first_seen r, vw_last_seen_at = row_last_seen r,
      vw_offline_at = (if row_offline_at r = Some 0 then None else row_offline_at r),
      vw_status = row_status r,
      vw_counters = emptyCounters\<lparr>bytes_in := row_bytes_in r, bytes_out := row_bytes_out r,
        messages_in := row_messages_in r, messages_out := row_messages_out r\<rparr>,
      vw_source = Persisted, vw_agent_connection = row_agent_connection r, vw_agent_ip = row_agent_ip r,
      vw_app_ip = row_app_ip r, vw_close_role = row_close_role r, vw_close_reason = row_close_reason r\<rparr>)"

record devices_summary =
  sm_device_count :: nat
  sm_active_device_count :: nat
  sm_known_device_count :: nat
  sm_offline_device_count :: nat
  sm_agent_count :: nat
  sm_app_count :: nat
  sm_link_count :: nat

definition devicesSnapshot ::
    "(string \<Rightarrow> nat) \<Rightarrow> bool \<Rightarrow> int \<Rightarrow> store \<Rightarrow> device_view list \<times> devices_summary" where
  "devicesSnapshot rank includeOffline limit s =
     (let active = map (active_view s) (sort_key (\<lambda>(d, v). rank d) (rs_devices s));
          shown = set (map vw_device_id active);
          kept = (case rs_statuses s of None \<Rightarrow> []
            | Some t \<Rightarrow> map persistedDeviceToSnapshot
                (filter (\<lambda>(d, r). d \<notin> shown) (list_devices includeOffline limit t)));
          devices = active @ kept;
          known = map_option summary (rs_statuses s)
      in (devices,
         \<lparr>sm_device_count = length devices, sm_active_device_count = length active,
          sm_known_device_count = (case known of None \<Rightarrow> length active | Some k \<Rightarrow> fst k),
          sm_offline_device_count = (case known of None \<Rightarrow> 0 | Some k \<Rightarrow> snd k),
          sm_agent_count = sum_list (map vw_agent_count devices),
          sm_app_count = sum_list (map vw_app_count devices),
          sm_link_count = sum_list (map vw_link_count devices)\<rparr>))"

definition appsForDevice :: "string \<Rightarrow> store \<Rightarrow> app_entry list" where
  "appsForDevice d s = sort_key en_connected_at
     (filter (\<lambda>e. en_device_id e = d \<and> \<not> entry_closed e) (entries (rs_apps s)))"

definition appsSnapshot :: "store \<Rightarrow> app_entry list" where
  "appsSnapshot s = sort_key en_connected_at (active_apps s)"

definition agentsSnapshot :: "(string \<Rightarrow> nat) \<Rightarrow> store \<Rightarrow> (conn_entry \<times> nat) list \<times> nat \<times> nat" where
  "agentsSnapshot rank s =
     (let agents = map (\<lambda>a. (a, length (appsForDevice (en_device_id a) s)))
            (sort_key (\<lambda>a. rank (en_device_id a)) (active_agents s))
      in (agents, length agents, sum_list (map snd agents)))"

definition agentAppsSnapshot :: "string \<Rightarrow> store \<Rightarrow> string option \<times> app_entry list \<times> nat" where
  "agentAppsSnapshot c s = (case jget (rs_agents s) c of
     None \<Rightarrow> (None, [], 0)
   | Some a \<Rightarrow> if entry_closed a then (None, [], 0)
       else (let apps = appsForDevice (en_device_id a) s in (Some (en_device_id a), apps, length apps)))"

definition linksSnapshot :: "store \<Rightarrow> link_entry list \<times> nat" where
  "linksSnapshot s = (let links = sort_key ln_created_at (active_links s) in (links, length links))"

text \<open>Agents and phones in one list, the busiest first.\<close>

definition trafficTop :: "nat \<Rightarrow> store \<Rightarrow> conn_entry list" where
  "trafficTop limit s = take limit (sort_key (\<lambda>e. - int (bytes_in (en_counters e) + bytes_out (en_counters e)))
     (filter (\<lambda>e. \<not> entry_closed e) (entries (rs_agents s) @ map conn_entry.truncate (entries (rs_apps s)))))"

section \<open>The traffic map\<close>

record map_node =
  nd_place :: location
  nd_connection_count :: nat
  nd_agent_count :: nat
  nd_app_count :: nat
  nd_devices :: "string jset"
  nd_counters :: counters

record map_flow =
  fl_flow_id :: string
  fl_from :: string
  fl_to :: string
  fl_link_count :: nat
  fl_devices :: "string jset"
  fl_app_to_agent :: nat
  fl_agent_to_app :: nat
  fl_total :: nat
  fl_paths :: "(path, nat) jmap"
  fl_last_seen_at :: int

definition trafficLocationFromConnection :: "(string \<Rightarrow> location) \<Rightarrow> conn_entry \<Rightarrow> location" where
  "trafficLocationFromConnection place e =
     (case en_location e of Some l \<Rightarrow> l | None \<Rightarrow> place (en_remote_ip e))"

definition addConnectionToTrafficMap ::
    "(string \<Rightarrow> location) \<Rightarrow> conn_entry \<times> bool \<Rightarrow> (string, map_node) jmap \<Rightarrow> (string, map_node) jmap" where
  "addConnectionToTrafficMap place ea nodes = (case ea of (e, agent) \<Rightarrow>
     (let base = trafficLocationFromConnection place e;
          n = (case jget nodes (loc_id base) of Some n \<Rightarrow> n
             | None \<Rightarrow> \<lparr>nd_place = base, nd_connection_count = 0, nd_agent_count = 0, nd_app_count = 0,
                         nd_devices = [], nd_counters = emptyCounters\<rparr>)
      in jput (loc_id base)
           (n\<lparr>nd_connection_count := nd_connection_count n + 1,
              nd_agent_count := nd_agent_count n + (if agent then 1 else 0),
              nd_app_count := nd_app_count n + (if agent then 0 else 1),
              nd_devices := jset_add (en_device_id e) (nd_devices n),
              nd_counters := mergeCounters (nd_counters n) (en_counters e)\<rparr>) nodes))"

definition flow_id :: "location \<Rightarrow> location \<Rightarrow> string" where
  "flow_id a b = loc_id a @ ''->'' @ loc_id b"

definition addLinkToTrafficMapFlows ::
    "link_entry \<times> location \<times> location \<Rightarrow> (string, map_flow) jmap \<Rightarrow> (string, map_flow) jmap" where
  "addLinkToTrafficMapFlows x flows = (case x of (l, a, b) \<Rightarrow>
     (let id = flow_id a b;
          f = (case jget flows id of Some f \<Rightarrow> f
             | None \<Rightarrow> \<lparr>fl_flow_id = id, fl_from = loc_id a, fl_to = loc_id b, fl_link_count = 0, fl_devices = [],
                         fl_app_to_agent = 0, fl_agent_to_app = 0, fl_total = 0, fl_paths = [],
                         fl_last_seen_at = ln_last_seen_at l\<rparr>);
          up = fl_app_to_agent f + ln_app_to_agent l; down = fl_agent_to_app f + ln_agent_to_app l
      in jput id
           (f\<lparr>fl_link_count := fl_link_count f + 1, fl_devices := jset_add (ln_device_id l) (fl_devices f),
              fl_app_to_agent := up, fl_agent_to_app := down, fl_total := up + down,
              fl_paths := tally (ln_path l) 1 (fl_paths f),
              fl_last_seen_at := max (fl_last_seen_at f) (ln_last_seen_at l)\<rparr>) flows))"

text \<open>An id that is both an agent's and a phone's counts as the phone's.\<close>

definition connectionsById :: "store \<Rightarrow> string \<Rightarrow> conn_entry option" where
  "connectionsById s c = (case jget (rs_apps s) c of Some p \<Rightarrow> Some (conn_entry.truncate p) | None \<Rightarrow> jget (rs_agents s) c)"

definition link_ends :: "(string \<Rightarrow> location) \<Rightarrow> store \<Rightarrow> link_entry \<Rightarrow> (link_entry \<times> location \<times> location) option" where
  "link_ends place s l = (case (connectionsById s (ln_agent l), connectionsById s (ln_app l)) of
     (Some a, Some p) \<Rightarrow> Some (l, trafficLocationFromConnection place p, trafficLocationFromConnection place a)
   | _ \<Rightarrow> None)"

record traffic_map =
  tm_nodes :: "map_node list"
  tm_flows :: "map_flow list"
  tm_city_nodes :: nat
  tm_country_nodes :: nat
  tm_unknown_nodes :: nat
  tm_app_to_agent :: nat
  tm_agent_to_app :: nat

definition map_connections :: "store \<Rightarrow> (conn_entry \<times> bool) list" where
  "map_connections s = map (\<lambda>a. (a, True)) (active_agents s)
     @ map (\<lambda>p. (conn_entry.truncate p, False)) (active_apps s)"

definition mapped_links :: "(string \<Rightarrow> location) \<Rightarrow> store \<Rightarrow> (link_entry \<times> location \<times> location) list" where
  "mapped_links place s = List.map_filter (link_ends place s) (active_links s)"

definition trafficMapSnapshot :: "(string \<Rightarrow> location) \<Rightarrow> store \<Rightarrow> traffic_map" where
  "trafficMapSnapshot place s =
     (let nodes = fold (addConnectionToTrafficMap place) (map_connections s) [];
          flows = fold addLinkToTrafficMapFlows (mapped_links place s) [];
          shown = sort_key (\<lambda>n. - int (nd_connection_count n)) (entries nodes);
          drawn = sort_key (\<lambda>f. - int (fl_total f)) (entries flows);
          of_accuracy = (\<lambda>a. length (filter (\<lambda>n. loc_accuracy (nd_place n) = a) shown))
      in \<lparr>tm_nodes = shown, tm_flows = drawn, tm_city_nodes = of_accuracy City,
          tm_country_nodes = of_accuracy Country, tm_unknown_nodes = of_accuracy Unknown_place,
          tm_app_to_agent = sum_list (map fl_app_to_agent drawn),
          tm_agent_to_app = sum_list (map fl_agent_to_app drawn)\<rparr>)"

end
