(* ===== verification/StateProperties.thy ===== *)
theory StateProperties
  imports StatePromise StateViews "HOL-Library.Multiset"
begin

text \<open>
  The properties of the state store: its shape, the books it keeps of traffic, its presence against
  the roster, the sums on its traffic map, and three ways in which its statuses go wrong when the calls
  are not lawful or the relay was not stopped in order.
\<close>

declare map_of_eq_Some_iff [simp del] Some_eq_map_of_iff [simp del]

section \<open>Sums over grouped entries\<close>

definition grouped :: "('x \<Rightarrow> 'k) \<Rightarrow> ('x \<Rightarrow> 'v) \<Rightarrow> ('x \<Rightarrow> 'v \<Rightarrow> 'v) \<Rightarrow> 'x \<Rightarrow> ('k, 'v) jmap \<Rightarrow> ('k, 'v) jmap" where
  "grouped key fresh change x m = jput (key x) (change x (case jget m (key x) of Some v \<Rightarrow> v | None \<Rightarrow> fresh x)) m"

lemma sum_put:
  "jwf m \<Longrightarrow> sum_list (map f (entries (jput k v m))) + (case jget m k of Some w \<Rightarrow> f w | None \<Rightarrow> (0::nat))
     = sum_list (map f (entries m)) + f v"
proof (induction m)
  case Nil
  then show ?case by (simp add: entries_def)
next
  case (Cons p m)
  obtain a b where p: "p = (a, b)" by (cases p)
  show ?case
  proof (cases "a = k")
    case True
    with p show ?thesis by (simp add: entries_def)
  next
    case False
    have "sum_list (map f (entries (jput k v m))) + (case jget m k of Some w \<Rightarrow> f w | None \<Rightarrow> 0)
        = sum_list (map f (entries m)) + f v" using Cons by simp
    with False p show ?thesis by (simp add: entries_def)
  qed
qed

lemma grouped_sum:
  assumes change: "\<And>x v. f (change x v) = f v + g x" and fresh: "\<And>x. f (fresh x) = (0::nat)"
  shows "jwf m \<Longrightarrow> jwf (fold (grouped key fresh change) xs m) \<and>
     sum_list (map f (entries (fold (grouped key fresh change) xs m))) = sum_list (map f (entries m)) + sum_list (map g xs)"
proof (induction xs arbitrary: m)
  case Nil
  then show ?case by simp
next
  case (Cons x xs)
  let ?v = "change x (case jget m (key x) of Some v \<Rightarrow> v | None \<Rightarrow> fresh x)"
  have "sum_list (map f (entries (jput (key x) ?v m))) = sum_list (map f (entries m)) + g x"
    using sum_put[OF Cons.prems, of f "key x" ?v] by (auto simp: change fresh split: option.splits)
  moreover have "jwf (grouped key fresh change x m)" using Cons.prems by (auto simp: grouped_def)
  ultimately show ?case using Cons.IH[of "grouped key fresh change x m"] by (simp add: grouped_def)
qed

lemma sum_sort_key [simp]: "sum_list (map f (sort_key k xs)) = (sum_list (map f xs) :: nat)"
proof -
  have "sum_mset (mset (map f (sort_key k xs))) = sum_mset (mset (map f xs))" by (simp add: mset_map)
  then show ?thesis by (simp only: sum_mset_sum_list)
qed

definition node_step where
  "node_step place = grouped (\<lambda>(e, agent). loc_id (trafficLocationFromConnection place e))
     (\<lambda>(e, agent). \<lparr>nd_place = trafficLocationFromConnection place e, nd_connection_count = 0, nd_agent_count = 0,
        nd_app_count = 0, nd_devices = [], nd_counters = emptyCounters\<rparr>)
     (\<lambda>(e, agent) n. n\<lparr>nd_connection_count := nd_connection_count n + 1,
        nd_agent_count := nd_agent_count n + (if agent then 1 else 0),
        nd_app_count := nd_app_count n + (if agent then 0 else 1),
        nd_devices := jset_add (en_device_id e) (nd_devices n),
        nd_counters := mergeCounters (nd_counters n) (en_counters e)\<rparr>)"

lemma node_step: "addConnectionToTrafficMap place = node_step place"
  by (auto simp: fun_eq_iff addConnectionToTrafficMap_def node_step_def grouped_def Let_def)

lemma node_sum:
  fixes f :: "map_node \<Rightarrow> nat"
  assumes "\<And>e agent n. f (n\<lparr>nd_connection_count := nd_connection_count n + 1,
        nd_agent_count := nd_agent_count n + (if agent then 1 else 0),
        nd_app_count := nd_app_count n + (if agent then 0 else 1),
        nd_devices := jset_add (en_device_id e) (nd_devices n),
        nd_counters := mergeCounters (nd_counters n) (en_counters e)\<rparr>) = f n + g (e, agent)"
    and "\<And>p. f \<lparr>nd_place = p, nd_connection_count = 0, nd_agent_count = 0,
        nd_app_count = 0, nd_devices = [], nd_counters = emptyCounters\<rparr> = 0"
  shows "sum_list (map f (tm_nodes (trafficMapSnapshot place s))) = sum_list (map g (map_connections s))"
proof -
  have "sum_list (map f (entries (fold (node_step place) (map_connections s) []))) = sum_list (map g (map_connections s))"
    unfolding node_step_def
    by (rule trans[OF grouped_sum[where f = f and g = g, THEN conjunct2]]) (use assms in \<open>auto simp: entries_def\<close>)
  then show ?thesis by (simp add: trafficMapSnapshot_def Let_def node_step)
qed

definition flow_step where
  "flow_step = grouped (\<lambda>(l, a, b). flow_id a b)
     (\<lambda>(l, a, b). \<lparr>fl_flow_id = flow_id a b, fl_from = loc_id a, fl_to = loc_id b, fl_link_count = 0, fl_devices = [],
        fl_app_to_agent = 0, fl_agent_to_app = 0, fl_total = 0, fl_paths = [], fl_last_seen_at = ln_last_seen_at l\<rparr>)
     (\<lambda>(l, a, b) f. f\<lparr>fl_link_count := fl_link_count f + 1, fl_devices := jset_add (ln_device_id l) (fl_devices f),
        fl_app_to_agent := fl_app_to_agent f + ln_app_to_agent l, fl_agent_to_app := fl_agent_to_app f + ln_agent_to_app l,
        fl_total := fl_app_to_agent f + ln_app_to_agent l + (fl_agent_to_app f + ln_agent_to_app l),
        fl_paths := tally (ln_path l) 1 (fl_paths f),
        fl_last_seen_at := max (fl_last_seen_at f) (ln_last_seen_at l)\<rparr>)"

lemma flow_step: "addLinkToTrafficMapFlows = flow_step"
  by (auto simp: fun_eq_iff addLinkToTrafficMapFlows_def flow_step_def grouped_def Let_def)

lemma flow_sums:
  "sum_list (map fl_app_to_agent (tm_flows (trafficMapSnapshot place s))) = sum_list (map (ln_app_to_agent \<circ> fst) (mapped_links place s))"
  "sum_list (map fl_agent_to_app (tm_flows (trafficMapSnapshot place s))) = sum_list (map (ln_agent_to_app \<circ> fst) (mapped_links place s))"
  "sum_list (map fl_link_count (tm_flows (trafficMapSnapshot place s))) = length (mapped_links place s)"
proof -
  have "sum_list (map f (entries (fold flow_step (mapped_links place s) []))) = sum_list (map g (mapped_links place s))"
    if "f = fl_app_to_agent \<and> g = ln_app_to_agent \<circ> fst \<or> f = fl_agent_to_app \<and> g = ln_agent_to_app \<circ> fst
      \<or> f = fl_link_count \<and> g = (\<lambda>x. 1)" for f g
    unfolding flow_step_def
    by (rule trans[OF grouped_sum[where f = f and g = g, THEN conjunct2]]) (use that in \<open>auto simp: entries_def\<close>)
  from this this[of fl_link_count "\<lambda>x. 1"] show "sum_list (map fl_app_to_agent (tm_flows (trafficMapSnapshot place s))) = sum_list (map (ln_app_to_agent \<circ> fst) (mapped_links place s))"
    "sum_list (map fl_agent_to_app (tm_flows (trafficMapSnapshot place s))) = sum_list (map (ln_agent_to_app \<circ> fst) (mapped_links place s))"
    "sum_list (map fl_link_count (tm_flows (trafficMapSnapshot place s))) = length (mapped_links place s)"
    by (simp_all add: trafficMapSnapshot_def Let_def flow_step sum_list_triv)
qed

section \<open>A device, its agent and a phone\<close>

definition demo_live :: "string \<Rightarrow> role \<Rightarrow> conn_state \<Rightarrow> string \<Rightarrow> int \<Rightarrow> live_conn" where
  "demo_live c r st d now = rconn.extend
     ((new_rconn (if r = Agent then Agent_endpoint else Mobile_endpoint) ''10.0.0.7'' None now)
       \<lparr>k_role := r, k_state := st, k_deviceId := Some d\<rparr>)
     \<lparr>k_id = c, k_location = None\<rparr>"

lemma demo_live_simps [simp]:
  "k_id (demo_live c r st d now) = c" "k_role (demo_live c r st d now) = r"
  "k_state (demo_live c r st d now) = st" "k_deviceId (demo_live c r st d now) = Some d"
  "k_remoteIp (demo_live c r st d now) = ''10.0.0.7''" "k_lastSeenAt (demo_live c r st d now) = now"
  "k_connectedAt (demo_live c r st d now) = now" "k_transportPath (demo_live c r st d now) = Path_relay"
  "k_location (demo_live c r st d now) = None" "k_appInfo (demo_live c r st d now) = None"
  "k_authState (demo_live c r st d now) = Auth_none" "k_transportPreference (demo_live c r st d now) = None"
  by (simp_all add: demo_live_def new_rconn_def rconn.defs)

abbreviation demo_agent :: "string \<Rightarrow> int \<Rightarrow> live_conn" where
  "demo_agent d now \<equiv> demo_live ''conn_a'' Agent Registered_agent d now"

abbreviation demo_phone :: "string \<Rightarrow> int \<Rightarrow> live_conn" where
  "demo_phone d now \<equiv> demo_live ''conn_p'' Mobile Mobile_connected d now"

lemmas store_eval = registerConnection_def registerAgent_def registerApp_def closeConnection_def close_agent_def
  close_app_def drop_link_def on_device_def refreshDeviceStatus_def put_device_def on_statuses_def Let_def
  ensureDevice_def new_device_def truthy_def status_note_def activeCount_def presence_of_def upsert_def
  merged_row_def coalesce_def new_entry_def new_app_entry_def conn_entry.defs createOrUpdateLink_def new_link_def
  link_id_for_def authenticateApp_def jset_add_def jset_del_def addPendingDeviceTraffic_def recordTraffic_def
  count_connection_def count_entry_def count_link_def linkIdForTraffic_def incrementLinkDirection_def
  incrementCounters_def add_delta_def emptyDeviceTrafficDelta_def emptyCounters_def tally_def
  flushDeviceStatus_def addTraffic_def credited_def sweep_def pruneOffline_def expired_row_def new_store_def
  status_row_def

definition demo_day :: "(store_event \<times> int) list" where
  "demo_day = [(Registers (demo_agent ''dev'' 0), 0), (Agent_joins (demo_agent ''dev'' 1), 1),
     (App_joins (demo_phone ''dev'' 2), 2), (Carries (demo_phone ''dev'' 3) In ''ping'' None 10, 3), (Flushes, 4),
     (Carries (demo_agent ''dev'' 5) Out ''pong'' (Some ''conn_p'') 7, 5)]"

section \<open>Properties\<close>

text \<open>
  C23: whatever calls the state store gets and in whatever order, its data stay well formed: every map has
  unique keys that agree with its entries, the tallies by message type add up to the message counts of the
  relay, of every device, agent, phone and link, and the two directions of a link add up to the bytes it
  brought in. This holds from a table of any earlier run, as its device ids are a primary key.
\<close>

theorem store_shape:
  "pred_option (\<lambda>t. jwf t) table \<Longrightarrow> store_wf (fold store_step es (new_store now table))"
  by (rule store_life.run_inv[OF new_store_wf]) simp_all

theorem store_shape_witness: "store_wf (fold store_step demo_day (new_store 0 (Some [])))"
  by (rule store_shape) simp

text \<open>
  C18: traffic is booked once and not lost: over any run in which a device's row is there at every
  moment, what its row and the pending delta hold together grows by exactly the bytes and messages
  that the run carried for it, in each direction, wherever the flushes and the sweeps fall.
\<close>

theorem traffic_conserved:
  assumes "store_wf s" and "\<forall>n \<le> length es. status_row d (fold store_step (take n es) s) \<noteq> None"
  shows "credit d (fold store_step es s) = delta_plus (credit d s) (all_carried d es)"
  using assms
proof (induction es rule: rev_induct)
  case Nil
  then show ?case by (simp add: all_carried_def)
next
  case (snoc e es)
  have rows: "status_row d (fold store_step (take n es) s) \<noteq> None" if "n \<le> length es" for n
    using snoc.prems(2)[rule_format, of n] that by simp
  have now: "status_row d (fold store_step es s) \<noteq> None" using rows[of "length es"] by simp
  have "status_row d (store_step e (fold store_step es s)) \<noteq> None"
    using snoc.prems(2)[rule_format, of "Suc (length es)"] by simp
  from step_credit[OF store_life.run_inv[OF snoc.prems(1)] now this]
  have "credit d (fold store_step (es @ [e]) s) = delta_plus (credit d (fold store_step es s)) (carried d e)" by simp
  moreover have "credit d (fold store_step es s) = delta_plus (credit d s) (all_carried d es)"
    using snoc.IH snoc.prems(1) rows by blast
  ultimately show ?case by (simp add: all_carried_def)
qed

theorem traffic_conserved_witness:
  "credit ''dev'' (fold store_step (drop 2 demo_day) (fold store_step (take 2 demo_day) (new_store 0 (Some []))))
     = \<lparr>dt_bytes_in = 10, dt_bytes_out = 7, dt_messages_in = 1, dt_messages_out = 1\<rparr>"
proof -
  let ?s = "fold store_step (take 2 demo_day) (new_store 0 (Some []))"
  have "store_wf ?s" by (rule store_life.run_inv[OF new_store_wf]) simp_all
  moreover have "\<forall>n \<le> length (drop 2 demo_day). status_row ''dev'' (fold store_step (take n (drop 2 demo_day)) ?s) \<noteq> None"
  proof (intro allI impI)
    fix n assume "n \<le> length (drop 2 demo_day)"
    then consider "n = 0" | "n = 1" | "n = 2" | "n = 3" | "n = 4" unfolding demo_day_def by fastforce
    then show "status_row ''dev'' (fold store_step (take n (drop 2 demo_day)) ?s) \<noteq> None"
      by cases (simp_all add: demo_day_def store_eval)
  qed
  moreover have "credit ''dev'' ?s = emptyDeviceTrafficDelta" 
    by (simp add: demo_day_def store_eval credit_def pending_delta_def row_delta_def delta_plus_def)
  moreover have "all_carried ''dev'' (drop 2 demo_day) = \<lparr>dt_bytes_in = 10, dt_bytes_out = 7, dt_messages_in = 1, dt_messages_out = 1\<rparr>"
    by (simp add: demo_day_def all_carried_def carried_def truthy_def add_delta_def emptyDeviceTrafficDelta_def delta_plus_def)
  ultimately show ?thesis using traffic_conserved[of ?s "drop 2 demo_day" "''dev''"] by simp
qed

definition shown_status :: "string \<Rightarrow> store \<Rightarrow> presence" where
  "shown_status d s = (case status_row d s of None \<Rightarrow> Offline | Some r \<Rightarrow> row_status r)"

text \<open>
  C9: the persisted status of a device is the roster's: after any lawful run from an empty table, a device
  is shown online exactly if an agent that has not left serves it, degraded if only phones that have not
  left ask for it, and offline otherwise; a device without a row counts as offline, so a sweep
  only ever forgets devices nobody serves.
\<close>

theorem statuses_refine_roster:
  assumes "lawful_run (new_store t0 (Some [])) es s"
  shows "shown_status d s = presence d (fold (\<lambda>e. roster_step (fst e)) es empty_roster)"
proof -
  have "roster_of s = fold (\<lambda>e. roster_step (fst e)) es empty_roster"
    using roster_run[of es "new_store t0 (Some [])"] lawful_run_fold[OF assms] by (simp add: new_store_roster)
  moreover have "agrees d s" by (rule presence_okD[OF lawful_run_ok[OF assms new_store_ok]])
  ultimately show ?thesis by (simp add: agrees_def row_agrees_def shown_status_def split: option.splits)
qed

lemmas lawful_eval = lawful_def keeps_device_def roster_refines new_store_roster empty_roster_def join_agent_def
  join_app_def truthy_def

theorem statuses_refine_roster_witness:
  "shown_status ''dev'' (fold store_step (demo_day @ [(Closes ''conn_a'', 6)]) (new_store 0 (Some []))) = Degraded"
proof -
  let ?es = "demo_day @ [(Closes ''conn_a'', 6)]"
  have "lawful_run (new_store 0 (Some [])) ?es (fold store_step ?es (new_store 0 (Some [])))"
    by (simp add: demo_day_def lawful_eval del: store_step.simps)
  from statuses_refine_roster[OF this, of "''dev''"] show ?thesis
    by (simp add: demo_day_def presence_def agents_of_def apps_of_def lawful_eval)
qed

text \<open>
  The traffic map neither loses nor doubles traffic: each of its totals over the nodes is the total over
  the open agents and phones, in connections, in agents and phones and in bytes both ways, and the totals
  over its flows are those over the open links whose two ends are still known.
\<close>

theorem traffic_map_totals:
  "(let m = trafficMapSnapshot place s; total = (\<lambda>f. sum_list (map f (tm_nodes m)))
    in total nd_connection_count = length (active_agents s) + length (active_apps s)
     \<and> total nd_agent_count = length (active_agents s) \<and> total nd_app_count = length (active_apps s)
     \<and> total (bytes_in \<circ> nd_counters) = sum_list (map (bytes_in \<circ> en_counters \<circ> fst) (map_connections s))
     \<and> total (bytes_out \<circ> nd_counters) = sum_list (map (bytes_out \<circ> en_counters \<circ> fst) (map_connections s))
     \<and> sum_list (map fl_link_count (tm_flows m)) = length (mapped_links place s)
     \<and> tm_app_to_agent m = sum_list (map (ln_app_to_agent \<circ> fst) (mapped_links place s))
     \<and> tm_agent_to_app m = sum_list (map (ln_agent_to_app \<circ> fst) (mapped_links place s)))"
proof -
  have "sum_list (map nd_connection_count (tm_nodes (trafficMapSnapshot place s))) = sum_list (map (\<lambda>x. 1) (map_connections s))"
    by (rule node_sum) simp_all
  moreover have "sum_list (map nd_agent_count (tm_nodes (trafficMapSnapshot place s)))
      = sum_list (map (\<lambda>(e, agent). if agent then 1 else 0) (map_connections s))"
    by (rule node_sum) simp_all
  moreover have "sum_list (map nd_app_count (tm_nodes (trafficMapSnapshot place s)))
      = sum_list (map (\<lambda>(e, agent). if agent then 0 else 1) (map_connections s))"
    by (rule node_sum) simp_all
  moreover have "sum_list (map (bytes_in \<circ> nd_counters) (tm_nodes (trafficMapSnapshot place s)))
      = sum_list (map (bytes_in \<circ> en_counters \<circ> fst) (map_connections s))"
    by (rule node_sum) (simp_all add: mergeCounters_def emptyCounters_def)
  moreover have "sum_list (map (bytes_out \<circ> nd_counters) (tm_nodes (trafficMapSnapshot place s)))
      = sum_list (map (bytes_out \<circ> en_counters \<circ> fst) (map_connections s))"
    by (rule node_sum) (simp_all add: mergeCounters_def emptyCounters_def)
  moreover have "tm_app_to_agent (trafficMapSnapshot place s) = sum_list (map fl_app_to_agent (tm_flows (trafficMapSnapshot place s)))"
    "tm_agent_to_app (trafficMapSnapshot place s) = sum_list (map fl_agent_to_app (tm_flows (trafficMapSnapshot place s)))"
    by (simp_all add: trafficMapSnapshot_def Let_def)
  ultimately show ?thesis
    by (simp add: flow_sums map_connections_def sum_list_triv comp_def)
qed

text \<open>
  A phone that asks for a second device on the same connection leaves a ghost on the first one: after
  it has left the relay, with no agent and no phone connected at all, the first device is still shown degraded,
  and no sweep forgets it, however late.
\<close>

theorem rebound_phone_leaves_ghost:
  "(let s = fold store_step [(App_joins (demo_phone ''one'' 1), 1), (App_joins (demo_phone ''two'' 2), 2),
        (Closes ''conn_p'', 3), (Sweeps 1000, later)] (new_store 0 (Some []))
    in rs_agents s = [] \<and> rs_apps s = [] \<and> shown_status ''one'' s = Degraded)"
  by (simp add: store_eval shown_status_def)

text \<open>
  A message handled after its connection was closed brings the device back: the entry it makes in the
  store's devices says online although nobody serves the device any more, and the table says offline; nothing
  but a later connection of that device removes the entry again.
\<close>

theorem late_message_revives_device:
  "(let s = fold store_step [(Agent_joins (demo_agent ''dev'' 1), 1), (Closes ''conn_a'', 2),
        (Carries (demo_live ''conn_a'' Agent Closed ''dev'' 3) In ''ping'' None 10, 3), (Sweeps 1000, later)]
        (new_store 0 (Some []))
    in rs_agents s = [] \<and> map_option dv_status (jget (rs_devices s) ''dev'') = Some Online
       \<and> shown_status ''dev'' s = Offline)"
  by (simp add: store_eval shown_status_def)

definition names_device :: "string \<Rightarrow> store_event \<Rightarrow> bool" where
  "names_device d e = (case e of Agent_joins k \<Rightarrow> k_deviceId k = Some d | App_joins k \<Rightarrow> k_deviceId k = Some d
     | Authenticates k agent \<Rightarrow> k_deviceId k = Some d | Links d' a c st p session \<Rightarrow> d' = d | _ \<Rightarrow> False)"

definition unserved :: "string \<Rightarrow> store \<Rightarrow> bool" where
  "unserved d s \<longleftrightarrow> rs_statuses s \<noteq> None \<and> agents_of d (roster_of s) = {} \<and> apps_of d (roster_of s) = {}"

lemma row_statuses: "status_row d s = Some r \<Longrightarrow> rs_statuses s \<noteq> None"
  by (cases "rs_statuses s") (simp_all add: status_row_def)

lemma on_device_row [simp]: "status_row d (on_device d' f s) = status_row d s"
  by (simp add: on_device_def split: option.splits)

lemma unserved_close:
  assumes "unserved d s"
  shows "status_row d (closeConnection c now s) = status_row d s"
proof -
  have agent: "status_row d (close_agent c now s) = status_row d s" if "unserved d s" for s
  proof (cases "jget (rs_agents s) c")
    case None
    then show ?thesis by (simp add: close_agent_def)
  next
    case (Some a)
    with that have "d \<noteq> en_device_id a" by (auto simp: unserved_def agents_of_def roster_of_def)
    with that Some show ?thesis
      by (simp add: close_agent_def refresh_other unserved_def del: not_None_eq)
  qed
  have app: "status_row d (close_app c now s) = status_row d s" if "unserved d s" for s
  proof (cases "jget (rs_apps s) c")
    case None
    then show ?thesis by (simp add: close_app_def)
  next
    case (Some a)
    with that have "d \<noteq> en_device_id a" by (auto simp: unserved_def apps_of_def roster_of_def)
    with that Some show ?thesis
      by (simp add: close_app_def refresh_other unserved_def status_row_def[of d "drop_link _ _ _"] del: not_None_eq)
         (simp add: status_row_def)
  qed
  let ?s = "s\<lparr>rs_connections := jset_del c (rs_connections s)\<rparr>"
  have s: "unserved d ?s" using assms by (simp add: unserved_def roster_of_def)
  have "rs_statuses (close_agent c now ?s) \<noteq> None" using s
    by (cases "jget (rs_agents s) c") (simp_all add: close_agent_def unserved_def del: not_None_eq)
  with s have "unserved d (close_agent c now ?s)"
    by (simp add: unserved_def roster_close_agent agents_of_def apps_of_def del: not_None_eq)
  from app[OF this] agent[OF s] show ?thesis by (simp add: closeConnection_def status_row_def)
qed

lemma unserved_row:
  assumes "store_wf s" "unserved d s" "\<not> names_device d (fst e)"
    and "status_row d s = Some r" "row_status r \<noteq> Offline"
  shows "\<exists>r'. status_row d (store_step e s) = Some r' \<and> row_status r' = row_status r"
proof -
  have st: "rs_statuses s \<noteq> None" using assms(2) by (simp add: unserved_def)
  have flush: "\<exists>r'. status_row d (flushDeviceStatus now s) = Some r' \<and> row_status r' = row_status r" for now
    using flush_row[OF assms(1), of d now] assms(4) by auto
  have agent: "status_row d (registerAgent k s) = status_row d s" if "k_deviceId k \<noteq> Some d" for k
    using that st by (auto simp: registerAgent_def Let_def truthy_def status_row_upsert)
  have app: "status_row d (registerApp k s) = status_row d s" if "k_deviceId k \<noteq> Some d" for k
    using that st by (auto simp: registerApp_def Let_def truthy_def status_row_upsert)
  have link: "status_row d (createOrUpdateLink d' a c l p n now u) = status_row d u"
    if "d' \<noteq> d" "rs_statuses u \<noteq> None" for d' a c l p n now u
    using that by (simp add: createOrUpdateLink_def Let_def status_row_upsert)
  show ?thesis
  proof (cases "(e, s)" rule: store_step.cases)
    case (5 k agent now u)
    define v where "v = (case jget (rs_apps (registerApp k s)) (k_id k) of None \<Rightarrow> registerApp k s
      | Some p \<Rightarrow> (registerApp k s)\<lparr>rs_apps := jput (k_id k) (p\<lparr>en_state := k_state k, en_auth_state := k_authState k,
         en_last_seen_at := k_lastSeenAt k\<rparr>) (rs_apps (registerApp k s))\<rparr>)"
    have k: "k_deviceId k \<noteq> Some d" using assms(3) 5 by (simp add: names_device_def)
    have "status_row d v = status_row d (registerApp k s)"
      by (cases "jget (rs_apps (registerApp k s)) (k_id k)") (simp_all add: v_def)
    with app[OF k] have row: "status_row d v = Some r" using assms(4) by simp
    then have "rs_statuses v \<noteq> None" by (rule row_statuses)
    with k row have "status_row d (authenticateApp k agent now s) = Some r"
      by (auto simp: authenticateApp_def Let_def v_def[symmetric] truthy_def link)
    with 5 show ?thesis by simp
  next
    case (12 retention now u)
    with flush[of now] obtain r' where r': "status_row d (flushDeviceStatus now s) = Some r'" "row_status r' = row_status r"
      by blast
    have wf: "store_wf (flushDeviceStatus now s)" by (rule wf_flush[OF assms(1)])
    obtain t where t: "rs_statuses (flushDeviceStatus now s) = Some t" "jget t d = Some r'"
      using r'(1) by (auto simp: status_row_def split: option.splits)
    have "distinct (map fst t)" using wf t(1) by (simp add: store_wf_def keys_unique_def)
    from device_status.prune_keeps_live[OF this t(2)] assms(5) r'(2)
    have "status_row d (sweep retention now s) = Some r'" by (simp add: sweep_def status_row_def on_statuses_def t(1))
    with 12 r'(2) show ?thesis by simp
  qed (use assms(2-5) st in \<open>auto simp: names_device_def unserved_close agent app link flush recordTraffic_books
      registerConnection_def recordAuthFailed_def recordRouteDropped_def recordProtocolErrorSent_def,
      auto simp: status_row_def\<close>)
qed

lemma unserved_step:
  assumes "unserved d s" "\<not> names_device d (fst e)" "rs_statuses (store_step e s) \<noteq> None"
  shows "unserved d (store_step e s)"
  using assms by (cases "fst e")
    (auto simp: unserved_def roster_refines agents_of_def apps_of_def join_agent_def join_app_def names_device_def)

text \<open>
  What a relay that crashed has left in the table is never corrected by the next one: a row that says
  online or degraded keeps saying so through every call that does not name its device, sweeps and
  flushes included.
\<close>

theorem stale_status_stays:
  assumes "jwf t" "jget t d = Some r" "row_status r \<noteq> Offline" and "\<forall>e \<in> set es. \<not> names_device d (fst e)"
  shows "shown_status d (fold store_step es (new_store now (Some t))) = row_status r"
proof -
  have "store_wf (fold store_step es (new_store now (Some t))) \<and> unserved d (fold store_step es (new_store now (Some t)))
     \<and> (\<exists>r'. status_row d (fold store_step es (new_store now (Some t))) = Some r' \<and> row_status r' = row_status r)"
    using assms(4)
  proof (induction es rule: rev_induct)
    case Nil
    with assms(1,2) show ?case
      by (simp add: new_store_wf unserved_def agents_of_def apps_of_def new_store_roster empty_roster_def)
         (simp add: new_store_def status_row_def)
  next
    case (snoc e es)
    let ?s = "fold store_step es (new_store now (Some t))"
    obtain r' where ih: "store_wf ?s" "unserved d ?s" "status_row d ?s = Some r'" "row_status r' = row_status r"
      using snoc by auto
    have e: "\<not> names_device d (fst e)" using snoc.prems by simp
    obtain r'' where row: "status_row d (store_step e ?s) = Some r''" "row_status r'' = row_status r"
      using unserved_row[OF ih(1,2) e ih(3)] ih(4) assms(3) by auto
    have "rs_statuses (store_step e ?s) \<noteq> None" by (rule row_statuses[OF row(1)])
    with row ih e show ?case by (simp add: wf_step unserved_step)
  qed
  then show ?thesis by (auto simp: shown_status_def)
qed

theorem stale_status_stays_witness:
  "shown_status ''dev'' (fold store_step [(Flushes, 10), (Sweeps 1000, 999999)]
     (new_store 9 (Some (upsert (status_note ''dev'' Online 1) [])))) = Online"
proof -
  define r where "r = merged_row (status_note ''dev'' Online 1) None"
  have "jget (upsert (status_note ''dev'' Online 1) []) ''dev'' = Some r" by (simp add: upsert_def r_def)
  moreover have "row_status r = Online" by (simp add: r_def)
  ultimately show ?thesis
    using stale_status_stays[of "upsert (status_note ''dev'' Online 1) []" "''dev''" r
        "[(Flushes, 10), (Sweeps 1000, 999999)]" 9]
    by (simp add: upsert_def names_device_def del: store_step.simps)
qed

end
