(* ===== verification/Encoding.thy ===== *)
theory Encoding
  imports Prelude
begin

text \<open>
  Texts the protocol signs and shows: base64url, Crockford's base32, decimal numbers and the JSON of a
  list of strings (\<open>packages/protocol-ts/src/identity.ts\<close> and \<open>JSON.stringify\<close>). A string is the
  list of its bytes in UTF-8, so \<open>utf8\<close> only changes the type. The encoders are
  injective; that is what the signatures and the transcript of the handshake rest on.
\<close>

definition utf8 :: "string \<Rightarrow> byte list" where
  "utf8 s = map (\<lambda>c. word_of_nat (of_char c)) s"

lemma utf8_inj [simp]: "utf8 s = utf8 t \<longleftrightarrow> s = t"
proof -
  have "inj (\<lambda>c. word_of_nat (of_char c) :: byte)"
  proof (rule injI)
    fix x y :: char
    assume "(word_of_nat (of_char x) :: byte) = word_of_nat (of_char y)"
    then have "unat (word_of_nat (of_char x) :: byte) = unat (word_of_nat (of_char y) :: byte)" by simp
    moreover have "of_char c < (256::nat)" for c by simp
    ultimately have "(of_char x :: nat) = of_char y" by (simp add: unat_of_nat)
    then show "x = y" by simp
  qed
  then show ?thesis by (simp add: utf8_def inj_map_eq_map)
qed

lemma utf8_append [simp]: "utf8 (s @ t) = utf8 s @ utf8 t"
  by (simp add: utf8_def)

lemma utf8_length [simp]: "length (utf8 s) = length s"
  by (simp add: utf8_def)

section \<open>Positions in an alphabet\<close>

fun index_of :: "'a \<Rightarrow> 'a list \<Rightarrow> nat option" where
  "index_of x [] = None"
| "index_of x (y # ys) = (if x = y then Some 0 else map_option Suc (index_of x ys))"

lemma index_of_nth: "distinct xs \<Longrightarrow> n < length xs \<Longrightarrow> index_of (xs ! n) xs = Some n"
  by (induction xs arbitrary: n) (auto simp: nth_Cons split: nat.splits)

lemma index_of_Some: "index_of x xs = Some n \<Longrightarrow> n < length xs \<and> xs ! n = x"
  by (induction xs arbitrary: n) (auto split: if_splits)

section \<open>Base64url\<close>

definition BASE64_ALPHABET :: string where
  "BASE64_ALPHABET = ''ABCDEFGHIJKLMNOPQRSTUVWXYZabcdefghijklmnopqrstuvwxyz0123456789+/''"

definition b64_char :: "nat \<Rightarrow> char" where
  "b64_char n = BASE64_ALPHABET ! n"

definition base64Index :: "char \<Rightarrow> nat option" where
  "base64Index c = index_of c BASE64_ALPHABET"

fun base64_body :: "byte list \<Rightarrow> string" where
  "base64_body [] = []"
| "base64_body [a] = [b64_char (unat a div 4), b64_char ((unat a mod 4) * 16), CHR ''='', CHR ''='']"
| "base64_body [a, b] = [b64_char (unat a div 4), b64_char ((unat a mod 4) * 16 + unat b div 16),
     b64_char ((unat b mod 16) * 4), CHR ''='']"
| "base64_body (a # b # c # bs) = [b64_char (unat a div 4), b64_char ((unat a mod 4) * 16 + unat b div 16),
     b64_char ((unat b mod 16) * 4 + unat c div 64), b64_char (unat c mod 64)] @ base64_body bs"

definition to_url :: "char \<Rightarrow> char" where
  "to_url c = (if c = CHR ''+'' then CHR ''-'' else if c = CHR ''/'' then CHR ''_'' else c)"

definition of_url :: "char \<Rightarrow> char" where
  "of_url c = (if c = CHR ''-'' then CHR ''+'' else if c = CHR ''_'' then CHR ''/'' else c)"

definition toBase64Url :: "byte list \<Rightarrow> string" where
  "toBase64Url bs = rev (dropWhile (\<lambda>c. c = CHR ''='') (rev (map to_url (base64_body bs))))"

definition char_between :: "char \<Rightarrow> char \<Rightarrow> char \<Rightarrow> bool" where
  "char_between a z c \<longleftrightarrow> (of_char a :: nat) \<le> of_char c \<and> (of_char c :: nat) \<le> of_char z"

definition url_char :: "char \<Rightarrow> bool" where
  "url_char c \<longleftrightarrow> char_between (CHR ''A'') (CHR ''Z'') c \<or> char_between (CHR ''a'') (CHR ''z'') c
     \<or> char_between (CHR ''0'') (CHR ''9'') c \<or> c = CHR ''_'' \<or> c = CHR ''-''"

text \<open>A shorter last chunk cannot occur after padding; \<open>base64Index\<close> of a missing character throws.\<close>

fun base64_chunks :: "string \<Rightarrow> byte list option" where
  "base64_chunks [] = Some []"
| "base64_chunks (a # b # c # d # s) =
     (case (base64Index a, base64Index b, if c = CHR ''='' then Some 0 else base64Index c,
            if d = CHR ''='' then Some 0 else base64Index d, base64_chunks s) of
        (Some x, Some y, Some z, Some w, Some bs) \<Rightarrow>
          Some ([word_of_nat (x * 4 + y div 16)]
            @ (if c = CHR ''='' then [] else [word_of_nat ((y mod 16) * 16 + z div 4)])
            @ (if d = CHR ''='' then [] else [word_of_nat ((z mod 4) * 64 + w)]) @ bs)
      | _ \<Rightarrow> None)"
| "base64_chunks _ = None"

definition fromBase64Url :: "string \<Rightarrow> byte list option" where
  "fromBase64Url s = (if s = [] \<or> \<not> list_all url_char s then None
     else base64_chunks (map of_url s @ replicate ((4 - length s mod 4) mod 4) (CHR ''='')))"

lemma alphabet: "length BASE64_ALPHABET = 64" "distinct BASE64_ALPHABET"
  "list_all (\<lambda>c. url_char (to_url c) \<and> of_url (to_url c) = c \<and> c \<noteq> CHR ''='' \<and> to_url c \<noteq> CHR ''='') BASE64_ALPHABET"
  by code_simp+

lemma b64_char_facts [simp]:
  assumes "n < 64"
  shows "base64Index (b64_char n) = Some n" "url_char (to_url (b64_char n))"
    "of_url (to_url (b64_char n)) = b64_char n" "b64_char n \<noteq> CHR ''=''" "to_url (b64_char n) \<noteq> CHR ''=''"
proof -
  have "b64_char n \<in> set BASE64_ALPHABET" using assms alphabet(1) by (simp add: b64_char_def)
  with alphabet(3) show "url_char (to_url (b64_char n))"
    "of_url (to_url (b64_char n)) = b64_char n" "b64_char n \<noteq> CHR ''=''" "to_url (b64_char n) \<noteq> CHR ''=''"
    by (auto simp: list_all_iff)
  show "base64Index (b64_char n) = Some n"
    using index_of_nth[OF alphabet(2)] assms alphabet(1) by (simp add: base64Index_def b64_char_def)
qed

lemma byte_bound: "unat (a :: byte) < 256"
  using unsigned_less[of a] by simp

lemma byte_parts [simp]:
  "unat (a::byte) div 4 < 64" "unat a mod 4 * 16 < 64" "unat a mod 4 * 16 + unat (b::byte) div 16 < 64"
  "unat b mod 16 * 4 < 64" "unat b mod 16 * 4 + unat (c::byte) div 64 < 64" "unat c mod 64 < 64"
  using byte_bound[of a] byte_bound[of b] byte_bound[of c] by linarith+

lemma byte_join:
  "y < 16 \<Longrightarrow> unat a div 4 * 4 + (unat a mod 4 * 16 + y) div 16 = unat (a :: byte)"
  "z < 4 \<Longrightarrow> (x * 16 + unat b div 16) mod 16 * 16 + (unat b mod 16 * 4 + z) div 4 = unat (b :: byte)"
  "(x * 4 + unat c div 64) mod 4 * 64 + unat c mod 64 = unat (c :: byte)"
proof -
  show "y < 16 \<Longrightarrow> unat a div 4 * 4 + (unat a mod 4 * 16 + y) div 16 = unat a" by simp
  have "unat b div 16 < 16" using byte_bound[of b] by linarith
  then show "z < 4 \<Longrightarrow> (x * 16 + unat b div 16) mod 16 * 16 + (unat b mod 16 * 4 + z) div 4 = unat b"
    by simp
  have "unat c div 64 < 4" using byte_bound[of c] by linarith
  then show "(x * 4 + unat c div 64) mod 4 * 64 + unat c mod 64 = unat c" by simp
qed

text \<open>The padded text of \<open>n\<close> bytes, and what is left of it after the signs at its end are taken off.\<close>

fun base64_text :: "byte list \<Rightarrow> string" where
  "base64_text [] = []"
| "base64_text [a] = [b64_char (unat a div 4), b64_char ((unat a mod 4) * 16)]"
| "base64_text [a, b] = [b64_char (unat a div 4), b64_char ((unat a mod 4) * 16 + unat b div 16),
     b64_char ((unat b mod 16) * 4)]"
| "base64_text (a # b # c # bs) = [b64_char (unat a div 4), b64_char ((unat a mod 4) * 16 + unat b div 16),
     b64_char ((unat b mod 16) * 4 + unat c div 64), b64_char (unat c mod 64)] @ base64_text bs"

lemma base64_text_chars: "list_all (\<lambda>c. \<exists>n<64. c = b64_char n) (base64_text bs)"
  by (induction bs rule: base64_text.induct) (auto intro: byte_parts)

lemma base64_body_text:
  "base64_body bs = base64_text bs @ replicate ((4 - length (base64_text bs) mod 4) mod 4) (CHR ''='')"
proof (induction bs rule: base64_text.induct)
  case (4 a b c bs)
  have "length (base64_text (a # b # c # bs)) mod 4 = length (base64_text bs) mod 4" by simp
  with 4 show ?case by (simp only: base64_body.simps base64_text.simps append_assoc)
next
  case (2 a)
  have "length (base64_text [a]) = 2" by simp
  then show ?case by (simp only: base64_body.simps base64_text.simps) (simp add: numeral_2_eq_2)
next
  case (3 a b)
  have "length (base64_text [a, b]) = 3" by simp
  then show ?case by (simp only: base64_body.simps base64_text.simps) simp
qed simp

lemma toBase64Url_text: "toBase64Url bs = map to_url (base64_text bs)"
proof -
  let ?t = "map to_url (base64_text bs)"
  have "list_all (\<lambda>c. c \<noteq> CHR ''='') ?t"
    using base64_text_chars[of bs] by (auto simp: list_all_iff)
  then have "list_all (\<lambda>c. c \<noteq> CHR ''='') (rev ?t)" by (simp add: list_all_iff)
  then have "dropWhile (\<lambda>c. c = CHR ''='') (rev ?t) = rev ?t"
    by (cases "rev ?t") (simp_all del: rev_is_Nil_conv)
  moreover have "to_url (CHR ''='') = CHR ''=''" by (simp add: to_url_def)
  moreover have "dropWhile (\<lambda>c. c = CHR ''='') (replicate n (CHR ''='') @ xs) = dropWhile (\<lambda>c. c = CHR ''='') xs" for n xs
    by (induction n) simp_all
  ultimately show ?thesis unfolding toBase64Url_def base64_body_text
    by (simp add: map_replicate_const[symmetric] rev_map[symmetric])
qed

lemma base64_chunks_body: "base64_chunks (base64_body bs) = Some bs"
proof (induction bs rule: base64_body.induct)
  case (2 a)
  show ?case using byte_join(1)[of 0 a] by simp
next
  case (3 a b)
  have "unat b div 16 < 16" using byte_bound[of b] by linarith
  then show ?case using byte_join(1)[of "unat b div 16" a] byte_join(2)[of "unat a mod 4" 0 b] by simp
next
  case (4 a b c bs)
  have "unat b div 16 < 16" "unat c div 64 < 4" using byte_bound[of b] byte_bound[of c] by linarith+
  with 4 show ?case
    using byte_join(1)[of "unat b div 16" a] byte_join(2)[of "unat a mod 4" "unat c div 64" b]
      byte_join(3)[of "unat b mod 16" c] by simp
qed simp_all

lemma base64url_roundtrip:
  assumes "bs \<noteq> []"
  shows "fromBase64Url (toBase64Url bs) = Some bs"
proof -
  have chars: "list_all url_char (toBase64Url bs)" "map of_url (toBase64Url bs) = base64_text bs"
    using base64_text_chars[of bs] by (auto simp: toBase64Url_text list_all_iff intro!: map_idI)
  have "base64_text bs \<noteq> []" using assms by (cases bs rule: base64_text.cases) simp_all
  then have "toBase64Url bs \<noteq> []" by (simp add: toBase64Url_text)
  moreover have "length (toBase64Url bs) = length (base64_text bs)" by (simp add: toBase64Url_text)
  ultimately show ?thesis
    using chars base64_chunks_body[of bs] by (simp add: fromBase64Url_def base64_body_text)
qed

lemma toBase64Url_inj: "toBase64Url a = toBase64Url b \<longleftrightarrow> a = b"
proof
  assume eq: "toBase64Url a = toBase64Url b"
  have nil: "toBase64Url bs = [] \<longleftrightarrow> bs = []" for bs
    by (cases bs rule: base64_text.cases) (simp_all add: toBase64Url_text)
  show "a = b"
  proof (cases "a = [] \<or> b = []")
    case True
    with eq nil show ?thesis by metis
  next
    case False
    then have "Some a = fromBase64Url (toBase64Url a)" "Some b = fromBase64Url (toBase64Url b)"
      by (simp_all only: base64url_roundtrip de_Morgan_disj not_False_eq_True)
    with eq show ?thesis by (metis option.inject)
  qed
qed simp

section \<open>Decimal numbers\<close>

definition digit :: "nat \<Rightarrow> char" where
  "digit n = ''0123456789'' ! n"

fun decimal :: "nat \<Rightarrow> string" where
  "decimal n = (if n < 10 then [digit n] else decimal (n div 10) @ [digit (n mod 10)])"

declare decimal.simps [simp del]

lemma digit_inj: "a < 10 \<Longrightarrow> b < 10 \<Longrightarrow> digit a = digit b \<longleftrightarrow> a = b"
proof -
  have "distinct ''0123456789''" by code_simp
  then show "a < 10 \<Longrightarrow> b < 10 \<Longrightarrow> digit a = digit b \<longleftrightarrow> a = b"
    by (simp add: digit_def nth_eq_iff_index_eq)
qed

lemma decimal_text_nonempty: "decimal n \<noteq> []"
  by (subst decimal.simps) simp

lemma decimal_text_inj: "decimal a = decimal b \<longleftrightarrow> a = b"
proof
  show "decimal a = decimal b \<Longrightarrow> a = b"
  proof (induction a arbitrary: b rule: decimal.induct)
    case (1 a)
    have small: "length (decimal n) = 1 \<longleftrightarrow> n < 10" for n
      by (subst decimal.simps) (simp add: decimal_text_nonempty)
    show ?case
    proof (cases "a < 10")
      case True
      then have "b < 10" using 1(2) small by metis
      with True 1(2) show ?thesis by (simp add: decimal.simps digit_inj)
    next
      case False
      then have "\<not> b < 10" using 1(2) small by metis
      with False 1(2) have "decimal (a div 10) = decimal (b div 10)" "a mod 10 = b mod 10"
        by (simp_all add: decimal.simps[of a] decimal.simps[of b] digit_inj)
      then show ?thesis using 1(1)[OF False] by (metis div_mod_decomp)
    qed
  qed
qed simp

section \<open>JSON of a list of strings\<close>

text \<open>What \<open>JSON.stringify\<close> writes for a character of a string: controls, quote and backslash are escaped.\<close>

definition hex_digit :: "nat \<Rightarrow> char" where
  "hex_digit n = ''0123456789abcdef'' ! n"

definition json_char :: "char \<Rightarrow> string" where
  "json_char c = (let n = of_char c :: nat in
     if c = CHR 0x22 then [CHR 0x5C, CHR 0x22] else if c = CHR 0x5C then [CHR 0x5C, CHR 0x5C]
     else if n = 8 then [CHR 0x5C, CHR ''b''] else if n = 12 then [CHR 0x5C, CHR ''f'']
     else if n = 10 then [CHR 0x5C, CHR ''n''] else if n = 13 then [CHR 0x5C, CHR ''r'']
     else if n = 9 then [CHR 0x5C, CHR ''t'']
     else if n < 32 then [CHR 0x5C, CHR ''u'', CHR ''0'', CHR ''0'', hex_digit (n div 16), hex_digit (n mod 16)]
     else [c])"

definition json_string :: "string \<Rightarrow> string" where
  "json_string s = [CHR 0x22] @ concat (map json_char s) @ [CHR 0x22]"

fun comma_list :: "string list \<Rightarrow> string" where
  "comma_list [] = []"
| "comma_list [s] = s"
| "comma_list (s # ss) = s @ [CHR '',''] @ comma_list ss"

definition json_array :: "string list \<Rightarrow> string" where
  "json_array ss = [CHR ''[''] @ comma_list (map json_string ss) @ [CHR '']'']"

text \<open>An escape is read back by its first characters, so the code is a prefix code.\<close>

definition hex_value :: "char \<Rightarrow> nat" where
  "hex_value c = the (index_of c ''0123456789abcdef'')"

fun json_read :: "string \<Rightarrow> (char \<times> string) option" where
  "json_read [] = None"
| "json_read (c # s) = (if c = CHR 0x22 then None else if c \<noteq> CHR 0x5C then Some (c, s)
     else case s of [] \<Rightarrow> None | d # r \<Rightarrow>
       if d = CHR 0x22 \<or> d = CHR 0x5C then Some (d, r)
       else if d = CHR ''b'' then Some (char_of (8 :: nat), r) else if d = CHR ''f'' then Some (char_of (12 :: nat), r)
       else if d = CHR ''n'' then Some (char_of (10 :: nat), r) else if d = CHR ''r'' then Some (char_of (13 :: nat), r)
       else if d = CHR ''t'' then Some (char_of (9 :: nat), r)
       else Some (char_of (hex_value (r ! 2) * 16 + hex_value (r ! 3)), drop 4 r))"

lemma hex_value_digit: "n < 16 \<Longrightarrow> hex_value (hex_digit n) = n"
proof -
  assume "n < 16"
  moreover have "distinct ''0123456789abcdef''" by code_simp
  ultimately show ?thesis using index_of_nth[of "''0123456789abcdef''" n]
    by (simp add: hex_value_def hex_digit_def)
qed

lemma char_of_eq: "of_char c = (n :: nat) \<Longrightarrow> char_of n = c"
  by auto

lemma json_read_char: "json_read (json_char c @ r) = Some (c, r)"
proof -
  have "(of_char c :: nat) < 256" by simp
  then have "(of_char c :: nat) div 16 < 16" "(of_char c :: nat) mod 16 < 16" by linarith+
  then show ?thesis
    by (simp add: json_char_def Let_def hex_value_digit char_of_eq[of c 8] char_of_eq[of c 9] char_of_eq[of c 10]
        char_of_eq[of c 12] char_of_eq[of c 13])
qed

lemma json_char_not_quote: "json_char c @ r \<noteq> CHR 0x22 # u"
proof
  assume "json_char c @ r = CHR 0x22 # u"
  with json_read_char[of c r] show False by simp
qed

lemma json_body_unique:
  "concat (map json_char s) @ [CHR 0x22] @ r = concat (map json_char t) @ [CHR 0x22] @ u \<Longrightarrow> s = t \<and> r = u"
proof (induction s arbitrary: t)
  case Nil
  then show ?case
    using json_char_not_quote[of "hd t" "concat (map json_char (tl t)) @ CHR 0x22 # u" r] by (cases t) auto
next
  case (Cons c s)
  show ?case
  proof (cases t)
    case Nil
    with Cons.prems json_char_not_quote[of c "concat (map json_char s) @ CHR 0x22 # r" u] show ?thesis by simp
  next
    case (Cons d t')
    with Cons.prems have "json_char c @ (concat (map json_char s) @ [CHR 0x22] @ r)
        = json_char d @ (concat (map json_char t') @ [CHR 0x22] @ u)" by simp
    then have "Some (c, concat (map json_char s) @ [CHR 0x22] @ r) = Some (d, concat (map json_char t') @ [CHR 0x22] @ u)"
      using json_read_char by metis
    with Cons.IH[of t'] Cons show ?thesis by simp
  qed
qed

lemma json_string_unique: "json_string s @ r = json_string t @ u \<Longrightarrow> s = t \<and> r = u"
  using json_body_unique[of s r t u] by (simp add: json_string_def)

lemma json_string_first: "json_string s = CHR 0x22 # concat (map json_char s) @ [CHR 0x22]"
  by (simp add: json_string_def)

lemma comma_list_cons: "comma_list (s # ss) = s @ (if ss = [] then [] else CHR '','' # comma_list ss)"
  by (cases ss) simp_all

lemma comma_list_inj: "comma_list (map json_string ss) @ [CHR '']''] = comma_list (map json_string ts) @ [CHR '']''] \<Longrightarrow> ss = ts"
proof (induction ss arbitrary: ts)
  case Nil
  then show ?case by (cases ts) (simp_all add: comma_list_cons json_string_first)
next
  case (Cons s ss)
  show ?case
  proof (cases ts)
    case Nil
    with Cons.prems show ?thesis by (simp add: comma_list_cons json_string_first)
  next
    case (Cons t ts')
    have "s = t \<and> (if ss = [] then [] else CHR '','' # comma_list (map json_string ss)) @ [CHR '']'']
        = (if ts' = [] then [] else CHR '','' # comma_list (map json_string ts')) @ [CHR '']'']"
      using Cons.prems unfolding Cons by (intro json_string_unique) (simp add: comma_list_cons)
    with Cons.IH[of ts'] Cons show ?thesis by (auto split: if_splits)
  qed
qed

lemma json_array_inj: "json_array ss = json_array ts \<longleftrightarrow> ss = ts"
  using comma_list_inj[of ss ts] by (auto simp: json_array_def)

section \<open>Crockford's base32\<close>

definition BASE32_ALPHABET :: string where
  "BASE32_ALPHABET = ''0123456789ABCDEFGHJKMNPQRSTVWXYZ''"

text \<open>The inner loop takes five bits at a time off the buffer; the outer one feeds it bytes.\<close>

fun base32_digits :: "nat \<Rightarrow> nat \<Rightarrow> string" where
  "base32_digits bits buffer = (if bits < 5 then []
     else BASE32_ALPHABET ! ((buffer div 2 ^ (bits - 5)) mod 32) # base32_digits (bits - 5) buffer)"

declare base32_digits.simps [simp del]

fun base32_loop :: "nat \<Rightarrow> nat \<Rightarrow> byte list \<Rightarrow> string" where
  "base32_loop bits buffer [] =
     (if bits > 0 then [BASE32_ALPHABET ! ((buffer * 2 ^ (5 - bits)) mod 32)] else [])"
| "base32_loop bits buffer (b # bs) =
     (let buffer = buffer * 256 + unat b; bits = bits + 8
      in base32_digits bits buffer @ base32_loop (bits mod 5) (buffer mod 2 ^ (bits mod 5)) bs)"

definition toCrockfordBase32 :: "byte list \<Rightarrow> string" where
  "toCrockfordBase32 bs = base32_loop 0 0 bs"

lemma base32_alphabet: "length BASE32_ALPHABET = 32" "distinct BASE32_ALPHABET"
  by code_simp+

lemma base32_digits_length: "length (base32_digits bits buffer) = bits div 5"
  by (induction bits buffer rule: base32_digits.induct)
     (subst base32_digits.simps, auto simp: le_div_geq)

lemma base32_digits_set: "set (base32_digits bits buffer) \<subseteq> set BASE32_ALPHABET"
  by (induction bits buffer rule: base32_digits.induct)
     (subst base32_digits.simps, auto simp: base32_alphabet)

lemma base32_loop_set: "set (base32_loop bits buffer bs) \<subseteq> set BASE32_ALPHABET"
proof (induction bs arbitrary: bits buffer)
  case Nil
  show ?case by (auto simp: base32_alphabet intro!: nth_mem)
next
  case (Cons b bs)
  then show ?case using base32_digits_set by (auto simp: Let_def)
qed

lemma base32_loop_length: "bits < 5 \<Longrightarrow> length (base32_loop bits buffer bs) = (bits + 8 * length bs + 4) div 5"
proof (induction bs arbitrary: bits buffer)
  case Nil
  then show ?case by simp presburger
next
  case (Cons b bs)
  have "length (base32_loop bits buffer (b # bs)) = (bits + 8) div 5 + ((bits + 8) mod 5 + 8 * length bs + 4) div 5"
    by (simp add: Let_def base32_digits_length Cons.IH)
  also have "\<dots> = (bits + 8 * length (b # bs) + 4) div 5"
  proof -
    define x where "x = bits + 8"
    have "x + 8 * length bs + 4 = (x mod 5 + 8 * length bs + 4) + x div 5 * 5" by simp
    then have "(x + 8 * length bs + 4) div 5 = (x mod 5 + 8 * length bs + 4) div 5 + x div 5"
      by (simp only: div_mult_self1)
    then show ?thesis by (simp add: x_def)
  qed
  finally show ?case .
qed

lemma toCrockfordBase32_length: "length (toCrockfordBase32 bs) = (8 * length bs + 4) div 5"
  by (simp add: toCrockfordBase32_def base32_loop_length)

lemma toCrockfordBase32_set: "set (toCrockfordBase32 bs) \<subseteq> set BASE32_ALPHABET"
  by (simp add: toCrockfordBase32_def base32_loop_set)

text \<open>
  Read as numbers in base 32 the digits are the bytes as a number in base 256, when no bits are left over
  (as for the 20 bytes of an identity).
\<close>

definition base32_value :: "nat \<Rightarrow> string \<Rightarrow> nat" where
  "base32_value v s = foldl (\<lambda>a c. a * 32 + the (index_of c BASE32_ALPHABET)) v s"

lemma base32_value_simps [simp]:
  "base32_value v [] = v" "base32_value v (s @ t) = base32_value (base32_value v s) t"
  by (simp_all add: base32_value_def)

lemma base32_value_digit [simp]:
  "n < 32 \<Longrightarrow> base32_value v ((BASE32_ALPHABET ! n) # s) = base32_value (v * 32 + n) s"
  using index_of_nth[OF base32_alphabet(2), of n] by (simp add: base32_value_def base32_alphabet(1))

lemma base32_value_digits:
  "base32_value v (base32_digits bits buffer) = v * 32 ^ (bits div 5) + (buffer div 2 ^ (bits mod 5)) mod 32 ^ (bits div 5)"
proof (induction bits buffer arbitrary: v rule: base32_digits.induct)
  case (1 bits buffer)
  show ?case
  proof (cases "bits < 5")
    case True
    then show ?thesis by (subst base32_digits.simps) simp
  next
    case False
    define q where "q = (bits - 5) div 5"
    have d: "bits div 5 = Suc q" "bits mod 5 = (bits - 5) mod 5" using False by (auto simp: q_def le_div_geq le_mod_geq)
    define x where "x = buffer div 2 ^ ((bits - 5) mod 5)"
    have top: "buffer div 2 ^ (bits - 5) = x div 32 ^ q"
    proof -
      have "(2::nat) ^ (bits - 5) = 2 ^ ((bits - 5) mod 5) * 32 ^ q"
      proof -
        have "(2::nat) ^ (bits - 5) = 2 ^ ((bits - 5) mod 5 + 5 * q)" by (simp add: q_def)
        then show ?thesis by (simp add: power_add power_mult)
      qed
      then show ?thesis by (simp add: x_def div_mult2_eq)
    qed
    have "base32_value v (base32_digits bits buffer)
        = (v * 32 + (buffer div 2 ^ (bits - 5)) mod 32) * 32 ^ q + x mod 32 ^ q"
      using False 1[OF False] by (subst base32_digits.simps) (simp add: q_def x_def)
    also have "\<dots> = v * 32 ^ Suc q + ((x div 32 ^ q) mod 32 * 32 ^ q + x mod 32 ^ q)"
      by (simp add: top algebra_simps)
    also have "(x div 32 ^ q) mod 32 * 32 ^ q + x mod 32 ^ q = x mod 32 ^ Suc q"
      using mod_mult2_eq[of x "32 ^ q" 32] by (simp add: mult.commute)
    finally show ?thesis by (simp add: d x_def)
  qed
qed

lemma be_nat_cons: "be_nat (b # bs) = unat b * 256 ^ length bs + be_nat bs"
proof (induction bs rule: rev_induct)
  case Nil
  then show ?case by (simp add: be_nat_def)
next
  case (snoc x xs)
  have "be_nat (b # xs @ [x]) = be_nat (b # xs) * 256 + unat x" using be_nat_snoc[of "b # xs" x] by simp
  with snoc show ?case by (simp add: be_nat_snoc algebra_simps)
qed

lemma base32_value_loop:
  "bits < 5 \<Longrightarrow> buffer < 2 ^ bits \<Longrightarrow> (bits + 8 * length bs) mod 5 = 0 \<Longrightarrow>
   base32_value v (base32_loop bits buffer bs)
     = v * 2 ^ (bits + 8 * length bs) + (buffer * 256 ^ length bs + be_nat bs)"
proof (induction bs arbitrary: bits buffer v)
  case Nil
  then show ?case by (simp add: be_nat_def)
next
  case (Cons b bs)
  define buf where "buf = buffer * 256 + unat b"
  define q where "q = (bits + 8) div 5"
  define m where "m = (bits + 8) mod 5"
  have bits: "bits + 8 = 5 * q + m" by (simp add: q_def m_def)
  have "buf < 2 ^ (bits + 8)"
  proof -
    have "buffer + 1 \<le> 2 ^ bits" using Cons.prems(2) by simp
    then have "(buffer + 1) * 256 \<le> 2 ^ bits * 256" by (rule mult_le_mono1)
    then show ?thesis using byte_bound[of b] by (simp add: buf_def power_add)
  qed
  then have "buf div 2 ^ m < 32 ^ q"
    by (simp add: bits power_add power_mult less_mult_imp_div_less)
  then have digits: "base32_value v (base32_digits (bits + 8) buf) = v * 32 ^ q + buf div 2 ^ m"
    by (simp add: base32_value_digits q_def m_def)
  have rest: "(m + 8 * length bs) mod 5 = 0" using Cons.prems(3) bits by (simp add: mod_add_left_eq add.assoc m_def)
  have m: "m < 5" by (simp add: m_def)
  have "base32_loop bits buffer (b # bs) = base32_digits (bits + 8) buf @ base32_loop m (buf mod 2 ^ m) bs"
    by (simp add: Let_def buf_def m_def)
  then have "base32_value v (base32_loop bits buffer (b # bs))
      = base32_value (v * 32 ^ q + buf div 2 ^ m) (base32_loop m (buf mod 2 ^ m) bs)"
    by (simp only: base32_value_simps digits)
  also have "\<dots> = (v * 32 ^ q + buf div 2 ^ m) * 2 ^ (m + 8 * length bs) + ((buf mod 2 ^ m) * 256 ^ length bs + be_nat bs)"
    by (rule Cons.IH[OF m _ rest]) simp
  also have "\<dots> = v * (32 ^ q * 2 ^ (m + 8 * length bs)) + ((buf div 2 ^ m * 2 ^ m + buf mod 2 ^ m) * 256 ^ length bs + be_nat bs)"
  proof -
    have "(2::nat) ^ (m + 8 * length bs) = 2 ^ m * 256 ^ length bs" by (simp only: power_add power_mult) simp
    then show ?thesis by (simp only: distrib_right mult.assoc add.assoc)
  qed
  also have "(32::nat) ^ q * 2 ^ (m + 8 * length bs) = 2 ^ (bits + 8 * length (b # bs))"
  proof -
    have "bits + 8 * length (b # bs) = 5 * q + (m + 8 * length bs)" using bits by simp
    then show ?thesis by (simp only: power_add power_mult) simp
  qed
  finally show ?case by (simp add: buf_def be_nat_cons algebra_simps)
qed

lemma word_nat_cast: "(word_of_nat (unat x) :: byte) = x"
  by simp

lemma be_nat_inj: "length a = length b \<Longrightarrow> be_nat a = be_nat b \<Longrightarrow> a = b"
proof (induction a arbitrary: b rule: rev_induct)
  case Nil
  then show ?case by simp
next
  case (snoc x a)
  obtain y c where b: "b = c @ [y]" using snoc.prems(1) by (cases b rule: rev_cases) auto
  have "be_nat a * 256 + unat x = be_nat c * 256 + unat y" using snoc.prems(2) by (simp add: b be_nat_snoc)
  then have "(be_nat a * 256 + unat x) div 256 = (be_nat c * 256 + unat y) div 256"
    "(be_nat a * 256 + unat x) mod 256 = (be_nat c * 256 + unat y) mod 256" by simp_all
  then have "be_nat a = be_nat c" "unat x = unat y" using byte_bound[of x] byte_bound[of y] by simp_all
  moreover from this(2) have "x = y" by (metis word_nat_cast)
  ultimately show ?case using snoc b by simp
qed

lemma toCrockfordBase32_inj:
  assumes "length a = length b" and "(8 * length a) mod 5 = 0"
  shows "toCrockfordBase32 a = toCrockfordBase32 b \<longleftrightarrow> a = b"
proof
  assume "toCrockfordBase32 a = toCrockfordBase32 b"
  then have "base32_value 0 (base32_loop 0 0 a) = base32_value 0 (base32_loop 0 0 b)"
    by (simp add: toCrockfordBase32_def)
  then have "be_nat a = be_nat b" using assms by (simp add: base32_value_loop)
  with assms(1) show "a = b" by (rule be_nat_inj)
qed simp

end
