(* ===== verification/Identity.thy ===== *)
theory Identity
  imports Encoding
begin

text \<open>
  Identities and signatures: \<open>packages/protocol-ts/src/identity.ts\<close> and the signed fields of
  \<open>authSignatures.ts\<close> that the encrypted session and the Agent use. The curve and the hash are
  third-party code, so they are a parameter: a record of functions \<open>crypto\<close>. A function that throws
  returns \<open>None\<close>. Texts are ASCII, where \<open>trim\<close>, \<open>toUpperCase\<close> and \<open>\s\<close> are as below.
\<close>

section \<open>The primitives\<close>

record crypto =
  cr_sha256 :: "byte list \<Rightarrow> byte list"
  cr_hkdf :: "byte list \<Rightarrow> byte list \<Rightarrow> byte list \<Rightarrow> nat \<Rightarrow> byte list"
  cr_shared :: "byte list \<Rightarrow> byte list \<Rightarrow> byte list option"
  cr_seal :: "byte list \<Rightarrow> byte list \<Rightarrow> byte list \<Rightarrow> byte list \<Rightarrow> byte list"
  cr_open :: "byte list \<Rightarrow> byte list \<Rightarrow> byte list \<Rightarrow> byte list \<Rightarrow> byte list option"
  cr_valid_secret :: "byte list \<Rightarrow> bool"
  cr_valid_public :: "byte list \<Rightarrow> bool"
  cr_public :: "byte list \<Rightarrow> byte list"
  cr_sign :: "byte list \<Rightarrow> byte list \<Rightarrow> byte list"
  cr_verify :: "byte list \<Rightarrow> byte list \<Rightarrow> byte list \<Rightarrow> bool"

section \<open>Identity ids\<close>

datatype identity_role = Id_agent | Id_app

definition ID_BODY_BYTES :: nat where "ID_BODY_BYTES = 20"
definition ID_BODY_CHARS :: nat where "ID_BODY_CHARS = 32"
definition ID_CHECKSUM_CHARS :: nat where "ID_CHECKSUM_CHARS = 4"
definition ID_PAYLOAD_CHARS :: nat where "ID_PAYLOAD_CHARS = ID_BODY_CHARS + ID_CHECKSUM_CHARS"

definition identityPrefix :: "identity_role \<Rightarrow> string" where
  "identityPrefix r = (case r of Id_agent \<Rightarrow> ''DEV1'' | Id_app \<Rightarrow> ''APP1'')"

definition role_text :: "identity_role \<Rightarrow> string" where
  "role_text r = (case r of Id_agent \<Rightarrow> ''agent'' | Id_app \<Rightarrow> ''app'')"

text \<open>\<open>payload.match(/.{1,6}/gu)\<close>, joined with dashes; the payload has no line breaks.\<close>

fun groups6 :: "string \<Rightarrow> string list" where
  "groups6 s = (if s = [] then [] else take 6 s # groups6 (drop 6 s))"

declare groups6.simps [simp del]

fun dash_join :: "string list \<Rightarrow> string" where
  "dash_join [] = []"
| "dash_join [g] = g"
| "dash_join (g # gs) = g @ CHR ''-'' # dash_join gs"

definition formatIdentityId :: "string \<Rightarrow> string \<Rightarrow> string option" where
  "formatIdentityId prefix payload = (let gs = groups6 payload in
     if gs = [] \<or> length (concat gs) \<noteq> ID_PAYLOAD_CHARS then None
     else Some (prefix @ ''-'' @ dash_join gs))"

definition checksum :: "crypto \<Rightarrow> string \<Rightarrow> string \<Rightarrow> string" where
  "checksum cr prefix body = take ID_CHECKSUM_CHARS (toCrockfordBase32 (cr_sha256 cr
     (utf8 ''omniwork-id-check-v1'' @ [0] @ utf8 prefix @ [0] @ utf8 body)))"

definition deriveIdentityId :: "crypto \<Rightarrow> identity_role \<Rightarrow> string \<Rightarrow> string option" where
  "deriveIdentityId cr r key = (case fromBase64Url key of
     None \<Rightarrow> None
   | Some bytes \<Rightarrow> if length bytes \<noteq> 32 \<or> \<not> cr_valid_public cr bytes then None else
      (let digest = cr_sha256 cr (utf8 ''omniwork-identity-v1'' @ [0] @ utf8 (role_text r) @ [0]
             @ utf8 ''ed25519'' @ [0] @ bytes);
           body = toCrockfordBase32 (take ID_BODY_BYTES digest)
       in formatIdentityId (identityPrefix r) (body @ checksum cr (identityPrefix r) body)))"

definition ascii_space :: "char \<Rightarrow> bool" where
  "ascii_space c \<longleftrightarrow> c = CHR '' '' \<or> (9 \<le> (of_char c :: nat) \<and> (of_char c :: nat) \<le> 13)"

definition upper :: "char \<Rightarrow> char" where
  "upper c = (if char_between (CHR ''a'') (CHR ''z'') c then char_of ((of_char c :: nat) - 32) else c)"

text \<open>\<open>trim\<close> before the replacement has no effect of its own: every space goes anyway.\<close>

definition compact_id :: "string \<Rightarrow> string" where
  "compact_id s = filter (\<lambda>c. \<not> ascii_space c \<and> c \<noteq> CHR ''-'') (map upper s)"

definition normalizeIdentityId :: "crypto \<Rightarrow> string \<Rightarrow> string option" where
  "normalizeIdentityId cr s = (let t = compact_id s; prefix = take 4 t; payload = drop 4 t; body = take ID_BODY_CHARS payload in
     if length t \<noteq> 4 + ID_PAYLOAD_CHARS then None
     else if prefix \<noteq> ''DEV1'' \<and> prefix \<noteq> ''APP1'' then None
     else if \<exists>c \<in> set payload. c \<notin> set BASE32_ALPHABET then None
     else if drop ID_BODY_CHARS payload \<noteq> checksum cr prefix body then None
     else formatIdentityId prefix payload)"

definition isValidIdentityId :: "crypto \<Rightarrow> string \<Rightarrow> identity_role option \<Rightarrow> bool" where
  "isValidIdentityId cr s r = (case normalizeIdentityId cr s of
     None \<Rightarrow> False
   | Some n \<Rightarrow> (case r of None \<Rightarrow> True | Some r \<Rightarrow> take 5 n = identityPrefix r @ ''-''))"

definition identityMatchesPublicKey :: "crypto \<Rightarrow> identity_role \<Rightarrow> string \<Rightarrow> string \<Rightarrow> bool" where
  "identityMatchesPublicKey cr r s key = (case normalizeIdentityId cr s of
     None \<Rightarrow> False
   | Some n \<Rightarrow> deriveIdentityId cr r key = Some n)"

record identity =
  id_version :: nat
  id_role :: identity_role
  id_algorithm :: string
  id_id :: string
  id_public :: string
  id_private :: string

definition deriveIdentityPublicKey :: "crypto \<Rightarrow> string \<Rightarrow> string option" where
  "deriveIdentityPublicKey cr secret = (case fromBase64Url secret of
     None \<Rightarrow> None
   | Some sk \<Rightarrow> if cr_valid_secret cr sk then Some (toBase64Url (cr_public cr sk)) else None)"

text \<open>The key pair is what \<open>ed25519.keygen\<close> returned.\<close>

definition generateIdentityKeyPair :: "crypto \<Rightarrow> identity_role \<Rightarrow> byte list \<times> byte list \<Rightarrow> identity option" where
  "generateIdentityKeyPair cr r keys = (case keys of (sk, pk) \<Rightarrow>
     map_option (\<lambda>i. \<lparr>id_version = 1, id_role = r, id_algorithm = ''Ed25519'', id_id = i,
       id_public = toBase64Url pk, id_private = toBase64Url sk\<rparr>) (deriveIdentityId cr r (toBase64Url pk)))"

definition validateIdentityKeyPair :: "crypto \<Rightarrow> identity \<Rightarrow> identity_role option \<Rightarrow> bool" where
  "validateIdentityKeyPair cr k r \<longleftrightarrow> id_version k = 1 \<and> id_algorithm k = ''Ed25519''
     \<and> (r = None \<or> r = Some (id_role k))
     \<and> (case deriveIdentityPublicKey cr (id_private k) of
          None \<Rightarrow> False
        | Some pk \<Rightarrow> pk = id_public k \<and> deriveIdentityId cr (id_role k) pk = Some (id_id k))"

section \<open>Signatures\<close>

definition domain_char :: "char \<Rightarrow> bool" where
  "domain_char c \<longleftrightarrow> char_between (CHR ''a'') (CHR ''z'') c \<or> char_between (CHR ''0'') (CHR ''9'') c
     \<or> c = CHR ''_'' \<or> c = CHR ''.'' \<or> c = CHR ''-''"

definition createIdentitySignaturePayload :: "string \<Rightarrow> string list \<Rightarrow> byte list option" where
  "createIdentitySignaturePayload domain fs =
     (if domain = [] \<or> \<not> list_all domain_char domain then None
      else Some (utf8 (json_array ((''omniwork:'' @ domain @ '':v1'') # fs))))"

definition signIdentityFields :: "crypto \<Rightarrow> string \<Rightarrow> string \<Rightarrow> string list \<Rightarrow> string option" where
  "signIdentityFields cr secret domain fs = (case fromBase64Url secret of
     None \<Rightarrow> None
   | Some sk \<Rightarrow> if \<not> cr_valid_secret cr sk then None
       else map_option (\<lambda>m. toBase64Url (cr_sign cr m sk)) (createIdentitySignaturePayload domain fs))"

definition verifyIdentityFields :: "crypto \<Rightarrow> string \<Rightarrow> string \<Rightarrow> string list \<Rightarrow> string \<Rightarrow> bool" where
  "verifyIdentityFields cr key domain fs signature =
     (case (fromBase64Url key, fromBase64Url signature, createIdentitySignaturePayload domain fs) of
        (Some pk, Some sig, Some m) \<Rightarrow> length pk = 32 \<and> length sig = 64 \<and> cr_verify cr sig m pk
      | _ \<Rightarrow> False)"

text \<open>
  A signature is made for one purpose and one list of fields: two different requests never have the
  same signed bytes, whatever the fields contain.
\<close>

lemma signature_payload_inj:
  assumes "createIdentitySignaturePayload d fs = Some m" and "createIdentitySignaturePayload d' fs' = Some m"
  shows "d = d' \<and> fs = fs'"
  using assms by (auto simp: createIdentitySignaturePayload_def json_array_inj split: if_splits)

section \<open>Ids survive formatting\<close>

lemma groups6_concat: "concat (groups6 s) = s"
  by (induction s rule: groups6.induct) (subst groups6.simps, simp)

lemma groups6_nonempty: "s \<noteq> [] \<Longrightarrow> groups6 s \<noteq> []"
  by (subst groups6.simps) simp

lemma formatIdentityId_some: "length p = ID_PAYLOAD_CHARS \<Longrightarrow> formatIdentityId prefix p = Some (prefix @ ''-'' @ dash_join (groups6 p))"
proof -
  assume len: "length p = ID_PAYLOAD_CHARS"
  then have "p \<noteq> []" by (auto simp: ID_PAYLOAD_CHARS_def ID_BODY_CHARS_def)
  with len groups6_nonempty show ?thesis by (simp add: formatIdentityId_def Let_def groups6_concat)
qed

definition plain_char :: "char \<Rightarrow> bool" where
  "plain_char c \<longleftrightarrow> upper c = c \<and> \<not> ascii_space c \<and> c \<noteq> CHR ''-''"

lemma plain_alphabet: "list_all plain_char BASE32_ALPHABET" "list_all plain_char ''DEV1''" "list_all plain_char ''APP1''"
  by code_simp+

lemma compact_plain: "list_all plain_char s \<Longrightarrow> compact_id s = s"
  by (induction s) (simp_all add: compact_id_def plain_char_def)

lemma compact_append: "compact_id (s @ t) = compact_id s @ compact_id t"
  by (simp add: compact_id_def)

lemma compact_dash: "compact_id (CHR ''-'' # s) = compact_id s"
proof -
  have "upper (CHR ''-'') = CHR ''-''" by code_simp
  then show ?thesis by (simp add: compact_id_def)
qed

lemma compact_join: "list_all plain_char (concat gs) \<Longrightarrow> compact_id (dash_join gs) = concat gs"
  by (induction gs rule: dash_join.induct) (auto simp: compact_append compact_dash compact_plain compact_id_def[of "[]"])

text \<open>What \<open>formatIdentityId\<close> writes compacts to the prefix and the payload again.\<close>

lemma compact_format:
  assumes "formatIdentityId prefix p = Some i" and "prefix = ''DEV1'' \<or> prefix = ''APP1''" and "set p \<subseteq> set BASE32_ALPHABET"
  shows "compact_id i = prefix @ p"
proof -
  have i: "i = prefix @ CHR ''-'' # dash_join (groups6 p)" using assms(1)
    by (auto simp: formatIdentityId_def Let_def split: if_splits)
  have "list_all plain_char p" using assms(3) plain_alphabet(1) by (auto simp: list_all_iff)
  then have "compact_id (dash_join (groups6 p)) = p" by (simp add: compact_join groups6_concat)
  moreover have "compact_id prefix = prefix" using assms(2) plain_alphabet compact_plain by auto
  ultimately show ?thesis by (simp add: i compact_append compact_dash)
qed

lemma normalize_format:
  assumes "length p = ID_PAYLOAD_CHARS" "prefix = ''DEV1'' \<or> prefix = ''APP1''" "set p \<subseteq> set BASE32_ALPHABET"
    and "drop ID_BODY_CHARS p = checksum cr prefix (take ID_BODY_CHARS p)" and "formatIdentityId prefix p = Some i"
  shows "normalizeIdentityId cr i = Some i"
proof -
  have "compact_id i = prefix @ p" using compact_format assms by blast
  moreover have "length prefix = 4" using assms(2) by auto
  ultimately show ?thesis using assms by (auto simp: normalizeIdentityId_def Let_def)
qed

lemma normalize_idempotent: "normalizeIdentityId cr s = Some i \<Longrightarrow> normalizeIdentityId cr i = Some i"
proof -
  assume n: "normalizeIdentityId cr s = Some i"
  define t where "t = compact_id s"
  have "length (drop 4 t) = ID_PAYLOAD_CHARS" "take 4 t = ''DEV1'' \<or> take 4 t = ''APP1''" "set (drop 4 t) \<subseteq> set BASE32_ALPHABET"
    "drop ID_BODY_CHARS (drop 4 t) = checksum cr (take 4 t) (take ID_BODY_CHARS (drop 4 t))"
    "formatIdentityId (take 4 t) (drop 4 t) = Some i"
    using n by (auto simp: normalizeIdentityId_def Let_def t_def split: if_splits)
  then show ?thesis by (rule normalize_format)
qed

text \<open>The one assumption on the hash here: a digest has 32 bytes.\<close>

definition digests :: "crypto \<Rightarrow> bool" where
  "digests cr \<longleftrightarrow> (\<forall>m. length (cr_sha256 cr m) = 32)"

lemma checksum_shape:
  "digests cr \<Longrightarrow> length (checksum cr prefix body) = ID_CHECKSUM_CHARS"
  "set (checksum cr prefix body) \<subseteq> set BASE32_ALPHABET"
  using toCrockfordBase32_set by (auto simp: checksum_def digests_def toCrockfordBase32_length ID_CHECKSUM_CHARS_def dest!: in_set_takeD)

lemma derived_id_normal:
  assumes "digests cr" and "deriveIdentityId cr r key = Some i"
  shows "normalizeIdentityId cr i = Some i \<and> isValidIdentityId cr i (Some r)"
proof -
  obtain bytes where "fromBase64Url key = Some bytes"
    using assms(2) by (auto simp: deriveIdentityId_def split: option.splits)
  define body where "body = toCrockfordBase32 (take ID_BODY_BYTES (cr_sha256 cr (utf8 ''omniwork-identity-v1'' @ [0]
      @ utf8 (role_text r) @ [0] @ utf8 ''ed25519'' @ [0] @ bytes)))"
  define p where "p = body @ checksum cr (identityPrefix r) body"
  have fmt: "formatIdentityId (identityPrefix r) p = Some i"
    using assms(2) \<open>fromBase64Url key = Some bytes\<close>
    by (simp add: deriveIdentityId_def Let_def p_def body_def split: if_splits)
  have len: "length body = ID_BODY_CHARS" using assms(1)
    by (simp add: body_def toCrockfordBase32_length digests_def ID_BODY_BYTES_def ID_BODY_CHARS_def)
  have n: "normalizeIdentityId cr i = Some i"
  proof (rule normalize_format[OF _ _ _ _ fmt])
    show "length p = ID_PAYLOAD_CHARS" using len checksum_shape(1)[OF assms(1)] by (simp add: p_def ID_PAYLOAD_CHARS_def)
    show "identityPrefix r = ''DEV1'' \<or> identityPrefix r = ''APP1''" by (cases r) (simp_all add: identityPrefix_def)
    show "set p \<subseteq> set BASE32_ALPHABET"
      using checksum_shape(2) toCrockfordBase32_set by (auto simp: p_def body_def)
    show "drop ID_BODY_CHARS p = checksum cr (identityPrefix r) (take ID_BODY_CHARS p)" using len by (simp add: p_def)
  qed
  moreover have "take 5 i = identityPrefix r @ ''-''" using fmt
    by (cases r) (auto simp: formatIdentityId_def Let_def identityPrefix_def split: if_splits)
  ultimately show ?thesis by (simp add: isValidIdentityId_def)
qed

end
