(* ===== verification/E2ESession.thy ===== *)
theory E2ESession
  imports Identity
begin

text \<open>
  The encrypted session between an App and an Agent (\<open>packages/e2e-noise/src/index.ts\<close>): the signed
  handshake of two ephemeral keys, and the frames after it. Randomness (the ephemeral key pairs and the
  handshake id) is an argument, the App's signing function too, as the platform provides it. \<open>E2EError\<close> is a
  value; an exception of another kind is \<open>Thrown\<close>. A message is turned into bytes by \<open>enc\<close> and read back
  by \<open>dec\<close> (\<open>JSON.stringify\<close> and \<open>JSON.parse\<close> of an inner envelope, with \<open>utf8\<close>).
\<close>

section \<open>Payloads\<close>

definition PROTOCOL_VERSION :: nat where "PROTOCOL_VERSION = 2"
definition E2E_PROTOCOL_VERSION :: nat where "E2E_PROTOCOL_VERSION = 2"
definition INNER_PROTOCOL_VERSION :: nat where "INNER_PROTOCOL_VERSION = 1"
definition SIGNED_X25519_SUITE_V2 :: string where
  "SIGNED_X25519_SUITE_V2 = ''OmniWork_SignedX25519_ChaChaPoly_SHA256_v2''"
definition AEAD_TAG_LEN :: nat where "AEAD_TAG_LEN = 16"
definition MAX_SAFE_INTEGER :: nat where "MAX_SAFE_INTEGER = 2 ^ 53 - 1"

record protocols =
  pv_outer :: nat
  pv_inner :: nat
  pv_e2e :: nat

record handshake_init =
  hi_v :: nat
  hi_e2e_version :: nat
  hi_agent_connection_id :: string
  hi_app_connection_id :: string
  hi_handshake_id :: string
  hi_suite :: string
  hi_device_id :: string
  hi_app_id :: string
  hi_app_public_key :: string
  hi_app_ephemeral_key :: string
  hi_app_protocol :: protocols
  hi_signature :: string

record handshake_reply =
  hr_v :: nat
  hr_e2e_version :: nat
  hr_agent_connection_id :: string
  hr_app_connection_id :: string
  hr_handshake_id :: string
  hr_suite :: string
  hr_device_id :: string
  hr_agent_public_key :: string
  hr_app_id :: string
  hr_agent_ephemeral_key :: string
  hr_agent_protocol :: protocols
  hr_signature :: string

record e2e_frame =
  fr_app_connection_id :: string
  fr_session_id :: string
  fr_seq :: nat
  fr_ciphertext :: string

datatype e2e_error = Invalid_handshake_message | Identity_mismatched | Signature_invalid | Handshake_failed
  | Decrypt_failed | Replay_detected | Unsupported_suite | Thrown

record handshake_context =
  hc_device_id :: string
  hc_agent_public_key :: string
  hc_app_id :: string
  hc_app_public_key :: string
  hc_agent_connection_id :: string
  hc_app_connection_id :: string
  hc_handshake_id :: "string option"

section \<open>Signed fields and the transcript\<close>

definition E2E_INIT_DOMAIN :: string where "E2E_INIT_DOMAIN = ''e2e-init''"
definition E2E_REPLY_DOMAIN :: string where "E2E_REPLY_DOMAIN = ''e2e-reply''"

text \<open>\<open>canonicalJson\<close> of the protocol versions: the keys in order, the numbers in decimal.\<close>

definition quoted :: "string \<Rightarrow> string" where
  "quoted s = [CHR 0x22] @ s @ [CHR 0x22]"

definition canonicalJson :: "protocols \<Rightarrow> string" where
  "canonicalJson p = ''{'' @ quoted ''e2e_v'' @ '':'' @ decimal (pv_e2e p) @ '','' @ quoted ''inner_v'' @ '':''
     @ decimal (pv_inner p) @ '','' @ quoted ''outer_v'' @ '':'' @ decimal (pv_outer p) @ ''}''"

definition e2eInitSignatureFields :: "handshake_init \<Rightarrow> string list" where
  "e2eInitSignatureFields i = [decimal (hi_v i), decimal (hi_e2e_version i), hi_suite i, hi_device_id i, hi_app_id i,
     hi_app_public_key i, hi_agent_connection_id i, hi_app_connection_id i, hi_handshake_id i,
     hi_app_ephemeral_key i, canonicalJson (hi_app_protocol i)]"

definition e2eReplySignatureFields :: "handshake_reply \<Rightarrow> string \<Rightarrow> string list" where
  "e2eReplySignatureFields r appKey = [decimal (hr_v r), decimal (hr_e2e_version r), hr_suite r, hr_device_id r,
     hr_agent_public_key r, hr_app_id r, hr_agent_connection_id r, hr_app_connection_id r, hr_handshake_id r,
     appKey, hr_agent_ephemeral_key r, canonicalJson (hr_agent_protocol r)]"

definition transcript_bytes :: "handshake_init \<Rightarrow> handshake_reply \<Rightarrow> byte list" where
  "transcript_bytes i r = utf8 (json_array (''omniwork:e2e-transcript:v2'' # e2eInitSignatureFields i
     @ hi_signature i # e2eReplySignatureFields r (hi_app_ephemeral_key i) @ [hr_signature r]))"

definition createTranscriptHash :: "crypto \<Rightarrow> handshake_init \<Rightarrow> handshake_reply \<Rightarrow> byte list" where
  "createTranscriptHash cr i r = cr_sha256 cr (transcript_bytes i r)"

definition deriveSessionKeys :: "crypto \<Rightarrow> byte list \<Rightarrow> byte list \<Rightarrow> byte list \<times> byte list" where
  "deriveSessionKeys cr secret transcript =
     (let k = cr_hkdf cr secret transcript (utf8 ''omniwork:e2e-session-keys:v2'') 64
      in (take 32 k, take 32 (drop 32 k)))"

definition deriveSessionId :: "crypto \<Rightarrow> byte list \<Rightarrow> string" where
  "deriveSessionId cr transcript =
     ''e2e_'' @ toBase64Url (take 18 (cr_sha256 cr (utf8 ''omniwork:e2e-session-id:v2'' @ transcript)))"

section \<open>Sessions\<close>

datatype e2e_role = Initiator | Responder

record e2e_session =
  se_role :: e2e_role
  se_handshake_id :: string
  se_session_id :: string
  se_app_connection_id :: string
  se_transcript_hash :: string
  se_tx_key :: "byte list"
  se_rx_key :: "byte list"
  se_tx_seq :: nat
  se_expected :: nat

definition new_session :: "crypto \<Rightarrow> e2e_role \<Rightarrow> string \<Rightarrow> string \<Rightarrow> byte list \<Rightarrow> byte list \<Rightarrow> byte list \<Rightarrow> e2e_session" where
  "new_session cr role hs app transcript tx rx = \<lparr>se_role = role, se_handshake_id = hs,
     se_session_id = deriveSessionId cr transcript, se_app_connection_id = app,
     se_transcript_hash = toBase64Url transcript, se_tx_key = tx, se_rx_key = rx, se_tx_seq = 0, se_expected = 1\<rparr>"

definition nonceFromSeq :: "nat \<Rightarrow> byte list option" where
  "nonceFromSeq seq = (if seq > MAX_SAFE_INTEGER then None
     else Some ([0, 0, 0, 0] @ be_bytes 4 (seq div 2 ^ 32) @ be_bytes 4 (seq mod 2 ^ 32)))"

datatype way = Tx | Rx

definition semanticDirection :: "e2e_role \<Rightarrow> way \<Rightarrow> string" where
  "semanticDirection role d = (if (role = Initiator) = (d = Tx) then ''app_to_agent'' else ''agent_to_app'')"

definition messageAad :: "e2e_session \<Rightarrow> nat \<Rightarrow> way \<Rightarrow> byte list" where
  "messageAad s seq d = utf8 (''omniwork:e2e-message:v2'' @ ''|'' @ se_session_id s @ ''|'' @ se_app_connection_id s
     @ ''|'' @ semanticDirection (se_role s) d @ ''|'' @ decimal seq)"

text \<open>\<open>++txSeq\<close> comes first, so the number is used up even when the frame cannot be built.\<close>

definition encrypt :: "crypto \<Rightarrow> ('i \<Rightarrow> byte list) \<Rightarrow> 'i \<Rightarrow> e2e_session \<Rightarrow> (e2e_error + e2e_frame) \<times> e2e_session" where
  "encrypt cr enc inner s =
     (let seq = min (se_tx_seq s + 1) (MAX_SAFE_INTEGER + 1); t = s\<lparr>se_tx_seq := seq\<rparr>
      in case nonceFromSeq seq of
           None \<Rightarrow> (Inl Decrypt_failed, t)
         | Some nonce \<Rightarrow> (Inr \<lparr>fr_app_connection_id = se_app_connection_id s, fr_session_id = se_session_id s, fr_seq = seq,
             fr_ciphertext = toBase64Url (cr_seal cr (se_tx_key s) nonce (messageAad s seq Tx) (enc inner))\<rparr>, t))"

definition open_frame :: "crypto \<Rightarrow> (byte list \<Rightarrow> 'i option) \<Rightarrow> e2e_frame \<Rightarrow> e2e_session \<Rightarrow> 'i option" where
  "open_frame cr dec f s = (case fromBase64Url (fr_ciphertext f) of
     None \<Rightarrow> None
   | Some frame \<Rightarrow> if length frame < AEAD_TAG_LEN then None else
      (case nonceFromSeq (fr_seq f) of
         None \<Rightarrow> None
       | Some nonce \<Rightarrow> (case cr_open cr (se_rx_key s) nonce (messageAad s (fr_seq f) Rx) frame of
           None \<Rightarrow> None
         | Some plaintext \<Rightarrow> dec plaintext)))"

definition decrypt :: "crypto \<Rightarrow> (byte list \<Rightarrow> 'i option) \<Rightarrow> e2e_frame \<Rightarrow> e2e_session \<Rightarrow> (e2e_error + 'i) \<times> e2e_session" where
  "decrypt cr dec f s =
     (if fr_session_id f \<noteq> se_session_id s \<or> fr_app_connection_id f \<noteq> se_app_connection_id s then (Inl Decrypt_failed, s)
      else if fr_seq f \<noteq> se_expected s then (Inl Replay_detected, s)
      else case open_frame cr dec f s of
             None \<Rightarrow> (Inl Decrypt_failed, s)
           | Some i \<Rightarrow> (Inr i, s\<lparr>se_expected := se_expected s + 1\<rparr>))"

record ready_payload =
  rp_app_connection_id :: string
  rp_handshake_id :: string
  rp_transcript_hash :: string

definition readyPayload :: "e2e_session \<Rightarrow> ready_payload" where
  "readyPayload s = \<lparr>rp_app_connection_id = se_app_connection_id s, rp_handshake_id = se_handshake_id s,
     rp_transcript_hash = se_transcript_hash s\<rparr>"

section \<open>The handshake\<close>

definition validateContext :: "crypto \<Rightarrow> handshake_context \<Rightarrow> e2e_error option" where
  "validateContext cr c = (if \<not> identityMatchesPublicKey cr Id_agent (hc_device_id c) (hc_agent_public_key c)
        \<or> \<not> identityMatchesPublicKey cr Id_app (hc_app_id c) (hc_app_public_key c)
      then Some Identity_mismatched else None)"

definition validateInit :: "crypto \<Rightarrow> handshake_context \<Rightarrow> handshake_init \<Rightarrow> e2e_error option" where
  "validateInit cr c i =
     (if hi_suite i \<noteq> SIGNED_X25519_SUITE_V2 then Some Unsupported_suite
      else if hi_v i \<noteq> PROTOCOL_VERSION \<or> hi_e2e_version i \<noteq> E2E_PROTOCOL_VERSION \<or> hi_device_id i \<noteq> hc_device_id c
        \<or> hi_app_id i \<noteq> hc_app_id c \<or> hi_app_public_key i \<noteq> hc_app_public_key c
        \<or> hi_agent_connection_id i \<noteq> hc_agent_connection_id c \<or> hi_app_connection_id i \<noteq> hc_app_connection_id c
      then Some Handshake_failed
      else if \<not> verifyIdentityFields cr (hi_app_public_key i) E2E_INIT_DOMAIN (e2eInitSignatureFields i) (hi_signature i)
      then Some Signature_invalid else None)"

definition validateReply :: "crypto \<Rightarrow> handshake_context \<Rightarrow> handshake_init \<Rightarrow> handshake_reply \<Rightarrow> e2e_error option" where
  "validateReply cr c i r =
     (if hr_suite r \<noteq> SIGNED_X25519_SUITE_V2 then Some Unsupported_suite
      else if hr_v r \<noteq> PROTOCOL_VERSION \<or> hr_e2e_version r \<noteq> E2E_PROTOCOL_VERSION \<or> hr_device_id r \<noteq> hc_device_id c
        \<or> hr_agent_public_key r \<noteq> hc_agent_public_key c \<or> hr_app_id r \<noteq> hc_app_id c
        \<or> hr_agent_connection_id r \<noteq> hc_agent_connection_id c \<or> hr_app_connection_id r \<noteq> hc_app_connection_id c
        \<or> hr_handshake_id r \<noteq> hi_handshake_id i
      then Some Handshake_failed
      else if \<not> verifyIdentityFields cr (hr_agent_public_key r) E2E_REPLY_DOMAIN
          (e2eReplySignatureFields r (hi_app_ephemeral_key i)) (hr_signature r)
      then Some Signature_invalid else None)"

definition decodeDhKey :: "string \<Rightarrow> e2e_error + byte list" where
  "decodeDhKey s = (case fromBase64Url s of
     None \<Rightarrow> Inl Thrown
   | Some k \<Rightarrow> if length k \<noteq> 32 then Inl Invalid_handshake_message else Inr k)"

definition own_protocols :: protocols where
  "own_protocols = \<lparr>pv_outer = PROTOCOL_VERSION, pv_inner = INNER_PROTOCOL_VERSION, pv_e2e = E2E_PROTOCOL_VERSION\<rparr>"

record initiator_state =
  is_context :: handshake_context
  is_init :: handshake_init
  is_secret :: "byte list"

definition unsigned_init :: "handshake_context \<Rightarrow> string \<Rightarrow> byte list \<Rightarrow> handshake_init" where
  "unsigned_init c hs key = \<lparr>hi_v = PROTOCOL_VERSION, hi_e2e_version = E2E_PROTOCOL_VERSION,
     hi_agent_connection_id = hc_agent_connection_id c, hi_app_connection_id = hc_app_connection_id c,
     hi_handshake_id = hs, hi_suite = SIGNED_X25519_SUITE_V2, hi_device_id = hc_device_id c, hi_app_id = hc_app_id c,
     hi_app_public_key = hc_app_public_key c, hi_app_ephemeral_key = toBase64Url key,
     hi_app_protocol = own_protocols, hi_signature = []\<rparr>"

text \<open>\<open>sign\<close> may fail: it is the platform's key store.\<close>

definition createInitiatorHandshake ::
    "crypto \<Rightarrow> handshake_context \<Rightarrow> byte list \<Rightarrow> byte list \<times> byte list \<Rightarrow> (string list \<Rightarrow> string option)
      \<Rightarrow> e2e_error + initiator_state" where
  "createInitiatorHandshake cr c random keys sign =
     (case validateContext cr c of
        Some e \<Rightarrow> Inl e
      | None \<Rightarrow>
          (let hs = (case hc_handshake_id c of Some h \<Rightarrow> h | None \<Rightarrow> ''e2e_hs_'' @ toBase64Url random);
               i = unsigned_init c hs (snd keys)
           in case sign (e2eInitSignatureFields i) of
                None \<Rightarrow> Inl Thrown
              | Some sig \<Rightarrow> Inr \<lparr>is_context = c, is_init = i\<lparr>hi_signature := sig\<rparr>, is_secret = fst keys\<rparr>))"

definition complete :: "crypto \<Rightarrow> initiator_state \<Rightarrow> handshake_reply \<Rightarrow> e2e_error + e2e_session" where
  "complete cr st r =
     (case validateReply cr (is_context st) (is_init st) r of
        Some e \<Rightarrow> Inl e
      | None \<Rightarrow> (case decodeDhKey (hr_agent_ephemeral_key r) of
          Inl e \<Rightarrow> Inl e
        | Inr remote \<Rightarrow> (case cr_shared cr (is_secret st) remote of
            None \<Rightarrow> Inl Thrown
          | Some secret \<Rightarrow>
             (let transcript = createTranscriptHash cr (is_init st) r; keys = deriveSessionKeys cr secret transcript
              in Inr (new_session cr Initiator (hi_handshake_id (is_init st)) (hc_app_connection_id (is_context st))
                   transcript (fst keys) (snd keys))))))"

definition unsigned_reply :: "handshake_context \<Rightarrow> handshake_init \<Rightarrow> byte list \<Rightarrow> handshake_reply" where
  "unsigned_reply c i key = \<lparr>hr_v = PROTOCOL_VERSION, hr_e2e_version = E2E_PROTOCOL_VERSION,
     hr_agent_connection_id = hc_agent_connection_id c, hr_app_connection_id = hc_app_connection_id c,
     hr_handshake_id = hi_handshake_id i, hr_suite = SIGNED_X25519_SUITE_V2, hr_device_id = hc_device_id c,
     hr_agent_public_key = hc_agent_public_key c, hr_app_id = hc_app_id c,
     hr_agent_ephemeral_key = toBase64Url key, hr_agent_protocol = own_protocols, hr_signature = []\<rparr>"

definition acceptInitiatorHandshake ::
    "crypto \<Rightarrow> handshake_context \<Rightarrow> string \<Rightarrow> byte list \<times> byte list \<Rightarrow> handshake_init
      \<Rightarrow> e2e_error + (handshake_reply \<times> e2e_session)" where
  "acceptInitiatorHandshake cr c private keys i =
     (case validateContext cr c of
        Some e \<Rightarrow> Inl e
      | None \<Rightarrow> (case validateInit cr c i of
          Some e \<Rightarrow> Inl e
        | None \<Rightarrow> (case decodeDhKey (hi_app_ephemeral_key i) of
            Inl e \<Rightarrow> Inl e
          | Inr remote \<Rightarrow>
             (let r = unsigned_reply c i (snd keys)
              in case signIdentityFields cr private E2E_REPLY_DOMAIN (e2eReplySignatureFields r (hi_app_ephemeral_key i)) of
                   None \<Rightarrow> Inl Thrown
                 | Some sig \<Rightarrow> (let r = r\<lparr>hr_signature := sig\<rparr>; transcript = createTranscriptHash cr i r
                    in case cr_shared cr (fst keys) remote of
                         None \<Rightarrow> Inl Thrown
                       | Some secret \<Rightarrow> (let ks = deriveSessionKeys cr secret transcript
                           in Inr (r, new_session cr Responder (hi_handshake_id i) (hc_app_connection_id c)
                                transcript (snd ks) (fst ks))))))))"

end
