(* ===== verification/E2EProperties.thy ===== *)
theory E2EProperties
  imports E2ESession
begin

text \<open>
  What the encrypted session guarantees: two honest ends agree on keys and transcript and understand
  each other, no session comes up without the other end's signature on this very handshake, frames are
  accepted once and in order, and no nonce is used twice.
\<close>

declare map_of_eq_Some_iff [simp del] Some_eq_map_of_iff [simp del]

section \<open>The transcript names everything\<close>

lemma decimal_chars: "list_all (\<lambda>c. c \<noteq> CHR '','' \<and> c \<noteq> CHR ''}'') (decimal n)"
proof (induction n rule: decimal.induct)
  case (1 n)
  have d: "m < 10 \<Longrightarrow> digit m \<noteq> CHR '','' \<and> digit m \<noteq> CHR ''}''" for m
  proof -
    assume "m < 10"
    then have "digit m \<in> set ''0123456789''" unfolding digit_def by (intro nth_mem) simp
    then show ?thesis by auto
  qed
  show ?case
  proof (cases "n < 10")
    case True
    with d[of n] show ?thesis by (simp add: decimal.simps[of n])
  next
    case False
    with 1 d[of "n mod 10"] show ?thesis by (subst decimal.simps) simp
  qed
qed

lemma takeWhile_stop: "list_all P xs \<Longrightarrow> \<not> P y \<Longrightarrow> takeWhile P (xs @ y # zs) = xs"
  by (induction xs) simp_all

lemma decimal_unique:
  assumes "decimal a @ c # x = decimal b @ c # y" and "c = CHR '','' \<or> c = CHR ''}''"
  shows "a = b \<and> x = y"
proof -
  let ?P = "\<lambda>c. c \<noteq> CHR '','' \<and> c \<noteq> CHR ''}''"
  have "takeWhile ?P (decimal a @ c # x) = decimal a" "takeWhile ?P (decimal b @ c # y) = decimal b"
    using assms(2) decimal_chars takeWhile_stop[where P = ?P] by blast+
  with assms(1) have eq: "decimal a = decimal b" by simp
  with assms(1) show ?thesis by (simp add: decimal_text_inj)
qed

lemma canonicalJson_inj: "canonicalJson p = canonicalJson q \<longleftrightarrow> p = q"
proof
  assume eq: "canonicalJson p = canonicalJson q"
  define m where "m = (\<lambda>r :: protocols. quoted ''inner_v'' @ '':'' @ decimal (pv_inner r) @ CHR '','' # quoted ''outer_v'' @ '':''
      @ decimal (pv_outer r) @ [CHR ''}''])"
  have "decimal (pv_e2e p) @ CHR '','' # m p = decimal (pv_e2e q) @ CHR '','' # m q"
    using eq by (simp add: canonicalJson_def m_def quoted_def)
  from decimal_unique[OF this] have e: "pv_e2e p = pv_e2e q" and m: "m p = m q" by simp_all
  have "decimal (pv_inner p) @ CHR '','' # (quoted ''outer_v'' @ '':'' @ decimal (pv_outer p) @ [CHR ''}''])
      = decimal (pv_inner q) @ CHR '','' # (quoted ''outer_v'' @ '':'' @ decimal (pv_outer q) @ [CHR ''}''])"
    using m by (simp add: m_def)
  from decimal_unique[OF this] have i: "pv_inner p = pv_inner q"
    and o: "decimal (pv_outer p) @ [CHR ''}''] = decimal (pv_outer q) @ [CHR ''}'']" by simp_all
  from o have "pv_outer p = pv_outer q" by (simp add: decimal_text_inj)
  with e i show "p = q" by simp
qed simp

lemma init_fields_inj:
  "e2eInitSignatureFields i = e2eInitSignatureFields j \<and> hi_signature i = hi_signature j \<longleftrightarrow> i = j"
  by (auto simp: e2eInitSignatureFields_def decimal_text_inj canonicalJson_inj)

lemma reply_fields_inj:
  "e2eReplySignatureFields r k = e2eReplySignatureFields r' k' \<longleftrightarrow>
     r\<lparr>hr_signature := []\<rparr> = r'\<lparr>hr_signature := []\<rparr> \<and> k = k'"
  by (cases r; cases r') (auto simp: e2eReplySignatureFields_def decimal_text_inj canonicalJson_inj)

lemma fields_length: "length (e2eInitSignatureFields i) = 11" "length (e2eReplySignatureFields r k) = 12"
  by (simp_all add: e2eInitSignatureFields_def e2eReplySignatureFields_def)

text \<open>
  C30: the bytes the two ends hash as the transcript determine the whole handshake: equal bytes
  come from the same init and the same reply, in every field, signatures and protocol versions included,
  whatever characters the fields contain.
\<close>

theorem transcript_binds:
  "transcript_bytes i r = transcript_bytes i' r' \<longleftrightarrow> i = i' \<and> r = r'"
proof
  assume "transcript_bytes i r = transcript_bytes i' r'"
  then have "e2eInitSignatureFields i @ (hi_signature i # e2eReplySignatureFields r (hi_app_ephemeral_key i) @ [hr_signature r])
      = e2eInitSignatureFields i' @ (hi_signature i' # e2eReplySignatureFields r' (hi_app_ephemeral_key i') @ [hr_signature r'])"
    by (simp add: transcript_bytes_def json_array_inj)
  then have parts: "e2eInitSignatureFields i = e2eInitSignatureFields i'" "hi_signature i = hi_signature i'"
    "e2eReplySignatureFields r (hi_app_ephemeral_key i) = e2eReplySignatureFields r' (hi_app_ephemeral_key i')"
    "hr_signature r = hr_signature r'"
    by (simp_all add: fields_length append_eq_append_conv)
  have "i = i'" using parts(1,2) init_fields_inj by blast
  moreover have "r = r'" using parts(3,4) unfolding reply_fields_inj by (cases r; cases r') simp
  ultimately show "i = i' \<and> r = r'" ..
qed simp

section \<open>Frames in order\<close>

fun decrypt_all :: "crypto \<Rightarrow> (byte list \<Rightarrow> 'i option) \<Rightarrow> e2e_frame list \<Rightarrow> e2e_session \<Rightarrow> (e2e_error + 'i) list \<times> e2e_session" where
  "decrypt_all cr dec [] s = ([], s)"
| "decrypt_all cr dec (f # fs) s = (case decrypt cr dec f s of
     (r, t) \<Rightarrow> (case decrypt_all cr dec fs t of (rs, u) \<Rightarrow> (r # rs, u)))"

fun encrypt_all :: "crypto \<Rightarrow> ('i \<Rightarrow> byte list) \<Rightarrow> 'i list \<Rightarrow> e2e_session \<Rightarrow> (e2e_error + e2e_frame) list \<times> e2e_session" where
  "encrypt_all cr enc [] s = ([], s)"
| "encrypt_all cr enc (i # is) s = (case encrypt cr enc i s of
     (r, t) \<Rightarrow> (case encrypt_all cr enc is t of (rs, u) \<Rightarrow> (r # rs, u)))"

definition accepted :: "e2e_frame list \<Rightarrow> (e2e_error + 'i) list \<Rightarrow> e2e_frame list" where
  "accepted fs rs = map fst (filter (\<lambda>(f, r). \<not> isl r) (zip fs rs))"

lemma decrypt_cases:
  obtains (rejected) e where "decrypt cr dec f s = (Inl e, s)"
    | (taken) i where "decrypt cr dec f s = (Inr i, s\<lparr>se_expected := se_expected s + 1\<rparr>)"
        "fr_seq f = se_expected s" "open_frame cr dec f s = Some i"
        "fr_session_id f = se_session_id s" "fr_app_connection_id f = se_app_connection_id s"
proof (cases "open_frame cr dec f s")
  case None
  then have "decrypt cr dec f s = (Inl Decrypt_failed, s) \<or> decrypt cr dec f s = (Inl Replay_detected, s)"
    by (simp add: decrypt_def)
  then show ?thesis using rejected by blast
next
  case (Some i)
  then have "decrypt cr dec f s = (Inl Decrypt_failed, s) \<or> decrypt cr dec f s = (Inl Replay_detected, s)
      \<or> decrypt cr dec f s = (Inr i, s\<lparr>se_expected := se_expected s + 1\<rparr>) \<and> fr_seq f = se_expected s
        \<and> fr_session_id f = se_session_id s \<and> fr_app_connection_id f = se_app_connection_id s"
    by (auto simp: decrypt_def)
  then show ?thesis using rejected taken[of i] Some by blast
qed

text \<open>What a session has checked of a frame it read as \<open>i\<close>: it is addressed to it, and its ciphertext opened under the
  key the session receives with, the nonce of the frame's number, and the session's own ids, the direction
  of the other end and the number as the authenticated data.\<close>

definition opened_frame :: "crypto \<Rightarrow> (byte list \<Rightarrow> 'i option) \<Rightarrow> e2e_session \<Rightarrow> e2e_frame \<Rightarrow> 'i \<Rightarrow> bool" where
  "opened_frame cr dec s f i \<longleftrightarrow> fr_session_id f = se_session_id s \<and> fr_app_connection_id f = se_app_connection_id s
     \<and> (\<exists>n c p. nonceFromSeq (fr_seq f) = Some n \<and> fromBase64Url (fr_ciphertext f) = Some c \<and> AEAD_TAG_LEN \<le> length c
        \<and> cr_open cr (se_rx_key s) n (utf8 (''omniwork:e2e-message:v2|'' @ se_session_id s @ ''|'' @ se_app_connection_id s
            @ ''|'' @ (if se_role s = Initiator then ''agent_to_app'' else ''app_to_agent'') @ ''|'' @ decimal (fr_seq f))) c
            = Some p
        \<and> dec p = Some i)"

lemma open_frame_opened:
  assumes "open_frame cr dec f s = Some i" "fr_session_id f = se_session_id s"
    "fr_app_connection_id f = se_app_connection_id s"
  shows "opened_frame cr dec s f i"
proof -
  obtain c n p where "fromBase64Url (fr_ciphertext f) = Some c" "AEAD_TAG_LEN \<le> length c" "nonceFromSeq (fr_seq f) = Some n"
    "cr_open cr (se_rx_key s) n (messageAad s (fr_seq f) Rx) c = Some p" "dec p = Some i"
    using assms(1) by (auto simp: open_frame_def split: option.splits if_splits)
  with assms show ?thesis by (cases "se_role s") (auto simp: opened_frame_def messageAad_def semanticDirection_def)
qed

lemma opened_counter: "opened_frame cr dec (s\<lparr>se_expected := n\<rparr>) = opened_frame cr dec s"
  by (simp add: opened_frame_def fun_eq_iff)

text \<open>
  C17: whatever frames arrive at a session, in whatever order and however often, the ones it
  accepts carry exactly the numbers from the one it expected up to the one it expects
  now, each once and in order; a frame that is refused changes nothing. Every message it hands on is what the
  ciphertext of its frame opened to under the session's receiving key, the nonce of the frame's number and the
  authenticated data of this session, the other end's direction and that number.
\<close>

theorem frames_accepted_in_order:
  assumes "decrypt_all cr dec fs s = (rs, t)"
  shows "map fr_seq (accepted fs rs) = [se_expected s ..< se_expected t]
     \<and> t = s\<lparr>se_expected := se_expected s + length (accepted fs rs)\<rparr>
     \<and> list_all2 (\<lambda>f r. case r of Inl e \<Rightarrow> True | Inr i \<Rightarrow> opened_frame cr dec s f i) fs rs"
  using assms
proof (induction fs arbitrary: s rs)
  case Nil
  then show ?case by (auto simp: accepted_def)
next
  case (Cons f fs)
  obtain r u where d: "decrypt cr dec f s = (r, u)" by (cases "decrypt cr dec f s")
  obtain rs' where rs': "decrypt_all cr dec fs u = (rs', t)" "rs = r # rs'"
    using Cons.prems d by (cases "decrypt_all cr dec fs u") simp
  note ih = Cons.IH[OF rs'(1)]
  show ?case
  proof (cases rule: decrypt_cases[of cr dec f s])
    case (rejected e)
    then have r: "r = Inl e" and u: "u = s" using d by simp_all
    from ih[unfolded u] r rs' show ?thesis by (simp add: accepted_def)
  next
    case (taken i)
    then have u: "u = s\<lparr>se_expected := se_expected s + 1\<rparr>" "r = Inr i" using d by simp_all
    have "accepted (f # fs) rs = f # accepted fs rs'" by (simp add: accepted_def rs'(2) u(2))
    moreover have "se_expected t = se_expected s + 1 + length (accepted fs rs')" using ih u by simp
    moreover have "opened_frame cr dec s f i" by (rule open_frame_opened[OF taken(3,4,5)])
    ultimately show ?thesis using ih u taken(2) rs'(2)
      by (simp add: upt_conv_Cons opened_counter del: upt_Suc)
  qed
qed

definition reader :: e2e_session where
  "reader = \<lparr>se_role = Responder, se_handshake_id = ''h'', se_session_id = ''s'', se_app_connection_id = ''c'',
     se_transcript_hash = [], se_tx_key = [], se_rx_key = [], se_tx_seq = 0, se_expected = 1\<rparr>"

text \<open>A cipher that adds a tag and hides nothing; enough to run the definitions.\<close>

definition plain_crypto :: crypto where
  "plain_crypto = \<lparr>cr_sha256 = (\<lambda>m. replicate 32 0), cr_hkdf = (\<lambda>k s i n. replicate n 0),
     cr_shared = (\<lambda>a b. Some []), cr_seal = (\<lambda>k n a p. replicate 16 0 @ p),
     cr_open = (\<lambda>k n a f. Some (drop 16 f)), cr_valid_secret = (\<lambda>k. True), cr_valid_public = (\<lambda>k. True),
     cr_public = (\<lambda>k. replicate 32 0), cr_sign = (\<lambda>m k. replicate 64 0), cr_verify = (\<lambda>s m k. True)\<rparr>"

definition demo_frame :: "nat \<Rightarrow> e2e_frame" where
  "demo_frame n = \<lparr>fr_app_connection_id = ''c'', fr_session_id = ''s'', fr_seq = n,
     fr_ciphertext = toBase64Url (replicate 16 0 @ [7])\<rparr>"

theorem frames_accepted_in_order_witness:
  "map fr_seq (accepted [demo_frame 1, demo_frame 1, demo_frame 3, demo_frame 2]
      (fst (decrypt_all plain_crypto Some [demo_frame 1, demo_frame 1, demo_frame 3, demo_frame 2] reader))) = [1, 2]"
proof -
  let ?fs = "[demo_frame 1, demo_frame 1, demo_frame 3, demo_frame 2]"
  obtain rs t where run: "decrypt_all plain_crypto Some ?fs reader = (rs, t)" by fastforce
  have "fromBase64Url (toBase64Url (replicate 16 0 @ [7])) = Some (replicate 16 0 @ [7])"
    by (rule base64url_roundtrip) simp
  then have "se_expected (snd (decrypt_all plain_crypto Some ?fs reader)) = 3"
    by (simp add: decrypt_def open_frame_def demo_frame_def reader_def AEAD_TAG_LEN_def nonceFromSeq_def
        MAX_SAFE_INTEGER_def plain_crypto_def split_beta)
  with frames_accepted_in_order[OF run] run show ?thesis by (simp add: reader_def upt_rec)
qed

section \<open>Numbers and nonces\<close>

lemma nonce_inj:
  assumes "nonceFromSeq a = Some n" "nonceFromSeq b = Some n"
  shows "a = b"
proof -
  have range: "a \<le> MAX_SAFE_INTEGER" "b \<le> MAX_SAFE_INTEGER"
    using assms by (auto simp: nonceFromSeq_def split: if_splits)
  have "be_bytes 4 (a div 2 ^ 32) @ be_bytes 4 (a mod 2 ^ 32) = be_bytes 4 (b div 2 ^ 32) @ be_bytes 4 (b mod 2 ^ 32)"
    using assms by (auto simp: nonceFromSeq_def split: if_splits)
  then have eq: "be_bytes 4 (a div 2 ^ 32) = be_bytes 4 (b div 2 ^ 32)" "be_bytes 4 (a mod 2 ^ 32) = be_bytes 4 (b mod 2 ^ 32)"
    by (simp_all del: be_bytes.simps)
  have small: "x div 2 ^ 32 < 256 ^ 4" "x mod 2 ^ 32 < 256 ^ 4" if "x \<le> MAX_SAFE_INTEGER" for x :: nat
    using that by (auto simp: MAX_SAFE_INTEGER_def)
  have "a div 2 ^ 32 = b div 2 ^ 32" "a mod 2 ^ 32 = b mod 2 ^ 32"
    using eq be_nat_bytes[OF small(1)] be_nat_bytes[OF small(2)] range by metis+
  then show ?thesis by (metis div_mod_decomp)
qed

lemma encrypt_cases:
  obtains (spent) "encrypt cr enc i s = (Inl Decrypt_failed, s\<lparr>se_tx_seq := MAX_SAFE_INTEGER + 1\<rparr>)"
      "se_tx_seq s \<ge> MAX_SAFE_INTEGER"
    | (sealed) n where "encrypt cr enc i s = (Inr \<lparr>fr_app_connection_id = se_app_connection_id s,
        fr_session_id = se_session_id s, fr_seq = se_tx_seq s + 1,
        fr_ciphertext = toBase64Url (cr_seal cr (se_tx_key s) n (messageAad s (se_tx_seq s + 1) Tx) (enc i))\<rparr>,
        s\<lparr>se_tx_seq := se_tx_seq s + 1\<rparr>)" "nonceFromSeq (se_tx_seq s + 1) = Some n" "se_tx_seq s < MAX_SAFE_INTEGER"
proof (cases "se_tx_seq s < MAX_SAFE_INTEGER")
  case True
  then show ?thesis using sealed by (simp add: encrypt_def Let_def nonceFromSeq_def)
next
  case False
  then show ?thesis using spent by (simp add: encrypt_def Let_def nonceFromSeq_def)
qed

definition sealed_frame :: "crypto \<Rightarrow> ('i \<Rightarrow> byte list) \<Rightarrow> e2e_session \<Rightarrow> nat \<Rightarrow> byte list \<Rightarrow> 'i \<Rightarrow> e2e_frame" where
  "sealed_frame cr enc s seq nonce i = \<lparr>fr_app_connection_id = se_app_connection_id s, fr_session_id = se_session_id s,
     fr_seq = seq, fr_ciphertext = toBase64Url (cr_seal cr (se_tx_key s) nonce (messageAad s seq Tx) (enc i))\<rparr>"

lemma sealed_counter: "sealed_frame cr enc (s\<lparr>se_tx_seq := n\<rparr>) seq nonce i = sealed_frame cr enc s seq nonce i"
  by (simp add: sealed_frame_def messageAad_def)

lemma encrypted_frames:
  assumes "encrypt_all cr enc is s = (rs, t)"
  shows "\<exists>fs ns. rs = map Inr fs @ replicate (length is - length fs) (Inl Decrypt_failed)
     \<and> length fs = min (length is) (MAX_SAFE_INTEGER - se_tx_seq s) \<and> length ns = length fs \<and> se_tx_key t = se_tx_key s
     \<and> (\<forall>k < length fs. nonceFromSeq (se_tx_seq s + 1 + k) = Some (ns ! k)
         \<and> fs ! k = sealed_frame cr enc s (se_tx_seq s + 1 + k) (ns ! k) (is ! k))"
  using assms
proof (induction "is" arbitrary: s rs)
  case Nil
  then show ?case by auto
next
  case (Cons i "is")
  obtain r u where d: "encrypt cr enc i s = (r, u)" by (cases "encrypt cr enc i s")
  obtain rs' where rs': "encrypt_all cr enc is u = (rs', t)" "rs = r # rs'"
    using Cons.prems d by (cases "encrypt_all cr enc is u") simp
  obtain fs ns where ih: "rs' = map Inr fs @ replicate (length is - length fs) (Inl Decrypt_failed)"
    "length fs = min (length is) (MAX_SAFE_INTEGER - se_tx_seq u)" "length ns = length fs" "se_tx_key t = se_tx_key u"
    "\<forall>k < length fs. nonceFromSeq (se_tx_seq u + 1 + k) = Some (ns ! k)
         \<and> fs ! k = sealed_frame cr enc u (se_tx_seq u + 1 + k) (ns ! k) (is ! k)"
    using Cons.IH[OF rs'(1)] by blast
  show ?case
  proof (cases rule: encrypt_cases[of cr enc i s])
    case spent
    then have u: "r = Inl Decrypt_failed" "se_tx_seq u = MAX_SAFE_INTEGER + 1" "se_tx_key u = se_tx_key s" using d by auto
    with ih(2) have "fs = []" by simp
    with ih(1,4) u spent(2) rs'(2) show ?thesis by (intro exI[of _ "[]"]) simp
  next
    case (sealed n)
    then have u: "u = s\<lparr>se_tx_seq := se_tx_seq s + 1\<rparr>" "r = Inr (sealed_frame cr enc s (se_tx_seq s + 1) n i)"
      using d by (simp_all add: sealed_frame_def)
    show ?thesis
    proof (intro exI[of _ "sealed_frame cr enc s (se_tx_seq s + 1) n i # fs"] exI[of _ "n # ns"] conjI allI impI)
      fix k
      assume "k < length (sealed_frame cr enc s (se_tx_seq s + 1) n i # fs)"
      then have "k = 0 \<or> (\<exists>j. k = Suc j \<and> j < length fs)" by (cases k) simp_all
      then show "nonceFromSeq (se_tx_seq s + 1 + k) = Some ((n # ns) ! k)"
        and "(sealed_frame cr enc s (se_tx_seq s + 1) n i # fs) ! k
          = sealed_frame cr enc s (se_tx_seq s + 1 + k) ((n # ns) ! k) ((i # is) ! k)"
        using ih(5) u(1) sealed(2) by (auto simp: sealed_counter)
    qed (use ih u rs'(2) sealed(3) in simp_all)
  qed
qed

text \<open>
  C24: no nonce is used twice under a session's sending key. However many messages a session encrypts, the frames it
  produces are the first ones, each sealed under the session's sending key, which does not change, with the
  nonce of its own number, and these nonces, the very ones given to the cipher, are all different; when the numbers
  are used up (\<open>2 ^ 53 - 1\<close> frames) every later message is refused and nothing is sealed.
\<close>

theorem nonces_never_repeat:
  assumes "encrypt_all cr enc is s = (rs, t)"
  shows "\<exists>fs ns. rs = map Inr fs @ replicate (length is - length fs) (Inl Decrypt_failed)
     \<and> length fs = min (length is) (MAX_SAFE_INTEGER - se_tx_seq s) \<and> length ns = length fs
     \<and> distinct ns \<and> se_tx_key t = se_tx_key s
     \<and> (\<forall>k < length fs. fr_ciphertext (fs ! k) =
          toBase64Url (cr_seal cr (se_tx_key s) (ns ! k) (messageAad s (se_tx_seq s + 1 + k) Tx) (enc (is ! k)))
        \<and> fr_seq (fs ! k) = se_tx_seq s + 1 + k \<and> nonceFromSeq (fr_seq (fs ! k)) = Some (ns ! k))"
proof -
  obtain fs ns where run: "rs = map Inr fs @ replicate (length is - length fs) (Inl Decrypt_failed)"
    "length fs = min (length is) (MAX_SAFE_INTEGER - se_tx_seq s)" "length ns = length fs" "se_tx_key t = se_tx_key s"
    "\<forall>k < length fs. nonceFromSeq (se_tx_seq s + 1 + k) = Some (ns ! k)
         \<and> fs ! k = sealed_frame cr enc s (se_tx_seq s + 1 + k) (ns ! k) (is ! k)"
    using encrypted_frames[OF assms] by blast
  have "distinct ns" unfolding distinct_conv_nth
  proof (intro allI impI)
    fix i j
    assume ij: "i < length ns" "j < length ns" "i \<noteq> j"
    show "ns ! i \<noteq> ns ! j"
    proof
      assume "ns ! i = ns ! j"
      with ij run(3,5) have "nonceFromSeq (se_tx_seq s + 1 + i) = Some (ns ! i)"
        "nonceFromSeq (se_tx_seq s + 1 + j) = Some (ns ! i)" by auto
      then have "se_tx_seq s + 1 + i = se_tx_seq s + 1 + j" by (rule nonce_inj)
      with ij(3) show False by simp
    qed
  qed
  with run show ?thesis by (intro exI[of _ fs] exI[of _ ns]) (simp add: sealed_frame_def)
qed

theorem nonces_never_repeat_witness:
  "\<exists>fs ns. fst (encrypt_all plain_crypto (\<lambda>m. m) [[1], [2], [1 :: byte]] reader) = map Inr fs
     \<and> length fs = 3 \<and> length ns = 3 \<and> distinct ns
     \<and> (\<forall>k < 3. fr_ciphertext (fs ! k) = toBase64Url (cr_seal plain_crypto (se_tx_key reader) (ns ! k)
          (messageAad reader (1 + k) Tx) ([[1], [2], [1]] ! k)))"
proof -
  obtain rs t where e: "encrypt_all plain_crypto (\<lambda>m. m) [[1], [2], [1 :: byte]] reader = (rs, t)" by fastforce
  from nonces_never_repeat[OF e] obtain fs ns where
    h: "rs = map Inr fs @ replicate (length [[1], [2], [1 :: byte]] - length fs) (Inl Decrypt_failed)"
      "length fs = min (length [[1], [2], [1 :: byte]]) (MAX_SAFE_INTEGER - se_tx_seq reader)" "length ns = length fs" "distinct ns"
    and k: "\<forall>k < length fs. fr_ciphertext (fs ! k) = toBase64Url (cr_seal plain_crypto (se_tx_key reader) (ns ! k)
          (messageAad reader (se_tx_seq reader + 1 + k) Tx) ([[1], [2], [1]] ! k))" by blast
  have seq: "se_tx_seq reader = 0" by (simp add: reader_def)
  have "length fs = 3" using h(2) by (simp add: seq MAX_SAFE_INTEGER_def)
  with e h k show ?thesis unfolding seq by (intro exI[of _ fs] exI[of _ ns]) simp
qed

section \<open>Two ends\<close>

definition matched :: "e2e_session \<Rightarrow> e2e_session \<Rightarrow> bool" where
  "matched a b \<longleftrightarrow> se_session_id a = se_session_id b \<and> se_app_connection_id a = se_app_connection_id b
     \<and> se_handshake_id a = se_handshake_id b \<and> se_transcript_hash a = se_transcript_hash b
     \<and> se_tx_key a = se_rx_key b \<and> se_rx_key a = se_tx_key b \<and> se_role a \<noteq> se_role b"

text \<open>What the handshake relies on: a signer whose signatures verify, and an exchange on which both ends agree.\<close>

definition signs_for :: "crypto \<Rightarrow> string \<Rightarrow> string \<Rightarrow> (string list \<Rightarrow> string option) \<Rightarrow> bool" where
  "signs_for cr key domain sign \<longleftrightarrow> (\<forall>fs. \<exists>sig. sign fs = Some sig \<and> verifyIdentityFields cr key domain fs sig)"

definition exchange :: "crypto \<Rightarrow> byte list \<times> byte list \<Rightarrow> byte list \<times> byte list \<Rightarrow> bool" where
  "exchange cr a b \<longleftrightarrow> length (snd a) = 32 \<and> length (snd b) = 32
     \<and> cr_shared cr (fst a) (snd b) \<noteq> None \<and> cr_shared cr (fst a) (snd b) = cr_shared cr (fst b) (snd a)"

lemma decode_own_key: "length k = 32 \<Longrightarrow> decodeDhKey (toBase64Url k) = Inr k"
  using base64url_roundtrip[of k] by (cases k) (simp_all add: decodeDhKey_def)

lemma handshake_runs:
  assumes "validateContext cr c = None"
    and "signs_for cr (hc_app_public_key c) E2E_INIT_DOMAIN sign"
    and "signs_for cr (hc_agent_public_key c) E2E_REPLY_DOMAIN (signIdentityFields cr private E2E_REPLY_DOMAIN)"
    and "exchange cr a b"
  shows "\<exists>st r app agent. createInitiatorHandshake cr c random a sign = Inr st
     \<and> acceptInitiatorHandshake cr c private b (is_init st) = Inr (r, agent) \<and> complete cr st r = Inr app \<and> matched app agent"
proof -
  define hs where "hs = (case hc_handshake_id c of Some h \<Rightarrow> h | None \<Rightarrow> ''e2e_hs_'' @ toBase64Url random)"
  define i0 where "i0 = unsigned_init c hs (snd a)"
  obtain sig where sig: "sign (e2eInitSignatureFields i0) = Some sig"
    "verifyIdentityFields cr (hc_app_public_key c) E2E_INIT_DOMAIN (e2eInitSignatureFields i0) sig"
    using assms(2) by (auto simp: signs_for_def)
  define i where "i = i0\<lparr>hi_signature := sig\<rparr>"
  have init: "createInitiatorHandshake cr c random a sign = Inr \<lparr>is_context = c, is_init = i, is_secret = fst a\<rparr>"
    using assms(1) sig by (simp add: createInitiatorHandshake_def Let_def hs_def i_def i0_def)
  have same: "e2eInitSignatureFields i = e2eInitSignatureFields i0" by (simp add: i_def e2eInitSignatureFields_def)
  have valid: "validateInit cr c i = None"
    using sig by (simp add: validateInit_def same) (simp add: i_def i0_def unsigned_init_def)
  have key: "hi_app_ephemeral_key i = toBase64Url (snd a)" by (simp add: i_def i0_def unsigned_init_def)
  define r0 where "r0 = unsigned_reply c i (snd b)"
  obtain sig' where sig': "signIdentityFields cr private E2E_REPLY_DOMAIN (e2eReplySignatureFields r0 (hi_app_ephemeral_key i)) = Some sig'"
    "verifyIdentityFields cr (hc_agent_public_key c) E2E_REPLY_DOMAIN (e2eReplySignatureFields r0 (hi_app_ephemeral_key i)) sig'"
    using assms(3) by (auto simp: signs_for_def)
  define r where "r = r0\<lparr>hr_signature := sig'\<rparr>"
  obtain z where z: "cr_shared cr (fst a) (snd b) = Some z" "cr_shared cr (fst b) (snd a) = Some z"
    using assms(4) unfolding exchange_def by (metis not_None_eq)
  have len: "length (snd a) = 32" "length (snd b) = 32" using assms(4) by (simp_all add: exchange_def)
  define transcript where "transcript = createTranscriptHash cr i r"
  define ks where "ks = deriveSessionKeys cr z transcript"
  have acc: "acceptInitiatorHandshake cr c private b i = Inr (r, new_session cr Responder (hi_handshake_id i)
      (hc_app_connection_id c) transcript (snd ks) (fst ks))"
    using assms(1) valid sig'(1) z len
    by (simp add: acceptInitiatorHandshake_def key decode_own_key Let_def r0_def[symmetric] r_def[symmetric]
        transcript_def[symmetric] ks_def[symmetric])
  have "e2eReplySignatureFields r k = e2eReplySignatureFields r0 k" for k by (simp add: r_def e2eReplySignatureFields_def)
  then have "validateReply cr c i r = None"
    using sig' by (simp add: validateReply_def) (simp add: r_def r0_def unsigned_reply_def)
  moreover have "decodeDhKey (hr_agent_ephemeral_key r) = Inr (snd b)"
    using len decode_own_key by (simp add: r_def r0_def unsigned_reply_def)
  ultimately have "complete cr \<lparr>is_context = c, is_init = i, is_secret = fst a\<rparr> r
      = Inr (new_session cr Initiator (hi_handshake_id i) (hc_app_connection_id c) transcript (fst ks) (snd ks))"
    using z by (simp add: complete_def Let_def transcript_def ks_def)
  with init acc show ?thesis by (auto simp: matched_def new_session_def)
qed

text \<open>
  C22: the handshake succeeds between an App and an Agent that agree on who they are and on their connections,
  whatever the random values, and leaves both with the same session: one id, one transcript, one
  handshake, and the sending key of each the receiving key of the other.
\<close>

theorem handshake_agrees:
  assumes "validateContext cr c = None"
    and "signs_for cr (hc_app_public_key c) E2E_INIT_DOMAIN sign"
    and "signs_for cr (hc_agent_public_key c) E2E_REPLY_DOMAIN (signIdentityFields cr private E2E_REPLY_DOMAIN)"
    and "exchange cr a b"
  shows "\<exists>st r app agent. createInitiatorHandshake cr c random a sign = Inr st
     \<and> acceptInitiatorHandshake cr c private b (is_init st) = Inr (r, agent) \<and> complete cr st r = Inr app \<and> matched app agent"
  using assms by (rule handshake_runs)

definition zero_key :: "byte list" where
  "zero_key = replicate 32 0"

definition plain_id :: "identity_role \<Rightarrow> string" where
  "plain_id r = the (deriveIdentityId plain_crypto r (toBase64Url zero_key))"

lemma plain_digests: "digests plain_crypto"
  by (simp add: digests_def plain_crypto_def)

lemma plain_matches: "identityMatchesPublicKey plain_crypto r (plain_id r) (toBase64Url zero_key)"
proof -
  have "fromBase64Url (toBase64Url zero_key) = Some zero_key" by (rule base64url_roundtrip) (simp add: zero_key_def)
  then have "deriveIdentityId plain_crypto r (toBase64Url zero_key) \<noteq> None"
    using checksum_shape(1)[OF plain_digests]
    by (simp add: deriveIdentityId_def Let_def zero_key_def plain_crypto_def toCrockfordBase32_length
        formatIdentityId_some ID_PAYLOAD_CHARS_def ID_BODY_CHARS_def ID_BODY_BYTES_def del: not_None_eq)
  then have d: "deriveIdentityId plain_crypto r (toBase64Url zero_key) = Some (plain_id r)" by (auto simp: plain_id_def)
  with derived_id_normal[OF plain_digests d] show ?thesis by (simp add: identityMatchesPublicKey_def)
qed

definition demo_context :: handshake_context where
  "demo_context = \<lparr>hc_device_id = plain_id Id_agent, hc_agent_public_key = toBase64Url zero_key, hc_app_id = plain_id Id_app,
     hc_app_public_key = toBase64Url zero_key, hc_agent_connection_id = ''conn_a'', hc_app_connection_id = ''conn_p'',
     hc_handshake_id = None\<rparr>"

lemma plain_verifies: "domain \<noteq> [] \<Longrightarrow> list_all domain_char domain \<Longrightarrow>
    signs_for plain_crypto (toBase64Url zero_key) domain (signIdentityFields plain_crypto (toBase64Url zero_key) domain)"
proof -
  assume d: "domain \<noteq> []" "list_all domain_char domain"
  have "fromBase64Url (toBase64Url zero_key) = Some zero_key"
    "fromBase64Url (toBase64Url (replicate 64 0)) = Some (replicate 64 0)"
    by (rule base64url_roundtrip, simp add: zero_key_def)+
  with d show ?thesis
    by (simp add: signs_for_def signIdentityFields_def verifyIdentityFields_def createIdentitySignaturePayload_def)
       (simp add: plain_crypto_def zero_key_def)
qed

lemma domains_plain: "list_all domain_char E2E_INIT_DOMAIN" "list_all domain_char E2E_REPLY_DOMAIN"
  by code_simp+

lemma plain_setup:
  "validateContext plain_crypto demo_context = None"
  "signs_for plain_crypto (hc_app_public_key demo_context) E2E_INIT_DOMAIN
     (signIdentityFields plain_crypto (toBase64Url zero_key) E2E_INIT_DOMAIN)"
  "signs_for plain_crypto (hc_agent_public_key demo_context) E2E_REPLY_DOMAIN
     (signIdentityFields plain_crypto (toBase64Url zero_key) E2E_REPLY_DOMAIN)"
  "exchange plain_crypto (zero_key, zero_key) (zero_key, zero_key)"
proof -
  show "validateContext plain_crypto demo_context = None"
    using plain_matches by (simp add: validateContext_def demo_context_def)
  show "signs_for plain_crypto (hc_app_public_key demo_context) E2E_INIT_DOMAIN
      (signIdentityFields plain_crypto (toBase64Url zero_key) E2E_INIT_DOMAIN)"
    using plain_verifies domains_plain by (simp add: demo_context_def E2E_INIT_DOMAIN_def)
  show "signs_for plain_crypto (hc_agent_public_key demo_context) E2E_REPLY_DOMAIN
      (signIdentityFields plain_crypto (toBase64Url zero_key) E2E_REPLY_DOMAIN)"
    using plain_verifies domains_plain by (simp add: demo_context_def E2E_REPLY_DOMAIN_def)
  show "exchange plain_crypto (zero_key, zero_key) (zero_key, zero_key)"
    by (simp add: exchange_def zero_key_def plain_crypto_def)
qed

theorem handshake_agrees_witness:
  "\<exists>st r app agent. createInitiatorHandshake plain_crypto demo_context [1] (zero_key, zero_key)
       (signIdentityFields plain_crypto (toBase64Url zero_key) E2E_INIT_DOMAIN) = Inr st
     \<and> acceptInitiatorHandshake plain_crypto demo_context (toBase64Url zero_key) (zero_key, zero_key) (is_init st) = Inr (r, agent)
     \<and> complete plain_crypto st r = Inr app \<and> matched app agent"
  by (rule handshake_agrees[OF plain_setup])

text \<open>What a run of the Agent that sent a reply has checked and written, and what the session of the App is made of.\<close>

lemma accepted_run:
  assumes "acceptInitiatorHandshake cr c private keys i = Inr (r, s)"
  shows "hr_device_id r = hc_device_id c \<and> hr_agent_public_key r = hc_agent_public_key c \<and> hr_app_id r = hc_app_id c
     \<and> hr_agent_connection_id r = hc_agent_connection_id c \<and> hr_app_connection_id r = hc_app_connection_id c
     \<and> hr_handshake_id r = hi_handshake_id i \<and> hi_app_public_key i = hc_app_public_key c
     \<and> verifyIdentityFields cr (hc_app_public_key c) E2E_INIT_DOMAIN (e2eInitSignatureFields i) (hi_signature i)"
proof -
  have v: "validateInit cr c i = None" using assms by (auto simp: acceptInitiatorHandshake_def split: option.splits)
  obtain sig where "r = (unsigned_reply c i (snd keys))\<lparr>hr_signature := sig\<rparr>"
    using assms by (auto simp: acceptInitiatorHandshake_def Let_def split: option.splits sum.splits)
  with v show ?thesis by (auto simp: unsigned_reply_def validateInit_def split: if_splits)
qed

lemma completed_keys:
  assumes "complete cr st r = Inr s"
  shows "\<exists>remote secret. fromBase64Url (hr_agent_ephemeral_key r) = Some remote \<and> cr_shared cr (is_secret st) remote = Some secret
     \<and> (se_tx_key s, se_rx_key s) = deriveSessionKeys cr secret (cr_sha256 cr (transcript_bytes (is_init st) r))
     \<and> se_session_id s = deriveSessionId cr (cr_sha256 cr (transcript_bytes (is_init st) r))"
proof -
  obtain remote secret where "decodeDhKey (hr_agent_ephemeral_key r) = Inr remote" "cr_shared cr (is_secret st) remote = Some secret"
    and s: "s = new_session cr Initiator (hi_handshake_id (is_init st)) (hc_app_connection_id (is_context st))
      (createTranscriptHash cr (is_init st) r) (fst (deriveSessionKeys cr secret (createTranscriptHash cr (is_init st) r)))
      (snd (deriveSessionKeys cr secret (createTranscriptHash cr (is_init st) r)))"
    using assms by (auto simp: complete_def Let_def split: option.splits sum.splits)
  moreover from this(1) have "fromBase64Url (hr_agent_ephemeral_key r) = Some remote"
    by (auto simp: decodeDhKey_def split: option.splits if_splits)
  ultimately show ?thesis
    by (intro exI[of _ remote] exI[of _ secret]) (simp add: new_session_def createTranscriptHash_def)
qed

text \<open>
  C8: an App gets a session only with the Agent it meant. Let \<open>runs\<close> be the runs of the handshake that the holder of
  the Agent's signing key made, and suppose that this reply's signature verifies under the Agent's key only if
  one of them signed these very fields (no forgery of this message). Then a completed handshake has a run of the Agent behind it,
  for this App and this device: its context names the same device, App, and connections, it accepted an
  init with this App's ephemeral key and this handshake id whose signature verifies under the key of the App in its
  context, and the reply it sent is the one received, in every field but the signature bytes. The session's keys and id are
  derived from the transcript of this very exchange and the secret shared with the ephemeral key that run signed.
\<close>

theorem session_needs_agent_run:
  assumes "complete cr st r = Inr s"
    and "\<forall>(c, i, r', s') \<in> runs. \<exists>keys. acceptInitiatorHandshake cr c private keys i = Inr (r', s')"
    and "verifyIdentityFields cr (hc_agent_public_key (is_context st)) E2E_REPLY_DOMAIN
        (e2eReplySignatureFields r (hi_app_ephemeral_key (is_init st))) (hr_signature r) \<Longrightarrow>
      \<exists>(c, i, r', s') \<in> runs. e2eReplySignatureFields r' (hi_app_ephemeral_key i)
          = e2eReplySignatureFields r (hi_app_ephemeral_key (is_init st))"
  shows "(\<exists>(c, i, r', s') \<in> runs. hc_device_id c = hc_device_id (is_context st)
       \<and> hc_agent_public_key c = hc_agent_public_key (is_context st) \<and> hc_app_id c = hc_app_id (is_context st)
       \<and> hc_agent_connection_id c = hc_agent_connection_id (is_context st)
       \<and> hc_app_connection_id c = hc_app_connection_id (is_context st)
       \<and> hi_handshake_id i = hi_handshake_id (is_init st) \<and> hi_app_ephemeral_key i = hi_app_ephemeral_key (is_init st)
       \<and> verifyIdentityFields cr (hc_app_public_key c) E2E_INIT_DOMAIN (e2eInitSignatureFields i) (hi_signature i)
       \<and> r'\<lparr>hr_signature := []\<rparr> = r\<lparr>hr_signature := []\<rparr>)
     \<and> (\<exists>remote secret. fromBase64Url (hr_agent_ephemeral_key r) = Some remote \<and> cr_shared cr (is_secret st) remote = Some secret
       \<and> (se_tx_key s, se_rx_key s) = deriveSessionKeys cr secret (cr_sha256 cr (transcript_bytes (is_init st) r))
       \<and> se_session_id s = deriveSessionId cr (cr_sha256 cr (transcript_bytes (is_init st) r)))"
proof
  have v: "validateReply cr (is_context st) (is_init st) r = None"
    using assms(1) by (auto simp: complete_def split: option.splits)
  then have r: "hr_device_id r = hc_device_id (is_context st)" "hr_app_id r = hc_app_id (is_context st)"
    "hr_agent_public_key r = hc_agent_public_key (is_context st)" "hr_handshake_id r = hi_handshake_id (is_init st)"
    "hr_agent_connection_id r = hc_agent_connection_id (is_context st)"
    "hr_app_connection_id r = hc_app_connection_id (is_context st)"
    and sig: "verifyIdentityFields cr (hr_agent_public_key r) E2E_REPLY_DOMAIN
          (e2eReplySignatureFields r (hi_app_ephemeral_key (is_init st))) (hr_signature r)"
    by (auto simp: validateReply_def split: if_splits)
  obtain c i r' s' where run: "(c, i, r', s') \<in> runs"
    "e2eReplySignatureFields r' (hi_app_ephemeral_key i) = e2eReplySignatureFields r (hi_app_ephemeral_key (is_init st))"
    using assms(3)[OF sig[unfolded r(3)]] by blast
  then have same: "r'\<lparr>hr_signature := []\<rparr> = r\<lparr>hr_signature := []\<rparr>" "hi_app_ephemeral_key i = hi_app_ephemeral_key (is_init st)"
    unfolding reply_fields_inj by simp_all
  from same(1) have eq: "hr_handshake_id r' = hr_handshake_id r" "hr_agent_connection_id r' = hr_agent_connection_id r"
    "hr_app_connection_id r' = hr_app_connection_id r" "hr_device_id r' = hr_device_id r" "hr_app_id r' = hr_app_id r"
    "hr_agent_public_key r' = hr_agent_public_key r" by (cases r; cases r'; simp)+
  from assms(2) run(1) obtain keys where acc: "acceptInitiatorHandshake cr c private keys i = Inr (r', s')" by blast
  show "\<exists>(c, i, r', s') \<in> runs. hc_device_id c = hc_device_id (is_context st)
       \<and> hc_agent_public_key c = hc_agent_public_key (is_context st) \<and> hc_app_id c = hc_app_id (is_context st)
       \<and> hc_agent_connection_id c = hc_agent_connection_id (is_context st)
       \<and> hc_app_connection_id c = hc_app_connection_id (is_context st)
       \<and> hi_handshake_id i = hi_handshake_id (is_init st) \<and> hi_app_ephemeral_key i = hi_app_ephemeral_key (is_init st)
       \<and> verifyIdentityFields cr (hc_app_public_key c) E2E_INIT_DOMAIN (e2eInitSignatureFields i) (hi_signature i)
       \<and> r'\<lparr>hr_signature := []\<rparr> = r\<lparr>hr_signature := []\<rparr>"
    using accepted_run[OF acc] same r eq by (intro bexI[OF _ run(1)]) simp
next
  show "\<exists>remote secret. fromBase64Url (hr_agent_ephemeral_key r) = Some remote \<and> cr_shared cr (is_secret st) remote = Some secret
       \<and> (se_tx_key s, se_rx_key s) = deriveSessionKeys cr secret (cr_sha256 cr (transcript_bytes (is_init st) r))
       \<and> se_session_id s = deriveSessionId cr (cr_sha256 cr (transcript_bytes (is_init st) r))"
    using assms(1) by (rule completed_keys)
qed

theorem session_needs_agent_run_witness:
  "\<exists>st r agent app. complete plain_crypto st r = Inr app
     \<and> (\<exists>(c, i, r', s') \<in> {(demo_context, is_init st, r, agent)}. hc_device_id c = hc_device_id (is_context st)
       \<and> hc_app_id c = hc_app_id (is_context st) \<and> hi_app_ephemeral_key i = hi_app_ephemeral_key (is_init st)
       \<and> verifyIdentityFields plain_crypto (hc_app_public_key c) E2E_INIT_DOMAIN (e2eInitSignatureFields i) (hi_signature i)
       \<and> r'\<lparr>hr_signature := []\<rparr> = r\<lparr>hr_signature := []\<rparr>)"
proof -
  obtain st r app agent where run:
    "acceptInitiatorHandshake plain_crypto demo_context (toBase64Url zero_key) (zero_key, zero_key) (is_init st) = Inr (r, agent)"
    "complete plain_crypto st r = Inr app"
    using handshake_runs[OF plain_setup] by blast
  let ?runs = "{(demo_context, is_init st, r, agent)}"
  have "\<forall>(c, i, r', s') \<in> ?runs. \<exists>keys. acceptInitiatorHandshake plain_crypto c (toBase64Url zero_key) keys i = Inr (r', s')"
    using run(1) by blast
  moreover have "\<exists>(c, i, r', s') \<in> ?runs. e2eReplySignatureFields r' (hi_app_ephemeral_key i)
      = e2eReplySignatureFields r (hi_app_ephemeral_key (is_init st))" by simp
  ultimately have "\<exists>(c, i, r', s') \<in> ?runs. hc_device_id c = hc_device_id (is_context st)
       \<and> hc_agent_public_key c = hc_agent_public_key (is_context st) \<and> hc_app_id c = hc_app_id (is_context st)
       \<and> hc_agent_connection_id c = hc_agent_connection_id (is_context st)
       \<and> hc_app_connection_id c = hc_app_connection_id (is_context st)
       \<and> hi_handshake_id i = hi_handshake_id (is_init st) \<and> hi_app_ephemeral_key i = hi_app_ephemeral_key (is_init st)
       \<and> verifyIdentityFields plain_crypto (hc_app_public_key c) E2E_INIT_DOMAIN (e2eInitSignatureFields i) (hi_signature i)
       \<and> r'\<lparr>hr_signature := []\<rparr> = r\<lparr>hr_signature := []\<rparr>"
    by (rule session_needs_agent_run[OF run(2), THEN conjunct1])
  with run(2) show ?thesis by (intro exI[of _ st] exI[of _ r] exI[of _ agent] exI[of _ app]) simp
qed

section \<open>Messages there and back\<close>

definition authentic :: "crypto \<Rightarrow> bool" where
  "authentic cr \<longleftrightarrow> (\<forall>k n a p. cr_open cr k n a (cr_seal cr k n a p) = Some p \<and> length (cr_seal cr k n a p) = length p + AEAD_TAG_LEN)"

lemma matched_aad: "matched a b \<Longrightarrow> messageAad a seq Tx = messageAad b seq Rx"
  by (cases "se_role a"; cases "se_role b") (simp_all add: matched_def messageAad_def semanticDirection_def)

lemma one_message:
  assumes "matched a b" "authentic cr" "dec (enc i) = Some i" "se_expected b = se_tx_seq a + 1" "se_tx_seq a < MAX_SAFE_INTEGER"
  obtains f where "encrypt cr enc i a = (Inr f, a\<lparr>se_tx_seq := se_tx_seq a + 1\<rparr>)"
    "decrypt cr dec f b = (Inr i, b\<lparr>se_expected := se_expected b + 1\<rparr>)"
proof (cases rule: encrypt_cases[of cr enc i a])
  case spent
  then show ?thesis using assms(5) by simp
next
  case (sealed n)
  define c where "c = cr_seal cr (se_tx_key a) n (messageAad a (se_tx_seq a + 1) Tx) (enc i)"
  have c: "length c \<ge> AEAD_TAG_LEN" "cr_open cr (se_rx_key b) n (messageAad b (se_tx_seq a + 1) Rx) c = Some (enc i)"
    using assms(1,2) matched_aad[OF assms(1)] by (simp_all add: authentic_def c_def matched_def)
  moreover from c(1) have "fromBase64Url (toBase64Url c) = Some c"
    by (intro base64url_roundtrip) (auto simp: AEAD_TAG_LEN_def)
  moreover define f where "f = \<lparr>fr_app_connection_id = se_app_connection_id a, fr_session_id = se_session_id a,
      fr_seq = se_tx_seq a + 1, fr_ciphertext = toBase64Url c\<rparr>"
  ultimately have "decrypt cr dec f b = (Inr i, b\<lparr>se_expected := se_expected b + 1\<rparr>)"
    using sealed(2) assms(1,3,4) by (simp add: decrypt_def open_frame_def matched_def)
  with that sealed(1) show ?thesis by (simp add: f_def c_def)
qed

text \<open>
  C14: between matched sessions, under a cipher that opens what it sealed, every message arrives: whatever is
  encrypted at one end and carried over in order is accepted frame by frame at the other and read
  back as the same list of messages, as long as the numbers last; the two ends stay in step.
\<close>

theorem messages_arrive:
  assumes "matched a b" and "authentic cr" and "\<forall>i \<in> set is. dec (enc i) = Some i"
    and "se_expected b = se_tx_seq a + 1" and "se_tx_seq a + length is \<le> MAX_SAFE_INTEGER"
    and "encrypt_all cr enc is a = (fs, a')"
  shows "\<exists>b'. decrypt_all cr dec (map projr fs) b = (map Inr is, b') \<and> list_all (\<lambda>r. \<not> isl r) fs
     \<and> matched a' b' \<and> se_expected b' = se_tx_seq a' + 1"
  using assms(1,3-6)
proof (induction "is" arbitrary: a b fs)
  case Nil
  then show ?case by auto
next
  case (Cons i "is")
  from Cons.prems obtain f where f: "encrypt cr enc i a = (Inr f, a\<lparr>se_tx_seq := se_tx_seq a + 1\<rparr>)"
    "decrypt cr dec f b = (Inr i, b\<lparr>se_expected := se_expected b + 1\<rparr>)"
    using one_message[of a b cr dec enc i] assms(2) by auto
  obtain gs where gs: "encrypt_all cr enc is (a\<lparr>se_tx_seq := se_tx_seq a + 1\<rparr>) = (gs, a')" "fs = Inr f # gs"
    using Cons.prems(5) f(1) by (cases "encrypt_all cr enc is (a\<lparr>se_tx_seq := se_tx_seq a + 1\<rparr>)") simp
  have "matched (a\<lparr>se_tx_seq := se_tx_seq a + 1\<rparr>) (b\<lparr>se_expected := se_expected b + 1\<rparr>)"
    using Cons.prems(1) by (simp add: matched_def)
  from Cons.IH[OF this _ _ _ gs(1)] Cons.prems obtain b' where
    "decrypt_all cr dec (map projr gs) (b\<lparr>se_expected := se_expected b + 1\<rparr>) = (map Inr is, b')
       \<and> list_all (\<lambda>r. \<not> isl r) gs \<and> matched a' b' \<and> se_expected b' = se_tx_seq a' + 1" by auto
  with f gs show ?case by simp
qed

definition writer :: e2e_session where
  "writer = reader\<lparr>se_role := Initiator\<rparr>"

theorem messages_arrive_witness:
  "\<exists>fs b'. decrypt_all plain_crypto Some fs reader = (map Inr [[1], [2, 3 :: byte]], b') \<and> length fs = 2"
proof -
  obtain fs a' where e: "encrypt_all plain_crypto (\<lambda>m. m) [[1], [2, 3 :: byte]] writer = (fs, a')" by fastforce
  have "matched writer reader" by (simp add: matched_def writer_def reader_def)
  moreover have "authentic plain_crypto" by (simp add: authentic_def plain_crypto_def AEAD_TAG_LEN_def)
  ultimately obtain b' where b: "decrypt_all plain_crypto Some (map projr fs) reader = (map Inr [[1], [2, 3]], b')"
    using messages_arrive[OF _ _ _ _ _ e, of reader Some] by (auto simp: writer_def reader_def MAX_SAFE_INTEGER_def)
  moreover have "length fs = 2" using e by (auto split: prod.splits)
  ultimately show ?thesis by (intro exI[of _ "map projr fs"] exI[of _ b']) simp
qed

end
