(* ===== verification/AgentTrust.thy ===== *)
theory AgentTrust
  imports Identity
begin

text \<open>
  Whom the Agent trusts (\<open>desktop/agent/src/config/trustedAppStore.ts\<close>) and which proofs it has already used
  (\<open>core/authReplayCache.ts\<close>). The file of the store is the value \<open>ts_disk\<close>, what the last \<open>persist\<close> wrote;
  writing and parsing the JSON text is not modelled, reading it back checks the records as \<open>load\<close> does.
  Times are numbers.
\<close>

declare map_of_eq_Some_iff [simp del] Some_eq_map_of_iff [simp del]

section \<open>The store of trusted Apps\<close>

datatype app_status = App_active | App_revoked

record trusted_record =
  tr_appId :: string
  tr_publicKey :: string
  tr_displayName :: "string option"
  tr_platform :: "string option"
  tr_scopes :: "string list"
  tr_status :: app_status
  tr_approvedAt :: int
  tr_lastSeenAt :: "int option"
  tr_revokedAt :: "int option"

record trusted_file =
  tf_version :: nat
  tf_apps :: "trusted_record list"

record trusted_store =
  ts_records :: "(string, trusted_record) jmap"
  ts_disk :: "trusted_file option"

definition trusted_get :: "string \<Rightarrow> trusted_store \<Rightarrow> trusted_record option" where
  "trusted_get a s = jget (ts_records s) a"

text \<open>\<open>rank\<close> orders the ids as \<open>localeCompare\<close> does.\<close>

definition trusted_list :: "(string \<Rightarrow> nat) \<Rightarrow> trusted_store \<Rightarrow> trusted_record list" where
  "trusted_list rank s = sort_key (rank \<circ> tr_appId) (map snd (ts_records s))"

definition persist :: "trusted_store \<Rightarrow> trusted_store" where
  "persist s = s\<lparr>ts_disk := Some \<lparr>tf_version = 1, tf_apps = map snd (ts_records s)\<rparr>\<rparr>"

definition approve :: "crypto \<Rightarrow> string \<Rightarrow> string \<Rightarrow> string option \<Rightarrow> string option \<Rightarrow> string list \<Rightarrow> int \<Rightarrow> trusted_store
    \<Rightarrow> (trusted_record \<times> trusted_store) option" where
  "approve cr appId key name platform scopes t s =
     (if \<not> identityMatchesPublicKey cr Id_app appId key then None
      else let r = \<lparr>tr_appId = appId, tr_publicKey = key, tr_displayName = name, tr_platform = platform,
               tr_scopes = fold jset_add scopes [], tr_status = App_active, tr_approvedAt = t, tr_lastSeenAt = Some t,
               tr_revokedAt = None\<rparr>
           in Some (r, persist (s\<lparr>ts_records := jput appId r (ts_records s)\<rparr>)))"

definition markSeen :: "string \<Rightarrow> int \<Rightarrow> trusted_store \<Rightarrow> trusted_store" where
  "markSeen a t s = (case jget (ts_records s) a of
     None \<Rightarrow> s
   | Some r \<Rightarrow> if tr_status r \<noteq> App_active then s
       else persist (s\<lparr>ts_records := jput a (r\<lparr>tr_lastSeenAt := Some t\<rparr>) (ts_records s)\<rparr>))"

definition revoke :: "string \<Rightarrow> int \<Rightarrow> trusted_store \<Rightarrow> bool \<times> trusted_store" where
  "revoke a t s = (case jget (ts_records s) a of
     None \<Rightarrow> (False, s)
   | Some r \<Rightarrow> if tr_status r = App_revoked then (False, s)
       else (True, persist (s\<lparr>ts_records := jput a (r\<lparr>tr_status := App_revoked, tr_revokedAt := Some t\<rparr>) (ts_records s)\<rparr>)))"

definition remove_trusted :: "string \<Rightarrow> trusted_store \<Rightarrow> bool \<times> trusted_store" where
  "remove_trusted a s = (if jhas (ts_records s) a then (True, persist (s\<lparr>ts_records := jdel a (ts_records s)\<rparr>)) else (False, s))"

definition app_platforms :: "string list" where
  "app_platforms = [''ios'', ''android'', ''web'', ''desktop'']"

definition isTrustedAppRecord :: "crypto \<Rightarrow> trusted_record \<Rightarrow> bool" where
  "isTrustedAppRecord cr r \<longleftrightarrow> identityMatchesPublicKey cr Id_app (tr_appId r) (tr_publicKey r)
     \<and> (case tr_platform r of None \<Rightarrow> True | Some p \<Rightarrow> p \<in> set app_platforms)
     \<and> tr_scopes r \<noteq> [] \<and> list_all (\<lambda>x. x = ''device.control'') (tr_scopes r)"

text \<open>\<open>None\<close> is the exception that keeps the Agent from starting.\<close>

fun load_records :: "crypto \<Rightarrow> trusted_record list \<Rightarrow> (string, trusted_record) jmap \<Rightarrow> (string, trusted_record) jmap option" where
  "load_records cr [] m = Some m"
| "load_records cr (r # rs) m = (if isTrustedAppRecord cr r then load_records cr rs (jput (tr_appId r) r m) else None)"

definition load_trusted :: "crypto \<Rightarrow> trusted_file option \<Rightarrow> trusted_store option" where
  "load_trusted cr f = (case f of
     None \<Rightarrow> Some \<lparr>ts_records = [], ts_disk = f\<rparr>
   | Some file \<Rightarrow> if tf_version file \<noteq> 1 then None
       else map_option (\<lambda>m. \<lparr>ts_records = m, ts_disk = f\<rparr>) (load_records cr (tf_apps file) []))"

datatype trust_call = Approve string string "string option" "string option" "string list" int
  | Mark_seen string int | Revoke string int | Remove_trusted string

definition trust_step :: "crypto \<Rightarrow> trust_call \<Rightarrow> trusted_store \<Rightarrow> trusted_store" where
  "trust_step cr c s = (case c of
     Approve a key name platform scopes t \<Rightarrow> (case approve cr a key name platform scopes t s of Some (_, u) \<Rightarrow> u | None \<Rightarrow> s)
   | Mark_seen a t \<Rightarrow> markSeen a t s
   | Revoke a t \<Rightarrow> snd (revoke a t s)
   | Remove_trusted a \<Rightarrow> snd (remove_trusted a s))"

text \<open>What the schema of \<open>auth.verify\<close> lets through: at least one scope, all of the only kind there is.\<close>

definition proper_call :: "trust_call \<Rightarrow> bool" where
  "proper_call c \<longleftrightarrow> (case c of
     Approve a key name platform scopes t \<Rightarrow> scopes \<noteq> [] \<and> list_all (\<lambda>x. x = ''device.control'') scopes
       \<and> (case platform of None \<Rightarrow> True | Some p \<Rightarrow> p \<in> set app_platforms)
   | _ \<Rightarrow> True)"

definition trust_wf :: "crypto \<Rightarrow> trusted_store \<Rightarrow> bool" where
  "trust_wf cr s \<longleftrightarrow> jwf (ts_records s) \<and> (\<forall>(a, r) \<in> set (ts_records s). tr_appId r = a \<and> isTrustedAppRecord cr r)
     \<and> (case ts_disk s of None \<Rightarrow> ts_records s = [] | Some f \<Rightarrow> f = \<lparr>tf_version = 1, tf_apps = map snd (ts_records s)\<rparr>)"

lemma update_set: "(a', r') \<in> set (jput a r m) \<Longrightarrow> (a', r') \<in> set m \<or> a' = a \<and> r' = r"
  by (induction m) (auto split: if_splits)

lemma trust_wf_persist:
  assumes "jwf m" "\<forall>(a, r) \<in> set m. tr_appId r = a \<and> isTrustedAppRecord cr r"
  shows "trust_wf cr (persist (s\<lparr>ts_records := m\<rparr>))"
  using assms by (simp add: trust_wf_def persist_def)

lemma trust_wf_put:
  assumes "trust_wf cr s" "tr_appId r = a" "isTrustedAppRecord cr r"
  shows "trust_wf cr (persist (s\<lparr>ts_records := jput a r (ts_records s)\<rparr>))"
  using assms by (intro trust_wf_persist) (auto simp: trust_wf_def dest!: update_set)

lemma scopes_kept: "scopes \<noteq> [] \<Longrightarrow> list_all P scopes \<Longrightarrow> fold jset_add scopes [] \<noteq> [] \<and> list_all P (fold jset_add scopes [])"
proof -
  have "set (fold jset_add xs ys) = set xs \<union> set ys" for xs ys :: "'a list"
    by (induction xs arbitrary: ys) auto
  then show "scopes \<noteq> [] \<Longrightarrow> list_all P scopes \<Longrightarrow> fold jset_add scopes [] \<noteq> [] \<and> list_all P (fold jset_add scopes [])"
    by (metis Un_empty_right list_all_iff set_empty)
qed

lemma trust_step_wf:
  assumes "trust_wf cr s" "proper_call c"
  shows "trust_wf cr (trust_step cr c s)"
proof (cases c)
  case (Approve a key name platform scopes t)
  then show ?thesis
    using assms scopes_kept[of scopes "\<lambda>x. x = ''device.control''"]
    by (auto simp: trust_step_def approve_def Let_def proper_call_def isTrustedAppRecord_def intro!: trust_wf_put)
next
  case (Mark_seen a t)
  then show ?thesis using assms
    by (auto simp: trust_step_def markSeen_def trust_wf_def[of cr s] isTrustedAppRecord_def dest!: map_of_SomeD
        split: option.split intro!: trust_wf_put[OF assms(1)])
next
  case (Revoke a t)
  then show ?thesis using assms
    by (auto simp: trust_step_def revoke_def trust_wf_def[of cr s] isTrustedAppRecord_def dest!: map_of_SomeD
        split: option.split intro!: trust_wf_put[OF assms(1)])
next
  case (Remove_trusted a)
  then show ?thesis using assms
    by (auto simp: trust_step_def remove_trusted_def trust_wf_def[of cr s] AList.delete_eq intro!: trust_wf_persist)
qed

interpretation trust: invariant_machine "trust_step cr" "trust_wf cr" proper_call
  by unfold_locales (rule trust_step_wf)

lemma update_new: "k \<notin> fst ` set m \<Longrightarrow> jput k v m = m @ [(k, v)]"
  by (induction m) auto

lemma load_records_append:
  "jwf (m @ map (\<lambda>r. (tr_appId r, r)) rs) \<Longrightarrow> list_all (isTrustedAppRecord cr) rs
    \<Longrightarrow> load_records cr rs m = Some (m @ map (\<lambda>r. (tr_appId r, r)) rs)"
proof (induction rs arbitrary: m)
  case (Cons r rs)
  then have "jput (tr_appId r) r m = m @ [(tr_appId r, r)]"
    by (simp add: update_new)
  with Cons show ?case by simp
qed simp

lemma reload_wf:
  assumes "trust_wf cr s"
  shows "load_trusted cr (ts_disk s) = Some s"
proof (cases "ts_disk s")
  case None
  with assms show ?thesis by (simp add: trust_wf_def load_trusted_def)
next
  case (Some f)
  have keys: "map (\<lambda>r. (tr_appId r, r)) (map snd (ts_records s)) = ts_records s"
    using assms by (auto simp: trust_wf_def intro!: map_idI)
  moreover have "list_all (isTrustedAppRecord cr) (map snd (ts_records s))"
    using assms by (auto simp: trust_wf_def list_all_iff)
  ultimately have "load_records cr (map snd (ts_records s)) [] = Some (ts_records s)"
    using load_records_append[of "[]" "map snd (ts_records s)" cr] assms by (simp add: trust_wf_def)
  with Some assms show ?thesis by (simp add: trust_wf_def load_trusted_def)
qed

section \<open>Proofs already used\<close>

record replay_cache =
  rc_order :: "string list"
  rc_set :: "string jset"
  rc_max :: nat

definition new_replay_cache :: "nat \<Rightarrow> replay_cache" where
  "new_replay_cache n = \<lparr>rc_order = [], rc_set = [], rc_max = n\<rparr>"

definition replay_has :: "string \<Rightarrow> replay_cache \<Rightarrow> bool" where
  "replay_has k c \<longleftrightarrow> k \<in> set (rc_set c)"

fun evict :: "nat \<Rightarrow> string list \<Rightarrow> string jset \<Rightarrow> string list \<times> string jset" where
  "evict n [] seen = ([], seen)"
| "evict n (k # ks) seen =
     (if length (k # ks) > n then evict n ks (if k \<noteq> [] then jset_del k seen else seen) else (k # ks, seen))"

definition remember :: "string \<Rightarrow> replay_cache \<Rightarrow> replay_cache" where
  "remember k c = (case evict (rc_max c) (rc_order c @ [k]) (jset_add k (rc_set c)) of
     (order, seen) \<Rightarrow> c\<lparr>rc_order := order, rc_set := seen\<rparr>)"

lemma evict_window:
  assumes "distinct ks" "[] \<notin> set ks" "set seen = set ks"
  shows "fst (evict n ks seen) = drop (length ks - n) ks \<and> set (snd (evict n ks seen)) = set (drop (length ks - n) ks)"
  using assms
proof (induction ks arbitrary: seen)
  case (Cons k ks)
  show ?case
  proof (cases "length (k # ks) > n")
    case True
    then have "length (k # ks) - n = Suc (length ks - n)" by simp
    with True Cons.IH[of "jset_del k seen"] Cons.prems show ?thesis by auto
  next
    case False
    with Cons.prems show ?thesis by simp
  qed
qed simp

lemma remember_window:
  assumes "distinct (ks @ [k])" "[] \<notin> set (ks @ [k])"
    and "rc_order c = drop (length ks - rc_max c) ks" "set (rc_set c) = set (rc_order c)"
  shows "rc_order (remember k c) = drop (length (ks @ [k]) - rc_max c) (ks @ [k])
    \<and> set (rc_set (remember k c)) = set (rc_order (remember k c)) \<and> rc_max (remember k c) = rc_max c"
proof -
  let ?os = "rc_order c @ [k]"
  have set: "distinct ?os" "[] \<notin> set ?os" "set (jset_add k (rc_set c)) = set ?os"
    using assms by (auto dest: in_set_dropD)
  have "drop (length ?os - rc_max c) ?os = drop (length (ks @ [k]) - rc_max c) (ks @ [k])"
    using assms(3) by (cases "length ks - rc_max c") (auto simp: Suc_diff_le)
  with evict_window[OF set, of "rc_max c"] show ?thesis
    by (cases "evict (rc_max c) ?os (jset_add k (rc_set c))") (simp add: remember_def)
qed

end
