(* ===== verification/AppRegistry.thy ===== *)
theory AppRegistry
  imports Identity
begin

text \<open>
  The Agent's view of its Apps (\<open>desktop/agent/src/core/appConnectionRegistry.ts\<close>): one record per App
  runtime, the indexes by runtime and by instance, and what is read from them. The connection
  object the code mutates in place is the value under its id in \<open>by_id\<close>; the clock and the id that
  \<open>randomUUID\<close> returns are arguments. Of an observation the fields \<open>http\<close> and \<open>transport\<close>, which are
  only copied, are left out.
\<close>

declare map_of_eq_Some_iff [simp del] Some_eq_map_of_iff [simp del]

section \<open>What an App tells about itself\<close>

record app_device_info =
  di_name :: "string option"
  di_platform :: "string option"
  di_os :: "string option"
  di_os_version :: "string option"
  di_private_hash :: "string option"

record app_client_info =
  ci_name :: "string option"
  ci_version :: "string option"
  ci_capabilities :: "string list option"

record app_info =
  inf_instance :: string
  inf_runtime :: string
  inf_device :: "app_device_info option"
  inf_app :: "app_client_info option"

datatype ip_source = Socket_remote_address | X_forwarded_for | P2p_observed | App_reported | Agent_observed | Ip_unknown
datatype observation_source = From_relay | From_app | From_agent | From_p2p

record observed_network =
  ow_remote_ip :: "string option"
  ow_public_ip :: "string option"
  ow_private_hash :: "string option"
  ow_ip_source :: "ip_source option"

record observed_device =
  od_name :: "string option"
  od_platform :: "string option"
  od_os :: "string option"
  od_os_version :: "string option"

record observed_app =
  oa_name :: "string option"
  oa_version :: "string option"
  oa_runtime_id :: "string option"

record observation =
  ob_source :: observation_source
  ob_observed_at :: int
  ob_network :: "observed_network option"
  ob_device :: "observed_device option"
  ob_app :: "observed_app option"

definition filled :: "string option \<Rightarrow> bool" where
  "filled x \<longleftrightarrow> x \<noteq> None \<and> x \<noteq> Some []"

definition or_else :: "'a option \<Rightarrow> 'a option \<Rightarrow> 'a option" where
  "or_else x y = (case x of Some v \<Rightarrow> Some v | None \<Rightarrow> y)"

definition observationSourceToIpSource :: "observation_source \<Rightarrow> ip_source" where
  "observationSourceToIpSource src = (case src of From_app \<Rightarrow> App_reported | From_agent \<Rightarrow> Agent_observed
     | From_p2p \<Rightarrow> P2p_observed | From_relay \<Rightarrow> Ip_unknown)"

definition appInfoToObservation :: "app_info \<Rightarrow> int \<Rightarrow> observation" where
  "appInfoToObservation i t = \<lparr>ob_source = From_app, ob_observed_at = t,
     ob_network = (case inf_device i of
         None \<Rightarrow> None
       | Some d \<Rightarrow> if filled (di_private_hash d)
           then Some \<lparr>ow_remote_ip = None, ow_public_ip = None, ow_private_hash = di_private_hash d, ow_ip_source = Some App_reported\<rparr>
           else None),
     ob_device = map_option (\<lambda>d. \<lparr>od_name = di_name d, od_platform = di_platform d, od_os = di_os d,
         od_os_version = di_os_version d\<rparr>) (inf_device i),
     ob_app = map_option (\<lambda>a. \<lparr>oa_name = ci_name a, oa_version = ci_version a, oa_runtime_id = Some (inf_runtime i)\<rparr>) (inf_app i)\<rparr>"

section \<open>Connections\<close>

datatype conn_state = Conn_active | Conn_idle | Conn_stale | Conn_disconnected
datatype security_mode = Mode_e2e | Mode_unauthenticated
datatype conn_method = Via_relay | Via_p2p | Via_mixed | Via_unknown
datatype conn_path = On_relay | On_p2p | On_unknown
datatype peer_link = Link_connected | Link_closed

record conn_security =
  cs_encrypted :: bool
  cs_mode :: security_mode
  cs_e2e_ready :: bool
  cs_handshake_at :: "int option"
  cs_last_verified_at :: "int option"

record conn_network =
  cn_ip :: "string option"
  cn_ip_source :: ip_source
  cn_ip_history :: "string list"
  cn_private_hash :: "string option"
  cn_method :: conn_method
  cn_relay_id :: "string option"

record conn_timing =
  ct_connected_at :: int
  ct_authenticated_at :: "int option"
  ct_first_seen_at :: int
  ct_last_seen_at :: int
  ct_last_heartbeat_at :: "int option"
  ct_last_message_at :: "int option"
  ct_stale_after :: int
  ct_disconnect_after :: int

record conn_transport =
  cx_path :: conn_path
  cx_available :: "conn_path list"
  cx_p2p_state :: "peer_link option"
  cx_relay_available :: bool
  cx_last_change_at :: "int option"

record conn_counters =
  cc_attempts :: nat
  cc_bytes_in :: nat
  cc_bytes_out :: nat
  cc_messages_in :: nat
  cc_messages_out :: nat
  cc_heartbeats :: nat
  cc_replay_rejected :: nat
  cc_auth_failures :: nat

record app_conn =
  ac_id :: string
  ac_relay_id :: "string option"
  ac_app_id :: "string option"
  ac_instance :: string
  ac_runtime :: string
  ac_app_name :: "string option"
  ac_device_name :: "string option"
  ac_platform :: "string option"
  ac_version :: "string option"
  ac_observations :: "observation list"
  ac_state :: conn_state
  ac_trusted :: bool
  ac_security :: conn_security
  ac_network :: conn_network
  ac_timing :: conn_timing
  ac_transport :: conn_transport
  ac_counters :: conn_counters
  ac_last_seq :: nat

record registry =
  rg_heartbeat_ms :: int
  rg_stale_ms :: int
  rg_disconnect_ms :: int
  by_id :: "(string, app_conn) jmap"
  by_runtime :: "(string, string) jmap"
  by_instance :: "(string, string) jmap"

definition new_registry :: "int \<Rightarrow> int \<Rightarrow> int \<Rightarrow> registry" where
  "new_registry hb stale gone = \<lparr>rg_heartbeat_ms = hb, rg_stale_ms = stale, rg_disconnect_ms = gone,
     by_id = [], by_runtime = [], by_instance = []\<rparr>"

section \<open>Looking a connection up\<close>

definition findByRelayConnectionId :: "string \<Rightarrow> registry \<Rightarrow> app_conn option" where
  "findByRelayConnectionId r g = (if r = [] then None
     else map_option snd (find (\<lambda>(k, e). ac_relay_id e = Some r) (by_id g)))"

definition findByRuntimeKey :: "string \<Rightarrow> registry \<Rightarrow> app_conn option" where
  "findByRuntimeKey k g = (case jget (by_runtime g) k of
     Some i \<Rightarrow> if i = [] then None else jget (by_id g) i | None \<Rightarrow> None)"

definition findByAppInstanceId :: "string \<Rightarrow> registry \<Rightarrow> app_conn option" where
  "findByAppInstanceId k g = (case jget (by_instance g) k of
     Some i \<Rightarrow> if i = [] then None else jget (by_id g) i | None \<Rightarrow> None)"

definition findRuntimeKeyByAppInstanceId :: "string \<Rightarrow> registry \<Rightarrow> string option" where
  "findRuntimeKeyByAppInstanceId k g = map_option fst (find (\<lambda>(rk, i). case jget (by_id g) i of
     Some e \<Rightarrow> ac_instance e = k | None \<Rightarrow> False) (by_runtime g))"

definition runtimeKey :: "app_info \<Rightarrow> string" where
  "runtimeKey i = inf_instance i @ '':'' @ inf_runtime i"

definition put_conn :: "app_conn \<Rightarrow> registry \<Rightarrow> registry" where
  "put_conn e g = g\<lparr>by_id := jput (ac_id e) e (by_id g)\<rparr>"

definition on_conn :: "string \<Rightarrow> (app_conn \<Rightarrow> app_conn) \<Rightarrow> registry \<Rightarrow> registry" where
  "on_conn r f g = (case findByRelayConnectionId r g of None \<Rightarrow> g | Some e \<Rightarrow> put_conn (f e) g)"

section \<open>An App that has proved itself\<close>

text \<open>What one observation changes of what is known of the network.\<close>

definition observe_network :: "observation \<Rightarrow> conn_network \<Rightarrow> conn_network" where
  "observe_network ob n = (case ob_network ob of
     None \<Rightarrow> n
   | Some w \<Rightarrow>
      (let ip = or_else (ow_remote_ip w) (ow_public_ip w);
           n = (if filled ip
                then n\<lparr>cn_ip := ip,
                    cn_ip_source := (case ow_ip_source w of Some x \<Rightarrow> x | None \<Rightarrow> observationSourceToIpSource (ob_source ob)),
                    cn_ip_history := jset_add (the ip) (cn_ip_history n)\<rparr>
                else n)
       in if filled (ow_private_hash w) then n\<lparr>cn_private_hash := ow_private_hash w\<rparr> else n))"

definition recordObservation :: "observation \<Rightarrow> app_conn \<Rightarrow> app_conn" where
  "recordObservation ob e = e\<lparr>ac_observations := ac_observations e @ [ob], ac_network := observe_network ob (ac_network e)\<rparr>"

definition recordObservations :: "observation list \<Rightarrow> app_conn \<Rightarrow> app_conn" where
  "recordObservations obs e = fold recordObservation obs e"

definition createBaseConnection :: "string \<Rightarrow> app_info \<Rightarrow> string option \<Rightarrow> string \<Rightarrow> int \<Rightarrow> registry \<Rightarrow> app_conn" where
  "createBaseConnection uuid i appId relay t g =
     \<lparr>ac_id = uuid, ac_relay_id = Some relay, ac_app_id = appId, ac_instance = inf_instance i, ac_runtime = inf_runtime i,
      ac_app_name = or_else (Option.bind (inf_app i) ci_name) (Some ''OmniWork App''),
      ac_device_name = Option.bind (inf_device i) di_name, ac_platform = Option.bind (inf_device i) di_platform,
      ac_version = Option.bind (inf_app i) ci_version, ac_observations = [], ac_state = Conn_active, ac_trusted = True,
      ac_security = \<lparr>cs_encrypted = False, cs_mode = Mode_unauthenticated, cs_e2e_ready = False, cs_handshake_at = None,
        cs_last_verified_at = Some t\<rparr>,
      ac_network = \<lparr>cn_ip = None, cn_ip_source = Ip_unknown, cn_ip_history = [], cn_private_hash = None,
        cn_method = Via_relay, cn_relay_id = Some relay\<rparr>,
      ac_timing = \<lparr>ct_connected_at = t, ct_authenticated_at = Some t, ct_first_seen_at = t, ct_last_seen_at = t,
        ct_last_heartbeat_at = None, ct_last_message_at = None, ct_stale_after = t + rg_stale_ms g,
        ct_disconnect_after = t + rg_disconnect_ms g\<rparr>,
      ac_transport = \<lparr>cx_path = On_relay, cx_available = [On_relay], cx_p2p_state = None, cx_relay_available = True,
        cx_last_change_at = None\<rparr>,
      ac_counters = \<lparr>cc_attempts = 0, cc_bytes_in = 0, cc_bytes_out = 0, cc_messages_in = 0, cc_messages_out = 0,
        cc_heartbeats = 0, cc_replay_rejected = 0, cc_auth_failures = 0\<rparr>,
      ac_last_seq = 0\<rparr>"

definition seen_again :: "registry \<Rightarrow> int \<Rightarrow> conn_timing \<Rightarrow> conn_timing" where
  "seen_again g t x = x\<lparr>ct_last_seen_at := t, ct_stale_after := t + rg_stale_ms g, ct_disconnect_after := t + rg_disconnect_ms g\<rparr>"

definition authenticated_conn :: "registry \<Rightarrow> app_info \<Rightarrow> string option \<Rightarrow> string \<Rightarrow> observation list \<Rightarrow> int \<Rightarrow> app_conn \<Rightarrow> app_conn" where
  "authenticated_conn g i appId relay obs t e =
     (let e = e\<lparr>ac_state := Conn_active, ac_trusted := True, ac_relay_id := Some relay,
            ac_app_id := or_else appId (ac_app_id e), ac_instance := inf_instance i, ac_runtime := inf_runtime i,
            ac_app_name := or_else (Option.bind (inf_app i) ci_name) (ac_app_name e),
            ac_device_name := or_else (Option.bind (inf_device i) di_name) (ac_device_name e),
            ac_platform := or_else (Option.bind (inf_device i) di_platform) (ac_platform e),
            ac_version := or_else (Option.bind (inf_app i) ci_version) (ac_version e)\<rparr>;
          e = recordObservations (appInfoToObservation i t # obs) e
      in e\<lparr>ac_security := \<lparr>cs_encrypted = False, cs_mode = Mode_unauthenticated, cs_e2e_ready = False,
               cs_handshake_at = None, cs_last_verified_at = Some t\<rparr>,
           ac_network := (ac_network e)\<lparr>cn_relay_id := Some relay, cn_method := Via_relay\<rparr>,
           ac_timing := seen_again g t ((ac_timing e)\<lparr>ct_connected_at := t, ct_authenticated_at := Some t\<rparr>),
           ac_transport := \<lparr>cx_path = On_relay, cx_available = [On_relay], cx_p2p_state = None, cx_relay_available = True,
               cx_last_change_at = Some t\<rparr>,
           ac_last_seq := 0,
           ac_counters := (ac_counters e)\<lparr>cc_attempts := cc_attempts (ac_counters e) + 1\<rparr>\<rparr>)"

text \<open>The connection and, where there was one, the relay connection it had before.\<close>

definition acceptAuthenticatedConnectionDetailed ::
    "string \<Rightarrow> app_info \<Rightarrow> string option \<Rightarrow> string \<Rightarrow> observation list \<Rightarrow> int \<Rightarrow> registry \<Rightarrow> (app_conn \<times> string option) \<times> registry" where
  "acceptAuthenticatedConnectionDetailed uuid i appId relay obs t g =
     (let key = runtimeKey i;
          previous_key = findRuntimeKeyByAppInstanceId (inf_instance i) g;
          existing = or_else (findByRelayConnectionId relay g) (or_else (findByRuntimeKey key g) (findByAppInstanceId (inf_instance i) g));
          previous = (case existing of
              None \<Rightarrow> None
            | Some e \<Rightarrow> if filled (ac_relay_id e) \<and> ac_relay_id e \<noteq> Some relay then ac_relay_id e else None);
          e = authenticated_conn g i appId relay obs t
            (case existing of Some e \<Rightarrow> e | None \<Rightarrow> createBaseConnection uuid i appId relay t g);
          runtimes = (case previous_key of
              Some pk \<Rightarrow> if pk \<noteq> [] \<and> pk \<noteq> key then jdel pk (by_runtime g) else by_runtime g
            | None \<Rightarrow> by_runtime g)
      in ((e, previous), g\<lparr>by_runtime := jput key (ac_id e) runtimes,
            by_instance := jput (inf_instance i) (ac_id e) (by_instance g), by_id := jput (ac_id e) e (by_id g)\<rparr>))"

section \<open>What happens to it later\<close>

definition path_method :: "conn_path \<Rightarrow> conn_method" where
  "path_method x = (case x of On_relay \<Rightarrow> Via_relay | On_p2p \<Rightarrow> Via_p2p | On_unknown \<Rightarrow> Via_unknown)"

definition path_set :: "conn_path \<Rightarrow> int \<Rightarrow> app_conn \<Rightarrow> app_conn" where
  "path_set x t e = (let tr = (ac_transport e)\<lparr>cx_path := x, cx_last_change_at := Some t\<rparr>
     in e\<lparr>ac_network := (ac_network e)\<lparr>cn_method := path_method x\<rparr>,
          ac_transport := (if x = On_p2p
             then tr\<lparr>cx_available := jset_add On_p2p (cx_available tr), cx_p2p_state := Some Link_connected\<rparr> else tr)\<rparr>)"

definition setPath :: "string \<Rightarrow> conn_path \<Rightarrow> int \<Rightarrow> registry \<Rightarrow> registry" where
  "setPath r x t g = (case or_else (jget (by_id g) r) (findByRelayConnectionId r g) of
     None \<Rightarrow> g
   | Some e \<Rightarrow> put_conn (path_set x t e) g)"

definition acceptHeartbeat :: "string \<Rightarrow> nat \<Rightarrow> conn_path option \<Rightarrow> int \<Rightarrow> registry \<Rightarrow> registry" where
  "acceptHeartbeat r sq path t g = (case findByRelayConnectionId r g of
     None \<Rightarrow> g
   | Some e \<Rightarrow>
      (let e = e\<lparr>ac_state := Conn_active, ac_timing := seen_again g t ((ac_timing e)\<lparr>ct_last_heartbeat_at := Some t\<rparr>),
           ac_counters := (ac_counters e)\<lparr>cc_heartbeats := cc_heartbeats (ac_counters e) + 1\<rparr>, ac_last_seq := sq\<rparr>;
           g = put_conn e g
       in case path of None \<Rightarrow> g | Some x \<Rightarrow> setPath (ac_id e) x t g))"

definition markGoodbye :: "string \<Rightarrow> nat \<Rightarrow> int \<Rightarrow> registry \<Rightarrow> registry" where
  "markGoodbye r sq t = on_conn r (\<lambda>e. e\<lparr>ac_state := Conn_disconnected, ac_trusted := False,
     ac_timing := (ac_timing e)\<lparr>ct_last_seen_at := t\<rparr>, ac_last_seq := sq\<rparr>)"

definition relay_lost :: "int \<Rightarrow> app_conn \<Rightarrow> app_conn" where
  "relay_lost t e = e\<lparr>ac_state := Conn_disconnected, ac_trusted := False,
     ac_timing := (ac_timing e)\<lparr>ct_last_seen_at := t, ct_stale_after := t, ct_disconnect_after := t\<rparr>,
     ac_network := (ac_network e)\<lparr>cn_method := Via_unknown\<rparr>,
     ac_transport := (ac_transport e)\<lparr>cx_relay_available := False, cx_path := On_unknown,
       cx_p2p_state := map_option (\<lambda>_. Link_closed) (cx_p2p_state (ac_transport e))\<rparr>\<rparr>"

definition markRelayUnavailable :: "int \<Rightarrow> registry \<Rightarrow> registry" where
  "markRelayUnavailable t g = g\<lparr>by_id := map (\<lambda>(k, e). (k, relay_lost t e)) (by_id g)\<rparr>"

definition e2e_marked :: "registry \<Rightarrow> int \<Rightarrow> app_conn \<Rightarrow> app_conn" where
  "e2e_marked g t e = (if \<not> ac_trusted e then e
     else e\<lparr>ac_state := Conn_active,
       ac_security := \<lparr>cs_encrypted = True, cs_mode = Mode_e2e, cs_e2e_ready = True,
         cs_handshake_at = or_else (cs_handshake_at (ac_security e)) (Some t), cs_last_verified_at = Some t\<rparr>,
       ac_timing := seen_again g t (ac_timing e)\<rparr>)"

definition markE2EReady :: "string \<Rightarrow> int \<Rightarrow> registry \<Rightarrow> registry" where
  "markE2EReady r t g = on_conn r (e2e_marked g t) g"

datatype flow = Flow_in | Flow_out

definition counted_message :: "registry \<Rightarrow> flow \<Rightarrow> nat \<Rightarrow> int \<Rightarrow> app_conn \<Rightarrow> app_conn" where
  "counted_message g d n t e = (let c = ac_counters e in
     e\<lparr>ac_timing := seen_again g t ((ac_timing e)\<lparr>ct_last_message_at := Some t\<rparr>),
       ac_state := (if ac_state e \<noteq> Conn_disconnected then Conn_active else ac_state e),
       ac_counters := (case d of
          Flow_in \<Rightarrow> c\<lparr>cc_messages_in := cc_messages_in c + 1, cc_bytes_in := cc_bytes_in c + n\<rparr>
        | Flow_out \<Rightarrow> c\<lparr>cc_messages_out := cc_messages_out c + 1, cc_bytes_out := cc_bytes_out c + n\<rparr>)\<rparr>)"

definition recordMessage :: "string \<Rightarrow> flow \<Rightarrow> bool \<Rightarrow> nat \<Rightarrow> int \<Rightarrow> registry \<Rightarrow> registry" where
  "recordMessage r d encrypted n t g = (case findByRelayConnectionId r g of
     None \<Rightarrow> g
   | Some e \<Rightarrow> (let e = counted_message g d n t e; g = put_conn e g
       in if encrypted \<and> cs_mode (ac_security e) \<noteq> Mode_e2e then markE2EReady r t g else g))"

definition hasAuthenticatedConnection :: "string \<Rightarrow> registry \<Rightarrow> bool" where
  "hasAuthenticatedConnection r g = (case findByRelayConnectionId r g of
     None \<Rightarrow> False | Some e \<Rightarrow> ac_trusted e \<and> ac_state e \<noteq> Conn_disconnected)"

definition recordReplayRejected :: "string \<Rightarrow> registry \<Rightarrow> registry" where
  "recordReplayRejected i g = (case (if i = [] then None else jget (by_id g) i) of
     None \<Rightarrow> g
   | Some e \<Rightarrow> put_conn (e\<lparr>ac_counters := (ac_counters e)\<lparr>cc_replay_rejected := cc_replay_rejected (ac_counters e) + 1\<rparr>\<rparr>) g)"

definition recordConnFailure :: "string \<Rightarrow> registry \<Rightarrow> registry" where
  "recordConnFailure r = on_conn r (\<lambda>e. e\<lparr>ac_counters := (ac_counters e)\<lparr>cc_auth_failures := cc_auth_failures (ac_counters e) + 1\<rparr>\<rparr>)"

definition swept :: "registry \<Rightarrow> int \<Rightarrow> app_conn \<Rightarrow> app_conn" where
  "swept g t e =
     (if ac_state e = Conn_disconnected then e
      else if t \<ge> ct_disconnect_after (ac_timing e) then e\<lparr>ac_state := Conn_disconnected\<rparr>
      else if t \<ge> ct_stale_after (ac_timing e) then e\<lparr>ac_state := Conn_stale\<rparr>
      else case ct_last_message_at (ac_timing e) of
             None \<Rightarrow> e
           | Some m \<Rightarrow> if m \<noteq> 0 \<and> t - m > rg_heartbeat_ms g then e\<lparr>ac_state := Conn_idle\<rparr> else e)"

definition sweep_registry :: "int \<Rightarrow> registry \<Rightarrow> registry" where
  "sweep_registry t g = g\<lparr>by_id := map (\<lambda>(k, e). (k, swept g t e)) (by_id g)\<rparr>"

definition list_conns :: "int \<Rightarrow> registry \<Rightarrow> app_conn list \<times> registry" where
  "list_conns t g = (let g = sweep_registry t g in (map snd (by_id g), g))"

text \<open>Deleting while iterating visits every entry of the \<open>Map\<close>, as none is added.\<close>

definition drop_conn :: "string \<times> app_conn \<Rightarrow> registry \<Rightarrow> registry" where
  "drop_conn = (\<lambda>(k, e) g. g\<lparr>by_id := jdel k (by_id g),
     by_runtime := filter (\<lambda>(rk, i). i \<noteq> k) (by_runtime g),
     by_instance := (if jget (by_instance g) (ac_instance e) = Some k then jdel (ac_instance e) (by_instance g)
       else by_instance g)\<rparr>)"

definition remove_conns :: "string \<Rightarrow> registry \<Rightarrow> nat \<times> registry" where
  "remove_conns appId g = (let gone = filter (\<lambda>(k, e). ac_app_id e = Some appId) (by_id g)
     in (length gone, fold drop_conn gone g))"

section \<open>What is shown\<close>

record conn_summary =
  sm_total :: nat
  sm_trusted :: nat
  sm_untrusted :: nat
  sm_active :: nat
  sm_idle :: nat
  sm_stale :: nat
  sm_disconnected :: nat
  sm_encrypted :: nat
  sm_unencrypted :: nat
  sm_p2p :: nat
  sm_relay :: nat
  sm_unknown_path :: nat
  sm_attempts :: nat
  sm_bytes_in :: nat
  sm_bytes_out :: nat

definition add_to_summary :: "app_conn \<Rightarrow> conn_summary \<Rightarrow> conn_summary" where
  "add_to_summary e s =
     (let s = s\<lparr>sm_total := sm_total s + 1, sm_attempts := sm_attempts s + cc_attempts (ac_counters e),
            sm_bytes_in := sm_bytes_in s + cc_bytes_in (ac_counters e),
            sm_bytes_out := sm_bytes_out s + cc_bytes_out (ac_counters e)\<rparr>;
          s = (if ac_trusted e then s\<lparr>sm_trusted := sm_trusted s + 1\<rparr> else s\<lparr>sm_untrusted := sm_untrusted s + 1\<rparr>);
          s = (case ac_state e of
                 Conn_active \<Rightarrow> s\<lparr>sm_active := sm_active s + 1\<rparr>
               | Conn_idle \<Rightarrow> s\<lparr>sm_idle := sm_idle s + 1\<rparr>
               | Conn_stale \<Rightarrow> s\<lparr>sm_stale := sm_stale s + 1\<rparr>
               | Conn_disconnected \<Rightarrow> s\<lparr>sm_disconnected := sm_disconnected s + 1\<rparr>);
          s = (if cs_encrypted (ac_security e) then s\<lparr>sm_encrypted := sm_encrypted s + 1\<rparr>
               else s\<lparr>sm_unencrypted := sm_unencrypted s + 1\<rparr>)
      in case cx_path (ac_transport e) of
           On_p2p \<Rightarrow> s\<lparr>sm_p2p := sm_p2p s + 1\<rparr>
         | On_relay \<Rightarrow> s\<lparr>sm_relay := sm_relay s + 1\<rparr>
         | On_unknown \<Rightarrow> s\<lparr>sm_unknown_path := sm_unknown_path s + 1\<rparr>)"

definition empty_summary :: conn_summary where
  "empty_summary = \<lparr>sm_total = 0, sm_trusted = 0, sm_untrusted = 0, sm_active = 0, sm_idle = 0, sm_stale = 0,
     sm_disconnected = 0, sm_encrypted = 0, sm_unencrypted = 0, sm_p2p = 0, sm_relay = 0, sm_unknown_path = 0,
     sm_attempts = 0, sm_bytes_in = 0, sm_bytes_out = 0\<rparr>"

definition conn_summary_of :: "int \<Rightarrow> registry \<Rightarrow> conn_summary \<times> registry" where
  "conn_summary_of t g = (case list_conns t g of (es, g) \<Rightarrow> (fold add_to_summary es empty_summary, g))"

record device_stats =
  ds_device_id :: string
  ds_device_name :: "string option"
  ds_platform :: "string option"
  ds_app_name :: "string option"
  ds_app_version :: "string option"
  ds_connections :: nat
  ds_active :: nat
  ds_trusted :: nat
  ds_encrypted :: nat
  ds_attempts :: nat
  ds_bytes_in :: nat
  ds_bytes_out :: nat
  ds_messages_in :: nat
  ds_messages_out :: nat
  ds_path :: conn_method
  ds_ip :: "string option"
  ds_ip_source :: ip_source
  ds_ip_history :: "string list"
  ds_private_hash :: "string option"
  ds_first_seen_at :: int
  ds_last_seen_at :: int
  ds_last_message_at :: "int option"

definition mergeTransportPath :: "conn_method \<Rightarrow> conn_path \<Rightarrow> conn_method" where
  "mergeTransportPath current x =
     (if current = path_method x then current
      else if current = Via_unknown then path_method x
      else if x = On_unknown then current else Via_mixed)"

definition stats_of :: "app_conn \<Rightarrow> device_stats" where
  "stats_of e = \<lparr>ds_device_id = ac_instance e, ds_device_name = ac_device_name e, ds_platform = ac_platform e,
     ds_app_name = ac_app_name e, ds_app_version = ac_version e, ds_connections = 0, ds_active = 0, ds_trusted = 0,
     ds_encrypted = 0, ds_attempts = 0, ds_bytes_in = 0, ds_bytes_out = 0, ds_messages_in = 0, ds_messages_out = 0,
     ds_path = path_method (cx_path (ac_transport e)), ds_ip = cn_ip (ac_network e),
     ds_ip_source = cn_ip_source (ac_network e), ds_ip_history = [], ds_private_hash = cn_private_hash (ac_network e),
     ds_first_seen_at = ct_first_seen_at (ac_timing e), ds_last_seen_at = ct_last_seen_at (ac_timing e),
     ds_last_message_at = ct_last_message_at (ac_timing e)\<rparr>"

definition count_if :: "bool \<Rightarrow> nat" where
  "count_if b = (if b then 1 else 0)"

definition later_message :: "int option \<Rightarrow> int option \<Rightarrow> int option" where
  "later_message x y = (case x of
     None \<Rightarrow> y
   | Some m \<Rightarrow> if m \<noteq> 0 \<and> (case y of None \<Rightarrow> True | Some k \<Rightarrow> k = 0 \<or> m > k) then x else y)"

definition add_to_stats :: "app_conn \<Rightarrow> device_stats \<Rightarrow> device_stats" where
  "add_to_stats e s = (let c = ac_counters e; w = ac_network e in
     s\<lparr>ds_device_name := or_else (ac_device_name e) (ds_device_name s), ds_platform := or_else (ac_platform e) (ds_platform s),
       ds_app_name := or_else (ac_app_name e) (ds_app_name s), ds_app_version := or_else (ac_version e) (ds_app_version s),
       ds_connections := ds_connections s + 1, ds_active := ds_active s + count_if (ac_state e = Conn_active),
       ds_trusted := ds_trusted s + count_if (ac_trusted e),
       ds_encrypted := ds_encrypted s + count_if (cs_encrypted (ac_security e)),
       ds_attempts := ds_attempts s + cc_attempts c, ds_bytes_in := ds_bytes_in s + cc_bytes_in c,
       ds_bytes_out := ds_bytes_out s + cc_bytes_out c, ds_messages_in := ds_messages_in s + cc_messages_in c,
       ds_messages_out := ds_messages_out s + cc_messages_out c,
       ds_path := mergeTransportPath (ds_path s) (cx_path (ac_transport e)),
       ds_ip := (if filled (cn_ip w) then cn_ip w else ds_ip s),
       ds_ip_source := (if filled (cn_ip w) then cn_ip_source w else ds_ip_source s),
       ds_ip_history := fold jset_add (cn_ip_history w) (ds_ip_history s),
       ds_private_hash := or_else (cn_private_hash w) (ds_private_hash s),
       ds_first_seen_at := min (ds_first_seen_at s) (ct_first_seen_at (ac_timing e)),
       ds_last_seen_at := max (ds_last_seen_at s) (ct_last_seen_at (ac_timing e)),
       ds_last_message_at := later_message (ct_last_message_at (ac_timing e)) (ds_last_message_at s)\<rparr>)"

definition add_device :: "app_conn \<Rightarrow> (string, device_stats) jmap \<Rightarrow> (string, device_stats) jmap" where
  "add_device e m = jput (ac_instance e) (add_to_stats e (case jget m (ac_instance e) of Some s \<Rightarrow> s | None \<Rightarrow> stats_of e)) m"

definition device_stats_of :: "int \<Rightarrow> registry \<Rightarrow> device_stats list \<times> registry" where
  "device_stats_of t g = (case list_conns t g of
     (es, g) \<Rightarrow> (sort_key (\<lambda>s. - ds_last_seen_at s) (map snd (fold add_device es [])), g))"

end
