(* ===== verification/AgentGateway.thy ===== *)
theory AgentGateway
  imports E2ESession AgentTrust AppRegistry
begin

text \<open>
  The Agent's gate (\<open>desktop/agent/src/core/agentAppSecurityGateway.ts\<close>): proofs of Apps, pairing, the encrypted
  sessions with them and what is sent to them. The state holds the registry, the store of trusted
  Apps and the tables of the class; \<open>gw_effects\<close> is what the gate did to the outside, in order: messages given to the
  transport, business requests handed to their handlers, and connections reported as superseded.
  The environment \<open>agent_env\<close> holds the configuration and what is not under the repository's control: the
  primitives, the supply of ephemeral keys and ids, and the JSON text of messages.
\<close>

declare map_of_eq_Some_iff [simp del] Some_eq_map_of_iff [simp del]

section \<open>Messages\<close>

record auth_verify =
  vf_nonce :: string
  vf_connection_id :: string
  vf_agent_connection_id :: string
  vf_device_id :: string
  vf_agent_public_key :: string
  vf_app_id :: string
  vf_app_public_key :: string
  vf_app_info :: app_info
  vf_requested_scopes :: "string list"
  vf_timestamp :: int
  vf_signature :: string
  vf_observations :: "observation list"

text \<open>\<open>Plain t kind c\<close> is any other message: its type, the \<open>kind\<close> of its payload and the App connection the payload names.\<close>

datatype agent_content = Auth_verify auth_verify | Handshake_init handshake_init | E2e_ready_in ready_payload
  | E2e_message e2e_frame | App_heartbeat nat "conn_path option" | App_goodbye nat | Propose_upgrade string
  | Plain string "string option" "string option"

record agent_message =
  am_content :: agent_content
  am_app_connection :: "string option"
  am_session :: "string option"
  am_surface :: "string option"
  am_relay_context :: "string option"
  am_body :: "byte list"

definition message_type :: "agent_content \<Rightarrow> string" where
  "message_type c = (case c of Auth_verify _ \<Rightarrow> ''auth.verify'' | Handshake_init _ \<Rightarrow> ''e2e.handshake.init''
     | E2e_ready_in _ \<Rightarrow> ''e2e.ready'' | E2e_message _ \<Rightarrow> ''e2e.message'' | App_heartbeat _ _ \<Rightarrow> ''app.connection.heartbeat''
     | App_goodbye _ \<Rightarrow> ''app.connection.goodbye'' | Propose_upgrade _ \<Rightarrow> ''tunnel.upgrade.propose'' | Plain t _ _ \<Rightarrow> t)"

definition appConnectionIdFromMessage :: "agent_message \<Rightarrow> string option" where
  "appConnectionIdFromMessage m = (case am_content m of
     Handshake_init i \<Rightarrow> Some (hi_app_connection_id i) | E2e_ready_in r \<Rightarrow> Some (rp_app_connection_id r)
   | E2e_message f \<Rightarrow> Some (fr_app_connection_id f) | Propose_upgrade c \<Rightarrow> Some c | Plain _ _ c \<Rightarrow> c | _ \<Rightarrow> None)"

definition starts_with :: "string \<Rightarrow> string \<Rightarrow> bool" where
  "starts_with p s \<longleftrightarrow> take (length p) s = p"

definition isE2EBusinessMessage :: "string \<Rightarrow> bool" where
  "isE2EBusinessMessage t \<longleftrightarrow>
     list_ex (\<lambda>p. starts_with p t) [''session.'', ''terminal.'', ''workspace.'', ''files.'', ''git.'', ''codex.'', ''agent.message'',
       ''agent.surface.'', ''agent.prompt.'', ''agent.notification.'', ''app.connection.'', ''tunnel.upgrade.'']
     \<or> t = ''agent.delivery'' \<or> t = ''agent.experience'' \<or> t = ''agent.interaction''"

text \<open>What travels inside a frame; \<open>innerToMessage\<close> gives it no connection and no relay context.\<close>

record inner_message =
  in_content :: agent_content
  in_session :: "string option"
  in_surface :: "string option"
  in_body :: "byte list"

definition innerToMessage :: "inner_message \<Rightarrow> agent_message" where
  "innerToMessage i = \<lparr>am_content = in_content i, am_app_connection = None, am_session = in_session i,
     am_surface = in_surface i, am_relay_context = None, am_body = in_body i\<rparr>"

record out_message =
  om_type :: string
  om_session :: "string option"
  om_surface :: "string option"
  om_body :: "byte list"

datatype app_failure = Approval_rejected | Approval_timeout | Agent_restarted | Identity_mismatch | Invalid_signature
  | Revoked_app | Malformed_proof

record auth_ok_out =
  ak_nonce :: string
  ak_app_id :: string
  ak_agent_connection_id :: string
  ak_connection_id :: string
  ak_scopes :: "string list"
  ak_timestamp :: int
  ak_signature :: string

datatype e2e_failure = Fail_handshake | Fail_unsupported | Fail_replay | Fail_decrypt

datatype control_out = Auth_failed_out string app_failure | Auth_pending_out string string int | Auth_ok_out auth_ok_out
  | Reply_out handshake_reply | Ready_out ready_payload | E2e_failed_out string "string option" e2e_failure
  | Deliver_out string "string option" "string option" string

datatype outgoing = Control control_out | Business out_message

definition control_type :: "control_out \<Rightarrow> string" where
  "control_type c = (case c of Auth_failed_out _ _ \<Rightarrow> ''auth.failed'' | Auth_pending_out _ _ _ \<Rightarrow> ''auth.pending''
     | Auth_ok_out _ \<Rightarrow> ''auth.ok'' | Reply_out _ \<Rightarrow> ''e2e.handshake.reply'' | Ready_out _ \<Rightarrow> ''e2e.ready''
     | E2e_failed_out _ _ _ \<Rightarrow> ''e2e.failed'' | Deliver_out _ _ _ _ \<Rightarrow> ''relay.app.deliver'')"

definition outgoing_type :: "outgoing \<Rightarrow> string" where
  "outgoing_type m = (case m of Control c \<Rightarrow> control_type c | Business b \<Rightarrow> om_type b)"

section \<open>The signed fields of proofs\<close>

text \<open>\<open>canonicalJson\<close> of the App's information: its keys in order, absent ones left out.\<close>

definition json_object :: "(string \<times> string option) list \<Rightarrow> string" where
  "json_object fs = ''{'' @ comma_list (map (\<lambda>(k, v). json_string k @ '':'' @ the v) (filter (\<lambda>(k, v). v \<noteq> None) fs)) @ ''}''"

definition device_json :: "app_device_info \<Rightarrow> string" where
  "device_json d = json_object [(''name'', map_option json_string (di_name d)), (''os'', map_option json_string (di_os d)),
     (''os_version'', map_option json_string (di_os_version d)), (''platform'', map_option json_string (di_platform d)),
     (''private_network_hash'', map_option json_string (di_private_hash d))]"

definition client_json :: "app_client_info \<Rightarrow> string" where
  "client_json a = json_object [(''capabilities'', map_option json_array (ci_capabilities a)),
     (''name'', map_option json_string (ci_name a)), (''version'', map_option json_string (ci_version a))]"

definition info_json :: "app_info \<Rightarrow> string" where
  "info_json i = json_object [(''app'', map_option client_json (inf_app i)), (''device'', map_option device_json (inf_device i)),
     (''instance_id'', Some (json_string (inf_instance i))), (''runtime_id'', Some (json_string (inf_runtime i)))]"

fun text_le :: "string \<Rightarrow> string \<Rightarrow> bool" where
  "text_le [] _ = True"
| "text_le (_ # _) [] = False"
| "text_le (a # as) (b # bs) = ((of_char a :: nat) < of_char b \<or> a = b \<and> text_le as bs)"

fun insert_text :: "string \<Rightarrow> string list \<Rightarrow> string list" where
  "insert_text x [] = [x]"
| "insert_text x (y # ys) = (if text_le x y then x # y # ys else y # insert_text x ys)"

definition canonicalScopes :: "string list \<Rightarrow> string" where
  "canonicalScopes xs = comma_list (foldr insert_text xs [])"

definition int_text :: "int \<Rightarrow> string" where
  "int_text i = (if i < 0 then ''-'' @ decimal (nat (- i)) else decimal (nat i))"

definition APP_AUTH_DOMAIN :: string where "APP_AUTH_DOMAIN = ''app-auth''"
definition AGENT_AUTH_OK_DOMAIN :: string where "AGENT_AUTH_OK_DOMAIN = ''agent-auth-ok''"

definition appAuthSignatureFields :: "auth_verify \<Rightarrow> string list" where
  "appAuthSignatureFields v = [vf_nonce v, vf_connection_id v, vf_agent_connection_id v, vf_device_id v,
     vf_agent_public_key v, vf_app_id v, vf_app_public_key v, info_json (vf_app_info v),
     canonicalScopes (vf_requested_scopes v), int_text (vf_timestamp v)]"

definition agentAuthOkSignatureFields :: "string \<Rightarrow> string \<Rightarrow> auth_ok_out \<Rightarrow> string list" where
  "agentAuthOkSignatureFields device key k = [ak_nonce k, device, key, ak_app_id k, ak_agent_connection_id k,
     ak_connection_id k, canonicalScopes (ak_scopes k), int_text (ak_timestamp k)]"

section \<open>State\<close>

record agent_env =
  ge_crypto :: crypto
  ge_device :: string
  ge_public :: string
  ge_private :: string
  ge_automatic :: bool
  ge_ephemeral :: "nat \<Rightarrow> byte list \<times> byte list"
  ge_uuid :: "nat \<Rightarrow> string"
  ge_parse :: "byte list \<Rightarrow> inner_message option"
  ge_valid :: "agent_message \<Rightarrow> bool"
  ge_write :: "out_message \<Rightarrow> byte list"
  ge_size :: "agent_message \<Rightarrow> nat"
  ge_out_size :: "out_message \<Rightarrow> nat"

record e2e_peer =
  ep_app_connection :: string
  ep_session :: e2e_session
  ep_ready :: bool

record pairing_request =
  pq_request_id :: string
  pq_app_id :: string
  pq_public_key :: string
  pq_app_info :: app_info
  pq_app_name :: "string option"
  pq_device_name :: "string option"
  pq_platform :: "string option"
  pq_os :: "string option"
  pq_os_version :: "string option"
  pq_remote_ip :: "string option"
  pq_ip_source :: "ip_source option"
  pq_scopes :: "string list"
  pq_connection_id :: string
  pq_created_at :: int
  pq_expires_at :: int

record pending_pairing =
  pp_request :: pairing_request
  pp_payload :: auth_verify

record agent_context =
  cx_app :: string
  cx_trusted :: bool

datatype handler = Session_list | Session_create | Session_close | Session_rename | Session_kill | Stop_stream | Session_attach
  | Workspace_list | Files_list | Files_read | Files_write | Git_status | Git_diff | Git_action | Git_worktree
  | Terminal_input | Terminal_resize | Terminal_snapshot | Stream_start | Stream_stop
  | Message_list | Message_read | Message_ack | Message_delivered | Prompt_submit | Surface_sync | Delivery | Experience
  | Interaction | Settings_get | Settings_set | Upgrade_propose | Upgrade_offer | Upgrade_answer | Upgrade_candidate
  | Upgrade_committed | Upgrade_downgrade

datatype agent_effect = Sent outgoing | Sent_frame e2e_frame "string option" bool
  | Handled handler agent_message "agent_context option" | Superseded string

record gateway =
  gw_now :: int
  gw_transport :: bool
  gw_agent_connection :: "string option"
  gw_key_count :: nat
  gw_uuid_count :: nat
  gw_registry :: registry
  gw_trusted :: trusted_store
  gw_peers :: "(string, e2e_peer) jmap"
  gw_apps :: "(string, string) jmap"
  gw_replay :: replay_cache
  gw_pending :: "(string, pending_pairing) jmap"
  gw_effects :: "agent_effect list"
  gw_stuck :: bool

definition did :: "agent_effect \<Rightarrow> gateway \<Rightarrow> gateway" where
  "did e s = s\<lparr>gw_effects := gw_effects s @ [e]\<rparr>"

definition on_registry :: "(registry \<Rightarrow> registry) \<Rightarrow> gateway \<Rightarrow> gateway" where
  "on_registry f s = s\<lparr>gw_registry := f (gw_registry s)\<rparr>"

section \<open>Sending\<close>

text \<open>The flag tells that \<open>encrypt\<close> threw, which also ends a broadcast.\<close>

definition sendToAppByConnectionId :: "agent_env \<Rightarrow> string \<Rightarrow> out_message \<Rightarrow> string option \<Rightarrow> bool \<Rightarrow> gateway \<Rightarrow> bool \<times> gateway" where
  "sendToAppByConnectionId E c m channel bypass s =
     (if \<not> gw_transport s \<or> \<not> hasAuthenticatedConnection c (gw_registry s) then (False, s)
      else case jget (gw_peers s) c of
             None \<Rightarrow> (False, s)
           | Some p \<Rightarrow> if \<not> ep_ready p then (False, s)
               else (case encrypt (ge_crypto E) (ge_write E) m (ep_session p) of (r, session) \<Rightarrow>
                 (let s = s\<lparr>gw_peers := jput c (p\<lparr>ep_session := session\<rparr>) (gw_peers s)\<rparr>
                  in case r of
                       Inl _ \<Rightarrow> (True, s)
                     | Inr frame \<Rightarrow> (False, did (Sent_frame frame channel bypass)
                         (on_registry (recordMessage c Flow_out True (ge_out_size E m) (gw_now s)) s)))))"

fun broadcast :: "agent_env \<Rightarrow> out_message \<Rightarrow> string list \<Rightarrow> gateway \<Rightarrow> bool \<times> gateway" where
  "broadcast E m [] s = (False, s)"
| "broadcast E m (c # cs) s = (case sendToAppByConnectionId E c m None False s of
     (True, s) \<Rightarrow> (True, s) | (False, s) \<Rightarrow> broadcast E m cs s)"

definition ready_peers :: "gateway \<Rightarrow> string list" where
  "ready_peers s = map (ep_app_connection \<circ> snd) (filter (\<lambda>(k, p). ep_ready p) (gw_peers s))"

definition broadcastToReadyApps :: "agent_env \<Rightarrow> out_message \<Rightarrow> gateway \<Rightarrow> gateway" where
  "broadcastToReadyApps E m s = snd (broadcast E m (ready_peers s) s)"

definition send_out :: "agent_env \<Rightarrow> outgoing \<Rightarrow> gateway \<Rightarrow> gateway" where
  "send_out E m s =
     (if \<not> gw_transport s then s
      else if isE2EBusinessMessage (outgoing_type m) then (case m of Business b \<Rightarrow> broadcastToReadyApps E b s | Control _ \<Rightarrow> s)
      else did (Sent m) s)"

definition sendToApp :: "agent_env \<Rightarrow> agent_context option \<Rightarrow> out_message \<Rightarrow> gateway \<Rightarrow> gateway" where
  "sendToApp E ctx m s = (case ctx of None \<Rightarrow> s | Some x \<Rightarrow> snd (sendToAppByConnectionId E (cx_app x) m None False s))"

definition requestRelayAppDelivery :: "agent_env \<Rightarrow> string \<Rightarrow> string option \<Rightarrow> string option \<Rightarrow> string \<Rightarrow> gateway \<Rightarrow> gateway" where
  "requestRelayAppDelivery E ctx session surface detail s =
     (if gw_transport s then did (Sent (Control (Deliver_out ctx session surface detail))) s else s)"

definition sendAuthFailure :: "agent_env \<Rightarrow> string \<Rightarrow> app_failure \<Rightarrow> gateway \<Rightarrow> gateway" where
  "sendAuthFailure E c r = send_out E (Control (Auth_failed_out c r))"

definition detachSupersededAppConnection :: "string \<Rightarrow> gateway \<Rightarrow> gateway" where
  "detachSupersededAppConnection c s = did (Superseded c) (s\<lparr>gw_apps := jdel c (gw_apps s), gw_peers := jdel c (gw_peers s)\<rparr>)"

definition hasReadyE2EPeer :: "string \<Rightarrow> gateway \<Rightarrow> bool" where
  "hasReadyE2EPeer c s = (case jget (gw_peers s) c of None \<Rightarrow> False | Some p \<Rightarrow> ep_ready p)"

end
