(* ===== verification/AppSession.thy ===== *)
theory AppSession
  imports AgentGateway
begin

text \<open>
  The App's end of the link (\<open>app/src/lib/relay-client/mobileRelaySession.ts\<close>, over \<open>packages/relay-client/src/index.ts\<close>):
  it proves itself to the Agent, opens the encrypted session and exchanges business messages. Handlers of
  the code that wait (\<open>await\<close>) are cut there: what they will do next is a task in \<open>ms_tasks\<close>, resumed by an
  event of its own, so that other messages can come between. What the session does outside is the list
  \<open>ms_effects\<close>: messages given to the socket or to a peer channel, messages given to the App's
  handlers, and the closing of the socket.
\<close>

declare map_of_eq_Some_iff [simp del] Some_eq_map_of_iff [simp del]

section \<open>Messages and state\<close>

record app_challenge =
  ch_nonce :: string
  ch_connection_id :: string
  ch_agent_connection_id :: string
  ch_agent_public_key :: string

record auth_ok_in =
  oi_device_id :: string
  oi_agent_public_key :: string
  oi_ok :: auth_ok_out

text \<open>What the handlers of the code read of a message; \<open>Ct_other c\<close> is a message without a handler, whose payload names the connection \<open>c\<close>.\<close>

datatype app_content = Ct_challenge app_challenge | Ct_auth_ok auth_ok_in | Ct_reply handshake_reply | Ct_ready ready_payload
  | Ct_frame e2e_frame | Ct_failed string | Ct_other "string option"

record app_incoming =
  ai_message :: out_message
  ai_content :: app_content

datatype app_out = Out_connect | Out_proof auth_verify | Out_init handshake_init | Out_ready ready_payload
  | Out_frame e2e_frame | Out_plain out_message

datatype app_effect = To_relay app_out | To_peer app_out | To_handlers out_message | Business_ready | Socket_close nat string

text \<open>Where an \<open>await\<close> will continue: with the App's information, with the signature of a proof, with the signed init.\<close>

datatype app_task = Wait_info app_challenge | Wait_proof auth_verify | Wait_handshake "e2e_error + initiator_state" out_message

datatype connect_stage = Not_started | Opening | Loading_identity | Loading_info | Started | Start_failed

record app_env =
  ae_crypto :: crypto
  ae_device :: string
  ae_app_id :: string
  ae_app_key :: string
  ae_sign :: "string \<Rightarrow> string list \<Rightarrow> string option"
  ae_info :: app_info
  ae_random :: "nat \<Rightarrow> byte list"
  ae_ephemeral :: "nat \<Rightarrow> byte list \<times> byte list"
  ae_write :: "out_message \<Rightarrow> byte list"
  ae_parse :: "byte list \<Rightarrow> out_message option"
  ae_valid :: "out_message \<Rightarrow> bool"
  ae_lifecycle :: "nat \<Rightarrow> conn_path \<Rightarrow> byte list"

record mobile_session =
  ms_closed :: bool
  ms_socket_open :: bool
  ms_stage :: connect_stage
  ms_identity :: bool
  ms_agent_key :: "string option"
  ms_nonce :: "string option"
  ms_auth_connection :: "string option"
  ms_auth_agent :: "string option"
  ms_connection :: "string option"
  ms_handshake :: "initiator_state option"
  ms_session :: "e2e_session option"
  ms_peer_ready :: bool
  ms_seq :: nat
  ms_path :: conn_path
  ms_timer :: bool
  ms_pending :: "out_message list"
  ms_tasks :: "app_task list"
  ms_count :: nat
  ms_now :: int
  ms_effects :: "app_effect list"

definition new_session_of :: "int \<Rightarrow> mobile_session" where
  "new_session_of t = \<lparr>ms_closed = False, ms_socket_open = False, ms_stage = Not_started, ms_identity = False, ms_agent_key = None,
     ms_nonce = None, ms_auth_connection = None, ms_auth_agent = None, ms_connection = None, ms_handshake = None,
     ms_session = None, ms_peer_ready = False, ms_seq = 0, ms_path = On_relay, ms_timer = False, ms_pending = [],
     ms_tasks = [], ms_count = 0, ms_now = t, ms_effects = []\<rparr>"

definition happened :: "app_effect \<Rightarrow> mobile_session \<Rightarrow> mobile_session" where
  "happened x s = s\<lparr>ms_effects := ms_effects s @ [x]\<rparr>"

definition clearSession :: "mobile_session \<Rightarrow> mobile_session" where
  "clearSession s = s\<lparr>ms_closed := True, ms_timer := False, ms_nonce := None, ms_auth_connection := None, ms_auth_agent := None,
     ms_agent_key := None, ms_connection := None, ms_handshake := None, ms_session := None, ms_peer_ready := False, ms_pending := []\<rparr>"

text \<open>The client's \<open>close\<close>: it forgets its socket, open or still opening.\<close>

definition client_close :: "nat \<Rightarrow> string \<Rightarrow> mobile_session \<Rightarrow> mobile_session" where
  "client_close code reason s = (if ms_socket_open s \<or> ms_stage s = Opening
     then happened (Socket_close code reason) (s\<lparr>ms_socket_open := False\<rparr>) else s)"

section \<open>Sending\<close>

text \<open>In what follows the flag tells that the call threw.\<close>

definition client_send :: "app_out \<Rightarrow> mobile_session \<Rightarrow> bool \<times> mobile_session" where
  "client_send x s = (if ms_socket_open s then (False, happened (To_relay x) s) else (True, s))"

text \<open>\<open>None\<close> in the middle is the result \<open>null\<close> of the code.\<close>

definition encodeOutgoingMessage :: "app_env \<Rightarrow> out_message \<Rightarrow> bool \<Rightarrow> mobile_session \<Rightarrow> bool \<times> app_out option \<times> mobile_session" where
  "encodeOutgoingMessage E m queue s =
     (if isE2EBusinessMessage (om_type m)
      then (case (if ms_peer_ready s then ms_session s else None) of
          None \<Rightarrow> (False, None, if queue then s\<lparr>ms_pending := ms_pending s @ [m]\<rparr> else s)
        | Some session \<Rightarrow> (case encrypt (ae_crypto E) (ae_write E) m session of
              (Inl _, session) \<Rightarrow> (True, None, s\<lparr>ms_session := Some session\<rparr>)
            | (Inr frame, session) \<Rightarrow> (False, Some (Out_frame frame), s\<lparr>ms_session := Some session\<rparr>)))
      else (False, Some (Out_plain m), s))"

definition send_app :: "app_env \<Rightarrow> out_message \<Rightarrow> mobile_session \<Rightarrow> bool \<times> mobile_session" where
  "send_app E m s = (if ms_closed s then (True, s)
     else case encodeOutgoingMessage E m True s of
            (True, _, s) \<Rightarrow> (True, s)
          | (False, None, s) \<Rightarrow> (False, s)
          | (False, Some x, s) \<Rightarrow> client_send x s)"

definition encodeForP2p :: "app_env \<Rightarrow> out_message \<Rightarrow> mobile_session \<Rightarrow> mobile_session" where
  "encodeForP2p E m s = (if ms_closed s then s
     else case encodeOutgoingMessage E m False s of
            (False, Some x, s) \<Rightarrow> happened (To_peer x) s
          | (_, _, s) \<Rightarrow> s)"

fun flush_pending :: "app_env \<Rightarrow> out_message list \<Rightarrow> mobile_session \<Rightarrow> bool \<times> mobile_session" where
  "flush_pending E [] s = (False, s)"
| "flush_pending E (m # ms) s = (case send_app E m s of (True, s) \<Rightarrow> (True, s) | (False, s) \<Rightarrow> flush_pending E ms s)"

definition flushPendingBusinessMessages :: "app_env \<Rightarrow> mobile_session \<Rightarrow> bool \<times> mobile_session" where
  "flushPendingBusinessMessages E s = flush_pending E (ms_pending s) (s\<lparr>ms_pending := []\<rparr>)"

definition lifecycle_message :: "app_env \<Rightarrow> string \<Rightarrow> mobile_session \<Rightarrow> out_message" where
  "lifecycle_message E ty s = \<lparr>om_type = ty, om_session = None, om_surface = None, om_body = ae_lifecycle E (ms_seq s) (ms_path s)\<rparr>"

text \<open>Heartbeats and goodbyes: an exception is swallowed.\<close>

definition send_lifecycle :: "app_env \<Rightarrow> string \<Rightarrow> mobile_session \<Rightarrow> mobile_session" where
  "send_lifecycle E ty s = (let s = s\<lparr>ms_seq := ms_seq s + 1\<rparr> in snd (send_app E (lifecycle_message E ty s) s))"

definition dispatch_app :: "out_message \<Rightarrow> mobile_session \<Rightarrow> mobile_session" where
  "dispatch_app m s = (if ms_closed s then s else happened (To_handlers m) s)"

section \<open>Connecting\<close>

definition connect_fails :: "mobile_session \<Rightarrow> mobile_session" where
  "connect_fails s = s\<lparr>ms_stage := Start_failed\<rparr>"

definition connect_app :: "mobile_session \<Rightarrow> mobile_session" where
  "connect_app s = (if ms_stage s \<noteq> Not_started then s else if ms_closed s then connect_fails s else s\<lparr>ms_stage := Opening\<rparr>)"

text \<open>The next \<open>await\<close> of \<open>connect\<close> comes back, with success or not.\<close>

definition connect_continues :: "bool \<Rightarrow> mobile_session \<Rightarrow> mobile_session" where
  "connect_continues ok s = (case ms_stage s of
     Opening \<Rightarrow> if \<not> ok then connect_fails s
       else if ms_closed s then connect_fails s else s\<lparr>ms_socket_open := True, ms_stage := Loading_identity\<rparr>
   | Loading_identity \<Rightarrow> if \<not> ok then connect_fails s
       else (let s = s\<lparr>ms_identity := True\<rparr> in if ms_closed s then connect_fails s else s\<lparr>ms_stage := Loading_info\<rparr>)
   | Loading_info \<Rightarrow> if \<not> ok \<or> ms_closed s then connect_fails s
       else (case client_send Out_connect s of (True, s) \<Rightarrow> connect_fails s | (False, s) \<Rightarrow> s\<lparr>ms_stage := Started\<rparr>)
   | _ \<Rightarrow> s)"

section \<open>Proving itself\<close>

definition wait_for :: "app_task \<Rightarrow> mobile_session \<Rightarrow> mobile_session" where
  "wait_for t s = s\<lparr>ms_tasks := ms_tasks s @ [t]\<rparr>"

definition handleAuthChallenge :: "app_env \<Rightarrow> app_challenge \<Rightarrow> mobile_session \<Rightarrow> bool \<times> mobile_session" where
  "handleAuthChallenge E c s =
     (if \<not> identityMatchesPublicKey (ae_crypto E) Id_agent (ae_device E) (ch_agent_public_key c)
         \<or> ms_agent_key s \<noteq> None \<and> ms_agent_key s \<noteq> Some (ch_agent_public_key c)
      then (True, s)
      else let s = s\<lparr>ms_agent_key := Some (ch_agent_public_key c)\<rparr>
           in if \<not> ms_identity s then (True, s) else (False, wait_for (Wait_info c) s))"

definition proof_for :: "app_env \<Rightarrow> app_challenge \<Rightarrow> int \<Rightarrow> auth_verify" where
  "proof_for E c t = \<lparr>vf_nonce = ch_nonce c, vf_connection_id = ch_connection_id c, vf_agent_connection_id = ch_agent_connection_id c,
     vf_device_id = ae_device E, vf_agent_public_key = ch_agent_public_key c, vf_app_id = ae_app_id E, vf_app_public_key = ae_app_key E,
     vf_app_info = ae_info E, vf_requested_scopes = [''device.control''], vf_timestamp = t, vf_signature = [], vf_observations = []\<rparr>"

definition send_proof :: "app_env \<Rightarrow> auth_verify \<Rightarrow> mobile_session \<Rightarrow> bool \<times> mobile_session" where
  "send_proof E v s = (case ae_sign E APP_AUTH_DOMAIN (appAuthSignatureFields v) of
     None \<Rightarrow> (True, s)
   | Some sig \<Rightarrow> if ms_closed s then (False, s)
       else client_send (Out_proof (v\<lparr>vf_signature := sig\<rparr>))
         (s\<lparr>ms_nonce := Some (vf_nonce v), ms_auth_connection := Some (vf_connection_id v),
            ms_auth_agent := Some (vf_agent_connection_id v)\<rparr>))"

definition app_context :: "app_env \<Rightarrow> string \<Rightarrow> string \<Rightarrow> string \<Rightarrow> handshake_context" where
  "app_context E key a c = \<lparr>hc_device_id = ae_device E, hc_agent_public_key = key, hc_app_id = ae_app_id E,
     hc_app_public_key = ae_app_key E, hc_agent_connection_id = a, hc_app_connection_id = c, hc_handshake_id = None\<rparr>"

definition ok_matches_app :: "app_env \<Rightarrow> auth_ok_in \<Rightarrow> mobile_session \<Rightarrow> bool" where
  "ok_matches_app E p s \<longleftrightarrow> filled (ms_nonce s) \<and> filled (ms_agent_key s) \<and> Some (ak_nonce (oi_ok p)) = ms_nonce s
     \<and> oi_device_id p = ae_device E \<and> Some (oi_agent_public_key p) = ms_agent_key s \<and> ak_app_id (oi_ok p) = ae_app_id E
     \<and> Some (ak_connection_id (oi_ok p)) = ms_auth_connection s \<and> Some (ak_agent_connection_id (oi_ok p)) = ms_auth_agent s"

definition handleAuthOk :: "app_env \<Rightarrow> auth_ok_in \<Rightarrow> out_message \<Rightarrow> mobile_session \<Rightarrow> bool \<times> mobile_session" where
  "handleAuthOk E p raw s =
     (if \<not> ms_identity s \<or> \<not> ok_matches_app E p s then (True, s)
      else if \<not> verifyIdentityFields (ae_crypto E) (oi_agent_public_key p) AGENT_AUTH_OK_DOMAIN
          (agentAuthOkSignatureFields (oi_device_id p) (oi_agent_public_key p) (oi_ok p)) (ak_signature (oi_ok p))
      then (True, s)
      else let s = s\<lparr>ms_nonce := None, ms_auth_connection := None, ms_auth_agent := None,
             ms_connection := Some (ak_connection_id (oi_ok p)), ms_count := ms_count s + 1\<rparr>
           in (False, wait_for (Wait_handshake (createInitiatorHandshake (ae_crypto E)
                (app_context E (oi_agent_public_key p) (ak_agent_connection_id (oi_ok p)) (ak_connection_id (oi_ok p)))
                (ae_random E (ms_count s)) (ae_ephemeral E (ms_count s)) (ae_sign E E2E_INIT_DOMAIN)) raw) s))"

text \<open>The rest of \<open>handleAuthOk\<close> and the dispatch that follows it.\<close>

definition send_init :: "initiator_state \<Rightarrow> out_message \<Rightarrow> mobile_session \<Rightarrow> bool \<times> mobile_session" where
  "send_init st raw s = (if ms_closed s then (False, s)
     else case client_send (Out_init (is_init st)) (s\<lparr>ms_handshake := Some st\<rparr>) of
            (True, s) \<Rightarrow> (True, s)
          | (False, s) \<Rightarrow> (False, dispatch_app raw s))"

section \<open>The encrypted session\<close>

definition handleE2EHandshakeReply :: "app_env \<Rightarrow> handshake_reply \<Rightarrow> mobile_session \<Rightarrow> bool \<times> mobile_session" where
  "handleE2EHandshakeReply E r s = (case ms_handshake s of
     None \<Rightarrow> (False, s)
   | Some st \<Rightarrow> (case complete (ae_crypto E) st r of
        Inl _ \<Rightarrow> (True, s)
      | Inr session \<Rightarrow> client_send (Out_ready (readyPayload session)) (s\<lparr>ms_session := Some session, ms_handshake := None\<rparr>)))"

definition app_ready :: "app_env \<Rightarrow> ready_payload \<Rightarrow> mobile_session \<Rightarrow> bool \<times> mobile_session" where
  "app_ready E r s = (case ms_session s of
     None \<Rightarrow> (True, s)
   | Some session \<Rightarrow>
      (if Some (rp_app_connection_id r) \<noteq> ms_connection s \<or> rp_handshake_id r \<noteq> se_handshake_id session
          \<or> rp_transcript_hash r \<noteq> se_transcript_hash session
       then (True, s)
       else if ms_peer_ready s then (False, s)
       else flushPendingBusinessMessages E (happened Business_ready (s\<lparr>ms_peer_ready := True, ms_timer := True\<rparr>))))"

definition app_frame :: "app_env \<Rightarrow> e2e_frame \<Rightarrow> mobile_session \<Rightarrow> bool \<times> mobile_session" where
  "app_frame E f s = (case ms_session s of
     None \<Rightarrow> (False, s)
   | Some session \<Rightarrow>
      (if \<not> ms_peer_ready s \<or> Some (fr_app_connection_id f) \<noteq> ms_connection s then (False, s)
       else case decrypt (ae_crypto E) (ae_parse E) f session of
              (Inl _, session) \<Rightarrow> (True, s\<lparr>ms_session := Some session\<rparr>)
            | (Inr m, session) \<Rightarrow> (False, (if ae_valid E m then dispatch_app m else id) (s\<lparr>ms_session := Some session\<rparr>))))"

definition dispatchRelayUpgradeControl :: "string option \<Rightarrow> out_message \<Rightarrow> mobile_session \<Rightarrow> mobile_session" where
  "dispatchRelayUpgradeControl c m s = (if filled (ms_connection s) \<and> c = ms_connection s then dispatch_app m s else s)"

section \<open>Incoming messages\<close>

text \<open>A message with the content \<open>Ct_auth_ok\<close> has the type \<open>auth.ok\<close>; only there the type is handed on.\<close>

definition handleMessage_app :: "app_env \<Rightarrow> app_incoming \<Rightarrow> mobile_session \<Rightarrow> bool \<times> mobile_session" where
  "handleMessage_app E i s = (case ai_content i of
     Ct_challenge c \<Rightarrow> handleAuthChallenge E c s
   | Ct_auth_ok p \<Rightarrow> handleAuthOk E p ((ai_message i)\<lparr>om_type := ''auth.ok''\<rparr>) s
   | Ct_reply r \<Rightarrow> handleE2EHandshakeReply E r s
   | Ct_ready r \<Rightarrow> app_ready E r s
   | Ct_frame f \<Rightarrow> app_frame E f s
   | Ct_failed c \<Rightarrow> (Some c = ms_connection s, s)
   | Ct_other c \<Rightarrow>
      (if om_type (ai_message i) = ''tunnel.upgrade.propose'' \<or> om_type (ai_message i) = ''tunnel.upgrade.downgrade''
       then (False, dispatchRelayUpgradeControl c (ai_message i) s)
       else if isE2EBusinessMessage (om_type (ai_message i)) then (False, s)
       else (False, dispatch_app (ai_message i) s)))"

text \<open>The handler of a rejection; all the messages that can be rejected are of the secure kinds.\<close>

definition rejected :: "bool \<times> mobile_session \<Rightarrow> mobile_session" where
  "rejected x = (case x of (threw, s) \<Rightarrow>
     if \<not> threw \<or> ms_closed s then s else client_close 1008 ''secure_protocol_validation_failed'' (clearSession s))"

definition handleIncomingMessage :: "app_env \<Rightarrow> app_incoming \<Rightarrow> mobile_session \<Rightarrow> mobile_session" where
  "handleIncomingMessage E i s = (if ms_closed s then s else rejected (handleMessage_app E i s))"

definition resume :: "app_env \<Rightarrow> nat \<Rightarrow> bool \<Rightarrow> mobile_session \<Rightarrow> mobile_session" where
  "resume E n ok s = (if n \<ge> length (ms_tasks s) then s
     else let t = ms_tasks s ! n; s = s\<lparr>ms_tasks := take n (ms_tasks s) @ drop (Suc n) (ms_tasks s)\<rparr>
          in rejected (if \<not> ok then (True, s)
             else case t of
                    Wait_info c \<Rightarrow> (False, if ms_closed s then s else wait_for (Wait_proof (proof_for E c (ms_now s))) s)
                  | Wait_proof v \<Rightarrow> send_proof E v s
                  | Wait_handshake (Inl _) _ \<Rightarrow> (True, s)
                  | Wait_handshake (Inr st) raw \<Rightarrow> send_init st raw s))"

definition close_app :: "app_env \<Rightarrow> mobile_session \<Rightarrow> mobile_session" where
  "close_app E s = (if ms_closed s then s
     else client_close 1000 ''client closing'' (clearSession
       (if ms_peer_ready s then send_lifecycle E ''app.connection.goodbye'' s else s)))"

section \<open>The machine\<close>

datatype app_event = Connect_call | Connect_back bool | Received app_incoming | Resumed nat bool | Send_call out_message
  | Send_peer out_message | Close_call | Socket_closed | Undecodable bool | Heartbeat_timer | Path_call conn_path | Later nat

definition app_step :: "app_env \<Rightarrow> app_event \<Rightarrow> mobile_session \<Rightarrow> mobile_session" where
  "app_step E e s = (case e of
     Connect_call \<Rightarrow> connect_app s
   | Connect_back ok \<Rightarrow> connect_continues ok s
   | Received i \<Rightarrow> handleIncomingMessage E i s
   | Resumed n ok \<Rightarrow> resume E n ok s
   | Send_call m \<Rightarrow> snd (send_app E m s)
   | Send_peer m \<Rightarrow> encodeForP2p E m s
   | Close_call \<Rightarrow> close_app E s
   | Socket_closed \<Rightarrow> clearSession (s\<lparr>ms_socket_open := False\<rparr>)
   | Undecodable json \<Rightarrow> if ms_socket_open s then client_close 1003 (if json then ''invalid protocol message'' else ''invalid json'') s else s
   | Heartbeat_timer \<Rightarrow> if ms_timer s then send_lifecycle E ''app.connection.heartbeat'' s else s
   | Path_call x \<Rightarrow> s\<lparr>ms_path := x\<rparr>
   | Later n \<Rightarrow> s\<lparr>ms_now := ms_now s + int n\<rparr>)"

definition app_run :: "app_env \<Rightarrow> int \<Rightarrow> app_event list \<Rightarrow> mobile_session" where
  "app_run E t es = fold (app_step E) es (new_session_of t)"

end
