(* ===== verification/AppSafety.thy ===== *)
theory AppSafety
  imports AppSession E2EProperties
begin

text \<open>
  What the App's session guarantees: business travels only in frames of a session with the Agent it was paired
  with, in both directions, and a session that has closed stays closed and silent.
\<close>

declare map_of_eq_Some_iff [simp del] Some_eq_map_of_iff [simp del]

section \<open>The invariant\<close>

text \<open>A handshake with the paired Agent: its context names the device of the pairing, and the key in it derives that device's id.\<close>

definition paired_handshake :: "app_env \<Rightarrow> initiator_state \<Rightarrow> bool" where
  "paired_handshake E st \<longleftrightarrow> hc_device_id (is_context st) = ae_device E \<and> hc_app_id (is_context st) = ae_app_id E
     \<and> identityMatchesPublicKey (ae_crypto E) Id_agent (ae_device E) (hc_agent_public_key (is_context st))"

definition keys_of :: "e2e_session \<Rightarrow> e2e_session" where
  "keys_of x = x\<lparr>se_tx_seq := 0, se_expected := 0\<rparr>"

definition paired_session :: "app_env \<Rightarrow> e2e_session \<Rightarrow> bool" where
  "paired_session E x \<longleftrightarrow> (\<exists>st r y. paired_handshake E st \<and> complete (ae_crypto E) st r = Inr y \<and> keys_of x = keys_of y)"

lemma keys_of_same [simp]: "keys_of (x\<lparr>se_tx_seq := n\<rparr>) = keys_of x" "keys_of (x\<lparr>se_expected := n\<rparr>) = keys_of x"
  by (simp_all add: keys_of_def)

lemma keys_of_fields: "keys_of x = keys_of y \<Longrightarrow> se_tx_key x = se_tx_key y \<and> se_rx_key x = se_rx_key y \<and> se_session_id x = se_session_id y"
  unfolding keys_of_def by (metis e2e_session.select_convs(3,6,7) e2e_session.surjective e2e_session.update_convs(8,9))

definition sealed_frame :: "app_env \<Rightarrow> e2e_frame \<Rightarrow> bool" where
  "sealed_frame E f \<longleftrightarrow> (\<exists>x m nonce aad. paired_session E x \<and> fr_session_id f = se_session_id x
     \<and> fr_ciphertext f = toBase64Url (cr_seal (ae_crypto E) (se_tx_key x) nonce aad (ae_write E m)))"

definition unsealed_message :: "app_env \<Rightarrow> out_message \<Rightarrow> bool" where
  "unsealed_message E m \<longleftrightarrow> (\<exists>x f. paired_session E x \<and> fr_session_id f = se_session_id x
     \<and> open_frame (ae_crypto E) (ae_parse E) f x = Some m)"

definition upgrade_control :: "out_message \<Rightarrow> bool" where
  "upgrade_control m \<longleftrightarrow> om_type m = ''tunnel.upgrade.propose'' \<or> om_type m = ''tunnel.upgrade.downgrade''"

fun out_ok :: "app_env \<Rightarrow> app_out \<Rightarrow> bool" where
  "out_ok E (Out_plain m) = (\<not> isE2EBusinessMessage (om_type m))"
| "out_ok E (Out_frame f) = sealed_frame E f"
| "out_ok E (Out_proof v) = (vf_device_id v = ae_device E \<and> identityMatchesPublicKey (ae_crypto E) Id_agent (ae_device E) (vf_agent_public_key v))"
| "out_ok E x = True"

definition app_effect_ok :: "app_env \<Rightarrow> app_effect \<Rightarrow> bool" where
  "app_effect_ok E e \<longleftrightarrow> (case e of
     To_relay x \<Rightarrow> out_ok E x | To_peer x \<Rightarrow> out_ok E x
   | To_handlers m \<Rightarrow> unsealed_message E m \<or> upgrade_control m \<or> \<not> isE2EBusinessMessage (om_type m)
   | _ \<Rightarrow> True)"

definition task_ok :: "app_env \<Rightarrow> app_task \<Rightarrow> bool" where
  "task_ok E t \<longleftrightarrow> (case t of
     Wait_info c \<Rightarrow> identityMatchesPublicKey (ae_crypto E) Id_agent (ae_device E) (ch_agent_public_key c)
   | Wait_proof v \<Rightarrow> out_ok E (Out_proof v)
   | Wait_handshake r raw \<Rightarrow> (case r of Inl _ \<Rightarrow> True | Inr st \<Rightarrow> paired_handshake E st) \<and> om_type raw = ''auth.ok'')"

definition cleared :: "mobile_session \<Rightarrow> bool" where
  "cleared s \<longleftrightarrow> ms_timer s = False \<and> ms_nonce s = None \<and> ms_agent_key s = None \<and> ms_connection s = None \<and> ms_handshake s = None
     \<and> ms_session s = None \<and> \<not> ms_peer_ready s \<and> ms_pending s = []"

definition app_inv :: "app_env \<Rightarrow> mobile_session \<Rightarrow> bool" where
  "app_inv E s \<longleftrightarrow> list_all (app_effect_ok E) (ms_effects s) \<and> list_all (task_ok E) (ms_tasks s)
     \<and> (case ms_agent_key s of None \<Rightarrow> True | Some k \<Rightarrow> identityMatchesPublicKey (ae_crypto E) Id_agent (ae_device E) k)
     \<and> (case ms_handshake s of None \<Rightarrow> True | Some st \<Rightarrow> paired_handshake E st)
     \<and> (case ms_session s of None \<Rightarrow> True | Some x \<Rightarrow> paired_session E x)"

lemma inv_happened: "app_inv E s \<Longrightarrow> app_effect_ok E x \<Longrightarrow> app_inv E (happened x s)"
  by (simp add: app_inv_def happened_def)

lemma inv_clear: "app_inv E s \<Longrightarrow> app_inv E (clearSession s)"
  by (simp add: app_inv_def clearSession_def)

lemma inv_client_close: "app_inv E s \<Longrightarrow> app_inv E (client_close code r s)"
  by (simp add: app_inv_def happened_def client_close_def app_effect_ok_def)

lemma inv_client_send: "app_inv E s \<Longrightarrow> out_ok E x \<Longrightarrow> app_inv E (snd (client_send x s))"
  by (simp add: client_send_def inv_happened app_effect_ok_def)

lemma inv_dispatch: "app_inv E s \<Longrightarrow> app_effect_ok E (To_handlers m) \<Longrightarrow> app_inv E (dispatch_app m s)"
  by (simp add: dispatch_app_def inv_happened)

lemma inv_pending: "app_inv E s \<Longrightarrow> app_inv E (s\<lparr>ms_pending := x\<rparr>)"
  by (simp add: app_inv_def)

lemma inv_wait: "app_inv E s \<Longrightarrow> task_ok E t \<Longrightarrow> app_inv E (wait_for t s)"
  by (simp add: app_inv_def wait_for_def)

lemma paired_same: "paired_session E x \<Longrightarrow> keys_of y = keys_of x \<Longrightarrow> paired_session E y"
  by (auto simp: paired_session_def)

lemma inv_encode:
  assumes "app_inv E s" "encodeOutgoingMessage E m q s = (b, x, t)"
  shows "app_inv E t \<and> (\<forall>y. x = Some y \<longrightarrow> out_ok E y)"
proof (cases "isE2EBusinessMessage (om_type m) \<and> ms_peer_ready s \<and> ms_session s \<noteq> None")
  case False
  then show ?thesis using assms by (auto simp: encodeOutgoingMessage_def inv_pending split: if_splits option.splits)
next
  case True
  then obtain session where s: "ms_session s = Some session" by blast
  then have p: "paired_session E session" using assms(1) by (simp add: app_inv_def)
  have upd: "app_inv E (s\<lparr>ms_session := Some y\<rparr>)" if "paired_session E y" for y
    using assms(1) that by (simp add: app_inv_def)
  show ?thesis
  proof (cases rule: encrypt_cases[of "ae_crypto E" "ae_write E" m session])
    case spent
    then have "t = s\<lparr>ms_session := Some (session\<lparr>se_tx_seq := MAX_SAFE_INTEGER + 1\<rparr>)\<rparr> \<and> x = None"
      using assms(2) True s by (simp add: encodeOutgoingMessage_def)
    then show ?thesis using upd paired_same[OF p] by simp
  next
    case (sealed n)
    then have t: "t = s\<lparr>ms_session := Some (session\<lparr>se_tx_seq := se_tx_seq session + 1\<rparr>)\<rparr>"
      and x: "x = Some (Out_frame \<lparr>fr_app_connection_id = se_app_connection_id session, fr_session_id = se_session_id session,
        fr_seq = se_tx_seq session + 1, fr_ciphertext = toBase64Url (cr_seal (ae_crypto E) (se_tx_key session) n
          (messageAad session (se_tx_seq session + 1) Tx) (ae_write E m))\<rparr>)"
      using assms(2) True s by (simp_all add: encodeOutgoingMessage_def)
    have "sealed_frame E \<lparr>fr_app_connection_id = se_app_connection_id session, fr_session_id = se_session_id session,
        fr_seq = se_tx_seq session + 1, fr_ciphertext = toBase64Url (cr_seal (ae_crypto E) (se_tx_key session) n
          (messageAad session (se_tx_seq session + 1) Tx) (ae_write E m))\<rparr>"
      unfolding sealed_frame_def using p by (intro exI[of _ session] exI[of _ m] exI[of _ n] exI conjI) simp_all
    then show ?thesis using upd paired_same[OF p] t x by simp
  qed
qed

lemma inv_send_app: "app_inv E s \<Longrightarrow> app_inv E (snd (send_app E m s))"
proof -
  assume s: "app_inv E s"
  obtain b x t where e: "encodeOutgoingMessage E m True s = (b, x, t)" by (cases "encodeOutgoingMessage E m True s") auto
  from inv_encode[OF s e] s show ?thesis
    by (cases b; cases x) (auto simp: send_app_def e inv_client_send)
qed

lemma inv_peer: "app_inv E s \<Longrightarrow> app_inv E (encodeForP2p E m s)"
proof -
  assume s: "app_inv E s"
  obtain b x t where e: "encodeOutgoingMessage E m False s = (b, x, t)" by (cases "encodeOutgoingMessage E m False s") auto
  from inv_encode[OF s e] s show ?thesis
    by (cases b; cases x) (auto simp: encodeForP2p_def e inv_happened app_effect_ok_def)
qed

lemma inv_flush: "app_inv E s \<Longrightarrow> app_inv E (snd (flush_pending E ms s))"
proof (induction ms arbitrary: s)
  case (Cons m ms)
  obtain b t where t: "send_app E m s = (b, t)" by (cases "send_app E m s")
  with inv_send_app[OF Cons.prems, of m] have "app_inv E t" by simp
  with t Cons.IH show ?case by (cases b) simp_all
qed simp

lemma inv_seq: "app_inv E s \<Longrightarrow> app_inv E (s\<lparr>ms_seq := n\<rparr>)"
  by (simp add: app_inv_def)

lemma inv_lifecycle: "app_inv E s \<Longrightarrow> app_inv E (send_lifecycle E ty s)"
  by (simp add: send_lifecycle_def Let_def inv_send_app inv_seq)

lemma inv_connect: "app_inv E s \<Longrightarrow> app_inv E (connect_continues ok s)"
proof -
  assume s: "app_inv E s"
  then have upd: "app_inv E (s\<lparr>ms_stage := x\<rparr>)" "app_inv E (s\<lparr>ms_socket_open := b, ms_stage := x\<rparr>)" "app_inv E (s\<lparr>ms_identity := b\<rparr>)"
    "app_inv E (s\<lparr>ms_identity := b, ms_stage := x\<rparr>)" for x b
    by (simp_all add: app_inv_def)
  have "app_inv E (happened (To_relay Out_connect) s)" using s by (intro inv_happened) (simp_all add: app_effect_ok_def)
  then have "app_inv E ((happened (To_relay Out_connect) s)\<lparr>ms_stage := x\<rparr>)" for x by (simp add: app_inv_def)
  with upd s show ?thesis
    by (cases "ms_stage s") (simp_all add: connect_continues_def connect_fails_def Let_def client_send_def)
qed

lemma inv_challenge: "app_inv E s \<Longrightarrow> app_inv E (snd (handleAuthChallenge E c s))"
  by (auto simp: handleAuthChallenge_def Let_def app_inv_def wait_for_def task_ok_def)

lemma inv_proof: "app_inv E s \<Longrightarrow> out_ok E (Out_proof v) \<Longrightarrow> app_inv E (snd (send_proof E v s))"
  by (auto simp: send_proof_def app_inv_def client_send_def happened_def app_effect_ok_def split: option.split)

lemma inv_auth_ok:
  assumes "app_inv E s" "om_type raw = ''auth.ok''"
  shows "app_inv E (snd (handleAuthOk E p raw s))"
proof (cases "ok_matches_app E p s")
  case True
  then have "identityMatchesPublicKey (ae_crypto E) Id_agent (ae_device E) (oi_agent_public_key p)"
    using assms(1) by (auto simp: ok_matches_app_def app_inv_def filled_def split: option.splits)
  then have "paired_handshake E st" if "createInitiatorHandshake (ae_crypto E) (app_context E (oi_agent_public_key p) a c) r k sg = Inr st" for st a c r k sg
    using that by (auto simp: createInitiatorHandshake_def Let_def paired_handshake_def app_context_def split: option.splits)
  then show ?thesis using assms
    by (auto simp: handleAuthOk_def Let_def app_inv_def wait_for_def task_ok_def split: sum.splits)
qed (use assms in \<open>simp add: handleAuthOk_def\<close>)

lemma inv_reply: "app_inv E s \<Longrightarrow> app_inv E (snd (handleE2EHandshakeReply E r s))"
proof -
  assume s: "app_inv E s"
  have "paired_session E x" if "ms_handshake s = Some st" "complete (ae_crypto E) st r = Inr x" for st x
    using s that unfolding paired_session_def app_inv_def by (metis option.simps(5))
  with s show ?thesis
    by (auto simp: handleE2EHandshakeReply_def app_inv_def client_send_def happened_def app_effect_ok_def split: option.split sum.split)
qed

lemma inv_app_ready: "app_inv E s \<Longrightarrow> app_inv E (snd (app_ready E r s))"
proof -
  assume s: "app_inv E s"
  then have "app_inv E (happened Business_ready (s\<lparr>ms_peer_ready := True, ms_timer := True\<rparr>))"
    by (simp add: app_inv_def happened_def app_effect_ok_def)
  with s show ?thesis by (auto simp: app_ready_def flushPendingBusinessMessages_def intro!: inv_flush inv_pending split: option.split)
qed

lemma inv_app_frame: "app_inv E s \<Longrightarrow> app_inv E (snd (app_frame E f s))"
proof (cases "ms_session s")
  case (Some session)
  assume s: "app_inv E s"
  with Some have p: "paired_session E session" by (simp add: app_inv_def)
  have upd: "app_inv E (s\<lparr>ms_session := Some y\<rparr>)" if "paired_session E y" for y using s that by (simp add: app_inv_def)
  show ?thesis
  proof (cases rule: decrypt_cases[of "ae_crypto E" "ae_parse E" f session])
    case (rejected e)
    then show ?thesis using Some s upd[OF p] by (simp add: app_frame_def)
  next
    case (taken m)
    have "app_effect_ok E (To_handlers m)"
      using p taken unfolding app_effect_ok_def unsealed_message_def by auto
    with taken s Some upd[OF paired_same[OF p]] show ?thesis by (simp add: app_frame_def inv_dispatch)
  qed
qed (simp add: app_frame_def)

lemma inv_message: "app_inv E s \<Longrightarrow> app_inv E (snd (handleMessage_app E i s))"
proof (cases "ai_content i")
  case (Ct_auth_ok p)
  assume "app_inv E s"
  with Ct_auth_ok show ?thesis by (simp add: handleMessage_app_def inv_auth_ok)
qed (auto simp: handleMessage_app_def inv_challenge inv_reply inv_app_ready inv_app_frame dispatchRelayUpgradeControl_def
    app_effect_ok_def upgrade_control_def intro!: inv_dispatch)

lemma inv_rejected: "app_inv E (snd x) \<Longrightarrow> app_inv E (rejected x)"
  by (cases x) (simp add: rejected_def inv_client_close inv_clear)

lemma inv_resume:
  assumes s: "app_inv E s"
  shows "app_inv E (resume E n ok s)"
proof (cases "n < length (ms_tasks s)")
  case True
  let ?s = "s\<lparr>ms_tasks := take n (ms_tasks s) @ drop (Suc n) (ms_tasks s)\<rparr>"
  have t: "task_ok E (ms_tasks s ! n)" using s True by (simp add: app_inv_def list_all_length)
  have "list_all (task_ok E) (take n (ms_tasks s) @ drop (Suc n) (ms_tasks s))"
    using s by (auto simp: app_inv_def list_all_iff dest: in_set_takeD in_set_dropD)
  with s have s': "app_inv E ?s" by (simp add: app_inv_def)
  have init: "app_inv E (snd (send_init st raw ?s))" if "paired_handshake E st" "om_type raw = ''auth.ok''" for st raw
  proof -
    have "app_inv E (?s\<lparr>ms_handshake := Some st\<rparr>)" using s' that(1) by (simp add: app_inv_def)
    then have "app_inv E (snd (client_send (Out_init (is_init st)) (?s\<lparr>ms_handshake := Some st\<rparr>)))" by (rule inv_client_send) simp
    moreover have "app_effect_ok E (To_handlers raw)"
      using that(2) by (simp add: app_effect_ok_def isE2EBusinessMessage_def starts_with_def)
    ultimately show ?thesis using s'
      by (cases "client_send (Out_init (is_init st)) (?s\<lparr>ms_handshake := Some st\<rparr>)") (auto simp: send_init_def inv_dispatch split: bool.split)
  qed
  show ?thesis
  proof (cases "ms_tasks s ! n")
    case (Wait_info c)
    then show ?thesis using True s' t by (auto simp: resume_def Let_def task_ok_def proof_for_def intro!: inv_rejected inv_wait)
  next
    case (Wait_proof v)
    then show ?thesis using True s' t by (auto simp: resume_def Let_def task_ok_def intro!: inv_rejected inv_proof)
  next
    case (Wait_handshake r raw)
    then show ?thesis using True s' t init by (cases r) (auto simp: resume_def Let_def task_ok_def intro!: inv_rejected)
  qed
qed (simp add: resume_def s)

lemma app_step_inv: "app_inv E s \<Longrightarrow> True \<Longrightarrow> app_inv E (app_step E e s)"
proof (cases e)
  case (Connect_back ok)
  assume "app_inv E s"
  then show ?thesis by (simp add: Connect_back app_step_def inv_connect)
qed (auto simp: app_step_def connect_app_def connect_fails_def handleIncomingMessage_def close_app_def
    intro!: inv_rejected inv_message inv_resume inv_send_app inv_peer inv_client_close inv_clear inv_lifecycle, simp_all add: app_inv_def)

interpretation app: invariant_machine "app_step E" "app_inv E" "\<lambda>e. True"
  by unfold_locales (rule app_step_inv)

lemma app_run_inv: "app_inv E (app_run E t es)"
  unfolding app_run_def by (rule app.run_inv) (simp_all add: app_inv_def new_session_of_def)

end
