(* ===== verification/AgentDispatch.thy ===== *)
theory AgentDispatch
  imports AgentGateway
begin

text \<open>
  The handlers of the Agent's gate and the dispatcher in front of them
  (\<open>desktop/agent/src/core/agentAppSecurityGateway.ts\<close>, \<open>core/agentMessageDispatcher.ts\<close>), and \<open>gateway_step\<close>: a
  message from the transport, a decision of the owner, a timer, or a call of another part of the Agent.
  The business handlers themselves are effects.
\<close>

declare map_of_eq_Some_iff [simp del] Some_eq_map_of_iff [simp del]

section \<open>Proofs and pairing\<close>

definition observed_details :: "observation \<Rightarrow> pairing_request \<Rightarrow> pairing_request" where
  "observed_details ob q =
     (let q = q\<lparr>pq_app_name := or_else (pq_app_name q) (Option.bind (ob_app ob) oa_name),
            pq_device_name := or_else (pq_device_name q) (Option.bind (ob_device ob) od_name),
            pq_platform := or_else (pq_platform q) (Option.bind (ob_device ob) od_platform),
            pq_os := or_else (pq_os q) (Option.bind (ob_device ob) od_os),
            pq_os_version := or_else (pq_os_version q) (Option.bind (ob_device ob) od_os_version)\<rparr>
      in case ob_network ob of
           None \<Rightarrow> q
         | Some w \<Rightarrow> if ob_source ob = From_relay \<and> (filled (ow_public_ip w) \<or> filled (ow_remote_ip w))
             then q\<lparr>pq_remote_ip := or_else (ow_public_ip w) (ow_remote_ip w), pq_ip_source := ow_ip_source w\<rparr> else q)"

definition pendingPairingDetails :: "auth_verify \<Rightarrow> pairing_request \<Rightarrow> pairing_request" where
  "pendingPairingDetails v q = (let d = inf_device (vf_app_info v) in
     fold observed_details (vf_observations v)
       (q\<lparr>pq_app_name := Option.bind (inf_app (vf_app_info v)) ci_name, pq_device_name := Option.bind d di_name,
          pq_platform := Option.bind d di_platform, pq_os := Option.bind d di_os, pq_os_version := Option.bind d di_os_version,
          pq_remote_ip := None, pq_ip_source := None\<rparr>))"

definition pairing_request_of :: "auth_verify \<Rightarrow> int \<Rightarrow> pairing_request" where
  "pairing_request_of v t = pendingPairingDetails v
     \<lparr>pq_request_id = ''pair_'' @ vf_app_id v, pq_app_id = vf_app_id v, pq_public_key = vf_app_public_key v,
      pq_app_info = vf_app_info v, pq_app_name = None, pq_device_name = None, pq_platform = None, pq_os = None,
      pq_os_version = None, pq_remote_ip = None, pq_ip_source = None, pq_scopes = vf_requested_scopes v,
      pq_connection_id = vf_connection_id v, pq_created_at = t, pq_expires_at = t + 2 * 60000\<rparr>"

text \<open>\<open>None\<close> is the exception of \<open>approve\<close>.\<close>

definition trustApp :: "agent_env \<Rightarrow> auth_verify \<Rightarrow> gateway \<Rightarrow> (trusted_record \<times> gateway) option" where
  "trustApp E v s = map_option (\<lambda>(r, t). (r, s\<lparr>gw_trusted := t\<rparr>))
     (approve (ge_crypto E) (vf_app_id v) (vf_app_public_key v)
       (or_else (Option.bind (inf_device (vf_app_info v)) di_name) (Option.bind (inf_app (vf_app_info v)) ci_name))
       (Option.bind (inf_device (vf_app_info v)) di_platform) (vf_requested_scopes v) (gw_now s) (gw_trusted s))"

definition replay_key :: "auth_verify \<Rightarrow> string" where
  "replay_key v = vf_app_id v @ ''|'' @ vf_nonce v"

text \<open>The part of \<open>authorizeApp\<close> before the answer is signed.\<close>

definition accept_app :: "agent_env \<Rightarrow> auth_verify \<Rightarrow> gateway \<Rightarrow> gateway" where
  "accept_app E v s =
     (let s = s\<lparr>gw_replay := remember (replay_key v) (gw_replay s),
            gw_apps := jput (vf_connection_id v) (vf_app_id v) (gw_apps s)\<rparr>
      in case acceptAuthenticatedConnectionDetailed (ge_uuid E (gw_uuid_count s)) (vf_app_info v) (Some (vf_app_id v))
             (vf_connection_id v) (vf_observations v) (gw_now s) (gw_registry s) of
           ((_, previous), g) \<Rightarrow>
             (let s = s\<lparr>gw_registry := g, gw_uuid_count := gw_uuid_count s + 1\<rparr>;
                  s = (case previous of None \<Rightarrow> s | Some c \<Rightarrow> detachSupersededAppConnection c s)
              in s\<lparr>gw_trusted := markSeen (vf_app_id v) (gw_now s) (gw_trusted s)\<rparr>))"

definition authorizeApp :: "agent_env \<Rightarrow> auth_verify \<Rightarrow> trusted_record \<Rightarrow> gateway \<Rightarrow> gateway" where
  "authorizeApp E v r s =
     (case gw_agent_connection s of
        None \<Rightarrow> sendAuthFailure E (vf_connection_id v) Agent_restarted s
      | Some a \<Rightarrow>
         (if a = [] then sendAuthFailure E (vf_connection_id v) Agent_restarted s
          else let s = accept_app E v s;
                   k = \<lparr>ak_nonce = vf_nonce v, ak_app_id = vf_app_id v, ak_agent_connection_id = a,
                      ak_connection_id = vf_connection_id v, ak_scopes = tr_scopes r, ak_timestamp = gw_now s, ak_signature = []\<rparr>
               in case signIdentityFields (ge_crypto E) (ge_private E) AGENT_AUTH_OK_DOMAIN
                      (agentAuthOkSignatureFields (ge_device E) (ge_public E) k) of
                    None \<Rightarrow> s
                  | Some sig \<Rightarrow> send_out E (Control (Auth_ok_out (k\<lparr>ak_signature := sig\<rparr>))) s))"

definition proof_matches :: "agent_env \<Rightarrow> string \<Rightarrow> string option \<Rightarrow> auth_verify \<Rightarrow> bool" where
  "proof_matches E a from v \<longleftrightarrow> vf_agent_connection_id v = a \<and> from = Some (vf_connection_id v) \<and> vf_device_id v = ge_device E
     \<and> vf_agent_public_key v = ge_public E \<and> identityMatchesPublicKey (ge_crypto E) Id_app (vf_app_id v) (vf_app_public_key v)"

definition proof_signed :: "agent_env \<Rightarrow> auth_verify \<Rightarrow> bool" where
  "proof_signed E v \<longleftrightarrow> verifyIdentityFields (ge_crypto E) (vf_app_public_key v) APP_AUTH_DOMAIN
     (appAuthSignatureFields v) (vf_signature v)"

definition ask_owner :: "agent_env \<Rightarrow> auth_verify \<Rightarrow> gateway \<Rightarrow> gateway" where
  "ask_owner E v s = (let q = pairing_request_of v (gw_now s) in
     send_out E (Control (Auth_pending_out (vf_connection_id v) (pq_request_id q) (pq_expires_at q)))
       (s\<lparr>gw_pending := jput (pq_request_id q) \<lparr>pp_request = q, pp_payload = v\<rparr> (gw_pending s)\<rparr>))"

definition handleAuthVerify :: "agent_env \<Rightarrow> string option \<Rightarrow> auth_verify \<Rightarrow> gateway \<Rightarrow> gateway" where
  "handleAuthVerify E from v s =
     (let refuse = (\<lambda>r. sendAuthFailure E (vf_connection_id v) r s) in
      if replay_has (replay_key v) (gw_replay s) then refuse Malformed_proof
      else case gw_agent_connection s of
             None \<Rightarrow> refuse Agent_restarted
           | Some a \<Rightarrow>
              (if a = [] then refuse Agent_restarted
               else if \<not> proof_matches E a from v then refuse Identity_mismatch
               else if \<bar>gw_now s - vf_timestamp v\<bar> > 60000 then refuse Malformed_proof
               else if \<not> proof_signed E v then refuse Invalid_signature
               else case trusted_get (vf_app_id v) (gw_trusted s) of
                      Some r \<Rightarrow>
                       (if tr_status r = App_active
                        then if tr_publicKey r \<noteq> vf_app_public_key v then refuse Identity_mismatch else authorizeApp E v r s
                        else if ge_automatic E
                        then (case trustApp E v s of None \<Rightarrow> s | Some (r, s) \<Rightarrow> authorizeApp E v r s)
                        else ask_owner E v s)
                    | None \<Rightarrow>
                       (if ge_automatic E
                        then (case trustApp E v s of None \<Rightarrow> s | Some (r, s) \<Rightarrow> authorizeApp E v r s)
                        else ask_owner E v s)))"

definition listPendingPairings :: "gateway \<Rightarrow> pairing_request list" where
  "listPendingPairings s = sort_key pq_created_at (map (pp_request \<circ> snd) (gw_pending s))"

text \<open>The timer of a pending request; approval, rejection and removal clear it.\<close>

definition pairing_timeout :: "agent_env \<Rightarrow> string \<Rightarrow> gateway \<Rightarrow> gateway" where
  "pairing_timeout E rid s = (case jget (gw_pending s) rid of
     None \<Rightarrow> s
   | Some p \<Rightarrow> sendAuthFailure E (vf_connection_id (pp_payload p)) Approval_timeout (s\<lparr>gw_pending := jdel rid (gw_pending s)\<rparr>))"

definition approvePairing :: "agent_env \<Rightarrow> string \<Rightarrow> gateway \<Rightarrow> gateway" where
  "approvePairing E rid s = (case jget (gw_pending s) rid of
     None \<Rightarrow> s
   | Some p \<Rightarrow>
      (let s = s\<lparr>gw_pending := jdel rid (gw_pending s)\<rparr>; v = pp_payload p
       in if pq_expires_at (pp_request p) \<le> gw_now s then sendAuthFailure E (vf_connection_id v) Approval_timeout s
          else case trustApp E v s of None \<Rightarrow> s | Some (r, s) \<Rightarrow> authorizeApp E v r s))"

definition rejectPairing :: "agent_env \<Rightarrow> string \<Rightarrow> gateway \<Rightarrow> gateway" where
  "rejectPairing E rid s = (case jget (gw_pending s) rid of
     None \<Rightarrow> s
   | Some p \<Rightarrow> sendAuthFailure E (vf_connection_id (pp_payload p)) Approval_rejected (s\<lparr>gw_pending := jdel rid (gw_pending s)\<rparr>))"

definition disconnect_one :: "agent_env \<Rightarrow> string \<Rightarrow> gateway \<Rightarrow> gateway" where
  "disconnect_one E c s = detachSupersededAppConnection c
     (on_registry (markGoodbye c 0 (gw_now s)) (sendAuthFailure E c Revoked_app s))"

text \<open>Each turn deletes the entry it visits, and none other.\<close>

definition disconnectApp :: "agent_env \<Rightarrow> string \<Rightarrow> gateway \<Rightarrow> gateway" where
  "disconnectApp E a s = fold (disconnect_one E) (map fst (filter (\<lambda>(c, b). b = a) (gw_apps s))) s"

definition revokeApp :: "agent_env \<Rightarrow> string \<Rightarrow> gateway \<Rightarrow> gateway" where
  "revokeApp E a s = (case revoke a (gw_now s) (gw_trusted s) of
     (False, _) \<Rightarrow> s | (True, t) \<Rightarrow> disconnectApp E a (s\<lparr>gw_trusted := t\<rparr>))"

definition drop_pending :: "agent_env \<Rightarrow> string \<times> pending_pairing \<Rightarrow> gateway \<Rightarrow> gateway" where
  "drop_pending E = (\<lambda>(rid, p) s. sendAuthFailure E (pq_connection_id (pp_request p)) Revoked_app
     (s\<lparr>gw_pending := jdel rid (gw_pending s)\<rparr>))"

definition removeApp :: "agent_env \<Rightarrow> string \<Rightarrow> gateway \<Rightarrow> gateway" where
  "removeApp E a s = (case remove_trusted a (gw_trusted s) of
     (False, _) \<Rightarrow> s
   | (True, t) \<Rightarrow>
      on_registry (\<lambda>g. snd (remove_conns a g)) (disconnectApp E a
        (fold (drop_pending E) (filter (\<lambda>(rid, p). pq_app_id (pp_request p) = a) (gw_pending s)) (s\<lparr>gw_trusted := t\<rparr>))))"

section \<open>Encrypted sessions\<close>

definition agent_handshake :: "agent_env \<Rightarrow> string \<Rightarrow> trusted_record \<Rightarrow> handshake_init \<Rightarrow> nat \<Rightarrow> e2e_error + (handshake_reply \<times> e2e_session)" where
  "agent_handshake E a r i n = acceptInitiatorHandshake (ge_crypto E)
     \<lparr>hc_device_id = ge_device E, hc_agent_public_key = ge_public E, hc_app_id = tr_appId r, hc_app_public_key = tr_publicKey r,
      hc_agent_connection_id = a, hc_app_connection_id = hi_app_connection_id i, hc_handshake_id = Some (hi_handshake_id i)\<rparr>
     (ge_private E) (ge_ephemeral E n) i"

definition handleE2EHandshakeInit :: "agent_env \<Rightarrow> handshake_init \<Rightarrow> gateway \<Rightarrow> gateway" where
  "handleE2EHandshakeInit E i s =
     (let c = hi_app_connection_id i in
      if \<not> hasAuthenticatedConnection c (gw_registry s) then s
      else case gw_agent_connection s of
             None \<Rightarrow> s
           | Some a \<Rightarrow>
              (if a = [] \<or> hi_agent_connection_id i \<noteq> a then s
               else case trusted_get (hi_app_id i) (gw_trusted s) of
                      None \<Rightarrow> s
                    | Some r \<Rightarrow>
                       (if tr_status r \<noteq> App_active \<or> tr_publicKey r \<noteq> hi_app_public_key i then s
                        else let s = s\<lparr>gw_key_count := gw_key_count s + 1\<rparr>
                             in case agent_handshake E a r i (gw_key_count s) of
                                  Inr (reply, session) \<Rightarrow>
                                    send_out E (Control (Ready_out (readyPayload session)))
                                     (send_out E (Control (Reply_out reply))
                                       (s\<lparr>gw_peers := jput c \<lparr>ep_app_connection = c, ep_session = session, ep_ready = False\<rparr> (gw_peers s)\<rparr>))
                                | Inl e \<Rightarrow>
                                    send_out E (Control (E2e_failed_out c (Some (hi_handshake_id i))
                                       (if e = Unsupported_suite then Fail_unsupported else Fail_handshake)))
                                     (s\<lparr>gw_peers := jdel c (gw_peers s)\<rparr>))))"

definition failE2ESession :: "agent_env \<Rightarrow> string \<Rightarrow> e2e_failure \<Rightarrow> gateway \<Rightarrow> gateway" where
  "failE2ESession E c r s = detachSupersededAppConnection c
     (on_registry (markGoodbye c 0 (gw_now s)) (send_out E (Control (E2e_failed_out c None r)) s))"

definition handleE2EReady :: "agent_env \<Rightarrow> ready_payload \<Rightarrow> gateway \<Rightarrow> gateway" where
  "handleE2EReady E r s = (let c = rp_app_connection_id r in
     case jget (gw_peers s) c of
       None \<Rightarrow> s
     | Some p \<Rightarrow>
        (if rp_handshake_id r \<noteq> se_handshake_id (ep_session p) \<or> rp_transcript_hash r \<noteq> se_transcript_hash (ep_session p)
         then failE2ESession E c Fail_handshake s
         else on_registry (markE2EReady c (gw_now s)) (s\<lparr>gw_peers := jput c (p\<lparr>ep_ready := True\<rparr>) (gw_peers s)\<rparr>)))"

text \<open>\<open>handleE2EMessage\<close> up to the call of the dispatcher, with the message to dispatch if there is one.\<close>

definition open_e2e :: "agent_env \<Rightarrow> e2e_frame \<Rightarrow> gateway \<Rightarrow> agent_message option \<times> gateway" where
  "open_e2e E f s = (let c = fr_app_connection_id f in
     case jget (gw_peers s) c of
       None \<Rightarrow> (None, s)
     | Some p \<Rightarrow>
        (if \<not> ep_ready p then (None, s)
         else case decrypt (ge_crypto E) (ge_parse E) f (ep_session p) of
                (Inl e, session) \<Rightarrow>
                  (None, if e = Decrypt_failed \<or> e = Replay_detected
                     then failE2ESession E c (if e = Replay_detected then Fail_replay else Fail_decrypt)
                       (s\<lparr>gw_peers := jput c (p\<lparr>ep_session := session\<rparr>) (gw_peers s)\<rparr>)
                     else s)
              | (Inr inner, session) \<Rightarrow>
                  (let s = s\<lparr>gw_peers := jput c (p\<lparr>ep_session := session\<rparr>) (gw_peers s)\<rparr>; m = innerToMessage inner
                   in if ge_valid E m then (Some m, on_registry (markE2EReady c (gw_now s)) s) else (None, s))))"

section \<open>Business requests\<close>

definition rejectUnencryptedBusiness :: "agent_env \<Rightarrow> agent_message \<Rightarrow> bool \<Rightarrow> gateway \<Rightarrow> bool \<times> gateway" where
  "rejectUnencryptedBusiness E m trusted s =
     (if trusted then (False, s)
      else (True, if filled (am_relay_context m)
         then requestRelayAppDelivery E (the (am_relay_context m)) (am_session m) (am_surface m) (message_type (am_content m)) s else s))"

definition recordInboundBusinessForConnection ::
    "agent_env \<Rightarrow> agent_message \<Rightarrow> string option \<Rightarrow> bool \<Rightarrow> bool \<Rightarrow> gateway \<Rightarrow> bool \<times> gateway" where
  "recordInboundBusinessForConnection E m c trusted allow s =
     (case (if allow then (False, s) else rejectUnencryptedBusiness E m trusted s) of
        (True, s) \<Rightarrow> (False, s)
      | (False, s) \<Rightarrow>
         (if \<not> filled c \<or> \<not> hasAuthenticatedConnection (the c) (gw_registry s) then (False, s)
          else (True, on_registry (recordMessage (the c) Flow_in trusted (ge_size E m) (gw_now s)) s)))"

definition recordInboundBusiness :: "agent_env \<Rightarrow> agent_message \<Rightarrow> agent_context option \<Rightarrow> bool \<Rightarrow> gateway \<Rightarrow> bool \<times> gateway" where
  "recordInboundBusiness E m ctx trusted =
     recordInboundBusinessForConnection E m (case ctx of Some x \<Rightarrow> Some (cx_app x) | None \<Rightarrow> appConnectionIdFromMessage m) trusted False"

definition handleConnectionHeartbeat :: "agent_env \<Rightarrow> agent_message \<Rightarrow> nat \<Rightarrow> conn_path option \<Rightarrow> agent_context option \<Rightarrow> bool \<Rightarrow> gateway \<Rightarrow> gateway" where
  "handleConnectionHeartbeat E m sq path ctx trusted s = (case ctx of
     None \<Rightarrow> s
   | Some x \<Rightarrow> (case recordInboundBusiness E m ctx trusted s of
        (False, s) \<Rightarrow> s | (True, s) \<Rightarrow> on_registry (acceptHeartbeat (cx_app x) sq path (gw_now s)) s))"

definition handleConnectionGoodbye :: "agent_env \<Rightarrow> agent_message \<Rightarrow> nat \<Rightarrow> agent_context option \<Rightarrow> bool \<Rightarrow> gateway \<Rightarrow> gateway" where
  "handleConnectionGoodbye E m sq ctx trusted s = (case ctx of
     None \<Rightarrow> s
   | Some x \<Rightarrow> (case recordInboundBusiness E m ctx trusted s of
        (False, s) \<Rightarrow> s | (True, s) \<Rightarrow> on_registry (markGoodbye (cx_app x) sq (gw_now s)) s))"

text \<open>The table of the dispatcher: for each business type, the handlers that run, in order.\<close>

definition business_handlers :: "agent_message \<Rightarrow> string option \<Rightarrow> (string \<times> handler list) list" where
  "business_handlers m kind =
     (let stop = (if filled (am_session m) then [Stop_stream] else []) in
      [(''session.list'', [Session_list]), (''session.create'', [Session_create]), (''session.close'', stop @ [Session_close]),
       (''session.rename'', [Session_rename]), (''session.kill_terminal'', stop @ [Session_kill]),
       (''workspace.list'', [Workspace_list]), (''files.list'', [Files_list]), (''files.read'', [Files_read]),
       (''files.write'', [Files_write]), (''git.status'', [Git_status]), (''git.diff'', [Git_diff]),
       (''git.action'', if kind = Some ''request'' then [Git_action] else []),
       (''git.worktree'', if kind = Some ''list_request'' \<or> kind = Some ''create_request'' then [Git_worktree] else []),
       (''terminal.input'', [Terminal_input]), (''terminal.resize'', [Terminal_resize]), (''session.attach'', [Session_attach]),
       (''terminal.snapshot'', [Terminal_snapshot]), (''terminal.stream.start'', [Stream_start]),
       (''terminal.stream.stop'', [Stream_stop]), (''agent.message.list'', [Message_list]), (''agent.message.read'', [Message_read]),
       (''agent.message.ack'', [Message_ack]), (''agent.message.delivered'', [Message_delivered]),
       (''agent.prompt.submit'', [Prompt_submit]),
       (''agent.surface.sync'', if kind = Some ''request'' then [Surface_sync] else []), (''agent.delivery'', [Delivery]),
       (''agent.experience'', [Experience]), (''agent.interaction'', [Interaction]),
       (''agent.notification.settings.get'', [Settings_get]), (''agent.notification.settings.set'', [Settings_set]),
       (''tunnel.upgrade.offer'', [Upgrade_offer]), (''tunnel.upgrade.answer'', [Upgrade_answer]),
       (''tunnel.upgrade.candidate'', [Upgrade_candidate]), (''tunnel.upgrade.committed'', [Upgrade_committed]),
       (''tunnel.upgrade.downgrade'', [Upgrade_downgrade])])"

definition run_handlers :: "handler list \<Rightarrow> agent_message \<Rightarrow> agent_context option \<Rightarrow> gateway \<Rightarrow> gateway" where
  "run_handlers hs m ctx s = fold (\<lambda>h. did (Handled h m ctx)) hs s"

definition handle_business :: "agent_env \<Rightarrow> agent_message \<Rightarrow> string \<Rightarrow> string option \<Rightarrow> agent_context option \<Rightarrow> bool \<Rightarrow> gateway \<Rightarrow> gateway" where
  "handle_business E m t kind ctx trusted s = (case map_of (business_handlers m kind) t of
     None \<Rightarrow> s
   | Some hs \<Rightarrow> (case recordInboundBusiness E m ctx trusted s of
        (False, s) \<Rightarrow> s | (True, s) \<Rightarrow> run_handlers hs m ctx s))"

definition handle_propose :: "agent_env \<Rightarrow> agent_message \<Rightarrow> string \<Rightarrow> bool \<Rightarrow> gateway \<Rightarrow> gateway" where
  "handle_propose E m c trusted s =
     (if \<not> trusted \<and> \<not> hasReadyE2EPeer c s then snd (rejectUnencryptedBusiness E m trusted s)
      else case recordInboundBusinessForConnection E m (Some c) trusted True s of
             (False, s) \<Rightarrow> s
           | (True, s) \<Rightarrow> run_handlers [Upgrade_propose] m (Some \<lparr>cx_app = c, cx_trusted = trusted\<rparr>) s)"

text \<open>
  A decrypted message goes through the dispatcher again, so the recursion is bounded by fuel; \<open>gw_stuck\<close> tells that it
  ran out. The context of the effect \<open>Upgrade_propose\<close> names the connection of the payload.
\<close>

fun dispatch :: "agent_env \<Rightarrow> nat \<Rightarrow> agent_message \<Rightarrow> agent_context option \<Rightarrow> gateway \<Rightarrow> gateway" where
  "dispatch E 0 m context s = s\<lparr>gw_stuck := True\<rparr>"
| "dispatch E (Suc n) m context s =
     (let trusted = (case context of Some x \<Rightarrow> cx_trusted x | None \<Rightarrow> False);
          ctx = (case context of
              Some x \<Rightarrow> Some x
            | None \<Rightarrow> if filled (am_app_connection m) then Some \<lparr>cx_app = the (am_app_connection m), cx_trusted = False\<rparr> else None)
      in case am_content m of
           Auth_verify v \<Rightarrow> handleAuthVerify E (am_app_connection m) v s
         | Handshake_init i \<Rightarrow> handleE2EHandshakeInit E i s
         | E2e_ready_in r \<Rightarrow> handleE2EReady E r s
         | E2e_message f \<Rightarrow> (case open_e2e E f s of
              (None, s) \<Rightarrow> s
            | (Some d, s) \<Rightarrow> dispatch E n d (Some \<lparr>cx_app = fr_app_connection_id f, cx_trusted = True\<rparr>) s)
         | App_heartbeat sq path \<Rightarrow> handleConnectionHeartbeat E m sq path ctx trusted s
         | App_goodbye sq \<Rightarrow> handleConnectionGoodbye E m sq ctx trusted s
         | Propose_upgrade c \<Rightarrow> handle_propose E m c trusted s
         | Plain t kind _ \<Rightarrow> handle_business E m t kind ctx trusted s)"

definition frame_size :: "agent_message \<Rightarrow> nat" where
  "frame_size m = (case am_content m of E2e_message f \<Rightarrow> length (fr_ciphertext f) | _ \<Rightarrow> 0)"

definition dispatch_message :: "agent_env \<Rightarrow> agent_message \<Rightarrow> gateway \<Rightarrow> gateway" where
  "dispatch_message E m s = dispatch E (frame_size m + 1) m None s"

definition clearRelayAppConnectionState :: "gateway \<Rightarrow> gateway" where
  "clearRelayAppConnectionState s = on_registry (markRelayUnavailable (gw_now s)) (s\<lparr>gw_pending := [], gw_apps := [], gw_peers := []\<rparr>)"

section \<open>The machine\<close>

datatype gateway_event = Incoming agent_message | Approve_pairing string | Reject_pairing string | Revoke_app string
  | Remove_app string | Pairing_timer string | Relay_lost | Send_message outgoing | Send_to_app "agent_context option" out_message
  | Send_to_connection string out_message "string option" bool | Set_path string conn_path | Show_connections
  | Agent_connection "string option" | Transport_up bool | Time_passes nat

definition gateway_step :: "agent_env \<Rightarrow> gateway_event \<Rightarrow> gateway \<Rightarrow> gateway" where
  "gateway_step E e s = (case e of
     Incoming m \<Rightarrow> dispatch_message E m s
   | Approve_pairing r \<Rightarrow> approvePairing E r s
   | Reject_pairing r \<Rightarrow> rejectPairing E r s
   | Revoke_app a \<Rightarrow> revokeApp E a s
   | Remove_app a \<Rightarrow> removeApp E a s
   | Pairing_timer r \<Rightarrow> pairing_timeout E r s
   | Relay_lost \<Rightarrow> clearRelayAppConnectionState s
   | Send_message m \<Rightarrow> send_out E m s
   | Send_to_app ctx m \<Rightarrow> sendToApp E ctx m s
   | Send_to_connection c m channel bypass \<Rightarrow> snd (sendToAppByConnectionId E c m channel bypass s)
   | Set_path c x \<Rightarrow> on_registry (setPath c x (gw_now s)) s
   | Show_connections \<Rightarrow> on_registry (sweep_registry (gw_now s)) s
   | Agent_connection a \<Rightarrow> s\<lparr>gw_agent_connection := a\<rparr>
   | Transport_up b \<Rightarrow> s\<lparr>gw_transport := b\<rparr>
   | Time_passes n \<Rightarrow> s\<lparr>gw_now := gw_now s + int n\<rparr>)"

definition new_gateway :: "registry \<Rightarrow> trusted_store \<Rightarrow> int \<Rightarrow> gateway" where
  "new_gateway g t now = \<lparr>gw_now = now, gw_transport = False, gw_agent_connection = None, gw_key_count = 0, gw_uuid_count = 0,
     gw_registry = g, gw_trusted = t, gw_peers = [], gw_apps = [], gw_replay = new_replay_cache 1024, gw_pending = [],
     gw_effects = [], gw_stuck = False\<rparr>"

end
