(* ===== verification/RegistryInvariant.thy ===== *)
theory RegistryInvariant
  imports AppRegistry
begin

text \<open>
  The invariant of the registry of Apps: entries sit under their own id and no two share a relay
  connection; and how the set of relay connections that have a trusted entry changes: only a proof
  adds to it, a goodbye takes the connection out of it.
\<close>

declare map_of_eq_Some_iff [simp del] Some_eq_map_of_iff [simp del]

definition one_per_relay :: "(string, app_conn) jmap \<Rightarrow> bool" where
  "one_per_relay m \<longleftrightarrow> (\<forall>k e k' e' r. jget m k = Some e \<longrightarrow> jget m k' = Some e' \<longrightarrow> ac_relay_id e = Some r
     \<longrightarrow> ac_relay_id e' = Some r \<longrightarrow> r \<noteq> [] \<longrightarrow> k = k')"

definition reg_ok :: "registry \<Rightarrow> bool" where
  "reg_ok g \<longleftrightarrow> jwf (by_id g) \<and> (\<forall>k e. jget (by_id g) k = Some e \<longrightarrow> ac_id e = k) \<and> one_per_relay (by_id g)"

definition trusted_relays :: "registry \<Rightarrow> string set" where
  "trusted_relays g = {r. r \<noteq> [] \<and> (\<exists>k e. jget (by_id g) k = Some e \<and> ac_relay_id e = Some r \<and> ac_trusted e)}"

lemma filled_Some [simp]: "filled (Some r) \<longleftrightarrow> r \<noteq> []" "\<not> filled None"
  by (simp_all add: filled_def)

lemma reg_okD:
  assumes "reg_ok g"
  shows "jwf (by_id g)" "jget (by_id g) k = Some e \<Longrightarrow> ac_id e = k"
    "jget (by_id g) k = Some e \<Longrightarrow> jget (by_id g) k' = Some e' \<Longrightarrow> ac_relay_id e = Some r \<Longrightarrow> ac_relay_id e' = Some r
      \<Longrightarrow> r \<noteq> [] \<Longrightarrow> k = k'"
  using assms unfolding reg_ok_def one_per_relay_def by blast+

lemma one_per_relay_put:
  assumes "one_per_relay m" "\<And>k x r. jget m k = Some x \<Longrightarrow> ac_relay_id x = Some r \<Longrightarrow> ac_relay_id e = Some r \<Longrightarrow> r \<noteq> [] \<Longrightarrow> k = i"
  shows "one_per_relay (jput i e m)"
  unfolding one_per_relay_def
proof (intro allI impI)
  fix k x k' x' r
  assume h: "jget (jput i e m) k = Some x" "jget (jput i e m) k' = Some x'" "ac_relay_id x = Some r" "ac_relay_id x' = Some r" "r \<noteq> []"
  consider "k = i" "k' = i" | "k = i" "k' \<noteq> i" | "k \<noteq> i" "k' = i" | "k \<noteq> i" "k' \<noteq> i" by blast
  then show "k = k'"
  proof cases
    case 2
    with h assms(2)[of k' x' r] show ?thesis by simp
  next
    case 3
    with h assms(2)[of k x r] show ?thesis by simp
  next
    case 4
    with h have "jget m k = Some x" "jget m k' = Some x'" by simp_all
    with assms(1) h(3-5) show ?thesis unfolding one_per_relay_def by blast
  qed simp
qed

lemma find_relay_Some:
  assumes "jwf (by_id g)" "findByRelayConnectionId r g = Some e"
  shows "r \<noteq> [] \<and> ac_relay_id e = Some r \<and> (\<exists>k. jget (by_id g) k = Some e)"
proof -
  obtain k where "find (\<lambda>(k, e). ac_relay_id e = Some r) (by_id g) = Some (k, e)" "r \<noteq> []"
    using assms(2) by (auto simp: findByRelayConnectionId_def split: if_splits)
  then have "(k, e) \<in> set (by_id g)" "ac_relay_id e = Some r" "r \<noteq> []"
    by (auto simp: find_Some_iff) (metis nth_mem)
  with assms(1) show ?thesis by (metis map_of_is_SomeI)
qed

lemma find_relay_None:
  assumes "findByRelayConnectionId r g = None" "r \<noteq> []" "jget (by_id g) k = Some e"
  shows "ac_relay_id e \<noteq> Some r"
proof -
  have "find (\<lambda>(k, e). ac_relay_id e = Some r) (by_id g) = None"
    using assms(1,2) by (simp add: findByRelayConnectionId_def)
  moreover have "(k, e) \<in> set (by_id g)" using assms(3) by (rule map_of_SomeD)
  ultimately show ?thesis by (auto simp: find_None_iff)
qed

lemma hasAuthenticated_trusted:
  assumes "jwf (by_id g)" "hasAuthenticatedConnection r g"
  shows "r \<in> trusted_relays g"
  using assms find_relay_Some[OF assms(1), of r]
  by (fastforce simp: hasAuthenticatedConnection_def trusted_relays_def split: option.splits)

section \<open>Changes that give no trust\<close>

definition tame :: "app_conn \<Rightarrow> app_conn \<Rightarrow> bool" where
  "tame e e' \<longleftrightarrow> ac_id e' = ac_id e \<and> ac_relay_id e' = ac_relay_id e \<and> (ac_trusted e' \<longrightarrow> ac_trusted e)"

definition calm :: "registry \<Rightarrow> registry \<Rightarrow> bool" where
  "calm g g' \<longleftrightarrow> (reg_ok g \<longrightarrow> reg_ok g' \<and> trusted_relays g' \<subseteq> trusted_relays g)"

lemma calm_refl [simp]: "calm g g"
  by (simp add: calm_def)

lemma calm_trans [trans]: "calm f g \<Longrightarrow> calm g h \<Longrightarrow> calm f h"
  unfolding calm_def by blast

lemma calmD: "calm g g' \<Longrightarrow> reg_ok g \<Longrightarrow> reg_ok g'" "calm g g' \<Longrightarrow> reg_ok g \<Longrightarrow> trusted_relays g' \<subseteq> trusted_relays g"
  unfolding calm_def by blast+

lemma tame_put:
  assumes "reg_ok g" "jget (by_id g) k = Some e" "tame e e'"
  shows "reg_ok (put_conn e' g) \<and> trusted_relays (put_conn e' g) \<subseteq> trusted_relays g"
proof -
  have k: "ac_id e' = k" "ac_relay_id e' = ac_relay_id e" "ac_trusted e' \<longrightarrow> ac_trusted e"
    using assms reg_okD(2)[OF assms(1,2)] by (simp_all add: tame_def)
  have "one_per_relay (jput k e' (by_id g))"
  proof (rule one_per_relay_put)
    show "one_per_relay (by_id g)" using assms(1) by (simp add: reg_ok_def)
  next
    fix i x r assume "jget (by_id g) i = Some x" "ac_relay_id x = Some r" "ac_relay_id e' = Some r" "r \<noteq> []"
    then show "i = k" using reg_okD(3)[OF assms(1) _ assms(2)] k(2) by simp
  qed
  then have "reg_ok (put_conn e' g)"
    using reg_okD(1,2)[OF assms(1)] k(1) by (simp add: reg_ok_def put_conn_def)
  moreover have "trusted_relays (put_conn e' g) \<subseteq> trusted_relays g"
    using assms(2) k by (auto simp: trusted_relays_def put_conn_def split: if_splits)
  ultimately show ?thesis ..
qed

lemma calm_put: "jget (by_id g) k = Some e \<Longrightarrow> tame e e' \<Longrightarrow> calm g (put_conn e' g)"
  using tame_put unfolding calm_def by blast

lemma calm_found: "findByRelayConnectionId r g = Some e \<Longrightarrow> tame e e' \<Longrightarrow> calm g (put_conn e' g)"
  using find_relay_Some reg_okD(1) tame_put unfolding calm_def by metis

lemma calm_on_conn: "(\<And>e. tame e (f e)) \<Longrightarrow> calm g (on_conn r f g)"
  by (auto simp: on_conn_def calm_found split: option.split)

lemma get_map_conn: "jget (map (\<lambda>(k, e). (k, f e)) m) k = map_option f (jget m k)"
  by (induction m) auto

lemma calm_map:
  assumes "\<And>e. tame e (f e)"
  shows "calm g (g\<lparr>by_id := map (\<lambda>(k, e). (k, f e)) (by_id g)\<rparr>)"
proof -
  have keys: "map fst (map (\<lambda>(k, e). (k, f e)) m) = map fst m" for m by (induction m) auto
  define g' where "g' = g\<lparr>by_id := map (\<lambda>(k, e). (k, f e)) (by_id g)\<rparr>"
  have at: "jget (by_id g') k = Some x \<longleftrightarrow> (\<exists>e. jget (by_id g) k = Some e \<and> x = f e)" for k x
    by (auto simp: g'_def get_map_conn)
  have same: "ac_id (f e) = ac_id e" "ac_relay_id (f e) = ac_relay_id e" "ac_trusted (f e) \<Longrightarrow> ac_trusted e" for e
    using assms by (simp_all add: tame_def)
  have "jwf (by_id g') = jwf (by_id g)" using keys[of "by_id g"] by (simp add: g'_def del: map_map)
  moreover have "trusted_relays g' \<subseteq> trusted_relays g"
    unfolding trusted_relays_def at using same by fastforce
  moreover have "(\<forall>k e. jget (by_id g) k = Some e \<longrightarrow> ac_id e = k) \<Longrightarrow> (\<forall>k e. jget (by_id g') k = Some e \<longrightarrow> ac_id e = k)"
    unfolding at using same(1) by auto
  moreover have "one_per_relay (by_id g) \<Longrightarrow> one_per_relay (by_id g')"
    unfolding one_per_relay_def at using same(2) by metis
  ultimately show ?thesis unfolding calm_def reg_ok_def g'_def[symmetric] by blast
qed

lemma calm_sub:
  assumes "\<And>k e. jget (by_id g') k = Some e \<Longrightarrow> jget (by_id g) k = Some e" "jwf (by_id g) \<Longrightarrow> jwf (by_id g')"
  shows "calm g g'"
  using assms unfolding calm_def reg_ok_def one_per_relay_def trusted_relays_def by blast

lemma seen_again_same [simp]: "tame e (e\<lparr>ac_timing := t\<rparr>)"
  by (simp add: tame_def)

lemma tame_prims [simp]: "tame e (path_set x t e)" "tame e (relay_lost t e)" "tame e (e2e_marked g t e)"
    "tame e (counted_message g d n t e)" "tame e (swept g t e)"
  by (auto simp: tame_def path_set_def relay_lost_def e2e_marked_def counted_message_def swept_def Let_def split: option.split)

lemma calm_setPath [simp]: "calm g (setPath r x t g)"
  unfolding setPath_def or_else_def by (auto intro: calm_put calm_found split: option.split)

lemma calm_markGoodbye [simp]: "calm g (markGoodbye r sq t g)"
  unfolding markGoodbye_def by (rule calm_on_conn) (simp add: tame_def)

lemma calm_markE2EReady [simp]: "calm g (markE2EReady r t g)"
  unfolding markE2EReady_def by (rule calm_on_conn) simp

lemma calm_recordMessage [simp]: "calm g (recordMessage r d enc n t g)"
  unfolding recordMessage_def Let_def
  by (auto intro: calm_found calm_trans[OF calm_found calm_markE2EReady] split: option.split)

lemma calm_acceptHeartbeat [simp]: "calm g (acceptHeartbeat r sq p t g)"
proof (cases "findByRelayConnectionId r g")
  case None
  then show ?thesis by (simp add: acceptHeartbeat_def)
next
  case (Some e)
  then show ?thesis
    by (auto simp: acceptHeartbeat_def Let_def tame_def intro!: calm_found[OF Some] calm_trans[OF calm_found[OF Some] calm_setPath]
        split: option.split)
qed

lemma calm_markRelayUnavailable [simp]: "calm g (markRelayUnavailable t g)"
  unfolding markRelayUnavailable_def by (rule calm_map) simp

lemma calm_sweep_registry [simp]: "calm g (sweep_registry t g)"
  unfolding sweep_registry_def by (rule calm_map) simp

lemma calm_drop_conn: "calm g (drop_conn ke g)"
  by (cases ke) (auto simp: drop_conn_def intro!: calm_sub split: if_splits)

lemma calm_remove_conns [simp]: "calm g (snd (remove_conns a g))"
proof -
  have "calm g (fold drop_conn xs g)" for xs
    by (induction xs arbitrary: g) (auto intro: calm_trans[OF calm_drop_conn])
  then show ?thesis by (simp add: remove_conns_def Let_def)
qed

section \<open>Trust given and taken\<close>

lemma goodbye_relays:
  assumes "reg_ok g"
  shows "trusted_relays (markGoodbye r sq t g) \<subseteq> trusted_relays g - {r}"
proof (cases "findByRelayConnectionId r g")
  case None
  then have "r \<notin> trusted_relays g" using find_relay_None by (auto simp: trusted_relays_def)
  with None show ?thesis by (simp add: markGoodbye_def on_conn_def)
next
  case (Some e)
  then obtain k where k: "jget (by_id g) k = Some e" "ac_relay_id e = Some r" "r \<noteq> []"
    using find_relay_Some reg_okD(1)[OF assms] by blast
  have "ac_id e = k" by (rule reg_okD(2)[OF assms k(1)])
  then have "r \<notin> trusted_relays (markGoodbye r sq t g)"
    using reg_okD(3)[OF assms k(1) _ k(2) _ k(3)] Some
    by (auto simp: markGoodbye_def on_conn_def put_conn_def trusted_relays_def split: if_splits)
  then show ?thesis using calmD(2)[OF calm_markGoodbye assms] by blast
qed

lemma unavailable_relays: "trusted_relays (markRelayUnavailable t g) = {}"
proof -
  have "\<not> ac_trusted e" if "jget (by_id (markRelayUnavailable t g)) k = Some e" for k e
    using that by (auto simp: markRelayUnavailable_def get_map_conn relay_lost_def)
  then show ?thesis unfolding trusted_relays_def by blast
qed

lemma observations_same: "ac_id (recordObservations obs e) = ac_id e \<and> ac_relay_id (recordObservations obs e) = ac_relay_id e
    \<and> ac_trusted (recordObservations obs e) = ac_trusted e \<and> ac_app_id (recordObservations obs e) = ac_app_id e"
  by (induction obs arbitrary: e) (simp_all add: recordObservations_def recordObservation_def)

lemma authenticated_fields: "ac_id (authenticated_conn g i a r obs t e) = ac_id e"
    "ac_relay_id (authenticated_conn g i a r obs t e) = Some r" "ac_trusted (authenticated_conn g i a r obs t e)"
    "ac_app_id (authenticated_conn g i a r obs t e) = or_else a (ac_app_id e)"
  by (simp_all add: authenticated_conn_def Let_def observations_same)

lemma accept_existing:
  assumes "reg_ok g" "existing = or_else (findByRelayConnectionId r g) (or_else (findByRuntimeKey key g) (findByAppInstanceId inst g))"
    and "existing = Some e"
  shows "\<exists>k. jget (by_id g) k = Some e"
  using assms find_relay_Some[OF reg_okD(1)[OF assms(1)], of r]
  by (auto simp: or_else_def findByRuntimeKey_def findByAppInstanceId_def split: option.splits if_splits)

lemma accept_reg:
  assumes ok: "reg_ok g" and a: "acceptAuthenticatedConnectionDetailed uuid i a r obs t g = ((e', previous), g')"
  shows "reg_ok g'" "trusted_relays g' \<subseteq> trusted_relays g - set_option previous \<union> {r}" "previous \<noteq> Some r"
proof -
  define existing where "existing = or_else (findByRelayConnectionId r g)
    (or_else (findByRuntimeKey (runtimeKey i) g) (findByAppInstanceId (inf_instance i) g))"
  define e0 where "e0 = (case existing of Some e \<Rightarrow> e | None \<Rightarrow> createBaseConnection uuid i a r t g)"
  have e': "e' = authenticated_conn g i a r obs t e0"
    and prev: "previous = (case existing of None \<Rightarrow> None
       | Some e \<Rightarrow> if filled (ac_relay_id e) \<and> ac_relay_id e \<noteq> Some r then ac_relay_id e else None)"
    and g': "by_id g' = jput (ac_id e0) e' (by_id g)"
    using a unfolding acceptAuthenticatedConnectionDetailed_def Let_def existing_def[symmetric] e0_def[symmetric]
    by (auto simp: authenticated_fields)
  note f = authenticated_fields[of g i a r obs t e0, folded e']
  have held: "jget (by_id g) (ac_id e0) = Some e0" if "existing = Some e0"
    using accept_existing[OF ok existing_def that] reg_okD(2)[OF ok] by blast
  have alone: "k = ac_id e0" if "jget (by_id g) k = Some x" "ac_relay_id x = Some r" "r \<noteq> []" for k x
  proof (cases "findByRelayConnectionId r g")
    case None
    with that find_relay_None show ?thesis by blast
  next
    case (Some y)
    then have "existing = Some y" by (simp add: existing_def or_else_def)
    then have "e0 = y" by (simp add: e0_def)
    with held \<open>existing = Some y\<close> that reg_okD(3)[OF ok that(1) _ that(2) _ that(3), of _ y]
      find_relay_Some[OF reg_okD(1)[OF ok] Some] show ?thesis by blast
  qed
  have "one_per_relay (jput (ac_id e0) e' (by_id g))"
    by (rule one_per_relay_put) (use ok f(2) alone in \<open>auto simp: reg_ok_def\<close>)
  then show "reg_ok g'"
    using reg_okD(1,2)[OF ok] f(1) by (simp add: reg_ok_def g')
  show "previous \<noteq> Some r" using prev by (auto split: option.splits)
  have gone: "p \<notin> trusted_relays g'" if p: "previous = Some p" for p
  proof -
    from p prev obtain y where y: "existing = Some y" "ac_relay_id y = Some p" "p \<noteq> []" "p \<noteq> r"
      by (auto split: option.splits if_splits)
    then have "e0 = y" by (simp add: e0_def)
    with y held have y0: "jget (by_id g) (ac_id e0) = Some e0" "ac_relay_id e0 = Some p" by simp_all
    show ?thesis
      using y f(2) reg_okD(3)[OF ok _ y0(1) _ y0(2) y(3)] by (auto simp: trusted_relays_def g' split: if_splits)
  qed
  have "trusted_relays g' \<subseteq> trusted_relays g \<union> {r}"
    using f by (auto simp: trusted_relays_def g' split: if_splits)
  with gone show "trusted_relays g' \<subseteq> trusted_relays g - set_option previous \<union> {r}"
    by (cases previous) auto
qed

lemma new_registry_ok: "reg_ok (new_registry a b c)" "trusted_relays (new_registry a b c) = {}"
  by (simp_all add: reg_ok_def one_per_relay_def trusted_relays_def new_registry_def)

end
