(* ===== verification/GatewaySafety.thy ===== *)
theory GatewaySafety
  imports AgentDispatch RegistryInvariant
begin

text \<open>
  The invariant of the Agent's gate: a relay connection that is trusted belongs to an App, and the App
  is one the owner has approved and not revoked. Every event keeps it; whatever is handed to a
  business handler is handed over under it.
\<close>

declare map_of_eq_Some_iff [simp del] Some_eq_map_of_iff [simp del]

definition active_app :: "string \<Rightarrow> trusted_store \<Rightarrow> bool" where
  "active_app a t \<longleftrightarrow> (\<exists>r. jget (ts_records t) a = Some r \<and> tr_status r = App_active)"

definition gate_but :: "string set \<Rightarrow> gateway \<Rightarrow> bool" where
  "gate_but B s \<longleftrightarrow> reg_ok (gw_registry s) \<and> (\<forall>c \<in> trusted_relays (gw_registry s). jhas (gw_apps s) c)
     \<and> jwf (gw_apps s) \<and> (\<forall>c a. jget (gw_apps s) c = Some a \<longrightarrow> a \<in> B \<or> active_app a (gw_trusted s))
     \<and> (\<forall>c p. jget (gw_peers s) c = Some p \<longrightarrow> ep_app_connection p = c)"

abbreviation gate_ok :: "gateway \<Rightarrow> bool" where
  "gate_ok \<equiv> gate_but {}"

named_theorems gate_intro \<open>operations of the gate keep its invariant\<close>

section \<open>Messages to the transport\<close>

lemma control_not_business: "\<not> isE2EBusinessMessage (control_type c)"
  by (cases c) (simp_all add: isE2EBusinessMessage_def starts_with_def control_type_def)

lemma send_control: "send_out E (Control c) s = (if gw_transport s then did (Sent (Control c)) s else s)"
  using control_not_business[of c] by (simp add: send_out_def outgoing_type_def)

definition same_gate :: "gateway \<Rightarrow> gateway \<Rightarrow> bool" where
  "same_gate s t \<longleftrightarrow> gw_registry t = gw_registry s \<and> gw_apps t = gw_apps s \<and> gw_trusted t = gw_trusted s \<and> gw_peers t = gw_peers s"

lemma send_control_fields [simp]:
  "gw_registry (send_out E (Control c) s) = gw_registry s" "gw_apps (send_out E (Control c) s) = gw_apps s"
  "gw_trusted (send_out E (Control c) s) = gw_trusted s" "gw_peers (send_out E (Control c) s) = gw_peers s"
  "gw_pending (send_out E (Control c) s) = gw_pending s" "gw_now (send_out E (Control c) s) = gw_now s"
  by (simp_all add: send_control did_def)

lemma failure_fields [simp]:
  "gw_registry (sendAuthFailure E c r s) = gw_registry s" "gw_apps (sendAuthFailure E c r s) = gw_apps s"
  "gw_trusted (sendAuthFailure E c r s) = gw_trusted s" "gw_peers (sendAuthFailure E c r s) = gw_peers s"
  "gw_pending (sendAuthFailure E c r s) = gw_pending s" "gw_now (sendAuthFailure E c r s) = gw_now s"
  by (simp_all add: sendAuthFailure_def)

lemma detach_fields [simp]:
  "gw_registry (detachSupersededAppConnection c s) = gw_registry s"
  "gw_apps (detachSupersededAppConnection c s) = jdel c (gw_apps s)"
  "gw_trusted (detachSupersededAppConnection c s) = gw_trusted s"
  "gw_peers (detachSupersededAppConnection c s) = jdel c (gw_peers s)"
  "gw_pending (detachSupersededAppConnection c s) = gw_pending s"
  "gw_now (detachSupersededAppConnection c s) = gw_now s"
  by (simp_all add: detachSupersededAppConnection_def did_def)

lemma gate_but_cong:
  "gw_registry t = gw_registry s \<Longrightarrow> gw_apps t = gw_apps s \<Longrightarrow> gw_trusted t = gw_trusted s \<Longrightarrow> gw_peers t = gw_peers s
    \<Longrightarrow> gate_but B s \<Longrightarrow> gate_but B t"
  by (simp add: gate_but_def)

lemma gate_control [gate_intro]: "gate_but B s \<Longrightarrow> gate_but B (send_out E (Control c) s)"
  by (rule gate_but_cong[of _ s]) simp_all

lemma gate_failure [gate_intro]: "gate_but B s \<Longrightarrow> gate_but B (sendAuthFailure E c r s)"
  by (rule gate_but_cong[of _ s]) simp_all

lemma gate_did [gate_intro]: "gate_but B s \<Longrightarrow> gate_but B (did e s)"
  by (rule gate_but_cong[of _ s]) (simp_all add: did_def)

lemma gate_calm:
  assumes "gate_but B s" "calm (gw_registry s) (f (gw_registry s))"
  shows "gate_but B (on_registry f s)"
  using assms calmD[OF assms(2)] unfolding gate_but_def on_registry_def by auto

lemma gate_peer:
  "gate_but B s \<Longrightarrow> ep_app_connection p = c \<Longrightarrow> gate_but B (s\<lparr>gw_peers := jput c p (gw_peers s)\<rparr>)"
  by (auto simp: gate_but_def)

lemma gate_no_peer: "gate_but B s \<Longrightarrow> gate_but B (s\<lparr>gw_peers := jdel c (gw_peers s)\<rparr>)"
  by (auto simp: gate_but_def)

lemma gate_peers_conn: "gate_but B s \<Longrightarrow> jget (gw_peers s) c = Some p \<Longrightarrow> ep_app_connection p = c"
  by (simp add: gate_but_def)

lemma gate_sendTo [gate_intro]:
  assumes "gate_but B s"
  shows "gate_but B (snd (sendToAppByConnectionId E c m ch bp s))"
proof (cases "jget (gw_peers s) c")
  case (Some p)
  have "gate_but B (s\<lparr>gw_peers := jput c (p\<lparr>ep_session := x\<rparr>) (gw_peers s)\<rparr>)" for x
    using gate_peer[OF assms, of "p\<lparr>ep_session := x\<rparr>" c] gate_peers_conn[OF assms Some] by simp
  with assms Some show ?thesis
    by (auto simp: sendToAppByConnectionId_def Let_def intro!: gate_did gate_calm split: prod.split sum.split)
qed (simp add: sendToAppByConnectionId_def assms)

lemma gate_broadcast: "gate_but B s \<Longrightarrow> gate_but B (snd (broadcast E m cs s))"
proof (induction cs arbitrary: s)
  case (Cons c cs)
  from gate_sendTo[OF Cons.prems, of E c m None False]
  show ?case by (cases "sendToAppByConnectionId E c m None False s") (auto simp: Cons.IH split: bool.split)
qed simp

lemma gate_send_out [gate_intro]: "gate_but B s \<Longrightarrow> gate_but B (send_out E m s)"
  by (auto simp: send_out_def broadcastToReadyApps_def gate_broadcast intro: gate_did split: outgoing.split)

section \<open>Connections let go\<close>

lemma gate_detach [gate_intro]:
  assumes "gate_but B s" "c \<notin> trusted_relays (gw_registry s)"
  shows "gate_but B (detachSupersededAppConnection c s)"
  using assms unfolding gate_but_def by auto

lemma gate_part: "gate_but B s \<Longrightarrow> reg_ok (gw_registry s)"
  by (simp add: gate_but_def)

lemma gate_goodbye_detach:
  assumes "gate_but B s"
  shows "gate_but B (detachSupersededAppConnection c (on_registry (markGoodbye c sq t) s))"
proof (rule gate_detach)
  show "gate_but B (on_registry (markGoodbye c sq t) s)" using assms by (rule gate_calm) simp
  show "c \<notin> trusted_relays (gw_registry (on_registry (markGoodbye c sq t) s))"
    using goodbye_relays[OF gate_part[OF assms]] by (auto simp: on_registry_def)
qed

lemma gate_disconnect_one [gate_intro]: "gate_but B s \<Longrightarrow> gate_but B (disconnect_one E c s)"
  unfolding disconnect_one_def by (intro gate_goodbye_detach gate_failure)

lemma gate_failE2E [gate_intro]: "gate_but B s \<Longrightarrow> gate_but B (failE2ESession E c r s)"
  unfolding failE2ESession_def by (intro gate_goodbye_detach gate_control)

lemma disconnect_one_fields [simp]: "gw_apps (disconnect_one E c s) = jdel c (gw_apps s)"
  "gw_trusted (disconnect_one E c s) = gw_trusted s"
  by (simp_all add: disconnect_one_def on_registry_def)

lemma disconnect_all:
  "gate_but B s \<Longrightarrow> gate_but B (fold (disconnect_one E) cs s)"
  "gw_trusted (fold (disconnect_one E) cs s) = gw_trusted s"
  "jget (gw_apps (fold (disconnect_one E) cs s)) c = (if c \<in> set cs then None else jget (gw_apps s) c)"
  by (induction cs arbitrary: s) (auto intro: gate_disconnect_one)

lemma gate_disconnectApp:
  assumes "gate_but {a} s"
  shows "gate_ok (disconnectApp E a s)"
proof -
  let ?cs = "map fst (filter (\<lambda>(c, b). b = a) (gw_apps s))"
  have "c \<in> set ?cs" if "jget (gw_apps s) c = Some a" for c
    using that by (force dest: map_of_SomeD)
  then have "jget (gw_apps (disconnectApp E a s)) c \<noteq> Some a" for c
    by (auto simp: disconnectApp_def disconnect_all(3))
  with disconnect_all(1)[OF assms, of E ?cs] show ?thesis
    unfolding disconnectApp_def gate_but_def by auto
qed

section \<open>Trust\<close>

lemma revoke_active: "b \<noteq> a \<Longrightarrow> active_app b t \<Longrightarrow> active_app b (snd (revoke a n t))"
  by (auto simp: revoke_def active_app_def persist_def split: option.split)

lemma remove_active: "b \<noteq> a \<Longrightarrow> active_app b t \<Longrightarrow> active_app b (snd (remove_trusted a t))"
  by (auto simp: remove_trusted_def active_app_def persist_def)

lemma markSeen_active [simp]: "active_app b (markSeen a n t) \<longleftrightarrow> active_app b t"
  by (auto simp: markSeen_def active_app_def persist_def split: option.splits)

lemma approve_active:
  assumes "approve cr a key name pf sc n t = Some (r, u)"
  shows "active_app b u \<longleftrightarrow> b = a \<or> active_app b t" "tr_status r = App_active"
  using assms by (auto simp: approve_def active_app_def persist_def Let_def split: if_splits)

lemma gate_trusted:
  assumes "gate_but B s" "\<And>b. active_app b (gw_trusted s) \<Longrightarrow> b \<in> B' \<or> active_app b t" "B \<subseteq> B'"
  shows "gate_but B' (s\<lparr>gw_trusted := t\<rparr>)"
  using assms unfolding gate_but_def by simp blast

lemma gate_revokeApp [gate_intro]:
  assumes "gate_ok s"
  shows "gate_ok (revokeApp E a s)"
proof -
  obtain done' t where r: "revoke a (gw_now s) (gw_trusted s) = (done', t)" by (cases "revoke a (gw_now s) (gw_trusted s)")
  have "gate_but {a} (s\<lparr>gw_trusted := t\<rparr>)"
    using gate_trusted[OF assms, of "{a}" t] revoke_active[of _ a "gw_trusted s" "gw_now s"] r by auto
  with assms r show ?thesis by (auto simp: revokeApp_def intro: gate_disconnectApp split: bool.split)
qed

lemma gate_pending [gate_intro]: "gate_but B s \<Longrightarrow> gate_but B (s\<lparr>gw_pending := x\<rparr>)"
  by (rule gate_but_cong[of _ s]) simp_all

lemma gate_drop_pending: "gate_but B s \<Longrightarrow> gate_but B (fold (drop_pending E) xs s)"
  by (induction xs arbitrary: s) (auto simp: drop_pending_def intro!: gate_failure gate_pending)

lemma gate_removeApp [gate_intro]:
  assumes "gate_ok s"
  shows "gate_ok (removeApp E a s)"
proof -
  obtain done' t where r: "remove_trusted a (gw_trusted s) = (done', t)" by (cases "remove_trusted a (gw_trusted s)")
  have "gate_but {a} (s\<lparr>gw_trusted := t\<rparr>)"
    using gate_trusted[OF assms, of "{a}" t] remove_active[of _ a "gw_trusted s"] r by auto
  then have "gate_ok (on_registry (\<lambda>g. snd (remove_conns a g)) (disconnectApp E a
      (fold (drop_pending E) xs (s\<lparr>gw_trusted := t\<rparr>))))" for xs
    by (intro gate_calm gate_disconnectApp gate_drop_pending) simp_all
  with assms r show ?thesis by (auto simp: removeApp_def split: bool.split)
qed

section \<open>Proofs\<close>

lemma gate_accept_app:
  assumes "gate_ok s" "active_app (vf_app_id v) (gw_trusted s)"
  shows "gate_ok (accept_app E v s)"
proof -
  define s1 where "s1 = s\<lparr>gw_replay := remember (replay_key v) (gw_replay s),
    gw_apps := jput (vf_connection_id v) (vf_app_id v) (gw_apps s)\<rparr>"
  obtain e prev g where acc: "acceptAuthenticatedConnectionDetailed (ge_uuid E (gw_uuid_count s)) (vf_app_info v) (Some (vf_app_id v))
      (vf_connection_id v) (vf_observations v) (gw_now s) (gw_registry s) = ((e, prev), g)" by (metis prod.exhaust_sel)
  note reg = accept_reg[OF gate_part[OF assms(1)] acc]
  define s2 where "s2 = s1\<lparr>gw_registry := g, gw_uuid_count := gw_uuid_count s1 + 1\<rparr>"
  have s2: "gate_ok s2"
    using assms reg(1,2) unfolding gate_but_def s2_def s1_def by auto
  define s3 where "s3 = (case prev of None \<Rightarrow> s2 | Some c \<Rightarrow> detachSupersededAppConnection c s2)"
  have "gate_ok s3"
    using s2 reg(2,3) by (auto simp: s3_def s2_def intro!: gate_detach split: option.split)
  moreover have "accept_app E v s = s3\<lparr>gw_trusted := markSeen (vf_app_id v) (gw_now s3) (gw_trusted s3)\<rparr>"
    using acc by (cases prev) (simp_all add: accept_app_def Let_def s3_def s2_def s1_def)
  ultimately show ?thesis using gate_trusted[of "{}" s3 "{}"] by simp
qed

lemma gate_authorizeApp:
  assumes "gate_ok s" "active_app (vf_app_id v) (gw_trusted s)"
  shows "gate_ok (authorizeApp E v r s)"
  using assms gate_accept_app[OF assms]
  by (auto simp: authorizeApp_def Let_def intro!: gate_intro split: option.split)

lemma gate_trustApp:
  assumes "gate_ok s" "trustApp E v s = Some (r, u)"
  shows "gate_ok u \<and> active_app (vf_app_id v) (gw_trusted u)"
proof -
  obtain t where t: "approve (ge_crypto E) (vf_app_id v) (vf_app_public_key v)
      (or_else (Option.bind (inf_device (vf_app_info v)) di_name) (Option.bind (inf_app (vf_app_info v)) ci_name))
      (Option.bind (inf_device (vf_app_info v)) di_platform) (vf_requested_scopes v) (gw_now s) (gw_trusted s) = Some (r, t)"
    "u = s\<lparr>gw_trusted := t\<rparr>" using assms(2) by (auto simp: trustApp_def)
  with approve_active(1)[OF t(1)] show ?thesis using gate_trusted[OF assms(1), of "{}" t] by simp
qed

lemma gate_trust_authorize:
  assumes "gate_ok s"
  shows "gate_ok (case trustApp E v s of None \<Rightarrow> s | Some (r, s) \<Rightarrow> authorizeApp E v r s)"
  using assms gate_trustApp[OF assms] by (auto intro!: gate_authorizeApp split: option.split)

lemma gate_ask_owner: "gate_ok s \<Longrightarrow> gate_ok (ask_owner E v s)"
  unfolding ask_owner_def Let_def by (intro gate_intro)

lemma handleAuthVerify_cases:
  obtains (refused) r where "handleAuthVerify E from v s = sendAuthFailure E (vf_connection_id v) r s"
    | (known) r where "handleAuthVerify E from v s = authorizeApp E v r s" "trusted_get (vf_app_id v) (gw_trusted s) = Some r"
        "tr_status r = App_active" "tr_publicKey r = vf_app_public_key v" "proof_signed E v" "from = Some (vf_connection_id v)"
    | (automatic) "handleAuthVerify E from v s = (case trustApp E v s of None \<Rightarrow> s | Some (r, s) \<Rightarrow> authorizeApp E v r s)"
        "ge_automatic E" "\<not> active_app (vf_app_id v) (gw_trusted s)" "proof_signed E v" "from = Some (vf_connection_id v)"
    | (asked) "handleAuthVerify E from v s = ask_owner E v s" "\<not> ge_automatic E" "\<not> active_app (vf_app_id v) (gw_trusted s)"
        "proof_signed E v" "from = Some (vf_connection_id v)"
proof (cases "\<exists>r. handleAuthVerify E from v s = sendAuthFailure E (vf_connection_id v) r s")
  case True
  then show ?thesis using refused by blast
next
  case False
  from False have replay: "\<not> replay_has (replay_key v) (gw_replay s)" by (auto simp: handleAuthVerify_def)
  obtain a where a: "gw_agent_connection s = Some a" "a \<noteq> []"
    using False replay by (cases "gw_agent_connection s") (auto simp: handleAuthVerify_def split: if_splits)
  have matches: "proof_matches E a from v" using False replay a
    by (rule_tac ccontr) (auto simp: handleAuthVerify_def)
  have fresh: "\<not> \<bar>gw_now s - vf_timestamp v\<bar> > 60000" using False replay a matches
    by (rule_tac ccontr) (auto simp: handleAuthVerify_def)
  have signed: "proof_signed E v" using False replay a matches fresh
    by (rule_tac ccontr) (auto simp: handleAuthVerify_def)
  have eq: "handleAuthVerify E from v s = (case trusted_get (vf_app_id v) (gw_trusted s) of
      Some r \<Rightarrow>
       (if tr_status r = App_active
        then if tr_publicKey r \<noteq> vf_app_public_key v then sendAuthFailure E (vf_connection_id v) Identity_mismatch s
          else authorizeApp E v r s
        else if ge_automatic E
        then (case trustApp E v s of None \<Rightarrow> s | Some (r, s) \<Rightarrow> authorizeApp E v r s)
        else ask_owner E v s)
    | None \<Rightarrow>
       (if ge_automatic E
        then (case trustApp E v s of None \<Rightarrow> s | Some (r, s) \<Rightarrow> authorizeApp E v r s)
        else ask_owner E v s))"
    using replay a matches fresh signed by (simp add: handleAuthVerify_def)
  have from_v: "from = Some (vf_connection_id v)" using matches by (simp add: proof_matches_def)
  show ?thesis
  proof (cases "trusted_get (vf_app_id v) (gw_trusted s)")
    case None
    then show ?thesis using eq automatic asked signed from_v
      by (cases "ge_automatic E") (simp_all add: trusted_get_def active_app_def)
  next
    case (Some r)
    then have act: "active_app (vf_app_id v) (gw_trusted s) \<longleftrightarrow> tr_status r = App_active"
      by (simp add: trusted_get_def active_app_def)
    show ?thesis
    proof (cases "tr_status r = App_active")
      case True
      then show ?thesis using eq Some refused known signed from_v by (cases "tr_publicKey r = vf_app_public_key v") simp_all
    next
      case False
      then show ?thesis using eq Some act automatic asked signed from_v by (cases "ge_automatic E") simp_all
    qed
  qed
qed

lemma gate_handleAuthVerify [gate_intro]:
  assumes "gate_ok s"
  shows "gate_ok (handleAuthVerify E from v s)"
proof (cases rule: handleAuthVerify_cases[of E "from" v s])
  case (known r)
  then show ?thesis using assms by (simp add: gate_authorizeApp trusted_get_def active_app_def)
qed (use assms gate_trust_authorize[OF assms] in \<open>simp_all add: gate_failure gate_ask_owner\<close>)

lemma gate_approvePairing [gate_intro]: "gate_ok s \<Longrightarrow> gate_ok (approvePairing E rid s)"
  unfolding approvePairing_def Let_def
  by (cases "jget (gw_pending s) rid") (simp_all add: gate_failure gate_pending gate_trust_authorize)

section \<open>Encrypted sessions and business\<close>

lemma gate_handshake [gate_intro]:
  assumes "gate_ok s"
  shows "gate_ok (handleE2EHandshakeInit E i s)"
proof -
  have "gate_ok (s\<lparr>gw_key_count := n\<rparr>)" for n using assms by (rule gate_but_cong[rotated 4]) simp_all
  then show ?thesis using assms
    by (auto simp: handleE2EHandshakeInit_def Let_def intro!: gate_control gate_peer[of "{}" "s\<lparr>gw_key_count := Suc (gw_key_count s)\<rparr>", simplified]
        gate_no_peer[of "{}" "s\<lparr>gw_key_count := Suc (gw_key_count s)\<rparr>", simplified] split: option.split sum.split)
qed

lemma gate_ready [gate_intro]:
  assumes "gate_ok s"
  shows "gate_ok (handleE2EReady E r s)"
proof (cases "jget (gw_peers s) (rp_app_connection_id r)")
  case (Some p)
  then show ?thesis using assms gate_peers_conn[OF assms Some]
    by (auto simp: handleE2EReady_def Let_def intro!: gate_failE2E gate_calm gate_peer)
qed (simp add: handleE2EReady_def assms)

lemma gate_open [gate_intro]:
  assumes "gate_ok s"
  shows "gate_ok (snd (open_e2e E f s))"
proof (cases "jget (gw_peers s) (fr_app_connection_id f)")
  case (Some p)
  have "gate_ok (s\<lparr>gw_peers := jput (fr_app_connection_id f) (p\<lparr>ep_session := x\<rparr>) (gw_peers s)\<rparr>)" for x
    using gate_peer[OF assms, of "p\<lparr>ep_session := x\<rparr>"] gate_peers_conn[OF assms Some] by simp
  with Some assms show ?thesis
    by (auto simp: open_e2e_def Let_def intro!: gate_failE2E gate_calm split: prod.split sum.split)
qed (simp add: open_e2e_def assms)

lemma gate_reject [gate_intro]: "gate_ok s \<Longrightarrow> gate_ok (snd (rejectUnencryptedBusiness E m tr s))"
  by (auto simp: rejectUnencryptedBusiness_def requestRelayAppDelivery_def intro: gate_did)

lemma gate_record_conn [gate_intro]:
  assumes "gate_ok s"
  shows "gate_ok (snd (recordInboundBusinessForConnection E m c tr allow s))"
proof (cases "if allow then (False, s) else rejectUnencryptedBusiness E m tr s")
  case (Pair b t)
  then have "gate_ok t" using assms gate_reject[OF assms, of E m tr] by (cases allow) auto
  with Pair show ?thesis
    by (cases b) (auto simp: recordInboundBusinessForConnection_def intro!: gate_calm)
qed

lemma gate_record [gate_intro]: "gate_ok s \<Longrightarrow> gate_ok (snd (recordInboundBusiness E m ctx tr s))"
  unfolding recordInboundBusiness_def by (rule gate_record_conn)

lemma gate_run_handlers [gate_intro]: "gate_ok s \<Longrightarrow> gate_ok (run_handlers hs m ctx s)"
  unfolding run_handlers_def by (induction hs arbitrary: s) (auto intro: gate_did)

lemma gate_after:
  "gate_ok (snd x) \<Longrightarrow> (\<And>t. gate_ok t \<Longrightarrow> gate_ok (f t)) \<Longrightarrow> gate_ok (case x of (False, s) \<Rightarrow> s | (True, s) \<Rightarrow> f s)"
  by (cases x) (auto split: bool.split)

lemma gate_dispatch [gate_intro]: "gate_ok s \<Longrightarrow> gate_ok (dispatch E n m ctx s)"
proof (induction n arbitrary: m ctx s)
  case 0
  then show ?case by (auto intro: gate_but_cong)
next
  case (Suc n)
  show ?case
  proof (cases "am_content m")
    case (E2e_message f)
    obtain d t where o: "open_e2e E f s = (d, t)" by (cases "open_e2e E f s")
    with gate_open[OF Suc.prems, of E f] have "gate_ok t" by simp
    with E2e_message o Suc.IH show ?thesis by (simp add: Let_def split: option.split)
  qed (simp_all add: Let_def handleConnectionHeartbeat_def handleConnectionGoodbye_def handle_business_def handle_propose_def
      gate_intro Suc.prems gate_calm gate_after split: option.split)
qed

lemma gate_step:
  assumes "gate_ok s"
  shows "gate_ok (gateway_step E e s)"
proof (cases e)
  case (Incoming m)
  then show ?thesis using gate_dispatch[OF assms] by (simp add: gateway_step_def dispatch_message_def del: dispatch.simps)
next
  case Relay_lost
  have "reg_ok (markRelayUnavailable (gw_now s) (gw_registry s))"
    using calmD(1)[OF calm_markRelayUnavailable gate_part[OF assms]] .
  then show ?thesis
    by (simp add: Relay_lost gateway_step_def clearRelayAppConnectionState_def on_registry_def gate_but_def unavailable_relays)
next
  case (Agent_connection a)
  then show ?thesis using assms by (simp add: gateway_step_def gate_but_def)
next
  case (Transport_up b)
  then show ?thesis using assms by (simp add: gateway_step_def gate_but_def)
next
  case (Time_passes k)
  then show ?thesis using assms by (simp add: gateway_step_def gate_but_def)
qed (use assms in \<open>auto simp: gateway_step_def rejectPairing_def pairing_timeout_def sendToApp_def
    intro!: gate_intro gate_calm split: option.split\<close>)

interpretation gate: invariant_machine "gateway_step E" gate_ok "\<lambda>_. True"
  by unfold_locales (rule gate_step)

lemma new_gateway_ok: "gate_ok (new_gateway (new_registry a b c) t n)"
  by (simp add: gate_but_def new_gateway_def new_registry_ok)

end
