(* ===== verification/GatewayEffects.thy ===== *)
theory GatewayEffects
  imports AgentDispatch GatewaySafety
begin

text \<open>
  What an event makes the Agent's gate do: requests handed to business handlers come out of
  frames of ready sessions with Apps that are approved at that moment, and what goes to the transport is
  either control traffic or sealed under the key of such a session.
\<close>

declare map_of_eq_Some_iff [simp del] Some_eq_map_of_iff [simp del]

definition approved :: "gateway \<Rightarrow> string \<Rightarrow> bool" where
  "approved s c \<longleftrightarrow> (\<exists>a. jget (gw_apps s) c = Some a \<and> active_app a (gw_trusted s))"

text \<open>A message that came out of a frame, opened by the session of a ready peer.\<close>

definition unsealed :: "agent_env \<Rightarrow> gateway \<Rightarrow> string \<Rightarrow> agent_message \<Rightarrow> bool" where
  "unsealed E s c m \<longleftrightarrow> (\<exists>p f inner. jget (gw_peers s) c = Some p \<and> ep_ready p \<and> fr_app_connection_id f = c
     \<and> fr_session_id f = se_session_id (ep_session p)
     \<and> open_frame (ge_crypto E) (ge_parse E) f (ep_session p) = Some inner \<and> m = innerToMessage inner)"

text \<open>A frame made by the session of a ready peer.\<close>

definition sealed_for :: "agent_env \<Rightarrow> gateway \<Rightarrow> string \<Rightarrow> e2e_frame \<Rightarrow> bool" where
  "sealed_for E s c f \<longleftrightarrow> (\<exists>p nonce aad m. jget (gw_peers s) c = Some p \<and> ep_ready p
     \<and> fr_session_id f = se_session_id (ep_session p)
     \<and> fr_ciphertext f = toBase64Url (cr_seal (ge_crypto E) (se_tx_key (ep_session p)) nonce aad (ge_write E m)))"

definition business_ok :: "agent_env \<Rightarrow> gateway \<Rightarrow> handler \<Rightarrow> agent_message \<Rightarrow> agent_context option \<Rightarrow> bool" where
  "business_ok E s h m ctx \<longleftrightarrow>
     (\<exists>c. ctx = Some \<lparr>cx_app = c, cx_trusted = True\<rparr> \<and> unsealed E s c m \<and> approved s c)
     \<or> h = Upgrade_propose \<and> (\<exists>c. am_content m = Propose_upgrade c \<and> approved s c \<and> (hasReadyE2EPeer c s \<or> (\<exists>c'. unsealed E s c' m)))"

definition effect_ok :: "agent_env \<Rightarrow> gateway \<Rightarrow> agent_effect \<Rightarrow> bool" where
  "effect_ok E s x = (case x of
     Handled h m ctx \<Rightarrow> business_ok E s h m ctx
   | Sent m \<Rightarrow> \<not> isE2EBusinessMessage (outgoing_type m)
   | Sent_frame f _ _ \<Rightarrow> (\<exists>c. approved s c \<and> sealed_for E s c f)
   | Superseded _ \<Rightarrow> True)"

definition emits :: "agent_env \<Rightarrow> gateway \<Rightarrow> gateway \<Rightarrow> gateway \<Rightarrow> bool" where
  "emits E s0 s t \<longleftrightarrow> (\<exists>new. gw_effects t = gw_effects s @ new \<and> list_all (effect_ok E s0) new)"

named_theorems emits_intro \<open>operations of the gate only have permitted effects\<close>

lemma emits_same: "gw_effects t = gw_effects s \<Longrightarrow> emits E s0 s t"
  by (auto simp: emits_def)

lemma emits_idle [simp]: "emits E s0 s s"
  by (rule emits_same) simp

lemma emits_trans: "emits E s0 s t \<Longrightarrow> emits E s0 t u \<Longrightarrow> emits E s0 s u"
  unfolding emits_def by (metis append.assoc list_all_append)

lemma emits_did: "effect_ok E s0 x \<Longrightarrow> emits E s0 s t \<Longrightarrow> emits E s0 s (did x t)"
  unfolding emits_def did_def by auto

lemma emits_cong: "gw_effects u = gw_effects t \<Longrightarrow> emits E s0 s t \<Longrightarrow> emits E s0 s u"
  by (simp add: emits_def)

lemma emits_on_registry [emits_intro]: "emits E s0 s t \<Longrightarrow> emits E s0 s (on_registry f t)"
  by (simp add: emits_def on_registry_def)

lemma emits_control [emits_intro]: "emits E s0 s t \<Longrightarrow> emits E s0 s (send_out E (Control c) t)"
  using control_not_business[of c] by (auto simp: send_control effect_ok_def outgoing_type_def intro: emits_did)

lemma emits_failure [emits_intro]: "emits E s0 s t \<Longrightarrow> emits E s0 s (sendAuthFailure E c r t)"
  unfolding sendAuthFailure_def by (rule emits_control)

lemma emits_detach [emits_intro]: "emits E s0 s t \<Longrightarrow> emits E s0 s (detachSupersededAppConnection c t)"
  unfolding detachSupersededAppConnection_def by (rule emits_did) (simp_all add: effect_ok_def emits_def)

lemma emits_failE2E [emits_intro]: "emits E s0 s t \<Longrightarrow> emits E s0 s (failE2ESession E c r t)"
  unfolding failE2ESession_def by (intro emits_intro)

lemma emits_disconnect_one [emits_intro]: "emits E s0 s t \<Longrightarrow> emits E s0 s (disconnect_one E c t)"
  unfolding disconnect_one_def by (intro emits_intro)

lemma emits_disconnectApp [emits_intro]: "emits E s0 s t \<Longrightarrow> emits E s0 s (disconnectApp E a t)"
proof -
  have "emits E s0 s t \<Longrightarrow> emits E s0 s (fold (disconnect_one E) cs t)" for cs t
    by (induction cs arbitrary: t) (auto intro: emits_disconnect_one)
  then show "emits E s0 s t \<Longrightarrow> emits E s0 s (disconnectApp E a t)" by (simp add: disconnectApp_def)
qed

lemma emits_trusted [simp]: "emits E s0 s (s\<lparr>gw_trusted := y\<rparr>)"
  by (rule emits_same) simp

lemma emits_removeApp [emits_intro]: "emits E s0 s (removeApp E a s)"
proof -
  have "emits E s0 s t \<Longrightarrow> emits E s0 s (fold (drop_pending E) xs t)" for xs t
  proof (induction xs arbitrary: t)
    case (Cons x xs)
    have "emits E s0 s (t\<lparr>gw_pending := y\<rparr>)" for y using Cons.prems by (rule emits_cong[rotated]) simp
    with Cons.IH show ?case by (cases x) (simp add: drop_pending_def emits_failure)
  qed simp
  then show ?thesis
    by (cases "remove_trusted a (gw_trusted s)")
      (auto simp: removeApp_def intro!: emits_on_registry emits_disconnectApp emits_trusted split: bool.split)
qed

lemma emits_accept_app: "emits E s0 s (accept_app E v s)"
  by (auto simp: accept_app_def Let_def detachSupersededAppConnection_def did_def emits_def effect_ok_def split: prod.split option.split)

lemma emits_authorizeApp: "emits E s0 s (authorizeApp E v r s)"
  using emits_accept_app[of E s0 s v]
  by (auto simp: authorizeApp_def Let_def intro!: emits_failure emits_control split: option.split)

lemma emits_trust_authorize: "emits E s0 s (case trustApp E v s of None \<Rightarrow> s | Some (r, s) \<Rightarrow> authorizeApp E v r s)"
proof (cases "trustApp E v s")
  case (Some ru)
  then obtain r u where ru: "ru = (r, u)" "gw_effects u = gw_effects s" by (cases ru) (auto simp: trustApp_def)
  then have "emits E s0 s u" by (intro emits_same)
  with Some ru emits_trans[OF _ emits_authorizeApp] show ?thesis by simp
qed simp

lemma emits_handleAuthVerify [emits_intro]: "emits E s0 s (handleAuthVerify E from v s)"
proof (cases rule: handleAuthVerify_cases[of E "from" v s])
  case asked
  have "emits E s0 s (s\<lparr>gw_pending := y\<rparr>)" for y by (rule emits_same) simp
  with asked(1) show ?thesis by (simp add: ask_owner_def Let_def emits_control)
qed (simp_all add: emits_failure emits_authorizeApp emits_trust_authorize)

lemma emits_pending: "emits E s0 s (s\<lparr>gw_pending := y\<rparr>)"
  by (rule emits_same) simp

lemma emits_approvePairing [emits_intro]: "emits E s0 s (approvePairing E rid s)"
  using emits_trans[OF emits_pending emits_trust_authorize]
  by (cases "jget (gw_pending s) rid") (simp_all add: approvePairing_def Let_def emits_failure emits_pending)

lemma emits_handshake [emits_intro]: "emits E s0 s (handleE2EHandshakeInit E i s)"
proof -
  have "emits E s0 s (s\<lparr>gw_key_count := n, gw_peers := y\<rparr>)" for n y by (rule emits_same) simp
  then show ?thesis
    by (auto simp: handleE2EHandshakeInit_def Let_def intro!: emits_control split: option.split sum.split)
qed

lemma emits_peers [simp]: "emits E s0 s (s\<lparr>gw_peers := y\<rparr>)"
  by (rule emits_same) simp

lemma emits_ready [emits_intro]: "emits E s0 s (handleE2EReady E r s)"
  by (auto simp: handleE2EReady_def Let_def intro!: emits_failE2E emits_on_registry split: option.split)

lemma emits_reject [emits_intro]: "emits E s0 s (snd (rejectUnencryptedBusiness E m tr s))"
  by (auto simp: rejectUnencryptedBusiness_def requestRelayAppDelivery_def effect_ok_def outgoing_type_def control_type_def
      isE2EBusinessMessage_def starts_with_def intro!: emits_did)

lemma emits_record_conn: "emits E s0 s (snd (recordInboundBusinessForConnection E m c tr allow s))"
proof (cases "if allow then (False, s) else rejectUnencryptedBusiness E m tr s")
  case (Pair b t)
  then have "emits E s0 s t" using emits_reject[of E s0 s m tr] by (cases allow) auto
  with Pair show ?thesis
    by (cases b) (auto simp: recordInboundBusinessForConnection_def intro!: emits_on_registry)
qed

section \<open>States within one event\<close>

text \<open>The same session, its counters apart.\<close>

definition same_session :: "e2e_session \<Rightarrow> e2e_session \<Rightarrow> bool" where
  "same_session x y \<longleftrightarrow> x\<lparr>se_tx_seq := 0, se_expected := 0\<rparr> = y\<lparr>se_tx_seq := 0, se_expected := 0\<rparr>"

lemma counters_apart: "messageAad (x\<lparr>se_tx_seq := n, se_expected := k\<rparr>) sq d = messageAad x sq d"
    "open_frame cr dec f (x\<lparr>se_tx_seq := n, se_expected := k\<rparr>) = open_frame cr dec f x"
proof -
  have keys: "se_rx_key (x\<lparr>se_tx_seq := n, se_expected := k\<rparr>) = se_rx_key x"
    and aad: "messageAad (x\<lparr>se_tx_seq := n, se_expected := k\<rparr>) sq d = messageAad x sq d" for sq d
    by (simp_all add: messageAad_def)
  show "messageAad (x\<lparr>se_tx_seq := n, se_expected := k\<rparr>) sq d = messageAad x sq d" by (rule aad)
  show "open_frame cr dec f (x\<lparr>se_tx_seq := n, se_expected := k\<rparr>) = open_frame cr dec f x"
    unfolding open_frame_def keys aad by (rule refl)
qed

lemma same_session_fields:
  assumes "same_session x y"
  shows "se_session_id x = se_session_id y" "se_tx_key x = se_tx_key y" "open_frame cr dec f x = open_frame cr dec f y"
proof -
  let ?z = "\<lambda>x :: e2e_session. x\<lparr>se_tx_seq := 0, se_expected := 0\<rparr>"
  have z: "?z x = ?z y" using assms by (simp add: same_session_def)
  from arg_cong[OF z, of se_session_id] show "se_session_id x = se_session_id y" by simp
  from arg_cong[OF z, of se_tx_key] show "se_tx_key x = se_tx_key y" by simp
  from arg_cong[OF z, of "open_frame cr dec f"] show "open_frame cr dec f x = open_frame cr dec f y"
    by (simp only: counters_apart)
qed

lemma same_session_refl [simp]: "same_session x x"
  by (simp add: same_session_def)

lemma same_session_counters [simp]: "same_session (x\<lparr>se_tx_seq := n\<rparr>) y \<longleftrightarrow> same_session x y"
    "same_session (x\<lparr>se_expected := n\<rparr>) y \<longleftrightarrow> same_session x y"
  by (simp_all add: same_session_def)

definition later :: "gateway \<Rightarrow> gateway \<Rightarrow> bool" where
  "later s0 s \<longleftrightarrow> gate_ok s \<and> gw_apps s = gw_apps s0 \<and> gw_trusted s = gw_trusted s0
     \<and> (\<forall>c p. jget (gw_peers s) c = Some p \<longrightarrow> (\<exists>q. jget (gw_peers s0) c = Some q \<and> ep_ready p = ep_ready q
          \<and> same_session (ep_session p) (ep_session q)))"

lemma later_refl: "gate_ok s \<Longrightarrow> later s s"
  unfolding later_def by auto

lemma later_approved: "later s0 s \<Longrightarrow> hasAuthenticatedConnection c (gw_registry s) \<Longrightarrow> approved s0 c"
  using hasAuthenticated_trusted reg_okD(1) gate_part
  unfolding later_def approved_def gate_but_def jhas_def by (metis empty_iff not_None_eq)

lemma later_ready: "later s0 s \<Longrightarrow> hasReadyE2EPeer c s \<Longrightarrow> hasReadyE2EPeer c s0"
  unfolding later_def hasReadyE2EPeer_def by (fastforce split: option.splits)

lemma later_session:
  assumes "later s0 s" "jget (gw_peers s) c = Some p"
    "session = (ep_session p)\<lparr>se_expected := k\<rparr> \<or> session = (ep_session p)\<lparr>se_tx_seq := k\<rparr>"
  shows "later s0 (s\<lparr>gw_peers := jput c (p\<lparr>ep_session := session\<rparr>) (gw_peers s)\<rparr>)"
proof -
  have ok: "gate_ok s" using assms(1) by (simp add: later_def)
  have "gate_ok (s\<lparr>gw_peers := jput c (p\<lparr>ep_session := session\<rparr>) (gw_peers s)\<rparr>)"
    using gate_peer[OF ok, of "p\<lparr>ep_session := session\<rparr>" c] gate_peers_conn[OF ok assms(2)] by simp
  moreover obtain q where "jget (gw_peers s0) c = Some q" "ep_ready p = ep_ready q" "same_session (ep_session p) (ep_session q)"
    using assms(1,2) unfolding later_def by blast
  ultimately show ?thesis using assms(1,3) unfolding later_def by auto
qed

lemma later_registry: "later s0 s \<Longrightarrow> calm (gw_registry s) (f (gw_registry s)) \<Longrightarrow> later s0 (on_registry f s)"
  using gate_calm[of "{}" s f] unfolding later_def by (auto simp: on_registry_def)

lemma later_did: "later s0 s \<Longrightarrow> later s0 (did x s)"
  using gate_did[of "{}" s x] unfolding later_def by (auto simp: did_def)

section \<open>Frames out\<close>

lemma frame_sealed:
  assumes "later s0 s" "jget (gw_peers s) c = Some p" "ep_ready p"
    and "encrypt (ge_crypto E) (ge_write E) m (ep_session p) = (Inr f, session)"
  shows "sealed_for E s0 c f"
proof -
  obtain q where q: "jget (gw_peers s0) c = Some q" "ep_ready p = ep_ready q" "same_session (ep_session p) (ep_session q)"
    using assms(1,2) unfolding later_def by blast
  have "\<exists>nonce aad. fr_session_id f = se_session_id (ep_session p)
      \<and> fr_ciphertext f = toBase64Url (cr_seal (ge_crypto E) (se_tx_key (ep_session p)) nonce aad (ge_write E m))"
    using assms(4) by (auto simp: encrypt_def Let_def split: option.splits) (rule exI, rule exI, rule refl)
  with q assms(3) same_session_fields(1,2)[OF q(3)] show ?thesis unfolding sealed_for_def by auto
qed

lemma encrypt_session: "snd (encrypt cr enc m x) = x\<lparr>se_tx_seq := min (se_tx_seq x + 1) (MAX_SAFE_INTEGER + 1)\<rparr>"
  by (simp add: encrypt_def Let_def split: option.split)

lemma sendTo_later:
  assumes "later s0 s"
  shows "emits E s0 s (snd (sendToAppByConnectionId E c m ch bp s)) \<and> later s0 (snd (sendToAppByConnectionId E c m ch bp s))"
proof (cases "gw_transport s \<and> hasAuthenticatedConnection c (gw_registry s) \<and> (\<exists>p. jget (gw_peers s) c = Some p \<and> ep_ready p)")
  case False
  then show ?thesis using assms by (auto simp: sendToAppByConnectionId_def split: option.split)
next
  case True
  then obtain p where p: "jget (gw_peers s) c = Some p" "ep_ready p" by blast
  obtain r session where e: "encrypt (ge_crypto E) (ge_write E) m (ep_session p) = (r, session)"
    by (cases "encrypt (ge_crypto E) (ge_write E) m (ep_session p)")
  define t where "t = s\<lparr>gw_peers := jput c (p\<lparr>ep_session := session\<rparr>) (gw_peers s)\<rparr>"
  have t: "later s0 t" "emits E s0 s t"
    using later_session[OF assms p(1)] encrypt_session[of "ge_crypto E" "ge_write E" m "ep_session p"] e
    by (auto simp: t_def)
  show ?thesis
  proof (cases r)
    case (Inl x)
    then show ?thesis using True p e t by (simp add: sendToAppByConnectionId_def Let_def t_def)
  next
    case (Inr f)
    have "effect_ok E s0 (Sent_frame f ch bp)"
      using frame_sealed[OF assms p, of E m f] e Inr later_approved[OF assms] True by (auto simp: effect_ok_def)
    moreover have "sendToAppByConnectionId E c m ch bp s = (False, did (Sent_frame f ch bp)
        (on_registry (recordMessage c Flow_out True (ge_out_size E m) (gw_now s)) t))"
      using True p e Inr by (simp add: sendToAppByConnectionId_def Let_def t_def)
    ultimately show ?thesis using t by (simp add: emits_did emits_on_registry later_did later_registry)
  qed
qed

lemma broadcast_emits: "later s0 s \<Longrightarrow> emits E s0 s (snd (broadcast E m cs s))"
proof (induction cs arbitrary: s)
  case (Cons c cs)
  obtain b t where t: "sendToAppByConnectionId E c m None False s = (b, t)" by (cases "sendToAppByConnectionId E c m None False s")
  with sendTo_later[OF Cons.prems, of E c m None False] have "emits E s0 s t" "later s0 t" by simp_all
  with t Cons.IH show ?case by (cases b) (auto intro: emits_trans)
qed simp

lemma send_out_emits: "later s0 s \<Longrightarrow> emits E s0 s (send_out E m s)"
  by (auto simp: send_out_def broadcastToReadyApps_def broadcast_emits effect_ok_def intro: emits_did split: outgoing.split)

section \<open>Frames in\<close>

lemma decrypt_session:
  "decrypt cr dec f x = (r, y) \<Longrightarrow> y = x \<or> y = x\<lparr>se_expected := se_expected x + 1\<rparr>"
  by (auto simp: decrypt_def split: if_splits option.splits)

lemma decrypt_taken:
  "decrypt cr dec f x = (Inr i, y) \<Longrightarrow> open_frame cr dec f x = Some i \<and> fr_session_id f = se_session_id x
    \<and> fr_seq f = se_expected x \<and> y = x\<lparr>se_expected := se_expected x + 1\<rparr>"
  by (auto simp: decrypt_def split: if_splits option.splits)

lemma open_e2e_later:
  assumes "later s0 s" and o: "open_e2e E f s = (d, t)"
  shows "emits E s0 s t" "d = Some m \<Longrightarrow> later s0 t \<and> unsealed E s0 (fr_app_connection_id f) m"
proof -
  let ?c = "fr_app_connection_id f"
  show "emits E s0 s t"
    using o by (auto simp: open_e2e_def Let_def intro!: emits_failE2E emits_on_registry split: option.splits if_splits prod.splits sum.splits)
  assume m: "d = Some m"
  obtain p where p: "jget (gw_peers s) ?c = Some p" "ep_ready p"
    using o m by (auto simp: open_e2e_def Let_def split: option.splits if_splits)
  obtain r session where dc: "decrypt (ge_crypto E) (ge_parse E) f (ep_session p) = (r, session)"
    by (cases "decrypt (ge_crypto E) (ge_parse E) f (ep_session p)")
  with o m p obtain inner where inner: "r = Inr inner" "m = innerToMessage inner"
    and t: "t = on_registry (markE2EReady ?c (gw_now s)) (s\<lparr>gw_peers := jput ?c (p\<lparr>ep_session := session\<rparr>) (gw_peers s)\<rparr>)"
    by (cases r) (auto simp: open_e2e_def Let_def split: if_splits)
  note taken = decrypt_taken[OF dc[unfolded inner(1)]]
  have "later s0 t"
    unfolding t by (rule later_registry[OF later_session[OF assms(1) p(1)]]) (use taken in auto)
  moreover obtain q where q: "jget (gw_peers s0) ?c = Some q" "ep_ready p = ep_ready q" "same_session (ep_session p) (ep_session q)"
    using assms(1) p(1) unfolding later_def by blast
  then have "unsealed E s0 ?c m"
    using taken p(2) inner(2) same_session_fields(1)[OF q(3)] same_session_fields(3)[OF q(3), of "ge_crypto E" "ge_parse E" f]
    unfolding unsealed_def
    by (intro exI[of _ q] exI[of _ f] exI[of _ inner]) simp
  ultimately show "later s0 t \<and> unsealed E s0 ?c m" ..
qed

section \<open>Business\<close>

lemma record_conn_ok:
  assumes "recordInboundBusinessForConnection E m c tr allow s = (True, t)" "later s0 s"
  shows "(tr \<or> allow) \<and> (\<exists>x. c = Some x \<and> approved s0 x) \<and> gw_effects t = gw_effects s"
proof -
  obtain b u where bu: "(if allow then (False, s) else rejectUnencryptedBusiness E m tr s) = (b, u)" by fastforce
  have "b = False" using assms(1) bu by (auto simp: recordInboundBusinessForConnection_def split: bool.splits)
  then have "u = s \<and> (tr \<or> allow)" using bu by (auto simp: rejectUnencryptedBusiness_def split: if_splits)
  with assms bu \<open>b = False\<close> show ?thesis
    using later_approved[OF assms(2)]
    by (cases c) (auto simp: recordInboundBusinessForConnection_def on_registry_def split: if_splits)
qed

lemma emits_handlers:
  assumes "emits E s0 s t" "\<forall>h \<in> set hs. business_ok E s0 h m ctx"
  shows "emits E s0 s (run_handlers hs m ctx t)"
  using assms unfolding run_handlers_def
proof (induction hs arbitrary: t)
  case (Cons h hs)
  then have "emits E s0 s (did (Handled h m ctx) t)" by (intro emits_did) (simp_all add: effect_ok_def)
  with Cons show ?case by simp
qed simp

text \<open>A context that says it is trusted belongs to a message out of a frame.\<close>

definition origin_ok :: "agent_env \<Rightarrow> gateway \<Rightarrow> agent_message \<Rightarrow> agent_context option \<Rightarrow> bool" where
  "origin_ok E s0 m context \<longleftrightarrow> (\<forall>x. context = Some x \<longrightarrow> cx_trusted x \<and> unsealed E s0 (cx_app x) m)"

lemma handle_business_emits:
  assumes "later s0 s" "origin_ok E s0 m context" "tr = (case context of Some x \<Rightarrow> cx_trusted x | None \<Rightarrow> False)"
    and "context \<noteq> None \<Longrightarrow> ctx = context"
  shows "emits E s0 s (handle_business E m ty kind ctx tr s)"
proof (cases "map_of (business_handlers m kind) ty")
  case (Some hs)
  obtain b t where r: "recordInboundBusiness E m ctx tr s = (b, t)" by (cases "recordInboundBusiness E m ctx tr s")
  have e: "emits E s0 s t"
    using emits_record_conn[of E s0 s m _ tr False] r unfolding recordInboundBusiness_def by (metis snd_conv)
  show ?thesis
  proof (cases b)
    case True
    with r have "recordInboundBusinessForConnection E m (case ctx of Some x \<Rightarrow> Some (cx_app x) | None \<Rightarrow> appConnectionIdFromMessage m)
        tr False s = (True, t)" by (simp add: recordInboundBusiness_def)
    note ok = record_conn_ok[OF this assms(1)]
    then obtain x where x: "context = Some x" "cx_trusted x" using assms(3) by (auto split: option.splits)
    then have "business_ok E s0 h m ctx" for h
      using ok assms(2,4) by (cases x) (auto simp: business_ok_def origin_ok_def)
    with e True Some r show ?thesis by (simp add: handle_business_def emits_handlers)
  qed (use e Some r in \<open>simp add: handle_business_def\<close>)
qed (simp add: handle_business_def)

lemma handle_propose_emits:
  assumes "later s0 s" "am_content m = Propose_upgrade c" "tr \<Longrightarrow> \<exists>c'. unsealed E s0 c' m"
  shows "emits E s0 s (handle_propose E m c tr s)"
proof (cases "\<not> tr \<and> \<not> hasReadyE2EPeer c s")
  case False
  obtain b t where r: "recordInboundBusinessForConnection E m (Some c) tr True s = (b, t)" by fastforce
  have e: "emits E s0 s t" using emits_record_conn[of E s0 s m "Some c" tr True] r by (metis snd_conv)
  show ?thesis
  proof (cases b)
    case True
    with r have "recordInboundBusinessForConnection E m (Some c) tr True s = (True, t)" by simp
    from record_conn_ok[OF this assms(1)] have "approved s0 c" by blast
    then have "business_ok E s0 Upgrade_propose m ctx" for ctx
      using assms False later_ready[OF assms(1)] by (auto simp: business_ok_def)
    with e True False r show ?thesis by (auto simp: handle_propose_def emits_handlers)
  qed (use e False r in \<open>auto simp: handle_propose_def\<close>)
qed (simp add: handle_propose_def emits_reject)

lemma after_record:
  "emits E s0 s (snd x) \<Longrightarrow> emits E s0 s (case x of (False, t) \<Rightarrow> t | (True, t) \<Rightarrow> on_registry (f t) t)"
  by (cases x) (auto intro: emits_on_registry split: bool.split)

lemma dispatch_emits:
  "later s0 s \<Longrightarrow> origin_ok E s0 m context \<Longrightarrow> emits E s0 s (dispatch E n m context s)"
proof (induction n arbitrary: m "context" s)
  case 0
  then show ?case by (auto intro: emits_same)
next
  case (Suc n)
  note biz = handle_business_emits[OF Suc.prems refl]
  have proposed: "emits E s0 s (handle_propose E m c (case context of Some x \<Rightarrow> cx_trusted x | None \<Rightarrow> False) s)"
    if "am_content m = Propose_upgrade c" for c
    using handle_propose_emits[OF Suc.prems(1) that] Suc.prems(2) by (auto simp: origin_ok_def split: option.splits)
  have recorded: "emits E s0 s (snd (recordInboundBusiness E m ctx tr s))" for ctx tr
    unfolding recordInboundBusiness_def by (rule emits_record_conn)
  show ?case
  proof (cases "am_content m")
    case (E2e_message f)
    obtain d t where o: "open_e2e E f s = (d, t)" by (cases "open_e2e E f s")
    note opened = open_e2e_later[OF Suc.prems(1) o]
    show ?thesis
    proof (cases d)
      case (Some x)
      with opened(2) have "later s0 t" "origin_ok E s0 x (Some \<lparr>cx_app = fr_app_connection_id f, cx_trusted = True\<rparr>)"
        by (auto simp: origin_ok_def)
      from emits_trans[OF opened(1) Suc.IH[OF this]] show ?thesis using E2e_message o Some by (simp add: Let_def)
    qed (use E2e_message o opened(1) in \<open>simp add: Let_def\<close>)
  next
    case (Plain ty kind c)
    then show ?thesis using biz by (simp add: Let_def split: option.split)
  next
    case (Propose_upgrade c)
    then show ?thesis using proposed by (simp add: Let_def)
  qed (simp_all add: Let_def handleConnectionHeartbeat_def handleConnectionGoodbye_def emits_intro recorded after_record split: option.split)
qed

lemma step_emits:
  assumes "gate_ok s"
  shows "emits E s s (gateway_step E e s)"
proof (cases e)
  case (Incoming m)
  have "origin_ok E s m None" by (simp add: origin_ok_def)
  then show ?thesis
    using dispatch_emits[OF later_refl[OF assms]] by (simp add: Incoming gateway_step_def dispatch_message_def del: dispatch.simps)
next
  case (Revoke_app a)
  then show ?thesis
    by (cases "revoke a (gw_now s) (gw_trusted s)")
      (auto simp: gateway_step_def revokeApp_def intro!: emits_disconnectApp split: bool.split)
next
  case (Send_message m)
  then show ?thesis by (simp add: gateway_step_def send_out_emits later_refl assms)
next
  case (Send_to_app ctx m)
  then show ?thesis using sendTo_later[OF later_refl[OF assms]] by (simp add: gateway_step_def sendToApp_def split: option.split)
next
  case (Send_to_connection c m ch bp)
  then show ?thesis using sendTo_later[OF later_refl[OF assms]] by (simp add: gateway_step_def)
qed (auto simp: gateway_step_def rejectPairing_def pairing_timeout_def clearRelayAppConnectionState_def
    intro!: emits_intro emits_pending intro: emits_same split: option.split)

end
