(* ===== verification/GatewayPairing.thy ===== *)
theory GatewayPairing
  imports GatewayEffects
begin

text \<open>
  How an App comes to be trusted: what changes the list of pending requests and the set of approved
  Apps. Everything but a proof that asks and the owner's approval only takes away from them.
\<close>

declare map_of_eq_Some_iff [simp del] Some_eq_map_of_iff [simp del]

definition no_more :: "gateway \<Rightarrow> gateway \<Rightarrow> bool" where
  "no_more s t \<longleftrightarrow> (\<forall>rid p. jget (gw_pending t) rid = Some p \<longrightarrow> jget (gw_pending s) rid = Some p)
     \<and> (\<forall>a. active_app a (gw_trusted t) \<longrightarrow> active_app a (gw_trusted s))"

named_theorems less_intro \<open>operations of the gate add neither requests nor trust\<close>

lemma no_more_refl [simp]: "no_more s s"
  by (simp add: no_more_def)

lemma no_more_trans: "no_more s t \<Longrightarrow> no_more t u \<Longrightarrow> no_more s u"
  unfolding no_more_def by blast

lemma no_more_cong: "gw_pending u = gw_pending t \<Longrightarrow> gw_trusted u = gw_trusted t \<Longrightarrow> no_more s t \<Longrightarrow> no_more s u"
  by (simp add: no_more_def)

lemma less_did [less_intro]: "no_more s t \<Longrightarrow> no_more s (did x t)"
  by (rule no_more_cong[of _ t]) (simp_all add: did_def)

lemma less_on_registry [less_intro]: "no_more s t \<Longrightarrow> no_more s (on_registry f t)"
  by (rule no_more_cong[of _ t]) (simp_all add: on_registry_def)

lemma less_peers [less_intro]: "no_more s t \<Longrightarrow> no_more s (t\<lparr>gw_peers := y\<rparr>)"
  by (rule no_more_cong[of _ t]) simp_all

lemma less_pending_del [less_intro]: "no_more s t \<Longrightarrow> no_more s (t\<lparr>gw_pending := jdel rid (gw_pending t)\<rparr>)"
  by (auto simp: no_more_def split: if_splits)

lemma less_control [less_intro]: "no_more s t \<Longrightarrow> no_more s (send_out E (Control c) t)"
  by (rule no_more_cong[of _ t]) simp_all

lemma less_failure [less_intro]: "no_more s t \<Longrightarrow> no_more s (sendAuthFailure E c r t)"
  by (rule no_more_cong[of _ t]) simp_all

lemma less_detach [less_intro]: "no_more s t \<Longrightarrow> no_more s (detachSupersededAppConnection c t)"
  by (rule no_more_cong[of _ t]) simp_all

lemma less_failE2E [less_intro]: "no_more s t \<Longrightarrow> no_more s (failE2ESession E c r t)"
  unfolding failE2ESession_def by (intro less_intro)

lemma less_fold: "(\<And>x t. no_more s t \<Longrightarrow> no_more s (f x t)) \<Longrightarrow> no_more s t \<Longrightarrow> no_more s (fold f xs t)"
  by (induction xs arbitrary: t) simp_all

lemma less_disconnect_one: "no_more s t \<Longrightarrow> no_more s (disconnect_one E c t)"
  unfolding disconnect_one_def by (intro less_intro)

lemma less_disconnectApp [less_intro]: "no_more s t \<Longrightarrow> no_more s (disconnectApp E a t)"
  unfolding disconnectApp_def by (rule less_fold[OF less_disconnect_one])

lemma less_trusted: "(\<And>a. active_app a y \<Longrightarrow> active_app a (gw_trusted s)) \<Longrightarrow> no_more s (s\<lparr>gw_trusted := y\<rparr>)"
  by (simp add: no_more_def)

lemma revoke_less: "active_app b (snd (revoke a n t)) \<Longrightarrow> b \<noteq> a \<and> active_app b t"
  by (auto simp: revoke_def active_app_def persist_def split: option.splits if_splits)

lemma remove_less: "active_app b (snd (remove_trusted a t)) \<Longrightarrow> b \<noteq> a \<and> active_app b t"
  by (auto simp: remove_trusted_def active_app_def persist_def jhas_def split: if_splits)

lemma less_revokeApp [less_intro]: "no_more s (revokeApp E a s)"
proof (cases "revoke a (gw_now s) (gw_trusted s)")
  case (Pair b t)
  then have "no_more s (s\<lparr>gw_trusted := t\<rparr>)" using revoke_less[of _ a "gw_now s" "gw_trusted s"] by (intro less_trusted) simp
  with Pair show ?thesis by (cases b) (simp_all add: revokeApp_def less_disconnectApp)
qed

lemma less_removeApp [less_intro]: "no_more s (removeApp E a s)"
proof (cases "remove_trusted a (gw_trusted s)")
  case (Pair b t)
  then have "no_more s (s\<lparr>gw_trusted := t\<rparr>)" using remove_less[of _ a "gw_trusted s"] by (intro less_trusted) simp
  moreover have "no_more s u \<Longrightarrow> no_more s (fold (drop_pending E) xs u)" for xs u
    by (rule less_fold) (auto simp: drop_pending_def intro!: less_failure less_pending_del)
  ultimately show ?thesis using Pair
    by (cases b) (auto simp: removeApp_def intro!: less_on_registry less_disconnectApp)
qed

lemma less_authorizeApp: "no_more s (authorizeApp E v r s)"
proof -
  have "no_more s (accept_app E v s)"
    by (auto simp: accept_app_def Let_def no_more_def detachSupersededAppConnection_def did_def split: prod.split option.split)
  then show ?thesis by (auto simp: authorizeApp_def Let_def intro!: less_intro split: option.split)
qed

lemma less_sendTo [less_intro]: "no_more s t \<Longrightarrow> no_more s (snd (sendToAppByConnectionId E c m ch bp t))"
  by (auto simp: sendToAppByConnectionId_def Let_def intro!: less_intro split: option.split prod.split sum.split)

lemma less_broadcast: "no_more s t \<Longrightarrow> no_more s (snd (broadcast E m cs t))"
proof (induction cs arbitrary: t)
  case (Cons c cs)
  from less_sendTo[OF Cons.prems, of E c m None False]
  show ?case by (cases "sendToAppByConnectionId E c m None False t") (auto simp: Cons.IH split: bool.split)
qed simp

lemma less_send_out [less_intro]: "no_more s (send_out E m s)"
  by (auto simp: send_out_def broadcastToReadyApps_def less_broadcast intro: less_did split: outgoing.split)

lemma less_handshake [less_intro]: "no_more s (handleE2EHandshakeInit E i s)"
proof -
  have "no_more s (s\<lparr>gw_key_count := n, gw_peers := y\<rparr>)" for n y by (simp add: no_more_def)
  then show ?thesis
    by (auto simp: handleE2EHandshakeInit_def Let_def intro!: less_control split: option.split sum.split)
qed

lemma less_ready [less_intro]: "no_more s (handleE2EReady E r s)"
  by (auto simp: handleE2EReady_def Let_def intro!: less_intro split: option.split)

lemma less_open: "no_more s (snd (open_e2e E f s))"
  by (auto simp: open_e2e_def Let_def intro!: less_intro split: option.split prod.split sum.split)

lemma less_reject [less_intro]: "no_more s (snd (rejectUnencryptedBusiness E m tr s))"
  by (auto simp: rejectUnencryptedBusiness_def requestRelayAppDelivery_def intro!: less_did)

lemma less_record [less_intro]: "no_more s (snd (recordInboundBusinessForConnection E m c tr allow s))"
proof (cases "if allow then (False, s) else rejectUnencryptedBusiness E m tr s")
  case (Pair b t)
  then have "no_more s t" using less_reject[of s E m tr] by (cases allow) auto
  with Pair show ?thesis
    by (cases b) (auto simp: recordInboundBusinessForConnection_def intro!: less_on_registry)
qed

lemma less_handlers: "no_more s t \<Longrightarrow> no_more s (run_handlers hs m ctx t)"
  unfolding run_handlers_def by (induction hs arbitrary: t) (auto intro: less_did)

lemma less_after:
  "no_more s (snd x) \<Longrightarrow> (\<And>t. no_more s t \<Longrightarrow> no_more s (f t)) \<Longrightarrow> no_more s (case x of (False, t) \<Rightarrow> t | (True, t) \<Rightarrow> f t)"
  by (cases x) (auto split: bool.split)

lemma less_unsent_proof: "no_more s (handleAuthVerify E None v s)"
  by (cases rule: handleAuthVerify_cases[of E None v s]) (simp_all add: less_failure)

text \<open>A message without a relay connection, as those inside frames are, brings no proof.\<close>

lemma less_dispatch:
  "am_app_connection m = None \<or> (\<forall>v. am_content m \<noteq> Auth_verify v) \<Longrightarrow> no_more s (dispatch E n m context s)"
proof (induction n arbitrary: m "context" s)
  case 0
  then show ?case by (simp add: no_more_def)
next
  case (Suc n)
  have recorded: "no_more s (snd (recordInboundBusiness E m ctx tr s))" for ctx tr
    unfolding recordInboundBusiness_def by (rule less_record)
  show ?case
  proof (cases "am_content m")
    case (E2e_message f)
    obtain d t where o: "open_e2e E f s = (d, t)" by (cases "open_e2e E f s")
    have t: "no_more s t" using less_open[of s E f] o by simp
    have "am_app_connection x = None" if "d = Some x" for x
      using o that by (auto simp: open_e2e_def Let_def innerToMessage_def split: option.splits if_splits prod.splits sum.splits)
    then have "no_more t (dispatch E n x ctx t)" if "d = Some x" for x ctx using Suc.IH that by simp
    then show ?thesis using E2e_message o t by (auto simp: Let_def intro: no_more_trans split: option.split)
  next
    case (Auth_verify v)
    with Suc.prems have "am_app_connection m = None" by simp
    with Auth_verify show ?thesis by (simp add: Let_def less_unsent_proof)
  qed (simp_all add: Let_def handleConnectionHeartbeat_def handleConnectionGoodbye_def handle_business_def handle_propose_def
      less_intro recorded less_after less_handlers split: option.split)
qed

section \<open>In manual mode\<close>

definition proofs_in :: "gateway_event list \<Rightarrow> auth_verify set" where
  "proofs_in es = {v. \<exists>m. Incoming m \<in> set es \<and> am_content m = Auth_verify v}"

definition asked_and_approved :: "agent_env \<Rightarrow> gateway_event list \<Rightarrow> string \<Rightarrow> bool" where
  "asked_and_approved E es a \<longleftrightarrow> Approve_pairing (''pair_'' @ a) \<in> set es \<and> (\<exists>v \<in> proofs_in es. vf_app_id v = a \<and> proof_signed E v)"

definition manual_inv :: "agent_env \<Rightarrow> trusted_store \<Rightarrow> gateway_event list \<Rightarrow> gateway \<Rightarrow> bool" where
  "manual_inv E t0 es s \<longleftrightarrow>
     (\<forall>rid p. jget (gw_pending s) rid = Some p \<longrightarrow> pp_payload p \<in> proofs_in es \<and> proof_signed E (pp_payload p)
        \<and> rid = ''pair_'' @ vf_app_id (pp_payload p))
     \<and> (\<forall>a. active_app a (gw_trusted s) \<longrightarrow> active_app a t0 \<or> asked_and_approved E es a)"

lemma manual_less: "manual_inv E t0 es s \<Longrightarrow> no_more s t \<Longrightarrow> manual_inv E t0 es t"
  unfolding manual_inv_def no_more_def by blast

lemma manual_snoc: "manual_inv E t0 es s \<Longrightarrow> manual_inv E t0 (es @ [e]) s"
  unfolding manual_inv_def proofs_in_def asked_and_approved_def by auto blast+

lemma details_same: "pq_request_id (pendingPairingDetails v q) = pq_request_id q"
proof -
  have "pq_request_id (fold observed_details obs q) = pq_request_id q" for obs q
    by (induction obs arbitrary: q) (simp_all add: observed_details_def Let_def split: option.split)
  then show ?thesis by (simp add: pendingPairingDetails_def Let_def)
qed

lemma manual_step:
  assumes "\<not> ge_automatic E" "manual_inv E t0 es s"
  shows "manual_inv E t0 (es @ [e]) (gateway_step E e s)"
proof (cases e)
  case (Incoming m)
  show ?thesis
  proof (cases "am_content m")
    case (Auth_verify v)
    have step: "gateway_step E e s = handleAuthVerify E (am_app_connection m) v s"
      using Incoming Auth_verify by (simp add: gateway_step_def dispatch_message_def Let_def)
    have v: "v \<in> proofs_in (es @ [e])" using Incoming Auth_verify by (auto simp: proofs_in_def)
    note old = manual_snoc[OF assms(2), of e]
    show ?thesis
    proof (cases rule: handleAuthVerify_cases[of E "am_app_connection m" v s])
      case asked
      have "manual_inv E t0 (es @ [e]) (s\<lparr>gw_pending := jput (pq_request_id (pairing_request_of v (gw_now s)))
          \<lparr>pp_request = pairing_request_of v (gw_now s), pp_payload = v\<rparr> (gw_pending s)\<rparr>)"
        using old v asked(4) by (auto simp: manual_inv_def pairing_request_of_def details_same)
      from manual_less[OF this less_control[OF no_more_refl]] show ?thesis
        by (simp add: step asked(1) ask_owner_def Let_def)
    qed (use assms(1) old in \<open>auto simp: step less_failure less_authorizeApp intro: manual_less\<close>)
  qed (use manual_less[OF manual_snoc[OF assms(2)] less_dispatch] in
      \<open>simp_all add: Incoming gateway_step_def dispatch_message_def del: dispatch.simps\<close>)
next
  case (Approve_pairing rid)
  show ?thesis
  proof (cases "jget (gw_pending s) rid")
    case None
    then show ?thesis using manual_snoc[OF assms(2), of e] by (simp add: Approve_pairing gateway_step_def approvePairing_def)
  next
    case (Some p)
    let ?u = "s\<lparr>gw_pending := jdel rid (gw_pending s)\<rparr>" and ?v = "pp_payload p"
    have u: "manual_inv E t0 (es @ [e]) ?u"
      using manual_less[OF manual_snoc[OF assms(2)] less_pending_del[OF no_more_refl]] .
    have p: "?v \<in> proofs_in es" "proof_signed E ?v" "rid = ''pair_'' @ vf_app_id ?v"
      using assms(2) Some unfolding manual_inv_def by blast+
    then have yes: "asked_and_approved E (es @ [e]) (vf_app_id ?v)"
      by (auto simp: asked_and_approved_def Approve_pairing proofs_in_def)
    have "manual_inv E t0 (es @ [e]) w" if t: "trustApp E ?v ?u = Some (r, w)" for r w
    proof -
      from t obtain y where "w = ?u\<lparr>gw_trusted := y\<rparr>" "\<And>b. active_app b y \<longleftrightarrow> b = vf_app_id ?v \<or> active_app b (gw_trusted s)"
        by (auto simp: trustApp_def dest: approve_active(1))
      with u yes show ?thesis by (auto simp: manual_inv_def)
    qed
    then show ?thesis using Some u
      by (auto simp: Approve_pairing gateway_step_def approvePairing_def Let_def
          intro: manual_less[OF _ less_authorizeApp] manual_less[OF _ less_failure[OF no_more_refl]] split: option.split)
  qed
next
  case Relay_lost
  have "no_more s (clearRelayAppConnectionState s)"
    by (simp add: no_more_def clearRelayAppConnectionState_def on_registry_def)
  then show ?thesis using manual_less[OF manual_snoc[OF assms(2)]] by (simp add: Relay_lost gateway_step_def)
qed (use manual_snoc[OF assms(2), of e] in \<open>auto simp: gateway_step_def rejectPairing_def pairing_timeout_def sendToApp_def
    intro!: less_intro no_more_cong[OF _ _ no_more_refl] elim!: manual_less split: option.split\<close>)

lemma manual_run: "\<not> ge_automatic E \<Longrightarrow> manual_inv E t0 es (fold (gateway_step E) es (new_gateway g t0 n))"
proof (induction es rule: rev_induct)
  case Nil
  then show ?case by (simp add: manual_inv_def new_gateway_def)
qed (simp add: manual_step)

end
