(* ===== verification/GatewayFuel.thy ===== *)
theory GatewayFuel
  imports GatewaySafety
begin

text \<open>
  Why the fuel of the dispatcher is enough: a frame inside a frame is shorter than the one around it,
  by the tag and by the base64 text.
\<close>

declare map_of_eq_Some_iff [simp del] Some_eq_map_of_iff [simp del]

lemma base64_chunks_length: "base64_chunks s = Some bs \<Longrightarrow> 4 * length bs \<le> 3 * length s"
  by (induction s arbitrary: bs rule: base64_chunks.induct) (fastforce split: option.splits if_splits)+

lemma fromBase64Url_length:
  assumes "fromBase64Url s = Some bs"
  shows "4 * length bs \<le> 3 * length s + 9"
proof -
  define k where "k = (4 - length s mod 4) mod 4"
  have "base64_chunks (map of_url s @ replicate k (CHR ''='')) = Some bs"
    using assms by (simp add: fromBase64Url_def k_def split: if_splits)
  from base64_chunks_length[OF this] have "4 * length bs \<le> 3 * (length s + k)" by simp
  moreover have "k < 4" unfolding k_def by (rule mod_less_divisor) simp
  ultimately show ?thesis by presburger
qed

text \<open>What the code relies on: opening a frame does not lengthen it, and a text contains its parts.\<close>

definition shrinking :: "agent_env \<Rightarrow> bool" where
  "shrinking E \<longleftrightarrow> (\<forall>k n a f p. cr_open (ge_crypto E) k n a f = Some p \<longrightarrow> length p + AEAD_TAG_LEN \<le> length f)
     \<and> (\<forall>bs i f. ge_parse E bs = Some i \<longrightarrow> in_content i = E2e_message f \<longrightarrow> length (fr_ciphertext f) \<le> length bs)"

lemma open_frame_length:
  assumes "shrinking E" "open_frame (ge_crypto E) (ge_parse E) f x = Some i" "in_content i = E2e_message g"
  shows "length (fr_ciphertext g) < length (fr_ciphertext f)"
proof -
  obtain frame nonce p where o: "fromBase64Url (fr_ciphertext f) = Some frame" "AEAD_TAG_LEN \<le> length frame"
    "cr_open (ge_crypto E) (se_rx_key x) nonce (messageAad x (fr_seq f) Rx) frame = Some p" "ge_parse E p = Some i"
    using assms(2) by (auto simp: open_frame_def split: option.splits if_splits)
  have "length p + AEAD_TAG_LEN \<le> length frame" "length (fr_ciphertext g) \<le> length p"
    using assms(1,3) o(3,4) unfolding shrinking_def by blast+
  moreover have "4 * length frame \<le> 3 * length (fr_ciphertext f) + 9" by (rule fromBase64Url_length[OF o(1)])
  ultimately show ?thesis by (simp add: AEAD_TAG_LEN_def)
qed

lemma open_e2e_shrinks:
  assumes "shrinking E" "open_e2e E f s = (Some d, t)"
  shows "frame_size d < length (fr_ciphertext f)"
proof -
  obtain p where p: "jget (gw_peers s) (fr_app_connection_id f) = Some p" "ep_ready p"
    using assms(2) by (auto simp: open_e2e_def Let_def split: option.splits if_splits)
  obtain r session where dc: "decrypt (ge_crypto E) (ge_parse E) f (ep_session p) = (r, session)"
    by (cases "decrypt (ge_crypto E) (ge_parse E) f (ep_session p)")
  with assms(2) p obtain inner where inner: "r = Inr inner" "d = innerToMessage inner"
    by (cases r) (auto simp: open_e2e_def Let_def split: if_splits)
  then have o: "open_frame (ge_crypto E) (ge_parse E) f (ep_session p) = Some inner"
    using dc by (auto simp: decrypt_def split: if_splits option.splits)
  then have "length (fr_ciphertext f) > 0"
    by (auto simp: open_frame_def fromBase64Url_def split: option.splits if_splits)
  then show ?thesis
    using open_frame_length[OF assms(1) o] by (simp add: frame_size_def inner innerToMessage_def split: agent_content.split)
qed

lemma dispatch_fuel:
  "shrinking E \<Longrightarrow> frame_size m < n \<Longrightarrow> frame_size m < k \<Longrightarrow> dispatch E n m context s = dispatch E k m context s"
proof (induction n arbitrary: k m "context" s)
  case (Suc n)
  then obtain j where k: "k = Suc j" by (cases k) auto
  show ?case
  proof (cases "am_content m")
    case (E2e_message f)
    obtain d t where o: "open_e2e E f s = (d, t)" by (cases "open_e2e E f s")
    show ?thesis
    proof (cases d)
      case (Some x)
      have "length (fr_ciphertext f) = frame_size m" by (simp add: frame_size_def E2e_message)
      with open_e2e_shrinks[OF Suc.prems(1) o[unfolded Some]] Suc.prems k have "frame_size x < n" "frame_size x < j" by simp_all
      from Suc.IH[OF Suc.prems(1) this] show ?thesis by (simp add: k E2e_message o Some Let_def)
    qed (simp add: k E2e_message o Let_def)
  qed (simp_all add: k Let_def)
qed simp

section \<open>Nothing else sets the flag\<close>

named_theorems stuck_simps \<open>the flag of exhausted fuel is left as it is\<close>

lemma stuck_prims [stuck_simps]: "gw_stuck (did x s) = gw_stuck s" "gw_stuck (on_registry f s) = gw_stuck s"
    "gw_stuck (send_out E (Control c) s) = gw_stuck s" "gw_stuck (sendAuthFailure E c' r s) = gw_stuck s"
    "gw_stuck (detachSupersededAppConnection c' s) = gw_stuck s"
  by (simp_all add: did_def on_registry_def send_control sendAuthFailure_def detachSupersededAppConnection_def)

lemma stuck_failE2E [stuck_simps]: "gw_stuck (failE2ESession E c r s) = gw_stuck s"
  by (simp add: failE2ESession_def stuck_simps)

lemma stuck_authorize [stuck_simps]: "gw_stuck (authorizeApp E v r s) = gw_stuck s"
proof -
  have "gw_stuck (accept_app E v s) = gw_stuck s"
    by (simp add: accept_app_def Let_def stuck_simps split: prod.split option.split)
  then show ?thesis by (simp add: authorizeApp_def Let_def stuck_simps split: option.split)
qed

lemma stuck_verify [stuck_simps]: "gw_stuck (handleAuthVerify E from v s) = gw_stuck s"
proof (cases rule: handleAuthVerify_cases[of E "from" v s])
  case automatic
  have "gw_stuck u = gw_stuck s" if "trustApp E v s = Some (r, u)" for r u
    using that by (auto simp: trustApp_def)
  then show ?thesis by (auto simp: automatic(1) stuck_simps split: option.split)
qed (simp_all add: stuck_simps ask_owner_def Let_def)

lemma stuck_sessions [stuck_simps]: "gw_stuck (handleE2EHandshakeInit E i s) = gw_stuck s" "gw_stuck (handleE2EReady E r s) = gw_stuck s"
    "gw_stuck (snd (open_e2e E f s)) = gw_stuck s"
  by (simp_all add: handleE2EHandshakeInit_def handleE2EReady_def open_e2e_def Let_def stuck_simps split: option.split sum.split prod.split)

lemma stuck_reject [stuck_simps]: "gw_stuck (snd (rejectUnencryptedBusiness E m tr s)) = gw_stuck s"
  by (simp add: rejectUnencryptedBusiness_def requestRelayAppDelivery_def stuck_simps)

lemma stuck_record [stuck_simps]: "gw_stuck (snd (recordInboundBusinessForConnection E m c tr allow s)) = gw_stuck s"
proof (cases "if allow then (False, s) else rejectUnencryptedBusiness E m tr s")
  case (Pair b t)
  then have "gw_stuck t = gw_stuck s" using stuck_reject[of E m tr s] by (cases allow) auto
  with Pair show ?thesis by (cases b) (simp_all add: recordInboundBusinessForConnection_def stuck_simps)
qed

lemma stuck_handlers [stuck_simps]: "gw_stuck (run_handlers hs m ctx s) = gw_stuck s"
  unfolding run_handlers_def by (induction hs arbitrary: s) (simp_all add: stuck_simps)

lemma stuck_after: "gw_stuck (snd x) = b \<Longrightarrow> (\<And>t. gw_stuck (f t) = gw_stuck t) \<Longrightarrow>
    gw_stuck (case x of (False, t) \<Rightarrow> t | (True, t) \<Rightarrow> f t) = b"
  by (cases x) (simp split: bool.split)

lemma dispatch_not_stuck:
  "shrinking E \<Longrightarrow> frame_size m < n \<Longrightarrow> gw_stuck (dispatch E n m context s) = gw_stuck s"
proof (induction n arbitrary: m "context" s)
  case (Suc n)
  show ?case
  proof (cases "am_content m")
    case (E2e_message f)
    obtain d t where o: "open_e2e E f s = (d, t)" by (cases "open_e2e E f s")
    then have t: "gw_stuck t = gw_stuck s" using stuck_sessions(3)[of E f s] by simp
    show ?thesis
    proof (cases d)
      case (Some x)
      have "frame_size x < n"
        using open_e2e_shrinks[OF Suc.prems(1) o[unfolded Some]] Suc.prems(2) by (simp add: frame_size_def E2e_message)
      from Suc.IH[OF Suc.prems(1) this] t show ?thesis by (simp add: E2e_message o Some Let_def)
    qed (simp add: E2e_message o t Let_def)
  qed (simp_all add: Let_def handleConnectionHeartbeat_def handleConnectionGoodbye_def handle_business_def handle_propose_def
      recordInboundBusiness_def stuck_simps stuck_after split: option.split)
qed simp

end
