(* ===== verification/GatewayRuns.thy ===== *)
theory GatewayRuns
  imports GatewayPairing E2EProperties GatewayFuel
begin

text \<open>
  Runs of the Agent's gate from its start, and an Agent small enough to run: one App asks, its owner
  approves it, and it is admitted.
\<close>

declare map_of_eq_Some_iff [simp del] Some_eq_map_of_iff [simp del]

section \<open>Runs\<close>

text \<open>The state after some events; \<open>limits\<close> are the three time limits of the registry, \<open>trusted\<close> what the store held at the start.\<close>

definition gate_run :: "agent_env \<Rightarrow> int \<times> int \<times> int \<Rightarrow> trusted_store \<Rightarrow> int \<Rightarrow> gateway_event list \<Rightarrow> gateway" where
  "gate_run E limits trusted start es =
     fold (gateway_step E) es (new_gateway (new_registry (fst limits) (fst (snd limits)) (snd (snd limits))) trusted start)"

lemma reachable_ok: "gate_ok (gate_run E limits trusted start es)"
  unfolding gate_run_def by (rule gate.run_inv[OF new_gateway_ok]) simp

section \<open>An Agent to run\<close>

definition demo_request :: inner_message where
  "demo_request = \<lparr>in_content = Plain ''session.list'' None None, in_session = None, in_surface = None, in_body = []\<rparr>"

definition demo_env :: agent_env where
  "demo_env = \<lparr>ge_crypto = plain_crypto, ge_device = plain_id Id_agent, ge_public = toBase64Url zero_key,
     ge_private = toBase64Url zero_key, ge_automatic = False, ge_ephemeral = (\<lambda>n. (zero_key, zero_key)),
     ge_uuid = (\<lambda>n. ''app_conn''), ge_parse = (\<lambda>bs. Some demo_request), ge_valid = (\<lambda>m. True), ge_write = (\<lambda>m. []),
     ge_size = (\<lambda>m. 0), ge_out_size = (\<lambda>m. 0)\<rparr>"

definition demo_proof :: auth_verify where
  "demo_proof = \<lparr>vf_nonce = ''n'', vf_connection_id = ''conn_p'', vf_agent_connection_id = ''conn_a'',
     vf_device_id = plain_id Id_agent, vf_agent_public_key = toBase64Url zero_key, vf_app_id = plain_id Id_app,
     vf_app_public_key = toBase64Url zero_key, vf_app_info = \<lparr>inf_instance = ''i'', inf_runtime = ''r'', inf_device = None, inf_app = None\<rparr>,
     vf_requested_scopes = [''device.control''], vf_timestamp = 0, vf_signature = toBase64Url (replicate 64 0), vf_observations = []\<rparr>"

definition demo_message :: agent_message where
  "demo_message = \<lparr>am_content = Auth_verify demo_proof, am_app_connection = Some ''conn_p'', am_session = None, am_surface = None,
     am_relay_context = None, am_body = []\<rparr>"

definition no_apps :: trusted_store where
  "no_apps = \<lparr>ts_records = [], ts_disk = None\<rparr>"

definition demo_events :: "gateway_event list" where
  "demo_events = [Transport_up True, Agent_connection (Some ''conn_a''), Incoming demo_message, Approve_pairing (''pair_'' @ plain_id Id_app)]"

lemma demo_crypto: "ge_crypto demo_env = plain_crypto" "ge_automatic demo_env = False"
  by (simp_all add: demo_env_def)

lemma app_domain: "list_all domain_char APP_AUTH_DOMAIN"
  by code_simp

lemma demo_signed: "proof_signed demo_env demo_proof"
proof -
  have "fromBase64Url (toBase64Url zero_key) = Some zero_key" "fromBase64Url (toBase64Url (replicate 64 0)) = Some (replicate 64 0)"
    by (rule base64url_roundtrip, simp add: zero_key_def)+
  moreover have "createIdentitySignaturePayload APP_AUTH_DOMAIN fs \<noteq> None" for fs
    using app_domain by (simp add: createIdentitySignaturePayload_def APP_AUTH_DOMAIN_def)
  ultimately show ?thesis
    by (auto simp: proof_signed_def verifyIdentityFields_def demo_crypto demo_proof_def split: option.splits)
      (simp_all add: plain_crypto_def zero_key_def)
qed

lemma demo_matches: "proof_matches demo_env ''conn_a'' (Some ''conn_p'') demo_proof"
  using plain_matches[of Id_app] by (simp add: proof_matches_def demo_env_def demo_proof_def)

definition demo_start :: gateway where
  "demo_start = (new_gateway (new_registry 30000 60000 120000) no_apps 0)\<lparr>gw_transport := True, gw_agent_connection := Some ''conn_a''\<rparr>"

lemma demo_asked: "handleAuthVerify demo_env (Some ''conn_p'') demo_proof demo_start = ask_owner demo_env demo_proof demo_start"
proof -
  have "\<not> replay_has (replay_key demo_proof) (gw_replay demo_start)" "gw_agent_connection demo_start = Some ''conn_a''"
    "gw_now demo_start = 0" "trusted_get x (gw_trusted demo_start) = None" for x
    by (simp_all add: demo_start_def new_gateway_def replay_has_def new_replay_cache_def trusted_get_def no_apps_def)
  then show ?thesis
    using demo_matches demo_signed by (simp add: handleAuthVerify_def demo_crypto) (simp add: demo_proof_def)
qed

definition demo_record :: trusted_record where
  "demo_record = \<lparr>tr_appId = plain_id Id_app, tr_publicKey = toBase64Url zero_key, tr_displayName = None, tr_platform = None,
     tr_scopes = [''device.control''], tr_status = App_active, tr_approvedAt = 0, tr_lastSeenAt = Some 0, tr_revokedAt = None\<rparr>"

lemma demo_trusted:
  assumes "gw_now s = 0" "gw_trusted s = no_apps"
  shows "trustApp demo_env demo_proof s = Some (demo_record, s\<lparr>gw_trusted := persist (no_apps\<lparr>ts_records := [(plain_id Id_app, demo_record)]\<rparr>)\<rparr>)"
  using assms plain_matches[of Id_app]
  by (simp add: trustApp_def approve_def demo_crypto)
    (simp add: demo_proof_def demo_record_def no_apps_def or_else_def Let_def jset_add_def)

lemma demo_run:
  "gate_run demo_env (30000, 60000, 120000) no_apps 0 demo_events = (let s = ask_owner demo_env demo_proof demo_start in
     authorizeApp demo_env demo_proof demo_record (s\<lparr>gw_pending := [], gw_trusted := persist (no_apps\<lparr>ts_records := [(plain_id Id_app, demo_record)]\<rparr>)\<rparr>))"
proof -
  define s where "s = ask_owner demo_env demo_proof demo_start"
  have s: "gw_now s = 0" "gw_trusted s = no_apps" by (simp_all add: s_def ask_owner_def Let_def) (simp_all add: demo_start_def new_gateway_def)
  have rid: "pq_request_id (pairing_request_of demo_proof 0) = ''pair_'' @ plain_id Id_app"
    "pq_expires_at (pairing_request_of demo_proof 0) = 120000"
    by (simp_all add: pairing_request_of_def pendingPairingDetails_def Let_def demo_proof_def)
  have now: "gw_now demo_start = 0" "gw_pending demo_start = []" by (simp_all add: demo_start_def new_gateway_def)
  have p: "gw_pending s = [(''pair_'' @ plain_id Id_app, \<lparr>pp_request = pairing_request_of demo_proof 0, pp_payload = demo_proof\<rparr>)]"
    by (simp add: s_def ask_owner_def Let_def now rid)
  have "gate_run demo_env (30000, 60000, 120000) no_apps 0 demo_events
      = approvePairing demo_env (''pair_'' @ plain_id Id_app) (handleAuthVerify demo_env (Some ''conn_p'') demo_proof demo_start)"
    by (simp add: gate_run_def demo_events_def gateway_step_def dispatch_message_def demo_message_def Let_def demo_start_def)
  also have "\<dots> = approvePairing demo_env (''pair_'' @ plain_id Id_app) s" by (simp only: demo_asked s_def)
  also have "\<dots> = authorizeApp demo_env demo_proof demo_record
      (s\<lparr>gw_pending := [], gw_trusted := persist (no_apps\<lparr>ts_records := [(plain_id Id_app, demo_record)]\<rparr>)\<rparr>)"
    using demo_trusted[of "s\<lparr>gw_pending := []\<rparr>"] s by (simp add: approvePairing_def p rid Let_def)
  finally show ?thesis by (simp add: s_def Let_def)
qed

lemma authorize_trust [simp]: "active_app b (gw_trusted (authorizeApp E v r s)) \<longleftrightarrow> active_app b (gw_trusted s)"
proof -
  have "active_app b (gw_trusted (accept_app E v s)) \<longleftrightarrow> active_app b (gw_trusted s)"
    by (simp add: accept_app_def Let_def split: prod.split option.split)
  then show ?thesis by (simp add: authorizeApp_def Let_def split: option.split)
qed

lemma demo_active: "active_app (plain_id Id_app) (gw_trusted (gate_run demo_env (30000, 60000, 120000) no_apps 0 demo_events))"
  by (simp add: demo_run Let_def) (simp add: active_app_def persist_def no_apps_def demo_record_def)

end
