(* ===== verification/GatewayProperties.thy ===== *)
theory GatewayProperties
  imports GatewayRuns
begin

text \<open>
  What the Agent's gate guarantees: only Apps the owner approved reach the Agent, through their own
  encrypted sessions; nothing of the business leaves unsealed; revocation cuts an App off; an honest App
  is served. And where its promises end: in automatic mode a revoked App comes back, and the instance
  id an App names for itself can take another App's connection.
\<close>

declare map_of_eq_Some_iff [simp del] Some_eq_map_of_iff [simp del]

section \<open>Who reaches the Agent\<close>




lemma revoked_state:
  assumes ok: "gate_ok s" and t: "t = gateway_step E (Revoke_app a) s"
  shows "\<not> active_app a (gw_trusted t) \<and> (\<forall>c. jget (gw_apps t) c \<noteq> Some a)"
proof -
  have ok': "gate_ok t" unfolding t by (rule gate_step[OF ok])
  obtain b u where r: "revoke a (gw_now s) (gw_trusted s) = (b, u)" by (cases "revoke a (gw_now s) (gw_trusted s)")
  have "gw_trusted (disconnectApp E a x) = gw_trusted x" for x by (simp add: disconnectApp_def disconnect_all(2))
  moreover have "u = gw_trusted s" if "\<not> b" using r that by (auto simp: revoke_def split: option.splits if_splits)
  ultimately have "gw_trusted t = u" using r by (cases b) (simp_all add: t gateway_step_def revokeApp_def)
  then have "\<not> active_app a (gw_trusted t)" using r revoke_less[of a a "gw_now s" "gw_trusted s"] by auto
  moreover from this have "jget (gw_apps t) c \<noteq> Some a" for c using ok' unfolding gate_but_def by blast
  ultimately show ?thesis by blast
qed

text \<open>
  C15: revoking an App cuts it off at once: after the call, in any state the gate can reach, the App is not approved,
  no relay connection is any longer its own, and every connection that is still trusted belongs to another App that
  is approved.
\<close>

theorem revoked_app_is_cut_off:
  "\<not> active_app a (gw_trusted (gateway_step E (Revoke_app a) (gate_run E limits trusted start es)))
   \<and> (\<forall>c. jget (gw_apps (gateway_step E (Revoke_app a) (gate_run E limits trusted start es))) c \<noteq> Some a)
   \<and> {c. hasAuthenticatedConnection c (gw_registry (gateway_step E (Revoke_app a) (gate_run E limits trusted start es)))}
       \<subseteq> {c. \<exists>b. b \<noteq> a \<and> jget (gw_apps (gateway_step E (Revoke_app a) (gate_run E limits trusted start es))) c = Some b
            \<and> active_app b (gw_trusted (gateway_step E (Revoke_app a) (gate_run E limits trusted start es)))}"
proof -
  define t where "t = gateway_step E (Revoke_app a) (gate_run E limits trusted start es)"
  have gone: "\<not> active_app a (gw_trusted t)" "jget (gw_apps t) c \<noteq> Some a" for c
    using revoked_state[OF reachable_ok t_def] by blast+
  have "later t t" unfolding t_def by (rule later_refl[OF gate_step[OF reachable_ok]])
  from later_approved[OF this] gone(1) show ?thesis
    unfolding t_def[symmetric] approved_def using gone by fast
qed

section \<open>The dispatcher stops\<close>

text \<open>
  C26: the dispatcher returns on every message, also on frames packed into frames: with more fuel than the message is long
  the result is the same and the fuel has not run out, provided that opening a frame shortens it by the tag and
  that a parsed message is no longer than its text.
\<close>

theorem dispatch_terminates:
  assumes "shrinking E" and "frame_size m < n"
  shows "dispatch E n m None s = dispatch_message E m s \<and> gw_stuck (dispatch_message E m s) = gw_stuck s"
proof -
  have "dispatch E n m None s = dispatch E (frame_size m + 1) m None s"
    by (rule dispatch_fuel[OF assms]) simp
  moreover have "gw_stuck (dispatch E (frame_size m + 1) m None s) = gw_stuck s"
    by (rule dispatch_not_stuck[OF assms(1)]) simp
  ultimately show ?thesis by (simp only: dispatch_message_def)
qed

definition strict_crypto :: crypto where
  "strict_crypto = plain_crypto\<lparr>cr_open := (\<lambda>k n a f. if length f < 16 then None else Some (drop 16 f))\<rparr>"

text \<open>Every text is read as a frame whose body is that text.\<close>

definition nested_env :: agent_env where
  "nested_env = demo_env\<lparr>ge_crypto := strict_crypto, ge_parse := (\<lambda>bs. Some \<lparr>in_content = E2e_message
     \<lparr>fr_app_connection_id = ''c'', fr_session_id = ''s'', fr_seq = 2, fr_ciphertext = map (\<lambda>b. char_of (unat b)) bs\<rparr>,
     in_session = None, in_surface = None, in_body = []\<rparr>)\<rparr>"

theorem dispatch_terminates_witness:
  "dispatch nested_env 100 (innerToMessage \<lparr>in_content = E2e_message (demo_frame 1), in_session = None, in_surface = None, in_body = []\<rparr>) None demo_start
     = dispatch_message nested_env (innerToMessage \<lparr>in_content = E2e_message (demo_frame 1), in_session = None, in_surface = None, in_body = []\<rparr>) demo_start"
proof -
  have "shrinking nested_env"
    by (auto simp: shrinking_def nested_env_def strict_crypto_def AEAD_TAG_LEN_def split: if_splits)
  moreover have "frame_size (innerToMessage \<lparr>in_content = E2e_message (demo_frame 1), in_session = None, in_surface = None, in_body = []\<rparr>) < 100"
    by (simp add: frame_size_def innerToMessage_def demo_frame_def) code_simp
  ultimately show ?thesis using dispatch_terminates by blast
qed

section \<open>An honest App is served\<close>

lemma found_put:
  assumes "reg_ok g" "findByRelayConnectionId c g = Some e" "ac_id e' = ac_id e" "ac_relay_id e' = ac_relay_id e"
  shows "findByRelayConnectionId c (put_conn e' g) = Some e'"
proof -
  obtain k where k: "jget (by_id g) k = Some e" "ac_relay_id e = Some c" "c \<noteq> []"
    using find_relay_Some[OF reg_okD(1)[OF assms(1)] assms(2)] by blast
  have id: "ac_id e' = k" using reg_okD(2)[OF assms(1) k(1)] assms(3) by simp
  have put: "jget (by_id (put_conn e' g)) k = Some e'" by (simp add: put_conn_def id)
  show ?thesis
  proof (cases "findByRelayConnectionId c (put_conn e' g)")
    case None
    then show ?thesis using find_relay_None[OF None k(3) put] assms(4) k(2) by simp
  next
    case (Some x)
    have "jwf (by_id (put_conn e' g))" using reg_okD(1)[OF assms(1)] by (simp add: put_conn_def)
    from find_relay_Some[OF this Some] obtain k' where x: "ac_relay_id x = Some c" "jget (by_id (put_conn e' g)) k' = Some x"
      by blast
    then have "k' = k" using reg_okD(3)[OF assms(1) _ k(1) _ k(2,3)] id by (auto simp: put_conn_def split: if_splits)
    with x put Some show ?thesis by simp
  qed
qed

lemma found_after_mark:
  assumes "reg_ok g" "hasAuthenticatedConnection c g"
  shows "hasAuthenticatedConnection c (markE2EReady c t g)"
proof -
  obtain e where e: "findByRelayConnectionId c g = Some e" "ac_trusted e"
    using assms(2) by (auto simp: hasAuthenticatedConnection_def split: option.splits)
  have "findByRelayConnectionId c (put_conn (e2e_marked g t e) g) = Some (e2e_marked g t e)"
    by (rule found_put[OF assms(1) e(1)]) (simp_all add: e2e_marked_def)
  with e show ?thesis by (simp add: hasAuthenticatedConnection_def markE2EReady_def on_conn_def) (simp add: e2e_marked_def)
qed

text \<open>What the App on connection \<open>c\<close>, admitted as \<open>r\<close> by an Agent on its connection \<open>a\<close>, knows of the two ends.\<close>

definition link_context :: "agent_env \<Rightarrow> string \<Rightarrow> trusted_record \<Rightarrow> string \<Rightarrow> handshake_context" where
  "link_context E a r c = \<lparr>hc_device_id = ge_device E, hc_agent_public_key = ge_public E, hc_app_id = tr_appId r,
     hc_app_public_key = tr_publicKey r, hc_agent_connection_id = a, hc_app_connection_id = c, hc_handshake_id = None\<rparr>"

definition admitted :: "string \<Rightarrow> trusted_record \<Rightarrow> string \<Rightarrow> gateway \<Rightarrow> bool" where
  "admitted a r c s \<longleftrightarrow> gw_transport s \<and> gw_agent_connection s = Some a \<and> a \<noteq> [] \<and> hasAuthenticatedConnection c (gw_registry s)
     \<and> trusted_get (tr_appId r) (gw_trusted s) = Some r \<and> tr_status r = App_active"

definition incoming :: "agent_content \<Rightarrow> gateway_event" where
  "incoming x = Incoming \<lparr>am_content = x, am_app_connection = None, am_session = None, am_surface = None, am_relay_context = None, am_body = []\<rparr>"

lemma step_handshake: "gateway_step E (incoming (Handshake_init i)) s = handleE2EHandshakeInit E i s"
  "gateway_step E (incoming (E2e_ready_in p)) s = handleE2EReady E p s"
  by (simp_all add: gateway_step_def incoming_def dispatch_message_def Let_def)

lemma step_frame: "gateway_step E (incoming (E2e_message f)) s = (case open_e2e E f s of
    (None, s) \<Rightarrow> s
  | (Some d, s) \<Rightarrow> dispatch E (length (fr_ciphertext f)) d (Some \<lparr>cx_app = fr_app_connection_id f, cx_trusted = True\<rparr>) s)"
  by (simp add: gateway_step_def incoming_def dispatch_message_def frame_size_def Let_def)

lemma accept_any_id:
  "acceptInitiatorHandshake cr (x\<lparr>hc_handshake_id := h\<rparr>) private keys i = acceptInitiatorHandshake cr x private keys i"
proof -
  have "validateContext cr (x\<lparr>hc_handshake_id := h\<rparr>) = validateContext cr x"
    "validateInit cr (x\<lparr>hc_handshake_id := h\<rparr>) i = validateInit cr x i"
    "unsigned_reply (x\<lparr>hc_handshake_id := h\<rparr>) i = unsigned_reply x i"
    "hc_app_connection_id (x\<lparr>hc_handshake_id := h\<rparr>) = hc_app_connection_id x"
    by (simp_all add: validateContext_def validateInit_def unsigned_reply_def fun_eq_iff)
  then show ?thesis by (simp only: acceptInitiatorHandshake_def)
qed

lemma init_sent:
  assumes "createInitiatorHandshake cr x random keys sign = Inr st"
  shows "hi_app_id (is_init st) = hc_app_id x" "hi_app_public_key (is_init st) = hc_app_public_key x"
    "hi_agent_connection_id (is_init st) = hc_agent_connection_id x" "hi_app_connection_id (is_init st) = hc_app_connection_id x"
  using assms by (auto simp: createInitiatorHandshake_def Let_def unsigned_init_def split: option.splits)

lemma fresh_sessions:
  "complete cr st r = Inr app \<Longrightarrow> se_tx_seq app = 0"
  "acceptInitiatorHandshake cr x private keys i = Inr (r, agent) \<Longrightarrow> se_expected agent = 1 \<and> se_app_connection_id agent = hc_app_connection_id x"
  by (auto simp: complete_def acceptInitiatorHandshake_def new_session_def Let_def split: option.splits sum.splits)

text \<open>The three messages of an App, one after another, as steps of the gate.\<close>

lemma session_comes_up:
  assumes adm: "admitted a r c s" and ok: "gate_ok s"
    and init: "createInitiatorHandshake (ge_crypto E) (link_context E a r c) random keys sign = Inr st"
    and accept: "acceptInitiatorHandshake (ge_crypto E) (link_context E a r c) (ge_private E) (ge_ephemeral E (Suc (gw_key_count s))) (is_init st)
        = Inr (reply, agent)"
    and both: "complete (ge_crypto E) st reply = Inr app" "matched app agent"
  obtains s' where "gateway_step E (incoming (Handshake_init (is_init st))) s = s'"
    "gw_effects s' = gw_effects s @ [Sent (Control (Reply_out reply)), Sent (Control (Ready_out (readyPayload agent)))]"
    "jget (gw_peers (gateway_step E (incoming (E2e_ready_in (readyPayload app))) s')) c
        = Some \<lparr>ep_app_connection = c, ep_session = agent, ep_ready = True\<rparr>"
    "hasAuthenticatedConnection c (gw_registry (gateway_step E (incoming (E2e_ready_in (readyPayload app))) s'))"
    "gate_ok (gateway_step E (incoming (E2e_ready_in (readyPayload app))) s')"
proof -
  note i = init_sent[OF init, unfolded link_context_def, simplified]
  have ctx: "link_context E a r c = \<lparr>hc_device_id = ge_device E, hc_agent_public_key = ge_public E, hc_app_id = tr_appId r,
      hc_app_public_key = tr_publicKey r, hc_agent_connection_id = a, hc_app_connection_id = hi_app_connection_id (is_init st),
      hc_handshake_id = Some (hi_handshake_id (is_init st))\<rparr>\<lparr>hc_handshake_id := None\<rparr>"
    by (simp add: link_context_def i(4))
  have h: "agent_handshake E a r (is_init st) (Suc (gw_key_count s)) = Inr (reply, agent)"
    using accept unfolding ctx accept_any_id agent_handshake_def .
  define s' where "s' = gateway_step E (incoming (Handshake_init (is_init st))) s"
  have s': "s' = s\<lparr>gw_key_count := gw_key_count s + 1, gw_peers := jput c \<lparr>ep_app_connection = c, ep_session = agent, ep_ready = False\<rparr> (gw_peers s),
      gw_effects := gw_effects s @ [Sent (Control (Reply_out reply)), Sent (Control (Ready_out (readyPayload agent)))]\<rparr>"
    using adm h i by (simp add: s'_def step_handshake handleE2EHandshakeInit_def Let_def admitted_def send_control did_def)
  have ids: "se_app_connection_id app = c" "se_handshake_id app = se_handshake_id agent" "se_transcript_hash app = se_transcript_hash agent"
    using both(2) fresh_sessions(2)[OF accept] by (simp_all add: matched_def link_context_def)
  define u where "u = gateway_step E (incoming (E2e_ready_in (readyPayload app))) s'"
  have ok': "gate_ok s'" "gate_ok u" unfolding s'_def u_def by (intro gate_step ok)+
  have u: "u = on_registry (markE2EReady c (gw_now s)) (s'\<lparr>gw_peers := jput c \<lparr>ep_app_connection = c, ep_session = agent, ep_ready = True\<rparr> (gw_peers s')\<rparr>)"
    using ids by (simp add: u_def step_handshake handleE2EReady_def readyPayload_def Let_def) (simp add: s')
  have "hasAuthenticatedConnection c (gw_registry u)"
    using found_after_mark[OF gate_part[OF ok]] adm by (simp add: u s' on_registry_def admitted_def)
  then show ?thesis using that[of s'] ok'(2) by (simp add: s'_def[symmetric] u_def[symmetric]) (simp add: u s' on_registry_def)
qed

lemma frame_opened:
  assumes peer: "jget (gw_peers u) c = Some \<lparr>ep_app_connection = c, ep_session = agent, ep_ready = True\<rparr>"
    and auth: "hasAuthenticatedConnection c (gw_registry u)" and ok: "gate_ok u" and frame: "fr_app_connection_id f = c"
    and dec: "decrypt (ge_crypto E) (ge_parse E) f agent = (Inr x, agent')" and valid: "ge_valid E (innerToMessage x)"
  obtains t where "open_e2e E f u = (Some (innerToMessage x), t)" "gw_effects t = gw_effects u"
    "hasAuthenticatedConnection c (gw_registry t)"
proof -
  define t where "t = on_registry (markE2EReady c (gw_now u)) (u\<lparr>gw_peers := jput c \<lparr>ep_app_connection = c, ep_session = agent', ep_ready = True\<rparr> (gw_peers u)\<rparr>)"
  have "open_e2e E f u = (Some (innerToMessage x), t)"
    using assms by (simp add: open_e2e_def t_def Let_def)
  moreover have "hasAuthenticatedConnection c (gw_registry t)"
    using found_after_mark[OF gate_part[OF ok] auth] by (simp add: t_def on_registry_def)
  ultimately show ?thesis using that by (simp add: t_def on_registry_def)
qed

lemma handlers_run: "gw_effects (run_handlers hs m ctx s) = gw_effects s @ map (\<lambda>h. Handled h m ctx) hs"
  unfolding run_handlers_def by (induction hs arbitrary: s) (simp_all add: did_def)

lemma handlers_fields: "gw_peers (run_handlers hs m ctx s) = gw_peers s" "gw_registry (run_handlers hs m ctx s) = gw_registry s"
  unfolding run_handlers_def by (induction hs arbitrary: s) (simp_all add: did_def)

lemma business_runs:
  assumes "in_content x = Plain ty kind n" "map_of (business_handlers (innerToMessage x) kind) ty = Some hs"
    and "hasAuthenticatedConnection c (gw_registry t)" and "c \<noteq> []"
  shows "dispatch E (Suc k) (innerToMessage x) (Some \<lparr>cx_app = c, cx_trusted = True\<rparr>) t
    = run_handlers hs (innerToMessage x) (Some \<lparr>cx_app = c, cx_trusted = True\<rparr>)
        (on_registry (recordMessage c Flow_in True (ge_size E (innerToMessage x)) (gw_now t)) t)"
proof -
  have m: "am_content (innerToMessage x) = Plain ty kind n" using assms(1) by (simp add: innerToMessage_def)
  have "handle_business E m' ty kind (Some \<lparr>cx_app = c, cx_trusted = True\<rparr>) True t
      = run_handlers hs m' (Some \<lparr>cx_app = c, cx_trusted = True\<rparr>) (on_registry (recordMessage c Flow_in True (ge_size E m') (gw_now t)) t)"
    if "map_of (business_handlers m' kind) ty = Some hs" for m'
    using that assms(3,4) by (simp add: handle_business_def recordInboundBusiness_def recordInboundBusinessForConnection_def rejectUnencryptedBusiness_def)
  from this[OF assms(2)] m show ?thesis by (simp add: Let_def)
qed

lemma business_served:
  assumes "in_content x = Plain ty kind n" "map_of (business_handlers (innerToMessage x) kind) ty = Some hs"
    and "hasAuthenticatedConnection c (gw_registry t)" and "c \<noteq> []"
  shows "gw_effects (dispatch E (Suc k) (innerToMessage x) (Some \<lparr>cx_app = c, cx_trusted = True\<rparr>) t)
    = gw_effects t @ map (\<lambda>h. Handled h (innerToMessage x) (Some \<lparr>cx_app = c, cx_trusted = True\<rparr>)) hs"
  unfolding business_runs[OF assms] by (simp add: handlers_run on_registry_def)

text \<open>
  C12: an App the owner approved is served. In any state the gate can reach where the App's proof has been accepted on its
  connection, the App opens a session with three messages: its init is answered with a reply that completes its
  handshake, its ready message makes the session ready, and a business request it then encrypts is handed to exactly the
  handlers of its type, as a request of this App.
\<close>

theorem honest_app_is_served:
  assumes "admitted a r c (gate_run E limits trusted start es)" and "c \<noteq> []"
    and "validateContext (ge_crypto E) (link_context E a r c) = None"
    and "signs_for (ge_crypto E) (tr_publicKey r) E2E_INIT_DOMAIN sign"
    and "signs_for (ge_crypto E) (ge_public E) E2E_REPLY_DOMAIN (signIdentityFields (ge_crypto E) (ge_private E) E2E_REPLY_DOMAIN)"
    and "exchange (ge_crypto E) keys (ge_ephemeral E (Suc (gw_key_count (gate_run E limits trusted start es))))"
    and "authentic (ge_crypto E)" and "ge_parse E (enc x) = Some x" and "ge_valid E (innerToMessage x)"
    and "in_content x = Plain ty kind n" and "map_of (business_handlers (innerToMessage x) kind) ty = Some hs"
  shows "\<exists>st reply app frame app' s1 s2. createInitiatorHandshake (ge_crypto E) (link_context E a r c) random keys sign = Inr st
     \<and> s1 = gateway_step E (incoming (Handshake_init (is_init st))) (gate_run E limits trusted start es)
     \<and> Sent (Control (Reply_out reply)) \<in> set (gw_effects s1) \<and> complete (ge_crypto E) st reply = Inr app
     \<and> s2 = gateway_step E (incoming (E2e_ready_in (readyPayload app))) s1
     \<and> encrypt (ge_crypto E) enc x app = (Inr frame, app')
     \<and> gw_effects (gateway_step E (incoming (E2e_message frame)) s2) = gw_effects s2
         @ map (\<lambda>h. Handled h (innerToMessage x) (Some \<lparr>cx_app = c, cx_trusted = True\<rparr>)) hs"
proof -
  let ?s = "gate_run E limits trusted start es" and ?L = "link_context E a r c"
  obtain st reply app agent where run: "createInitiatorHandshake (ge_crypto E) ?L random keys sign = Inr st"
    "acceptInitiatorHandshake (ge_crypto E) ?L (ge_private E) (ge_ephemeral E (Suc (gw_key_count ?s))) (is_init st) = Inr (reply, agent)"
    "complete (ge_crypto E) st reply = Inr app" "matched app agent"
    using handshake_runs[OF assms(3) _ _ assms(6), of sign "ge_private E" random] assms(4,5) by (auto simp: link_context_def)
  obtain s1 where s1: "gateway_step E (incoming (Handshake_init (is_init st))) ?s = s1"
    "gw_effects s1 = gw_effects ?s @ [Sent (Control (Reply_out reply)), Sent (Control (Ready_out (readyPayload agent)))]"
    and up: "jget (gw_peers (gateway_step E (incoming (E2e_ready_in (readyPayload app))) s1)) c
        = Some \<lparr>ep_app_connection = c, ep_session = agent, ep_ready = True\<rparr>"
    "hasAuthenticatedConnection c (gw_registry (gateway_step E (incoming (E2e_ready_in (readyPayload app))) s1))"
    "gate_ok (gateway_step E (incoming (E2e_ready_in (readyPayload app))) s1)"
    by (rule session_comes_up[OF assms(1) reachable_ok run])
  let ?u = "gateway_step E (incoming (E2e_ready_in (readyPayload app))) s1"
  note numbers = fresh_sessions(1)[OF run(3)] fresh_sessions(2)[OF run(2)]
  obtain f where f: "encrypt (ge_crypto E) enc x app = (Inr f, app\<lparr>se_tx_seq := se_tx_seq app + 1\<rparr>)"
    "decrypt (ge_crypto E) (ge_parse E) f agent = (Inr x, agent\<lparr>se_expected := se_expected agent + 1\<rparr>)"
    by (rule one_message[where a = app and b = agent and cr = "ge_crypto E" and enc = enc and dec = "ge_parse E" and i = x])
      (use run(4) assms(7,8) numbers in \<open>auto simp: MAX_SAFE_INTEGER_def\<close>)
  have frame: "fr_app_connection_id f = c" and nonempty: "fr_ciphertext f \<noteq> []"
    using f(2) numbers by (auto simp: decrypt_def open_frame_def link_context_def fromBase64Url_def split: if_splits option.splits)
  obtain t where t: "open_e2e E f ?u = (Some (innerToMessage x), t)" "gw_effects t = gw_effects ?u"
    "hasAuthenticatedConnection c (gw_registry t)"
    by (rule frame_opened[OF up frame f(2) assms(9)])
  obtain k where k: "length (fr_ciphertext f) = Suc k" using nonempty by (cases "fr_ciphertext f") auto
  have "gw_effects (gateway_step E (incoming (E2e_message f)) ?u)
      = gw_effects ?u @ map (\<lambda>h. Handled h (innerToMessage x) (Some \<lparr>cx_app = c, cx_trusted = True\<rparr>)) hs"
    using business_served[OF assms(10,11) t(3) assms(2), of E k] by (simp add: step_frame t(1,2) frame k del: dispatch.simps)
  with run(1,3) s1 f(1) show ?thesis by auto
qed

lemma authenticated_live: "ac_trusted (authenticated_conn g i a r obs t e) \<and> ac_state (authenticated_conn g i a r obs t e) = Conn_active"
proof -
  have "ac_trusted (recordObservations os x) = ac_trusted x \<and> ac_state (recordObservations os x) = ac_state x" for os x
    unfolding recordObservations_def by (induction os arbitrary: x) (simp_all add: recordObservation_def)
  then show ?thesis by (simp add: authenticated_conn_def Let_def)
qed

lemma demo_admitted:
  "admitted ''conn_a'' demo_record ''conn_p'' (gate_run demo_env (30000, 60000, 120000) no_apps 0 demo_events)"
proof -
  define s where "s = (ask_owner demo_env demo_proof demo_start)\<lparr>gw_pending := [],
     gw_trusted := persist (no_apps\<lparr>ts_records := [(plain_id Id_app, demo_record)]\<rparr>)\<rparr>"
  have s: "gw_transport s" "gw_agent_connection s = Some ''conn_a''" "gw_now s = 0" "gw_registry s = new_registry 30000 60000 120000"
    by (simp_all add: s_def ask_owner_def Let_def send_control) (simp_all add: demo_start_def new_gateway_def did_def)
  have accepted: "acceptAuthenticatedConnectionDetailed u (vf_app_info demo_proof) (Some (vf_app_id demo_proof)) (vf_connection_id demo_proof)
        (vf_observations demo_proof) 0 (new_registry 30000 60000 120000) = ((e, previous), g)
      \<Longrightarrow> previous = None \<and> hasAuthenticatedConnection ''conn_p'' g" for u e previous g
    by (auto simp: acceptAuthenticatedConnectionDetailed_def Let_def new_registry_def findByRelayConnectionId_def findByRuntimeKey_def
        findByAppInstanceId_def findRuntimeKeyByAppInstanceId_def or_else_def demo_proof_def hasAuthenticatedConnection_def
        authenticated_live authenticated_fields)
  obtain e previous g where acc: "acceptAuthenticatedConnectionDetailed (ge_uuid demo_env (gw_uuid_count s)) (vf_app_info demo_proof)
      (Some (vf_app_id demo_proof)) (vf_connection_id demo_proof) (vf_observations demo_proof) 0 (new_registry 30000 60000 120000)
        = ((e, previous), g)" by (metis prod.collapse)
  note g = accepted[OF acc]
  let ?t = "accept_app demo_env demo_proof s"
  have t: "gw_transport ?t" "gw_agent_connection ?t = Some ''conn_a''" "gw_registry ?t = g"
    "gw_trusted ?t = markSeen (plain_id Id_app) 0 (gw_trusted s)"
    using acc g s by (simp_all add: accept_app_def Let_def) (simp add: demo_proof_def)
  have "trusted_get (plain_id Id_app) (gw_trusted ?t) = Some demo_record"
    unfolding t(4) by (simp add: s_def markSeen_def persist_def trusted_get_def no_apps_def) (simp add: demo_record_def)
  moreover have "\<exists>c. authorizeApp demo_env demo_proof demo_record s = ?t \<or> authorizeApp demo_env demo_proof demo_record s = did c ?t"
    using t(1) s(2) by (auto simp: authorizeApp_def Let_def send_control split: option.split)
  ultimately show ?thesis
    using t g by (auto simp: admitted_def demo_run Let_def s_def[symmetric] did_def) (simp_all add: demo_record_def)
qed

theorem honest_app_is_served_witness:
  "\<exists>st reply app frame app' s1 s2.
     createInitiatorHandshake plain_crypto (link_context demo_env ''conn_a'' demo_record ''conn_p'') [1] (zero_key, zero_key)
       (signIdentityFields plain_crypto (toBase64Url zero_key) E2E_INIT_DOMAIN) = Inr st
     \<and> s1 = gateway_step demo_env (incoming (Handshake_init (is_init st))) (gate_run demo_env (30000, 60000, 120000) no_apps 0 demo_events)
     \<and> Sent (Control (Reply_out reply)) \<in> set (gw_effects s1) \<and> complete plain_crypto st reply = Inr app
     \<and> s2 = gateway_step demo_env (incoming (E2e_ready_in (readyPayload app))) s1
     \<and> encrypt plain_crypto (\<lambda>m. []) demo_request app = (Inr frame, app')
     \<and> gw_effects (gateway_step demo_env (incoming (E2e_message frame)) s2) = gw_effects s2
         @ [Handled Session_list (innerToMessage demo_request) (Some \<lparr>cx_app = ''conn_p'', cx_trusted = True\<rparr>)]"
proof -
  have key: "tr_publicKey demo_record = toBase64Url zero_key" "ge_public demo_env = toBase64Url zero_key"
    "ge_private demo_env = toBase64Url zero_key" "ge_ephemeral demo_env n = (zero_key, zero_key)"
    "ge_parse demo_env bs = Some demo_request" "ge_valid demo_env m" for n bs m
    by (simp_all add: demo_record_def demo_env_def)
  have "validateContext plain_crypto (link_context demo_env ''conn_a'' demo_record ''conn_p'') = None"
    using plain_matches by (simp add: validateContext_def link_context_def demo_env_def demo_record_def)
  moreover have "signs_for plain_crypto (toBase64Url zero_key) E2E_INIT_DOMAIN (signIdentityFields plain_crypto (toBase64Url zero_key) E2E_INIT_DOMAIN)"
    "signs_for plain_crypto (toBase64Url zero_key) E2E_REPLY_DOMAIN (signIdentityFields plain_crypto (toBase64Url zero_key) E2E_REPLY_DOMAIN)"
    using plain_verifies domains_plain by (simp_all add: E2E_INIT_DOMAIN_def E2E_REPLY_DOMAIN_def)
  moreover have "exchange plain_crypto (zero_key, zero_key) (zero_key, zero_key)" "authentic plain_crypto"
    by (simp_all add: exchange_def zero_key_def authentic_def AEAD_TAG_LEN_def) (simp_all add: plain_crypto_def)
  moreover have "in_content demo_request = Plain ''session.list'' None None"
    "map_of (business_handlers (innerToMessage demo_request) None) ''session.list'' = Some [Session_list]"
    by (simp_all add: demo_request_def business_handlers_def)
  ultimately show ?thesis
    using honest_app_is_served[OF demo_admitted, where enc = "\<lambda>m. []" and x = demo_request and keys = "(zero_key, zero_key)"
        and random = "[1]" and ty = "''session.list''" and kind = None and n = None and hs = "[Session_list]"
        and sign = "signIdentityFields plain_crypto (toBase64Url zero_key) E2E_INIT_DOMAIN", unfolded demo_crypto key(1-5)]
      key(6)[of "innerToMessage demo_request"] by simp
qed

section \<open>Proofs are used once\<close>

lemma remembered_window:
  assumes "distinct ks" "[] \<notin> set ks"
  shows "rc_order (fold remember ks (new_replay_cache n)) = drop (length ks - n) ks
    \<and> set (rc_set (fold remember ks (new_replay_cache n))) = set (rc_order (fold remember ks (new_replay_cache n)))
    \<and> rc_max (fold remember ks (new_replay_cache n)) = n"
  using assms
proof (induction ks rule: rev_induct)
  case Nil
  then show ?case by (simp add: new_replay_cache_def)
next
  case (snoc k ks)
  then have ih: "rc_order (fold remember ks (new_replay_cache n)) = drop (length ks - n) ks"
    "set (rc_set (fold remember ks (new_replay_cache n))) = set (rc_order (fold remember ks (new_replay_cache n)))"
    "rc_max (fold remember ks (new_replay_cache n)) = n" by simp_all
  from remember_window[OF snoc.prems, of "fold remember ks (new_replay_cache n)"] ih show ?case by simp
qed

text \<open>
  The cache of used proofs holds exactly the last \<open>n\<close> keys it was given: one of those is known again, an older one
  is forgotten, and the cache never holds more than \<open>n\<close>.
\<close>

theorem replay_window:
  assumes "distinct ks" and "[] \<notin> set ks"
  shows "{k. replay_has k (fold remember ks (new_replay_cache n))} = set (drop (length ks - n) ks)
    \<and> length (rc_order (fold remember ks (new_replay_cache n))) = min n (length ks)"
  using remembered_window[OF assms, of n] by (auto simp: replay_has_def)

theorem replay_window_witness:
  "{k. replay_has k (fold remember [''a|1'', ''b|2'', ''a|3''] (new_replay_cache 2))} = {''b|2'', ''a|3''}"
  using replay_window[of "[''a|1'', ''b|2'', ''a|3'']" 2] by simp

section \<open>The store of trusted Apps\<close>



section \<open>Where the promises end\<close>

text \<open>
  Revocation does not hold in automatic mode: an App that the owner revoked and that proves itself again is approved
  again and admitted, with no one asked.
\<close>

theorem automatic_mode_readmits:
  assumes "ge_automatic E" and "jget (ts_records (gw_trusted s)) (vf_app_id v) = Some r" and "tr_status r = App_revoked"
    and "\<not> replay_has (replay_key v) (gw_replay s)" and "gw_agent_connection s = Some a" and "a \<noteq> []"
    and "proof_matches E a (Some (vf_connection_id v)) v" and "\<bar>gw_now s - vf_timestamp v\<bar> \<le> 60000" and "proof_signed E v"
  shows "\<not> active_app (vf_app_id v) (gw_trusted s)
    \<and> active_app (vf_app_id v) (gw_trusted (handleAuthVerify E (Some (vf_connection_id v)) v s))"
proof -
  obtain q u where u: "trustApp E v s = Some (q, u)" "active_app (vf_app_id v) (gw_trusted u)"
    using assms(7) by (auto simp: trustApp_def approve_def Let_def proof_matches_def active_app_def persist_def)
  have "handleAuthVerify E (Some (vf_connection_id v)) v s = authorizeApp E v q u"
    using assms by (simp add: handleAuthVerify_def trusted_get_def u(1))
  then show ?thesis using assms(2,3) u(2) by (simp add: active_app_def[of _ "gw_trusted s"])
qed

theorem automatic_mode_readmits_witness:
  "\<exists>s. \<not> active_app (plain_id Id_app) (gw_trusted s)
     \<and> active_app (plain_id Id_app) (gw_trusted (handleAuthVerify (demo_env\<lparr>ge_automatic := True\<rparr>) (Some ''conn_p'') demo_proof s))"
proof -
  define s where "s = demo_start\<lparr>gw_trusted := no_apps\<lparr>ts_records := [(plain_id Id_app, demo_record\<lparr>tr_status := App_revoked\<rparr>)]\<rparr>\<rparr>"
  have start: "\<not> replay_has (replay_key demo_proof) (gw_replay s)" "gw_agent_connection s = Some ''conn_a''" "gw_now s = 0"
    "jget (ts_records (gw_trusted s)) (plain_id Id_app) = Some (demo_record\<lparr>tr_status := App_revoked\<rparr>)"
    by (simp_all add: s_def) (simp_all add: demo_start_def new_gateway_def replay_has_def new_replay_cache_def)
  have p: "vf_app_id demo_proof = plain_id Id_app" "vf_connection_id demo_proof = ''conn_p''" "vf_timestamp demo_proof = 0"
    by (simp_all add: demo_proof_def)
  have E: "proof_matches (demo_env\<lparr>ge_automatic := True\<rparr>) ''conn_a'' (Some ''conn_p'') demo_proof"
    "proof_signed (demo_env\<lparr>ge_automatic := True\<rparr>) demo_proof"
    using demo_matches demo_signed by (simp_all add: proof_matches_def proof_signed_def)
  show ?thesis
    using automatic_mode_readmits[of "demo_env\<lparr>ge_automatic := True\<rparr>" s demo_proof _ "''conn_a''"] start E
    by (intro exI[of _ s]) (simp add: p)
qed

text \<open>A proof that is accepted at once, of an App with the record \<open>r\<close>.\<close>

definition good_proof :: "agent_env \<Rightarrow> gateway \<Rightarrow> trusted_record \<Rightarrow> auth_verify \<Rightarrow> bool" where
  "good_proof E s r v \<longleftrightarrow> \<not> replay_has (replay_key v) (gw_replay s) \<and> \<bar>gw_now s - vf_timestamp v\<bar> \<le> 60000 \<and> proof_signed E v
     \<and> (case gw_agent_connection s of None \<Rightarrow> False | Some a \<Rightarrow> a \<noteq> [] \<and> proof_matches E a (Some (vf_connection_id v)) v)
     \<and> trusted_get (vf_app_id v) (gw_trusted s) = Some r \<and> tr_status r = App_active \<and> tr_publicKey r = vf_app_public_key v"

text \<open>
  The instance id an App names for itself is not bound to its key: if an approved App proves itself from a new connection
  and runtime but names the instance id of another App, it takes over that App's entry; the other App's
  connection is no longer authenticated, its session is gone and it is reported as superseded.
\<close>

theorem instance_id_takes_connection:
  assumes "reg_ok (gw_registry s)" and "good_proof E s r v"
    and "findByRelayConnectionId (vf_connection_id v) (gw_registry s) = None"
    and "findByRuntimeKey (runtimeKey (vf_app_info v)) (gw_registry s) = None"
    and "findByAppInstanceId (inf_instance (vf_app_info v)) (gw_registry s) = Some e"
    and "ac_relay_id e = Some c" and "c \<noteq> []" and "c \<noteq> vf_connection_id v" and "ac_app_id e \<noteq> Some (vf_app_id v)"
  shows "Superseded c \<in> set (gw_effects (handleAuthVerify E (Some (vf_connection_id v)) v s))
    \<and> \<not> hasAuthenticatedConnection c (gw_registry (handleAuthVerify E (Some (vf_connection_id v)) v s))
    \<and> \<not> hasReadyE2EPeer c (handleAuthVerify E (Some (vf_connection_id v)) v s)"
proof -
  obtain e' p g where acc: "acceptAuthenticatedConnectionDetailed (ge_uuid E (gw_uuid_count s)) (vf_app_info v) (Some (vf_app_id v))
      (vf_connection_id v) (vf_observations v) (gw_now s) (gw_registry s) = ((e', p), g)" by (metis prod.exhaust_sel)
  then have p: "p = Some c"
    using assms(3-8) by (simp add: acceptAuthenticatedConnectionDetailed_def Let_def or_else_def)
  note reg = accept_reg(1,2)[OF assms(1) acc]
  then have "c \<notin> trusted_relays g" using assms(8) p by auto
  then have out: "\<not> hasAuthenticatedConnection c g" using hasAuthenticated_trusted reg_okD(1)[OF reg(1)] by blast
  have t: "gw_registry (accept_app E v s) = g" "Superseded c \<in> set (gw_effects (accept_app E v s))"
    "jget (gw_peers (accept_app E v s)) c = None"
    using acc p by (simp_all add: accept_app_def Let_def detachSupersededAppConnection_def did_def)
  obtain a where a: "gw_agent_connection s = Some a" "a \<noteq> []" "proof_matches E a (Some (vf_connection_id v)) v"
    using assms(2) by (auto simp: good_proof_def split: option.splits)
  have "handleAuthVerify E (Some (vf_connection_id v)) v s = authorizeApp E v r s"
    using assms(2) a by (simp add: good_proof_def handleAuthVerify_def)
  moreover have "\<exists>k. authorizeApp E v r s = accept_app E v s \<or> authorizeApp E v r s = send_out E (Control k) (accept_app E v s)"
    using a(1,2) by (auto simp: authorizeApp_def Let_def split: option.split)
  ultimately show ?thesis using t out by (auto simp: send_control did_def hasReadyE2EPeer_def split: if_splits)
qed

definition other_entry :: app_conn where
  "other_entry = createBaseConnection ''x'' \<lparr>inf_instance = ''i'', inf_runtime = ''q'', inf_device = None, inf_app = None\<rparr> (Some ''other'')
     ''conn_o'' 0 (new_registry 30000 60000 120000)"

definition taken_state :: gateway where
  "taken_state = demo_start\<lparr>gw_trusted := no_apps\<lparr>ts_records := [(plain_id Id_app, demo_record)]\<rparr>,
     gw_registry := (new_registry 30000 60000 120000)\<lparr>by_id := [(''x'', other_entry)], by_instance := [(''i'', ''x'')],
       by_runtime := [(''i:q'', ''x'')]\<rparr>\<rparr>"

theorem instance_id_takes_connection_witness:
  "hasAuthenticatedConnection ''conn_o'' (gw_registry taken_state)
    \<and> \<not> hasAuthenticatedConnection ''conn_o'' (gw_registry (handleAuthVerify demo_env (Some ''conn_p'') demo_proof taken_state))"
proof -
  have p: "vf_app_id demo_proof = plain_id Id_app" "vf_connection_id demo_proof = ''conn_p''" "vf_timestamp demo_proof = 0"
    "vf_app_public_key demo_proof = toBase64Url zero_key" "inf_instance (vf_app_info demo_proof) = ''i''" "inf_runtime (vf_app_info demo_proof) = ''r''"
    by (simp_all add: demo_proof_def)
  have o: "ac_id other_entry = ''x''" "ac_relay_id other_entry = Some ''conn_o''" "ac_app_id other_entry = Some ''other''"
    "ac_trusted other_entry" "ac_state other_entry = Conn_active"
    by (simp_all add: other_entry_def createBaseConnection_def)
  have r: "tr_status demo_record = App_active" "tr_publicKey demo_record = toBase64Url zero_key" by (simp_all add: demo_record_def)
  have s: "by_id (gw_registry taken_state) = [(''x'', other_entry)]" "by_instance (gw_registry taken_state) = [(''i'', ''x'')]"
    "by_runtime (gw_registry taken_state) = [(''i:q'', ''x'')]" "gw_now taken_state = 0" "gw_agent_connection taken_state = Some ''conn_a''"
    "trusted_get (plain_id Id_app) (gw_trusted taken_state) = Some demo_record" "\<not> replay_has k (gw_replay taken_state)" for k
    by (simp_all add: taken_state_def trusted_get_def no_apps_def) (simp_all add: demo_start_def new_gateway_def replay_has_def new_replay_cache_def)
  have "reg_ok (gw_registry taken_state)" by (simp add: reg_ok_def one_per_relay_def s o)
  moreover have "good_proof demo_env taken_state demo_record demo_proof"
    using demo_signed demo_matches by (simp add: good_proof_def s p r)
  moreover have "plain_id Id_app \<noteq> ''other''" by code_simp
  ultimately show ?thesis
    using instance_id_takes_connection[of taken_state demo_env demo_record demo_proof other_entry "''conn_o''"]
    by (simp add: findByRelayConnectionId_def findByRuntimeKey_def findByAppInstanceId_def runtimeKey_def s p o hasAuthenticatedConnection_def)
qed

end
