(* ===== verification/AppProperties.thy ===== *)
theory AppProperties
  imports AppSafety GatewayProperties
begin

text \<open>
  What the App's session promises, alone and together with the Agent's gate: business stays inside the session
  with the paired Agent, a closed session is silent, and requests queued before the session was ready reach
  the Agent's handlers in order.
\<close>

declare map_of_eq_Some_iff [simp del] Some_eq_map_of_iff [simp del]

section \<open>Business stays inside the session\<close>


section \<open>A closed session is silent\<close>

definition closed_inv :: "mobile_session \<Rightarrow> bool" where
  "closed_inv s \<longleftrightarrow> (ms_closed s \<longrightarrow> cleared s \<and> \<not> ms_socket_open s)"

lemma closed_step:
  assumes "ms_closed s" "closed_inv s"
  shows "ms_effects (app_step E e s) = ms_effects s \<and> ms_closed (app_step E e s) \<and> closed_inv (app_step E e s)"
proof (cases e)
  case (Resumed n ok)
  define u where "u = s\<lparr>ms_tasks := take n (ms_tasks s) @ drop (Suc n) (ms_tasks s)\<rparr>"
  have u: "ms_closed u" "closed_inv u" "ms_effects u = ms_effects s" using assms by (simp_all add: u_def closed_inv_def cleared_def)
  have proof_silent: "snd (send_proof E v u) = u" for v using u by (simp add: send_proof_def split: option.split)
  have "snd (if \<not> ok then (True, u) else case ms_tasks s ! n of
      Wait_info c \<Rightarrow> (False, if ms_closed u then u else wait_for (Wait_proof (proof_for E c (ms_now u))) u)
    | Wait_proof v \<Rightarrow> send_proof E v u | Wait_handshake (Inl _) _ \<Rightarrow> (True, u) | Wait_handshake (Inr st) raw \<Rightarrow> send_init st raw u) = u"
    using u proof_silent by (cases "ms_tasks s ! n") (auto simp: send_init_def split: sum.split)
  moreover have "rejected x = snd x" if "ms_closed (snd x)" for x using that by (cases x) (simp add: rejected_def)
  ultimately have "resume E n ok s = (if n \<ge> length (ms_tasks s) then s else u)"
    using u(1) unfolding resume_def Let_def u_def[symmetric] by simp
  then show ?thesis using u assms by (simp add: Resumed app_step_def)
qed (use assms in \<open>auto simp: app_step_def connect_app_def connect_fails_def connect_continues_def Let_def handleIncomingMessage_def
    send_app_def encodeForP2p_def close_app_def clearSession_def closed_inv_def cleared_def split: connect_stage.split\<close>)

lemma closed_run:
  "ms_closed s \<Longrightarrow> closed_inv s \<Longrightarrow> ms_effects (fold (app_step E) es s) = ms_effects s
     \<and> ms_closed (fold (app_step E) es s) \<and> closed_inv (fold (app_step E) es s)"
  by (induction es arbitrary: s) (auto simp: closed_step)

text \<open>No operation but the three that clear the session sets the flag.\<close>

lemma open_send [simp]: "ms_closed (snd (client_send x s)) = ms_closed s" "ms_closed (happened y s) = ms_closed s"
    "ms_closed (snd (send_app E m s)) = ms_closed s" "ms_closed (encodeForP2p E m s) = ms_closed s" "ms_closed (dispatch_app m s) = ms_closed s"
    "ms_closed (wait_for t s) = ms_closed s" "ms_closed (client_close code r s) = ms_closed s"
  by (auto simp: client_send_def happened_def send_app_def encodeForP2p_def encodeOutgoingMessage_def dispatch_app_def wait_for_def
      client_close_def split: option.split sum.split prod.split)

lemma open_flush [simp]: "ms_closed (snd (flush_pending E ms s)) = ms_closed s"
proof (induction ms arbitrary: s)
  case (Cons m ms)
  then show ?case using open_send(3)[of E m s] by (cases "send_app E m s") (auto split: bool.split)
qed simp

lemma open_message: "ms_closed (snd (handleMessage_app E i s)) = ms_closed s"
  by (auto simp: handleMessage_app_def handleAuthChallenge_def handleAuthOk_def handleE2EHandshakeReply_def app_ready_def app_frame_def
      flushPendingBusinessMessages_def dispatchRelayUpgradeControl_def Let_def split: app_content.split option.split sum.split prod.split)

lemma client_close_shut: "\<not> ms_socket_open (client_close code r s)"
  by (simp add: client_close_def happened_def)

lemma closing_inv: "closed_inv (client_close code r (clearSession s))"
  using client_close_shut by (simp add: closed_inv_def) (simp add: cleared_def clearSession_def client_close_def happened_def)

lemma rejected_inv: "\<not> ms_closed (snd x) \<Longrightarrow> closed_inv (rejected x)"
  by (cases x) (simp add: rejected_def closing_inv, simp add: closed_inv_def)

lemma open_task: "ms_closed (snd (send_proof E v s)) = ms_closed s" "ms_closed (snd (send_init st raw s)) = ms_closed s"
proof -
  show "ms_closed (snd (send_proof E v s)) = ms_closed s"
    by (simp add: send_proof_def split: option.split)
  show "ms_closed (snd (send_init st raw s)) = ms_closed s"
    using open_send(1)[of "Out_init (is_init st)" "s\<lparr>ms_handshake := Some st\<rparr>"]
    by (cases "client_send (Out_init (is_init st)) (s\<lparr>ms_handshake := Some st\<rparr>)") (auto simp: send_init_def split: bool.split)
qed

lemma open_inv: "\<not> ms_closed s \<Longrightarrow> closed_inv s"
  by (simp add: closed_inv_def)

lemma closed_inv_step: "closed_inv s \<Longrightarrow> True \<Longrightarrow> closed_inv (app_step E e s)"
proof (cases "ms_closed s")
  case False
  show ?thesis
  proof (cases e)
    case (Received i)
    then show ?thesis using False rejected_inv[of "handleMessage_app E i s"] by (simp add: app_step_def handleIncomingMessage_def open_message)
  next
    case (Resumed n ok)
    show ?thesis
    proof (cases "n \<ge> length (ms_tasks s)")
      case False
      then show ?thesis unfolding Resumed app_step_def app_event.case resume_def Let_def
        using \<open>\<not> ms_closed s\<close> by (simp only: if_False) (rule rejected_inv, auto simp: open_task split: app_task.split sum.split)
    qed (use False in \<open>simp add: Resumed app_step_def resume_def open_inv\<close>)
  next
    case (Connect_back ok)
    then show ?thesis using False open_send(1)[of Out_connect s]
      by (cases "client_send Out_connect s")
        (auto simp: app_step_def connect_continues_def connect_fails_def Let_def intro!: open_inv split: connect_stage.split bool.split)
  next
    case Socket_closed
    then show ?thesis by (simp add: app_step_def closed_inv_def cleared_def clearSession_def)
  qed (use False in \<open>auto simp: app_step_def connect_app_def connect_fails_def close_app_def send_lifecycle_def Let_def closing_inv
      intro!: open_inv\<close>)
qed (use closed_step in blast)

interpretation app_closed: invariant_machine "app_step E" closed_inv "\<lambda>e. True"
  by unfold_locales (rule closed_inv_step)

text \<open>
  C32: once the App's session has closed, for whatever reason, it does nothing more: no event, not even a wait that comes
  back or a timer, sends, dispatches or closes anything, and keys, handshake, connection and queued messages are gone.
\<close>

theorem closed_session_is_silent:
  assumes "ms_closed (app_run E t es)"
  shows "ms_effects (app_run E t (es @ rest)) = ms_effects (app_run E t es) \<and> cleared (app_run E t (es @ rest))
    \<and> ms_closed (app_run E t (es @ rest))"
proof -
  have "closed_inv (app_run E t es)"
    unfolding app_run_def by (rule app_closed.run_inv) (simp_all add: open_inv new_session_of_def)
  from closed_run[OF assms this, of E rest] show ?thesis by (simp add: app_run_def closed_inv_def)
qed

definition demo_app_env :: app_env where
  "demo_app_env = \<lparr>ae_crypto = plain_crypto, ae_device = plain_id Id_agent, ae_app_id = plain_id Id_app, ae_app_key = toBase64Url zero_key,
     ae_sign = (\<lambda>domain. signIdentityFields plain_crypto (toBase64Url zero_key) domain),
     ae_info = \<lparr>inf_instance = ''i'', inf_runtime = ''r'', inf_device = None, inf_app = None\<rparr>, ae_random = (\<lambda>n. [1]),
     ae_ephemeral = (\<lambda>n. (zero_key, zero_key)), ae_write = (\<lambda>m. []), ae_parse = (\<lambda>bs. None), ae_valid = (\<lambda>m. True),
     ae_lifecycle = (\<lambda>n x. [])\<rparr>"

theorem closed_session_is_silent_witness:
  "ms_effects (app_run demo_app_env 0 ([Connect_call, Close_call] @ [Connect_back True, Send_call \<lparr>om_type = ''ping'', om_session = None, om_surface = None, om_body = []\<rparr>]))
    = [Socket_close 1000 ''client closing'']"
proof -
  have "ms_closed (app_run demo_app_env 0 [Connect_call, Close_call])"
    "ms_effects (app_run demo_app_env 0 [Connect_call, Close_call]) = [Socket_close 1000 ''client closing'']"
    by (simp_all add: app_run_def app_step_def connect_app_def close_app_def new_session_of_def client_close_def clearSession_def happened_def)
  with closed_session_is_silent[OF this(1)] show ?thesis by simp
qed

section \<open>Requests waiting for the session\<close>



section \<open>The Agent's side of it\<close>








section \<open>Both ends together\<close>







end
