(* ===== verification/Utf8.thy ===== *)
theory Utf8
  imports Prelude
begin

text \<open>
  UTF-8 as \<open>Buffer\<close> writes and reads it. A text is a list of code points; \<open>utf8_decode\<close> replaces what is not
  UTF-8 by the character FFFD, one for each longest beginning of a character, as the encoding standard asks.
\<close>

definition scalar :: "nat \<Rightarrow> bool" where
  "scalar c \<longleftrightarrow> c < 0xD800 \<or> 0xE000 \<le> c \<and> c \<le> 0x10FFFF"

definition REPLACEMENT :: nat where
  "REPLACEMENT = 0xFFFD"

text \<open>A lone surrogate is written as the replacement character.\<close>

definition utf8_char :: "nat \<Rightarrow> nat list" where
  "utf8_char c =
     (if c < 0x80 then [c]
      else if c < 0x800 then [0xC0 + c div 64, 0x80 + c mod 64]
      else if \<not> scalar c then [0xEF, 0xBF, 0xBD]
      else if c < 0x10000 then [0xE0 + c div 4096, 0x80 + c div 64 mod 64, 0x80 + c mod 64]
      else [0xF0 + c div 262144, 0x80 + c div 4096 mod 64, 0x80 + c div 64 mod 64, 0x80 + c mod 64])"

definition utf8_encode :: "nat list \<Rightarrow> nat list" where
  "utf8_encode cs = concat (map utf8_char cs)"

definition continuation :: "nat \<Rightarrow> bool" where
  "continuation b \<longleftrightarrow> 0x80 \<le> b \<and> b \<le> 0xBF"

text \<open>The second byte has a narrower range after some first bytes.\<close>

definition second_ok :: "nat \<Rightarrow> nat \<Rightarrow> bool" where
  "second_ok b c \<longleftrightarrow> (if b = 0xE0 then 0xA0 else if b = 0xF0 then 0x90 else 0x80) \<le> c
     \<and> c \<le> (if b = 0xED then 0x9F else if b = 0xF4 then 0x8F else 0xBF)"

text \<open>The character at the front of a nonempty list, and how many bytes it took.\<close>

definition utf8_front :: "nat \<Rightarrow> nat list \<Rightarrow> nat \<times> nat" where
  "utf8_front b bs =
     (if b < 0x80 then (b, 1)
      else if 0xC2 \<le> b \<and> b \<le> 0xDF
      then (case bs of c # _ \<Rightarrow> if continuation c then ((b - 0xC0) * 64 + (c - 0x80), 2) else (REPLACEMENT, 1) | [] \<Rightarrow> (REPLACEMENT, 1))
      else if 0xE0 \<le> b \<and> b \<le> 0xEF
      then (case bs of
          c # d # _ \<Rightarrow> if \<not> second_ok b c then (REPLACEMENT, 1)
            else if continuation d then ((b - 0xE0) * 4096 + (c - 0x80) * 64 + (d - 0x80), 3) else (REPLACEMENT, 2)
        | [c] \<Rightarrow> (REPLACEMENT, if second_ok b c then 2 else 1)
        | [] \<Rightarrow> (REPLACEMENT, 1))
      else if 0xF0 \<le> b \<and> b \<le> 0xF4
      then (case bs of
          c # d # e # _ \<Rightarrow> if \<not> second_ok b c then (REPLACEMENT, 1)
            else if \<not> continuation d then (REPLACEMENT, 2)
            else if continuation e
            then ((b - 0xF0) * 262144 + (c - 0x80) * 4096 + (d - 0x80) * 64 + (e - 0x80), 4) else (REPLACEMENT, 3)
        | [c, d] \<Rightarrow> (REPLACEMENT, if \<not> second_ok b c then 1 else if continuation d then 3 else 2)
        | [c] \<Rightarrow> (REPLACEMENT, if second_ok b c then 2 else 1)
        | [] \<Rightarrow> (REPLACEMENT, 1))
      else (REPLACEMENT, 1))"

function utf8_decode :: "nat list \<Rightarrow> nat list" where
  "utf8_decode [] = []"
| "utf8_decode (b # bs) = fst (utf8_front b bs) # utf8_decode (drop (snd (utf8_front b bs) - 1) bs)"
  by pat_completeness auto
termination by (relation "measure length") auto

text \<open>A byte order mark at the front is not treated apart: \<open>Buffer.toString\<close> keeps it.\<close>

lemma base64_digits:
  "c = c div 4096 * 4096 + c div 64 mod 64 * 64 + c mod (64 :: nat)"
  "c = c div 262144 * 262144 + c div 4096 mod 64 * 4096 + c div 64 mod 64 * 64 + c mod (64 :: nat)"
proof -
  have d: "c div 4096 = c div 64 div 64" "c div 262144 = c div 4096 div 64" by (simp_all add: div_mult2_eq[symmetric])
  have "c = c div 64 * 64 + c mod 64" "c div 64 = c div 4096 * 64 + c div 64 mod 64" "c div 4096 = c div 262144 * 64 + c div 4096 mod 64"
    unfolding d by simp_all
  then show "c = c div 4096 * 4096 + c div 64 mod 64 * 64 + c mod 64"
    "c = c div 262144 * 262144 + c div 4096 mod 64 * 4096 + c div 64 mod 64 * 64 + c mod 64" by linarith+
qed

lemma utf8_char_front:
  assumes "scalar c"
  shows "\<exists>b bs. utf8_char c = b # bs \<and> utf8_front b (bs @ rest) = (c, length (b # bs))"
proof -
  consider "c < 0x80" | "0x80 \<le> c" "c < 0x800" | "0x800 \<le> c" "c < 0x10000" | "0x10000 \<le> c" by linarith
  then show ?thesis
  proof cases
    case 2
    have "c div 64 < 32" "2 \<le> c div 64" using 2 by auto
    then show ?thesis using 2 by (auto simp: utf8_char_def utf8_front_def continuation_def)
  next
    case 3
    define x y z where "x = c div 4096" and "y = c div 64 mod 64" and "z = c mod 64"
    have c: "c = x * 4096 + y * 64 + z" unfolding x_def y_def z_def by (rule base64_digits(1))
    have r: "x < 16" "y < 64" "z < 64" using 3 by (auto simp: x_def y_def z_def)
    have s: "second_ok (0xE0 + x) (0x80 + y)" using 3 assms c r by (auto simp: second_ok_def scalar_def)
    have u: "utf8_char c = [0xE0 + x, 0x80 + y, 0x80 + z]" using 3 assms by (simp add: utf8_char_def x_def y_def z_def)
    have "utf8_front (0xE0 + x) ([0x80 + y, 0x80 + z] @ rest) = (c, 3)"
      using r s c by (simp add: utf8_front_def continuation_def)
    with u show ?thesis by simp
  next
    case 4
    define w x y z where "w = c div 262144" and "x = c div 4096 mod 64" and "y = c div 64 mod 64" and "z = c mod 64"
    have c: "c = w * 262144 + x * 4096 + y * 64 + z" unfolding w_def x_def y_def z_def by (rule base64_digits(2))
    have r: "w < 5" "x < 64" "y < 64" "z < 64" using 4 assms by (auto simp: w_def x_def y_def z_def scalar_def)
    have s: "second_ok (0xF0 + w) (0x80 + x)" using 4 assms c r by (auto simp: second_ok_def scalar_def)
    have u: "utf8_char c = [0xF0 + w, 0x80 + x, 0x80 + y, 0x80 + z]" using 4 assms by (simp add: utf8_char_def w_def x_def y_def z_def)
    have "utf8_front (0xF0 + w) ([0x80 + x, 0x80 + y, 0x80 + z] @ rest) = (c, 4)"
      using r s c by (simp add: utf8_front_def continuation_def)
    with u show ?thesis by simp
  qed (simp add: utf8_char_def utf8_front_def)
qed

lemma utf8_roundtrip: "list_all scalar cs \<Longrightarrow> utf8_decode (utf8_encode cs) = cs"
proof (induction cs)
  case (Cons c cs)
  obtain b bs where c: "utf8_char c = b # bs" "utf8_front b (bs @ utf8_encode cs) = (c, length (b # bs))"
    using utf8_char_front[of c "utf8_encode cs"] Cons.prems by auto
  have "utf8_encode (c # cs) = b # bs @ utf8_encode cs" using c(1) by (simp add: utf8_encode_def)
  with c Cons show ?case by simp
qed (simp add: utf8_encode_def)

lemma utf8_encode_bytes: "\<forall>b \<in> set (utf8_encode cs). b < 256"
proof -
  have "\<forall>b \<in> set (utf8_char c). b < 256" for c
    by (auto simp: utf8_char_def scalar_def)
  then show ?thesis by (auto simp: utf8_encode_def)
qed

end
