(* ===== verification/FileSystem.thy ===== *)
theory FileSystem
  imports Utf8
begin

text \<open>
  Paths and the file system as the file service of the Agent sees them through \<open>node:fs\<close> and \<open>node:path\<close> on a POSIX system. A node
  is stored under its path, a list of names; the root is the empty list and always a folder. Symbolic links
  are followed as the system does, up to a number of links (\<open>fs_links\<close>) after which it gives up. Permissions and
  failing disks are not modelled.
\<close>

declare map_of_eq_Some_iff [simp del] Some_eq_map_of_iff [simp del]

type_synonym file_path = "string list"

datatype fs_node = Folder nat nat | Plain_file "byte list" nat | Link_to string nat

record file_system =
  fs_nodes :: "(file_path, fs_node) jmap"
  fs_links :: nat

section \<open>Text of paths\<close>

fun split_at :: "(char \<Rightarrow> bool) \<Rightarrow> string \<Rightarrow> string list" where
  "split_at P [] = [[]]"
| "split_at P (c # cs) = (if P c then [] # split_at P cs else (case split_at P cs of w # ws \<Rightarrow> (c # w) # ws | [] \<Rightarrow> [[c]]))"

definition slash :: "char \<Rightarrow> bool" where
  "slash c \<longleftrightarrow> c = CHR ''/''"

definition absolute :: "string \<Rightarrow> bool" where
  "absolute s \<longleftrightarrow> (case s of c # _ \<Rightarrow> slash c | [] \<Rightarrow> False)"

definition path_text :: "file_path \<Rightarrow> string" where
  "path_text p = concat (map (\<lambda>x. CHR ''/'' # x) p)"

text \<open>\<open>path.resolve\<close>: names are appended, \<open>.\<close> and empty names skipped, \<open>..\<close> takes the last name away; an absolute second path starts anew.\<close>

definition resolve_name :: "string \<Rightarrow> file_path \<Rightarrow> file_path" where
  "resolve_name x d = (if x = [] \<or> x = ''.'' then d else if x = ''..'' then butlast d else d @ [x])"

definition path_resolve :: "file_path \<Rightarrow> string \<Rightarrow> file_path" where
  "path_resolve base rel = fold resolve_name (split_at slash rel) (if absolute rel then [] else base)"

text \<open>\<open>path.join\<close> of a text and a name, without its leading slashes.\<close>

definition join_name :: "bool \<Rightarrow> string \<Rightarrow> file_path \<Rightarrow> file_path" where
  "join_name rooted x d = (if x = [] \<or> x = ''.'' then d
     else if x = ''..'' then (if d \<noteq> [] \<and> last d \<noteq> ''..'' then butlast d else if rooted then d else d @ [x])
     else d @ [x])"

definition join_relative :: "string \<Rightarrow> string \<Rightarrow> string" where
  "join_relative rel name = tl (path_text (fold (join_name (absolute rel)) (split_at slash rel @ [name]) []))"

section \<open>Following links\<close>

function walk :: "(file_path, fs_node) jmap \<Rightarrow> nat \<Rightarrow> file_path \<Rightarrow> string list \<Rightarrow> file_path option" where
  "walk m n d [] = Some d"
| "walk m n d (x # xs) =
     (if x = [] \<or> x = ''.'' then walk m n d xs
      else if x = ''..'' then walk m n (butlast d) xs
      else case jget m (d @ [x]) of
             None \<Rightarrow> None
           | Some (Folder _ _) \<Rightarrow> walk m n (d @ [x]) xs
           | Some (Plain_file _ _) \<Rightarrow> if xs = [] then Some (d @ [x]) else None
           | Some (Link_to t _) \<Rightarrow> (case n of 0 \<Rightarrow> None | Suc k \<Rightarrow> walk m k (if absolute t then [] else d) (split_at slash t @ xs)))"
  by pat_completeness auto
termination by (relation "measures [\<lambda>(m, n, d, xs). n, \<lambda>(m, n, d, xs). length xs]") auto

definition realpath :: "file_system \<Rightarrow> file_path \<Rightarrow> file_path option" where
  "realpath fs p = walk (fs_nodes fs) (fs_links fs) [] p"

definition node_at :: "file_system \<Rightarrow> file_path \<Rightarrow> fs_node option" where
  "node_at fs p = (if p = [] then Some (Folder 0 0) else jget (fs_nodes fs) p)"

text \<open>\<open>stat\<close> follows links, \<open>lstat\<close> is \<open>node_at\<close> of a path whose folder is real.\<close>

definition stat_node :: "file_system \<Rightarrow> file_path \<Rightarrow> fs_node option" where
  "stat_node fs p = (case realpath fs p of None \<Rightarrow> None | Some q \<Rightarrow> node_at fs q)"

text \<open>\<open>writeFile\<close>: an existing file is replaced, through links; a new one is made in an existing folder.\<close>

definition write_node :: "file_path \<Rightarrow> byte list \<Rightarrow> nat \<Rightarrow> file_system \<Rightarrow> file_system option" where
  "write_node p bytes t fs = (case realpath fs p of
     Some q \<Rightarrow> (case node_at fs q of
        Some (Plain_file _ _) \<Rightarrow> Some (fs\<lparr>fs_nodes := jput q (Plain_file bytes t) (fs_nodes fs)\<rparr>)
      | _ \<Rightarrow> None)
   | None \<Rightarrow> (case realpath fs (butlast p) of
        None \<Rightarrow> None
      | Some d \<Rightarrow> if p = [] \<or> node_at fs (d @ [last p]) \<noteq> None then None
          else (case node_at fs d of
            Some (Folder _ _) \<Rightarrow> Some (fs\<lparr>fs_nodes := jput (d @ [last p]) (Plain_file bytes t) (fs_nodes fs)\<rparr>)
          | _ \<Rightarrow> None)))"

section \<open>Real paths\<close>

text \<open>A real folder is reached by names of folders only.\<close>

definition real_folder :: "(file_path, fs_node) jmap \<Rightarrow> file_path \<Rightarrow> bool" where
  "real_folder m p \<longleftrightarrow> (\<forall>n < length p. p ! n \<notin> {[], ''.'', ''..''} \<and> (\<exists>a b. jget m (take (Suc n) p) = Some (Folder a b)))"

lemma real_folder_prefix: "real_folder m (p @ q) \<Longrightarrow> real_folder m p"
  unfolding real_folder_def
proof (intro allI impI)
  fix n assume h: "\<forall>n < length (p @ q). (p @ q) ! n \<notin> {[], ''.'', ''..''} \<and> (\<exists>a b. jget m (take (Suc n) (p @ q)) = Some (Folder a b))" "n < length p"
  then have "n < length (p @ q)" "(p @ q) ! n = p ! n" "take (Suc n) (p @ q) = take (Suc n) p" by (simp_all add: nth_append)
  with h(1) show "p ! n \<notin> {[], ''.'', ''..''} \<and> (\<exists>a b. jget m (take (Suc n) p) = Some (Folder a b))" by metis
qed

lemma real_folder_butlast: "real_folder m p \<Longrightarrow> real_folder m (butlast p)"
  by (simp add: real_folder_def nth_butlast take_butlast)

lemma real_folder_snoc:
  "real_folder m (p @ [x]) \<longleftrightarrow> real_folder m p \<and> x \<notin> {[], ''.'', ''..''} \<and> (\<exists>a b. jget m (p @ [x]) = Some (Folder a b))"
  by (auto simp: real_folder_def less_Suc_eq nth_append)

definition real_path :: "(file_path, fs_node) jmap \<Rightarrow> file_path \<Rightarrow> bool" where
  "real_path m p \<longleftrightarrow> real_folder m p
     \<or> (\<exists>d x bytes t. p = d @ [x] \<and> real_folder m d \<and> x \<notin> {[], ''.'', ''..''} \<and> jget m p = Some (Plain_file bytes t))"

lemma walk_real: "walk m n d xs = Some p \<Longrightarrow> real_folder m d \<Longrightarrow> real_path m p"
proof (induction m n d xs rule: walk.induct)
  case (1 m n d)
  then show ?case by (simp add: real_path_def)
next
  case (2 m n d x xs)
  show ?case
  proof (cases "x = [] \<or> x = ''.'' \<or> x = ''..''")
    case True
    with 2 show ?thesis by (auto simp: real_folder_butlast split: if_splits)
  next
    case False
    then obtain v where v: "jget m (d @ [x]) = Some v" using 2(5) by (auto split: option.splits)
    show ?thesis
    proof (cases v)
      case (Folder a b)
      then have "real_folder m (d @ [x])" using 2(6) v False by (simp add: real_folder_snoc)
      with 2(3)[OF _ _ v Folder] 2(5) v Folder False show ?thesis by simp
    next
      case (Plain_file a b)
      then show ?thesis using 2(5,6) v False unfolding real_path_def by (auto split: if_splits)
    next
      case (Link_to t b)
      then obtain k where k: "n = Suc k" using 2(5) v False by (cases n) auto
      have "real_folder m (if absolute t then [] else d)" using 2(6) by (simp add: real_folder_def)
      with 2(4)[OF _ _ v Link_to k] 2(5) v Link_to k False show ?thesis by (auto simp del: split_at.simps)
    qed
  qed
qed

lemma walk_folder: "real_folder m (d @ xs) \<Longrightarrow> walk m n d (xs @ ys) = walk m n (d @ xs) ys"
proof (induction xs arbitrary: d)
  case (Cons x xs)
  have "real_folder m (d @ [x])" using Cons.prems real_folder_prefix[of m "d @ [x]" xs] by simp
  then show ?case using Cons by (auto simp: real_folder_snoc)
qed simp

text \<open>A real path resolves to itself.\<close>

lemma walk_real_path: "real_path m p \<Longrightarrow> walk m n [] p = Some p"
proof -
  assume "real_path m p"
  then consider "real_folder m p" | d x bytes t where "p = d @ [x]" "real_folder m d" "x \<notin> {[], ''.'', ''..''}" "jget m p = Some (Plain_file bytes t)"
    unfolding real_path_def by blast
  then show ?thesis
  proof cases
    case 1
    then show ?thesis using walk_folder[of m "[]" p n "[]"] by simp
  next
    case 2
    then show ?thesis using walk_folder[of m "[]" d n "[x]"] by simp
  qed
qed

lemma realpath_real: "realpath fs p = Some q \<Longrightarrow> real_path (fs_nodes fs) q"
  unfolding realpath_def by (erule walk_real) (simp add: real_folder_def)

lemma realpath_idem: "realpath fs p = Some q \<Longrightarrow> realpath fs q = Some q"
  using realpath_real walk_real_path unfolding realpath_def by blast

text \<open>Replacing the contents of a file changes no path.\<close>

definition same_shape :: "(file_path, fs_node) jmap \<Rightarrow> (file_path, fs_node) jmap \<Rightarrow> bool" where
  "same_shape m m' \<longleftrightarrow> (\<forall>p. case jget m p of
     Some (Plain_file _ _) \<Rightarrow> (\<exists>a b. jget m' p = Some (Plain_file a b)) | x \<Rightarrow> jget m' p = x)"

lemma walk_shape: "same_shape m m' \<Longrightarrow> walk m' n d xs = walk m n d xs"
proof (induction m n d xs rule: walk.induct)
  case (2 m n d x xs)
  have s: "case jget m (d @ [x]) of Some (Plain_file _ _) \<Rightarrow> (\<exists>a b. jget m' (d @ [x]) = Some (Plain_file a b)) | y \<Rightarrow> jget m' (d @ [x]) = y"
    using 2(5) unfolding same_shape_def by blast
  show ?case
  proof (cases "x = [] \<or> x = ''.'' \<or> x = ''..''")
    case True
    with 2(1,2,5) show ?thesis by auto
  next
    case False
    show ?thesis
    proof (cases "jget m (d @ [x])")
      case None
      with s False show ?thesis by simp
    next
      case (Some v)
      show ?thesis
      proof (cases v)
        case (Link_to t b)
        show ?thesis
        proof (cases n)
          case (Suc k)
          from 2(4)[OF _ _ Some Link_to Suc] 2(5) s Some Link_to Suc False show ?thesis by (auto simp del: split_at.simps)
        qed (use s Some Link_to False in auto)
      qed (use 2(3)[OF _ _ Some] 2(5) s Some False in auto)
    qed
  qed
qed simp

lemma shape_put: "jget m q = Some (Plain_file a b) \<Longrightarrow> same_shape m (jput q (Plain_file bytes t) m)"
  by (auto simp: same_shape_def split: option.split fs_node.split)

end
