(* ===== verification/FileService.thy ===== *)
theory FileService
  imports FileSystem
begin

text \<open>
  The Agent's file service (\<open>desktop/agent/src/files/fileService.ts\<close>, \<open>fileTypePolicy.ts\<close>, \<open>protocol-ts/src/textFiles.ts\<close>):
  listing, reading and saving files of a workspace. A text is a list of code points, a file a list of bytes. \<open>digest\<close> is
  the SHA-256 of \<open>node:crypto\<close> in hexadecimal, \<open>rank\<close> the order of \<open>localeCompare\<close>. A save is cut at the
  write: \<open>write_check\<close> is all that comes before it, \<open>write_commit\<close> the write itself.
\<close>

declare map_of_eq_Some_iff [simp del] Some_eq_map_of_iff [simp del]

section \<open>Policy\<close>

definition IGNORED_DIRECTORIES :: "string list" where
  "IGNORED_DIRECTORIES = [''.git'', ''node_modules'', ''Pods'', ''build'', ''coverage'', ''dist'', ''.next'', ''.turbo'']"

definition IGNORED_FILE_NAMES :: "string list" where
  "IGNORED_FILE_NAMES = [''.DS_Store'', ''.DS+Store'', ''Thumbs.db'', ''Desktop.ini'']"

definition MAX_TEXT_FILE_BYTES :: nat where
  "MAX_TEXT_FILE_BYTES = 1024 * 1024"

definition isIgnoredEntryName :: "string \<Rightarrow> bool" where
  "isIgnoredEntryName name \<longleftrightarrow> name \<in> set IGNORED_FILE_NAMES"

definition isIgnoredDirectory :: "string \<Rightarrow> bool \<Rightarrow> bool" where
  "isIgnoredDirectory name directory \<longleftrightarrow> directory \<and> name \<in> set IGNORED_DIRECTORIES"

definition control_byte :: "byte \<Rightarrow> bool" where
  "control_byte b \<longleftrightarrow> b < 7 \<or> 14 < b \<and> b < 32"

text \<open>The code compares a quotient of doubles with 0.3; for all samples of at most 8000 bytes that agrees with the exact comparison.\<close>

definition isLikelyBinary :: "byte list \<Rightarrow> bool" where
  "isLikelyBinary bs \<longleftrightarrow> (let sample = take 8000 bs in
     bs \<noteq> [] \<and> (0 \<in> set sample \<or> 10 * length (filter control_byte sample) > 3 * length sample))"

definition SUPPORTED_TEXT_FILE_EXTENSIONS :: "string list" where
  "SUPPORTED_TEXT_FILE_EXTENSIONS = [''c'', ''cc'', ''cfg'', ''cjs'', ''conf'', ''cpp'', ''css'', ''csv'', ''cxx'', ''env'', ''go'', ''h'',
     ''hh'', ''hpp'', ''htm'', ''html'', ''hxx'', ''ini'', ''java'', ''js'', ''json'', ''jsonl'', ''jsx'', ''kt'', ''kts'', ''less'', ''log'',
     ''markdown'', ''md'', ''mjs'', ''php'', ''properties'', ''py'', ''pyw'', ''rb'', ''rs'', ''ruby'', ''sass'', ''scss'', ''sh'', ''sql'',
     ''svelte'', ''svg'', ''swift'', ''toml'', ''ts'', ''tsx'', ''tsv'', ''txt'', ''vue'', ''webmanifest'', ''xml'', ''yaml'', ''yml'']"

definition lower_char :: "char \<Rightarrow> char" where
  "lower_char c = (let n = of_char c :: nat in if 65 \<le> n \<and> n \<le> 90 then char_of (n + 32) else c)"

definition either_slash :: "char \<Rightarrow> bool" where
  "either_slash c \<longleftrightarrow> c = CHR ''/'' \<or> c = CHR 0x5C"

definition getFileExtension :: "string \<Rightarrow> string option" where
  "getFileExtension path =
     (let names = filter (\<lambda>x. x \<noteq> []) (split_at either_slash path); name = (if names = [] then [] else last names);
          parts = split_at (\<lambda>c. c = CHR ''.'') name
      in if length parts < 2 \<or> last parts = [] then None else Some (map lower_char (last parts)))"

definition isSupportedTextFilePath :: "string \<Rightarrow> bool" where
  "isSupportedTextFilePath path \<longleftrightarrow> (case getFileExtension path of None \<Rightarrow> False | Some e \<Rightarrow> e \<in> set SUPPORTED_TEXT_FILE_EXTENSIONS)"

section \<open>Inside the workspace\<close>

definition strip_end :: "string \<Rightarrow> string" where
  "strip_end s = rev (dropWhile slash (rev s))"

definition isPathInside :: "string \<Rightarrow> string \<Rightarrow> bool" where
  "isPathInside path parent \<longleftrightarrow> strip_end path = strip_end parent
     \<or> take (Suc (length (strip_end parent))) (strip_end path) = strip_end parent @ ''/''"

definition normalizeRelativePath :: "string \<Rightarrow> string" where
  "normalizeRelativePath path = strip_end (dropWhile slash path)"

record workspace =
  ws_path :: file_path
  ws_available :: bool

datatype file_error = Not_available | Escapes | Io_error | Not_regular

definition resolveWorkspacePath :: "file_system \<Rightarrow> workspace \<Rightarrow> string \<Rightarrow> file_error + file_path" where
  "resolveWorkspacePath fs w rel =
     (if \<not> ws_available w then Inl Not_available
      else case realpath fs (ws_path w) of
             None \<Rightarrow> Inl Io_error
           | Some base \<Rightarrow> (case realpath fs (path_resolve base rel) of
                None \<Rightarrow> Inl Io_error
              | Some p \<Rightarrow> if isPathInside (path_text p) (path_text base) then Inr p else Inl Escapes))"

definition resolveWorkspaceWritePath :: "file_system \<Rightarrow> workspace \<Rightarrow> string \<Rightarrow> file_error + file_path" where
  "resolveWorkspaceWritePath fs w rel =
     (if \<not> ws_available w then Inl Not_available
      else case realpath fs (ws_path w) of
             None \<Rightarrow> Inl Io_error
           | Some base \<Rightarrow>
              (let target = path_resolve base rel in
               if \<not> isPathInside (path_text target) (path_text base) then Inl Escapes
               else case realpath fs (butlast target) of
                      None \<Rightarrow> Inl Io_error
                    | Some parent \<Rightarrow> if isPathInside (path_text parent) (path_text base) then Inr target else Inl Escapes))"

section \<open>Listing\<close>

record file_entry =
  fe_name :: string
  fe_path :: file_path
  fe_relative :: string
  fe_directory :: bool
  fe_symlink :: bool
  fe_size :: nat
  fe_modified :: nat

definition node_size :: "fs_node \<Rightarrow> nat" where
  "node_size v = (case v of Folder n _ \<Rightarrow> n | Plain_file bytes _ \<Rightarrow> length bytes | Link_to t _ \<Rightarrow> length t)"

definition node_time :: "fs_node \<Rightarrow> nat" where
  "node_time v = (case v of Folder _ t \<Rightarrow> t | Plain_file _ t \<Rightarrow> t | Link_to _ t \<Rightarrow> t)"

definition is_folder :: "fs_node \<Rightarrow> bool" where
  "is_folder v \<longleftrightarrow> (case v of Folder _ _ \<Rightarrow> True | _ \<Rightarrow> False)"

text \<open>The names in a folder, in the order in which they were made.\<close>

definition readdir :: "file_system \<Rightarrow> file_path \<Rightarrow> (string \<times> fs_node) list" where
  "readdir fs d = map (\<lambda>(p, v). (last p, v)) (filter (\<lambda>(p, v). p \<noteq> [] \<and> butlast p = d) (fs_nodes fs))"

definition entry_of :: "file_system \<Rightarrow> file_path \<Rightarrow> string \<Rightarrow> string \<times> fs_node \<Rightarrow> file_entry option" where
  "entry_of fs d rel = (\<lambda>(name, v).
     let link = (case v of Link_to _ _ \<Rightarrow> True | _ \<Rightarrow> False);
         info = (if link then (case stat_node fs (d @ [name]) of Some u \<Rightarrow> u | None \<Rightarrow> v) else v)
     in if isIgnoredDirectory name (is_folder info) then None
        else Some \<lparr>fe_name = name, fe_path = d @ [name], fe_relative = normalizeRelativePath (join_relative rel name),
            fe_directory = is_folder info, fe_symlink = link, fe_size = node_size info, fe_modified = node_time info\<rparr>)"

definition sort_entries :: "(string \<Rightarrow> nat) \<Rightarrow> file_entry list \<Rightarrow> file_entry list" where
  "sort_entries rank es = sort_key (rank \<circ> fe_name) (filter fe_directory es) @ sort_key (rank \<circ> fe_name) (filter (\<lambda>e. \<not> fe_directory e) es)"

definition list_files :: "(string \<Rightarrow> nat) \<Rightarrow> file_system \<Rightarrow> workspace \<Rightarrow> string \<Rightarrow> file_error + file_entry list" where
  "list_files rank fs w rel = (case resolveWorkspacePath fs w rel of
     Inl e \<Rightarrow> Inl e
   | Inr d \<Rightarrow> (case node_at fs d of
        Some (Folder _ _) \<Rightarrow> Inr (sort_entries rank (List.map_filter (entry_of fs d rel)
          (filter (\<lambda>(name, v). \<not> isIgnoredEntryName name) (readdir fs d))))
      | _ \<Rightarrow> Inl Io_error))"

section \<open>Reading\<close>

datatype encoding = Enc_utf8 | Enc_binary | Enc_too_large

record file_read =
  fr_encoding :: encoding
  fr_content :: "nat list option"
  fr_size :: nat
  fr_modified :: "nat option"
  fr_hash :: "string option"

definition file_text :: "byte list \<Rightarrow> nat list" where
  "file_text bs = utf8_decode (map unat bs)"

definition text_bytes :: "nat list \<Rightarrow> byte list" where
  "text_bytes cs = map word_of_nat (utf8_encode cs)"

definition read_file :: "(byte list \<Rightarrow> string) \<Rightarrow> file_system \<Rightarrow> workspace \<Rightarrow> string \<Rightarrow> file_error + file_read" where
  "read_file digest fs w rel = (case resolveWorkspacePath fs w rel of
     Inl e \<Rightarrow> Inl e
   | Inr p \<Rightarrow> (case node_at fs p of
        Some (Plain_file bytes t) \<Rightarrow>
          Inr (if length bytes > MAX_TEXT_FILE_BYTES
               then \<lparr>fr_encoding = Enc_too_large, fr_content = None, fr_size = length bytes, fr_modified = None, fr_hash = None\<rparr>
               else if isLikelyBinary bytes
               then \<lparr>fr_encoding = Enc_binary, fr_content = None, fr_size = length bytes, fr_modified = None, fr_hash = None\<rparr>
               else \<lparr>fr_encoding = Enc_utf8, fr_content = Some (file_text bytes), fr_size = length bytes, fr_modified = Some t,
                  fr_hash = Some (digest bytes)\<rparr>)
      | _ \<Rightarrow> Inl Not_regular))"

section \<open>Saving\<close>

record save_request =
  sr_path :: string
  sr_content :: "nat list"
  sr_base :: string

datatype save_status = Saved | Conflict | Unsupported

record save_result =
  sv_status :: save_status
  sv_content :: "nat list option"
  sv_encoding :: encoding
  sv_size :: nat
  sv_hash :: "string option"
  sv_base :: "string option"

text \<open>What comes before the write: an error, an answer without a write, or the path to write to.\<close>

datatype checked = Answer save_result | Write_to file_path

definition unsupported :: "encoding \<Rightarrow> nat \<Rightarrow> string option \<Rightarrow> checked" where
  "unsupported e n h = Answer \<lparr>sv_status = Unsupported, sv_content = None, sv_encoding = e, sv_size = n, sv_hash = h, sv_base = None\<rparr>"

definition write_check :: "(byte list \<Rightarrow> string) \<Rightarrow> file_system \<Rightarrow> workspace \<Rightarrow> save_request \<Rightarrow> file_error + checked" where
  "write_check digest fs w q =
     (let rel = normalizeRelativePath (sr_path q); n = length (utf8_encode (sr_content q)) in
      if \<not> isSupportedTextFilePath rel then Inr (unsupported Enc_utf8 0 None)
      else if n > MAX_TEXT_FILE_BYTES then Inr (unsupported Enc_too_large n None)
      else case resolveWorkspaceWritePath fs w rel of
             Inl e \<Rightarrow> Inl e
           | Inr target \<Rightarrow> (case read_file digest fs w rel of
                Inl e \<Rightarrow> Inl e
              | Inr current \<Rightarrow>
                 (if fr_encoding current \<noteq> Enc_utf8 then Inr (unsupported (fr_encoding current) (fr_size current) (fr_hash current))
                  else if fr_hash current = None \<or> fr_hash current = Some [] then Inr (unsupported (fr_encoding current) (fr_size current) None)
                  else if Some (sr_base q) \<noteq> fr_hash current
                  then Inr (Answer \<lparr>sv_status = Conflict, sv_content = fr_content current, sv_encoding = Enc_utf8, sv_size = fr_size current,
                     sv_hash = fr_hash current, sv_base = Some (sr_base q)\<rparr>)
                  else Inr (Write_to target))))"

definition write_commit :: "(byte list \<Rightarrow> string) \<Rightarrow> nat \<Rightarrow> save_request \<Rightarrow> file_path \<Rightarrow> file_system \<Rightarrow> (file_error + save_result) \<times> file_system" where
  "write_commit digest t q target fs = (case write_node target (text_bytes (sr_content q)) t fs of
     None \<Rightarrow> (Inl Io_error, fs)
   | Some fs' \<Rightarrow> (Inr \<lparr>sv_status = Saved, sv_content = Some (sr_content q), sv_encoding = Enc_utf8,
        sv_size = length (text_bytes (sr_content q)), sv_hash = Some (digest (text_bytes (sr_content q))), sv_base = Some (sr_base q)\<rparr>, fs'))"

definition write_file :: "(byte list \<Rightarrow> string) \<Rightarrow> nat \<Rightarrow> workspace \<Rightarrow> save_request \<Rightarrow> file_system \<Rightarrow> (file_error + save_result) \<times> file_system" where
  "write_file digest t w q fs = (case write_check digest fs w q of
     Inl e \<Rightarrow> (Inl e, fs)
   | Inr (Answer r) \<Rightarrow> (Inr r, fs)
   | Inr (Write_to target) \<Rightarrow> write_commit digest t q target fs)"

end
