(* ===== verification/FileProperties.thy ===== *)
theory FileProperties
  imports FileService
begin

text \<open>
  What the file service guarantees: it reads and changes only files whose real path lies inside the real path of the
  workspace, whatever links and dots a path contains; a save changes the one file it checked and is read back; and where the
  check of the hash does not help.
\<close>

declare map_of_eq_Some_iff [simp del] Some_eq_map_of_iff [simp del]

section \<open>The text of a path and its names\<close>

definition proper_name :: "string \<Rightarrow> bool" where
  "proper_name x \<longleftrightarrow> x \<noteq> [] \<and> list_all (\<lambda>c. \<not> slash c) x"

definition proper_path :: "file_path \<Rightarrow> bool" where
  "proper_path p \<longleftrightarrow> list_all proper_name p"

lemma slash_char [simp]: "slash (CHR ''/'')"
  by (simp add: slash_def)

lemma split_at_free: "x \<in> set (split_at P s) \<Longrightarrow> list_all (\<lambda>c. \<not> P c) x"
  by (induction P s arbitrary: x rule: split_at.induct) (auto split: if_splits list.splits)

lemma path_text_append: "path_text (p @ q) = path_text p @ path_text q"
  by (simp add: path_text_def)

lemma path_text_last: "proper_path p \<Longrightarrow> p \<noteq> [] \<Longrightarrow> path_text p \<noteq> [] \<and> \<not> slash (last (path_text p))"
proof (induction p rule: rev_induct)
  case (snoc x p)
  then have x: "x \<noteq> []" "\<not> slash (last x)" by (auto simp: proper_path_def proper_name_def list_all_iff)
  then show ?case by (simp add: path_text_append) (simp add: path_text_def)
qed simp

lemma strip_path_text [simp]: "proper_path p \<Longrightarrow> strip_end (path_text p) = path_text p"
proof (cases "p = []")
  case False
  assume "proper_path p"
  from path_text_last[OF this False] show ?thesis
    by (simp add: strip_end_def) (metis dropWhile_eq_self_iff hd_rev rev_is_Nil_conv rev_rev_ident)
qed (simp add: strip_end_def path_text_def)

lemma path_text_prefix:
  "proper_path p \<Longrightarrow> proper_path q \<Longrightarrow> (\<exists>ys. path_text p = path_text q @ ys \<and> (ys = [] \<or> slash (hd ys))) \<longleftrightarrow> (\<exists>zs. p = q @ zs)"
proof (induction q arbitrary: p)
  case Nil
  have "path_text p = [] \<or> slash (hd (path_text p))" by (cases p) (simp_all add: path_text_def)
  then show ?case by (simp add: path_text_def)
next
  case (Cons x q)
  show ?case
  proof (cases p)
    case Nil
    then show ?thesis by (simp add: path_text_def)
  next
    case (Cons y p')
    have free: "list_all (\<lambda>c. \<not> slash c) x" "list_all (\<lambda>c. \<not> slash c) y" using Cons.prems Cons by (simp_all add: proper_path_def proper_name_def)
    have tail: "r = [] \<or> slash (hd r)" if "r = path_text q'" for r and q' using that by (cases q') (simp_all add: path_text_def)
    have same: "x = y \<and> r = s" if "y @ r = x @ s" "r = [] \<or> slash (hd r)" "s = [] \<or> slash (hd s)" for r s
    proof -
      have "takeWhile (\<lambda>c. \<not> slash c) (z @ r) = z" if "list_all (\<lambda>c. \<not> slash c) z" "r = [] \<or> slash (hd r)" for z r
        using that by (cases r) (auto simp: takeWhile_append list_all_iff)
      with free that have "y = x" by metis
      with that show ?thesis by simp
    qed
    have "(\<exists>ys. path_text p = path_text (x # q) @ ys \<and> (ys = [] \<or> slash (hd ys)))
        \<longleftrightarrow> x = y \<and> (\<exists>ys. path_text p' = path_text q @ ys \<and> (ys = [] \<or> slash (hd ys)))"
    proof
      assume "\<exists>ys. path_text p = path_text (x # q) @ ys \<and> (ys = [] \<or> slash (hd ys))"
      then obtain ys where ys: "y @ path_text p' = x @ path_text q @ ys" "ys = [] \<or> slash (hd ys)" by (auto simp: Cons path_text_def)
      moreover have "path_text q @ ys = [] \<or> slash (hd (path_text q @ ys))" using ys(2) tail[OF refl, of q] by (cases "path_text q") auto
      ultimately show "x = y \<and> (\<exists>ys. path_text p' = path_text q @ ys \<and> (ys = [] \<or> slash (hd ys)))"
        using same[OF ys(1) tail[OF refl, of p']] by blast
    qed (auto simp: Cons path_text_def)
    then show ?thesis using Cons.IH[of p'] Cons.prems Cons by (auto simp: proper_path_def)
  qed
qed

lemma inside_prefix:
  assumes "proper_path p" "proper_path q"
  shows "isPathInside (path_text p) (path_text q) \<longleftrightarrow> (\<exists>zs. p = q @ zs)"
proof -
  have "take (Suc n) s = b @ ''/'' \<longleftrightarrow> (\<exists>ys. s = b @ ys \<and> ys \<noteq> [] \<and> hd ys = CHR ''/'')" if "n = length b" for n and s b :: string
  proof
    assume "take (Suc n) s = b @ ''/''"
    then have "s = (b @ ''/'') @ drop (Suc n) s" by (metis append_take_drop_id)
    then show "\<exists>ys. s = b @ ys \<and> ys \<noteq> [] \<and> hd ys = CHR ''/''" by (metis append.assoc append_Cons append_self_conv2 list.sel(1) list.simps(3))
  next
    assume "\<exists>ys. s = b @ ys \<and> ys \<noteq> [] \<and> hd ys = CHR ''/''"
    then obtain ys where "s = b @ CHR ''/'' # ys" by (metis list.collapse)
    then show "take (Suc n) s = b @ ''/''" using that by simp
  qed
  then show ?thesis
    using assms path_text_prefix[OF assms] by (simp add: isPathInside_def slash_def) (metis append_Nil2)
qed


lemma split_at_proper: "x \<in> set (split_at slash s) \<Longrightarrow> x \<noteq> [] \<Longrightarrow> proper_name x"
  using split_at_free by (simp add: proper_name_def)

lemma proper_butlast: "proper_path d \<Longrightarrow> proper_path (butlast d)"
  by (auto simp: proper_path_def list_all_iff dest: in_set_butlastD)

lemma walk_proper:
  "walk m n d xs = Some p \<Longrightarrow> proper_path d \<Longrightarrow> (\<forall>x \<in> set xs. x \<noteq> [] \<longrightarrow> proper_name x) \<Longrightarrow> proper_path p"
proof (induction m n d xs rule: walk.induct)
  case (2 m n d x xs)
  show ?case
  proof (cases "x = [] \<or> x = ''.'' \<or> x = ''..''")
    case True
    with 2 show ?thesis by (auto simp: proper_butlast split: if_splits)
  next
    case False
    then obtain v where v: "jget m (d @ [x]) = Some v" using 2(5) by (auto split: option.splits)
    have px: "proper_path (d @ [x])" using 2(6,7) False by (simp add: proper_path_def)
    show ?thesis
    proof (cases v)
      case (Folder a b)
      with 2(3)[OF _ _ v Folder] 2(5,7) v False px show ?thesis by simp
    next
      case (Plain_file a b)
      with 2(5) v False px show ?thesis by (auto split: if_splits)
    next
      case (Link_to t b)
      then obtain k where k: "n = Suc k" using 2(5) v False by (cases n) auto
      have "proper_path (if absolute t then [] else d)" using 2(6) by (simp add: proper_path_def)
      moreover have "\<forall>y \<in> set (split_at slash t @ xs). y \<noteq> [] \<longrightarrow> proper_name y" using 2(7) split_at_proper by auto
      moreover have "walk m k (if absolute t then [] else d) (split_at slash t @ xs) = Some p" using 2(5) v Link_to k False by simp
      ultimately show ?thesis using 2(4)[OF _ _ v Link_to k] False by blast
    qed
  qed
qed simp

lemma proper_names: "proper_path p \<Longrightarrow> \<forall>x \<in> set p. x \<noteq> [] \<longrightarrow> proper_name x"
  unfolding proper_path_def list.pred_set by blast

lemma realpath_proper: "realpath fs p = Some q \<Longrightarrow> proper_path p \<Longrightarrow> proper_path q"
proof -
  have e: "proper_path []" by (simp add: proper_path_def)
  show "realpath fs p = Some q \<Longrightarrow> proper_path p \<Longrightarrow> proper_path q"
    unfolding realpath_def by (erule walk_proper[OF _ e proper_names])
qed

lemma resolve_proper: "proper_path base \<Longrightarrow> proper_path (path_resolve base rel)"
proof -
  have *: "proper_path d \<Longrightarrow> \<forall>x \<in> set xs. x \<noteq> [] \<longrightarrow> proper_name x \<Longrightarrow> proper_path (fold resolve_name xs d)" for xs d
    by (induction xs arbitrary: d) (auto simp: resolve_name_def proper_butlast, simp add: proper_path_def)
  assume "proper_path base"
  then have "proper_path (if absolute rel then [] else base)" by (simp add: proper_path_def)
  with * show ?thesis unfolding path_resolve_def using split_at_proper by blast
qed

text \<open>A resolved path lies inside the real path of the workspace.\<close>

lemma resolved_inside:
  assumes "proper_path (ws_path w)" "resolveWorkspacePath fs w rel = Inr p"
  obtains base zs where "realpath fs (ws_path w) = Some base" "p = base @ zs" "realpath fs (path_resolve base rel) = Some p"
proof -
  from assms(2) obtain base where b: "realpath fs (ws_path w) = Some base" "realpath fs (path_resolve base rel) = Some p"
      "isPathInside (path_text p) (path_text base)"
    by (auto simp: resolveWorkspacePath_def split: if_splits option.splits)
  from b(1) have pb: "proper_path base" using realpath_proper assms(1) by blast
  with b(2) have "proper_path p" using realpath_proper resolve_proper by blast
  with b(3) pb obtain zs where "p = base @ zs" using inside_prefix by blast
  with b that show ?thesis by blast
qed


section \<open>Reading and listing\<close>

lemma read_file_found:
  assumes "read_file digest fs w rel = Inr r"
  obtains p bytes t where "resolveWorkspacePath fs w rel = Inr p" "node_at fs p = Some (Plain_file bytes t)"
    "fr_size r = length bytes"
    "fr_encoding r = Enc_utf8 \<Longrightarrow> r = \<lparr>fr_encoding = Enc_utf8, fr_content = Some (file_text bytes), fr_size = length bytes,
       fr_modified = Some t, fr_hash = Some (digest bytes)\<rparr> \<and> length bytes \<le> MAX_TEXT_FILE_BYTES \<and> \<not> isLikelyBinary bytes"
    "fr_encoding r \<noteq> Enc_utf8 \<Longrightarrow> fr_content r = None \<and> fr_hash r = None"
proof -
  from assms obtain p bytes t where p: "resolveWorkspacePath fs w rel = Inr p" "node_at fs p = Some (Plain_file bytes t)"
    by (auto simp: read_file_def split: sum.splits option.splits fs_node.splits)
  from assms p that[OF p] show ?thesis by (auto simp: read_file_def split: if_splits)
qed

text \<open>C11: Whatever dots, absolute parts or links the requested path has, the Agent reads only a regular file whose real path lies
  inside the real path of the workspace; it answers its true size, and its text and hash only when it is small enough and does
  not look binary.\<close>

theorem read_stays_inside:
  assumes "proper_path (ws_path w)" "read_file digest fs w rel = Inr r"
  shows "\<exists>base zs bytes t. realpath fs (ws_path w) = Some base \<and> realpath fs (base @ zs) = Some (base @ zs)
     \<and> node_at fs (base @ zs) = Some (Plain_file bytes t) \<and> fr_size r = length bytes
     \<and> (if fr_encoding r = Enc_utf8
        then length bytes \<le> MAX_TEXT_FILE_BYTES \<and> \<not> isLikelyBinary bytes \<and> fr_content r = Some (file_text bytes) \<and> fr_hash r = Some (digest bytes)
        else fr_content r = None \<and> fr_hash r = None)"
proof -
  let ?shown = "\<lambda>bytes. if fr_encoding r = Enc_utf8
     then length bytes \<le> MAX_TEXT_FILE_BYTES \<and> \<not> isLikelyBinary bytes \<and> fr_content r = Some (file_text bytes) \<and> fr_hash r = Some (digest bytes)
     else fr_content r = None \<and> fr_hash r = None"
  obtain p bytes t where p: "resolveWorkspacePath fs w rel = Inr p" "node_at fs p = Some (Plain_file bytes t)" "fr_size r = length bytes" "?shown bytes"
    using read_file_found[OF assms(2)] by (metis file_read.select_convs(2,5))
  from resolved_inside[OF assms(1) p(1)] obtain base zs where "realpath fs (ws_path w) = Some base" "p = base @ zs"
    "realpath fs (path_resolve base rel) = Some p" .
  with p realpath_idem show ?thesis by metis
qed

definition demo_disk :: file_system where
  "demo_disk = \<lparr>fs_nodes = [
     ([''srv''], Folder 96 1), ([''srv'', ''app''], Folder 128 1), ([''home''], Folder 64 1), ([''home'', ''work''], Link_to ''../srv/app'' 1),
     ([''srv'', ''app'', ''notes.txt''], Plain_file [0x68, 0x69] 5), ([''srv'', ''app'', ''latin.txt''], Plain_file [0x63, 0xE9] 6),
     ([''srv'', ''app'', ''up''], Link_to ''/home'' 1), ([''home'', ''key.txt''], Plain_file [0x6B] 7)], fs_links = 40\<rparr>"

definition demo_ws :: workspace where
  "demo_ws = \<lparr>ws_path = [''home'', ''work''], ws_available = True\<rparr>"

definition demo_digest :: "byte list \<Rightarrow> string" where
  "demo_digest bs = replicate (length bs) CHR ''d'' @ ''.''"

lemma demo_paths:
  "resolveWorkspacePath demo_disk demo_ws ''x/../notes.txt'' = Inr [''srv'', ''app'', ''notes.txt'']"
  "resolveWorkspacePath demo_disk demo_ws ''notes.txt'' = Inr [''srv'', ''app'', ''notes.txt'']"
  "resolveWorkspacePath demo_disk demo_ws ''latin.txt'' = Inr [''srv'', ''app'', ''latin.txt'']"
  "resolveWorkspacePath demo_disk demo_ws ''up/key.txt'' = Inl Escapes"
  "node_at demo_disk [''srv'', ''app'', ''notes.txt''] = Some (Plain_file [0x68, 0x69] 5)"
  "node_at demo_disk [''srv'', ''app'', ''latin.txt''] = Some (Plain_file [0x63, 0xE9] 6)"
  "proper_path (ws_path demo_ws)"
  by code_simp+

lemmas demo_eval = demo_paths read_file_def MAX_TEXT_FILE_BYTES_def isLikelyBinary_def control_byte_def file_text_def demo_digest_def
  utf8_front_def continuation_def second_ok_def REPLACEMENT_def

lemma read_stays_inside_witness:
  "\<exists>r. read_file demo_digest demo_disk demo_ws ''x/../notes.txt'' = Inr r \<and> fr_content r = Some [104, 105]
     \<and> read_file demo_digest demo_disk demo_ws ''up/key.txt'' = Inl Escapes"
proof -
  let ?r = "\<lparr>fr_encoding = Enc_utf8, fr_content = Some [104, 105], fr_size = 2, fr_modified = Some 5, fr_hash = Some ''dd.''\<rparr>"
  have r: "read_file demo_digest demo_disk demo_ws ''x/../notes.txt'' = Inr ?r" by (simp add: demo_eval)
  note read_stays_inside[OF demo_paths(7) r]
  moreover have "read_file demo_digest demo_disk demo_ws ''up/key.txt'' = Inl Escapes" by (simp add: demo_eval)
  ultimately show ?thesis using r by simp
qed


section \<open>Saving\<close>

text \<open>A path the check lets through leads, through links, to the file whose hash it compared.\<close>

lemma checked_write:
  assumes "proper_path (ws_path w)" "write_check digest fs w q = Inr (Write_to target)"
  obtains base zs old u where "realpath fs (ws_path w) = Some base" "target = path_resolve base (normalizeRelativePath (sr_path q))"
    "realpath fs target = Some (base @ zs)" "node_at fs (base @ zs) = Some (Plain_file old u)" "digest old = sr_base q"
    "isSupportedTextFilePath (normalizeRelativePath (sr_path q))" "length (utf8_encode (sr_content q)) \<le> MAX_TEXT_FILE_BYTES"
    "ws_available w" "isPathInside (path_text (base @ zs)) (path_text base)" "\<not> isLikelyBinary old"
proof -
  let ?rel = "normalizeRelativePath (sr_path q)"
  from assms(2) obtain r where t: "resolveWorkspaceWritePath fs w ?rel = Inr target" and r: "read_file digest fs w ?rel = Inr r"
      "fr_encoding r = Enc_utf8" "fr_hash r = Some (sr_base q)" and g: "isSupportedTextFilePath ?rel"
      "length (utf8_encode (sr_content q)) \<le> MAX_TEXT_FILE_BYTES"
    by (auto simp: write_check_def unsupported_def Let_def split: sum.splits if_splits)
  from read_file_found[OF r(1)] r(2,3) obtain p old u where p: "resolveWorkspacePath fs w ?rel = Inr p" "node_at fs p = Some (Plain_file old u)"
      "digest old = sr_base q" "\<not> isLikelyBinary old" by (metis file_read.select_convs(5) option.inject)
  from resolved_inside[OF assms(1) p(1)] obtain base zs where b: "realpath fs (ws_path w) = Some base" "p = base @ zs"
      "realpath fs (path_resolve base ?rel) = Some p" .
  have "target = path_resolve base ?rel" using t b(1) by (auto simp: resolveWorkspaceWritePath_def Let_def split: if_splits option.splits)
  moreover have "ws_available w" "isPathInside (path_text p) (path_text base)"
    using p(1) b(1,3) unfolding resolveWorkspacePath_def by (simp_all split: if_splits)
  ultimately show ?thesis using that b p g by blast
qed

lemma node_file: "node_at fs p = Some (Plain_file a b) \<Longrightarrow> jget (fs_nodes fs) p = Some (Plain_file a b) \<and> p \<noteq> []"
  by (auto simp: node_at_def split: if_splits)

lemma write_found:
  "realpath fs target = Some p \<Longrightarrow> node_at fs p = Some (Plain_file a b)
   \<Longrightarrow> write_node target bytes t fs = Some (fs\<lparr>fs_nodes := jput p (Plain_file bytes t) (fs_nodes fs)\<rparr>)"
  by (simp add: write_node_def)

lemma realpath_put:
  "node_at fs p = Some (Plain_file a b) \<Longrightarrow> realpath (fs\<lparr>fs_nodes := jput p (Plain_file bytes t) (fs_nodes fs)\<rparr>) x = realpath fs x"
  unfolding realpath_def by (simp add: walk_shape[OF shape_put[OF node_file[THEN conjunct1]]])

lemma node_put:
  "node_at fs p = Some (Plain_file a b) \<Longrightarrow> node_at (fs\<lparr>fs_nodes := jput p (Plain_file bytes t) (fs_nodes fs)\<rparr>) x
     = (if x = p then Some (Plain_file bytes t) else node_at fs x)"
  by (drule node_file) (simp add: node_at_def)



definition demo_save :: save_request where
  "demo_save = \<lparr>sr_path = ''/notes.txt'', sr_content = [121, 233], sr_base = ''dd.''\<rparr>"

lemma demo_saved:
  "write_check demo_digest demo_disk demo_ws demo_save = Inr (Write_to [''srv'', ''app'', ''notes.txt''])"
  "fs_nodes (snd (write_file demo_digest 9 demo_ws demo_save demo_disk)) \<noteq> fs_nodes demo_disk"
proof -
  have n: "normalizeRelativePath ''/notes.txt'' = ''notes.txt''" "isSupportedTextFilePath ''notes.txt''"
    "resolveWorkspaceWritePath demo_disk demo_ws ''notes.txt'' = Inr [''srv'', ''app'', ''notes.txt'']"
    "realpath demo_disk [''srv'', ''app'', ''notes.txt''] = Some [''srv'', ''app'', ''notes.txt'']"
    "jget (fs_nodes demo_disk) [''srv'', ''app'', ''notes.txt''] = Some (Plain_file [0x68, 0x69] 5)"
    by code_simp+
  show c: "write_check demo_digest demo_disk demo_ws demo_save = Inr (Write_to [''srv'', ''app'', ''notes.txt''])"
    using n by (simp add: write_check_def demo_save_def utf8_encode_def utf8_char_def scalar_def demo_eval)
  have "text_bytes [121, 233] = [0x79, 0xC3, 0xA9]" by (simp add: text_bytes_def utf8_encode_def utf8_char_def scalar_def)
  moreover have "fs_nodes (fs\<lparr>fs_nodes := jput p v m\<rparr>) \<noteq> m" if "jget m p \<noteq> Some v" for fs p v m using that by (metis file_system.select_convs(1) file_system.surjective file_system.update_convs(1) jget_put)
  ultimately show "fs_nodes (snd (write_file demo_digest 9 demo_ws demo_save demo_disk)) \<noteq> fs_nodes demo_disk"
    using n by (simp add: write_file_def c write_commit_def demo_paths write_found[OF n(4) demo_paths(5)])
qed







section \<open>Where the hash does not help\<close>

text \<open>C40: The check of the hash and the write are not one step: two saves of the same file that are both checked before either writes
  are both answered as done, and the disk ends as if the first had never happened; had the second been checked after the first
  wrote (and the hashes differ), it would not have been written.\<close>

theorem concurrent_saves_lose:
  assumes "proper_path (ws_path w)" "sr_path q2 = sr_path q1"
    and "write_check digest fs w q1 = Inr (Write_to p1)" "write_check digest fs w q2 = Inr (Write_to p2)"
    and "digest (text_bytes (sr_content q1)) \<noteq> sr_base q2"
  shows "\<exists>r1 fs1 r2 fs2. write_commit digest t1 q1 p1 fs = (Inr r1, fs1) \<and> sv_status r1 = Saved
     \<and> write_commit digest t2 q2 p2 fs1 = (Inr r2, fs2) \<and> sv_status r2 = Saved
     \<and> node_at fs2 = node_at (snd (write_commit digest t2 q2 p2 fs))
     \<and> \<not> (\<exists>p. write_check digest fs1 w q2 = Inr (Write_to p))"
proof -
  from checked_write[OF assms(1,3)] obtain base zs old u where b: "realpath fs (ws_path w) = Some base"
    "p1 = path_resolve base (normalizeRelativePath (sr_path q1))" "realpath fs p1 = Some (base @ zs)"
    "node_at fs (base @ zs) = Some (Plain_file old u)" by metis
  from checked_write[OF assms(1,4)] b have p: "p2 = p1" by (metis assms(2) option.inject)
  let ?put = "\<lambda>b t. fs\<lparr>fs_nodes := jput (base @ zs) (Plain_file b t) (fs_nodes fs)\<rparr>"
  let ?fs1 = "?put (text_bytes (sr_content q1)) t1"
  have found: "realpath ?fs1 p1 = Some (base @ zs)" "node_at ?fs1 (base @ zs) = Some (Plain_file (text_bytes (sr_content q1)) t1)"
    by (simp_all add: realpath_put[OF b(4)] node_put[OF b(4)] b(3))
  have c1: "\<exists>r1. write_commit digest t1 q1 p1 fs = (Inr r1, ?fs1) \<and> sv_status r1 = Saved"
    by (simp add: write_commit_def write_found[OF b(3,4)])
  have c2: "\<exists>r2. write_commit digest t2 q2 p2 ?fs1 = (Inr r2, ?fs1\<lparr>fs_nodes := jput (base @ zs) (Plain_file (text_bytes (sr_content q2)) t2) (fs_nodes ?fs1)\<rparr>)
      \<and> sv_status r2 = Saved"
    unfolding p by (simp only: write_commit_def write_found[OF found] option.case) simp
  have c3: "node_at (?fs1\<lparr>fs_nodes := jput (base @ zs) (Plain_file (text_bytes (sr_content q2)) t2) (fs_nodes ?fs1)\<rparr>)
      = node_at (snd (write_commit digest t2 q2 p2 fs))"
    by (rule ext, simp only: p write_commit_def write_found[OF b(3,4)] option.case snd_conv node_put[OF found(2)] node_put[OF b(4)]) simp
  have c4: "\<not> (\<exists>p. write_check digest ?fs1 w q2 = Inr (Write_to p))"
  proof
    assume "\<exists>p. write_check digest ?fs1 w q2 = Inr (Write_to p)"
    then obtain p' where "write_check digest ?fs1 w q2 = Inr (Write_to p')" ..
    from checked_write[OF assms(1) this] obtain base' zs' old' u' where d: "realpath ?fs1 (ws_path w) = Some base'"
      "p' = path_resolve base' (normalizeRelativePath (sr_path q2))" "realpath ?fs1 p' = Some (base' @ zs')"
      "node_at ?fs1 (base' @ zs') = Some (Plain_file old' u')" "digest old' = sr_base q2" by metis
    have "base' = base" using d(1) b(1) by (simp add: realpath_put[OF b(4)])
    then have "p' = p1" using d(2) b(2) assms(2) by simp
    with d(3) found(1) have "base' @ zs' = base @ zs" by simp
    with d(4) found(2) have "old' = text_bytes (sr_content q1)" by simp
    with d(5) assms(5) show False by simp
  qed
  from c1 c2 c3 c4 show ?thesis by metis
qed

lemma concurrent_saves_lose_witness:
  "\<exists>r1 fs1 r2 fs2. write_commit demo_digest 8 demo_save [''srv'', ''app'', ''notes.txt''] demo_disk = (Inr r1, fs1) \<and> sv_status r1 = Saved
     \<and> write_commit demo_digest 9 demo_save [''srv'', ''app'', ''notes.txt''] fs1 = (Inr r2, fs2) \<and> sv_status r2 = Saved
     \<and> \<not> (\<exists>p. write_check demo_digest fs1 demo_ws demo_save = Inr (Write_to p))"
proof -
  have "demo_digest (text_bytes (sr_content demo_save)) \<noteq> sr_base demo_save"
    by (simp add: demo_save_def demo_digest_def text_bytes_def utf8_encode_def utf8_char_def scalar_def)
  from concurrent_saves_lose[OF demo_paths(7) refl demo_saved(1) demo_saved(1) this, of 8 9] show ?thesis by metis
qed

text \<open>A file that is not UTF-8 but has few control bytes is shown as UTF-8 text with replacement characters; saving the shown text
  unchanged, with the hash that was shown, is answered as done and replaces the bytes of the file.\<close>

theorem resaving_changes_bytes:
  "\<exists>r s fs'. read_file demo_digest demo_disk demo_ws ''latin.txt'' = Inr r \<and> fr_encoding r = Enc_utf8
     \<and> write_file demo_digest 9 demo_ws \<lparr>sr_path = ''latin.txt'', sr_content = the (fr_content r), sr_base = the (fr_hash r)\<rparr> demo_disk = (Inr s, fs')
     \<and> sv_status s = Saved \<and> node_at demo_disk [''srv'', ''app'', ''latin.txt''] = Some (Plain_file [0x63, 0xE9] 6)
     \<and> node_at fs' [''srv'', ''app'', ''latin.txt''] = Some (Plain_file [0x63, 0xEF, 0xBF, 0xBD] 9)"
proof -
  let ?r = "\<lparr>fr_encoding = Enc_utf8, fr_content = Some [0x63, 0xFFFD], fr_size = 2, fr_modified = Some 6, fr_hash = Some ''dd.''\<rparr>"
  let ?q = "\<lparr>sr_path = ''latin.txt'', sr_content = [0x63, 0xFFFD], sr_base = ''dd.''\<rparr>"
  have r: "read_file demo_digest demo_disk demo_ws ''latin.txt'' = Inr ?r" by (simp add: demo_eval)
  have n: "normalizeRelativePath ''latin.txt'' = ''latin.txt''" "isSupportedTextFilePath ''latin.txt''"
    "resolveWorkspaceWritePath demo_disk demo_ws ''latin.txt'' = Inr [''srv'', ''app'', ''latin.txt'']"
    "realpath demo_disk [''srv'', ''app'', ''latin.txt''] = Some [''srv'', ''app'', ''latin.txt'']"
    by code_simp+
  have b: "text_bytes [0x63, 0xFFFD] = [0x63, 0xEF, 0xBF, 0xBD]" by (simp add: text_bytes_def utf8_encode_def utf8_char_def scalar_def)
  have "write_check demo_digest demo_disk demo_ws ?q = Inr (Write_to [''srv'', ''app'', ''latin.txt''])"
    by (simp add: write_check_def n r utf8_encode_def utf8_char_def scalar_def MAX_TEXT_FILE_BYTES_def)
  then have "\<exists>s fs'. write_file demo_digest 9 demo_ws ?q demo_disk = (Inr s, fs') \<and> sv_status s = Saved
     \<and> node_at fs' [''srv'', ''app'', ''latin.txt''] = Some (Plain_file [0x63, 0xEF, 0xBF, 0xBD] 9)"
    by (simp add: write_file_def write_commit_def write_found[OF n(4) demo_paths(6)] b node_put[OF demo_paths(6)])
  with r demo_paths(6) show ?thesis by auto
qed

end
