(* ===== verification/Spec2Isabelle.thy ===== *)
theory Spec2Isabelle
  imports WebSocket TokenBucket Coordinator AppLock BrokerSafety TransportProperties StateProperties E2EProperties AppProperties FileProperties
begin

text \<open>
  OmniWork lets a phone (the App, under \<open>app\<close>) work with coding sessions on a computer (the Agent, under \<open>desktop/agent\<close>)
  through a server in the net (the relay, under \<open>relay/server\<close>); what they share is under \<open>packages\<close>. This development
  models the part that decides who may talk to whom and what reaches whom, as executable definitions that follow the
  TypeScript code, and proves what makes it correct. Names are those of the code where HOL allows it.

  How the parts work together. An Agent and an App each keep one WebSocket to the relay. The Agent proves its device key to the
  relay; the App names a device and is challenged; the relay carries the App's proof to the Agent of the device, the Agent decides
  (approved Apps, pairing by the owner) and the relay binds the App to the Agent on its answer. App and Agent then open an encrypted
  session; the relay carries its frames and nothing else that concerns the user's work. They may move the
  session to a direct peer channel; relay, Agent and App each keep a state machine for that.
\<close>

section \<open>Theories, and the code they model\<close>

text \<open>
  \<^descr> \<open>Prelude\<close>: association lists as the insertion-ordered \<open>Map\<close> of JavaScript (\<open>jget\<close>, \<open>jput\<close>, \<open>jdel\<close>), the locales
  \<open>keyed_store\<close> (laws of such a store) and \<open>invariant_machine\<close> (a step function that keeps an invariant; lemmas on runs), and generic lemmas.

  \<^bold>\<open>The relay\<close> (\<open>relay/server/src\<close>)

  \<^descr> \<open>WebSocket\<close>: \<open>websocket.ts\<close>, frames, the data loop, closing, keepalive. The bytes that have arrived are a
  buffer of the state; the locale \<open>frame_reader\<close> says what a reader of guarded bytes owes.
  \<^descr> \<open>TokenBucket\<close>: \<open>tokenBucket.ts\<close>, the limiter of failures per address; tokens are rationals.
  \<^descr> \<open>Topology\<close>, \<open>Broker\<close>: \<open>runtime/topology.ts\<close>, \<open>app-agent/*.ts\<close>, \<open>relayE2EController.ts\<close>, \<open>relayServer.ts\<close>. Connection
  objects are in a heap under their id; \<open>topology\<close> holds the maps of the code; the operations are written with an explicit state.
  Clock, ids, policies and signature checks come with the environment \<open>broker_env\<close> or as arguments.
  \<open>BrokerInvariant\<close> and \<open>BrokerSafety\<close> hold the invariant of all runs of the dispatcher and what follows from it.
  \<^descr> \<open>Orchestrator\<close>: \<open>upgrade/orchestrator.ts\<close>, proposals of a direct channel, commits, downgrades, back-off; each with its history.
  \<^descr> \<open>RelayState\<close>, \<open>StateTraffic\<close>, \<open>StatePresence\<close>, \<open>StateViews\<close>: \<open>relayStateStore.ts\<close>, what the administration pages read, and the traffic map.
  \<open>DeviceStatus\<close>: \<open>relayDeviceStatusStore.ts\<close>, its SQL as functions on rows; the locale \<open>presence_store\<close> is the contract of a table of
  statuses, interpreted on that table and used by \<open>StatePromise\<close> and \<open>StateProperties\<close>.

  \<^bold>\<open>Shared packages\<close>

  \<^descr> \<open>UpgradeState\<close>: \<open>protocol-ts/src/transport.ts\<close>.
  \<^descr> \<open>Encoding\<close>, \<open>Identity\<close>: \<open>protocol-ts/src/identity.ts\<close>, base64url, Crockford base32, ids derived from keys, signed field lists.
  \<^descr> \<open>E2ESession\<close>: \<open>e2e-noise/src/index.ts\<close>, the handshake of both ends and the numbered frames. The curve, the hash,
  HKDF and the cipher are the record \<open>crypto\<close>; what a theorem needs of them is a named hypothesis (\<open>exchange\<close>: both ends compute the same
  shared secret; \<open>signs_for\<close>: signatures verify; \<open>authentic\<close>: what was sealed opens). \<open>plain_crypto\<close> is a concrete
  instance, in which the hypotheses hold; it is not secret, and no theorem speaks of secrecy.
  \<open>E2EProperties\<close> holds the properties.

  \<^bold>\<open>The Agent\<close> (\<open>desktop/agent/src\<close>)

  \<^descr> \<open>Coordinator\<close>: \<open>transport/upgradeCoordinator.ts\<close> (and what the App's copy adds), cut at each \<open>await\<close>.
  \<^descr> \<open>Transport\<close>, \<open>TransportSafety\<close>, \<open>TransportStrict\<close>, \<open>TransportProperties\<close>: \<open>transport/sessionTransport.ts\<close> and
  \<open>transport/session-transport\<close>: routes as objects in a heap, peers, health samples, the strict gate with its queues, the switch of routes cut at its await.
  \<^descr> \<open>AgentTrust\<close>: \<open>config/trustedAppStore.ts\<close>, \<open>core/authReplayCache.ts\<close>. \<open>AppRegistry\<close>: \<open>core/appConnectionRegistry.ts\<close>.
  \<open>AgentGateway\<close>, \<open>AgentDispatch\<close>: \<open>core/agentAppSecurityGateway.ts\<close>, \<open>core/agentMessageDispatcher.ts\<close>, \<open>protocol-ts/src/e2eMessages.ts\<close>.
  The record \<open>gateway\<close> is the state of the object; what it does outside (messages, handlers run, prompts to the owner) is the list \<open>gw_effects\<close>.
  \<open>RegistryInvariant\<close>, \<open>GatewaySafety\<close>, \<open>GatewayEffects\<close>, \<open>GatewayPairing\<close>, \<open>GatewayFuel\<close>, \<open>GatewayRuns\<close> and \<open>GatewayProperties\<close> hold
  the invariant of all its runs and the properties.
  \<^descr> \<open>Utf8\<close>, \<open>FileSystem\<close>, \<open>FileService\<close>, \<open>FileProperties\<close>: \<open>files/fileService.ts\<close>, \<open>files/fileTypePolicy.ts\<close>,
  \<open>protocol-ts/src/textFiles.ts\<close>, over a file system with symbolic links.

  \<^bold>\<open>The App\<close> (\<open>app/src\<close>)

  \<^descr> \<open>Digest\<close>: \<open>features/auth/hmacSha256.ts\<close> on 32-bit words. \<open>AppLock\<close>: \<open>features/app-lock\<close>.
  \<^descr> \<open>AppSession\<close>, \<open>AppSafety\<close>, \<open>AppProperties\<close>: \<open>lib/relay-client/mobileRelaySession.ts\<close> over \<open>relay-client/src/index.ts\<close>; handlers are cut
  at each \<open>await\<close>, what they do next is a task resumed by an event. \<open>AppProperties\<close> also composes it with the Agent's gate.
\<close>

section \<open>What the lemmas show\<close>

text \<open>
  Each stateful component has a step function over its calls, a well-formedness invariant, and an
  interpretation of \<open>invariant_machine\<close> on them (\<open>limiter\<close>, \<open>ws_life\<close>, \<open>coordinator\<close>, \<open>orchestrator\<close>, \<open>proposals\<close>, \<open>history\<close>,
  \<open>transport_life\<close>, \<open>store_life\<close>, \<open>trust\<close>, \<open>gate\<close>, \<open>app\<close>, \<open>app_closed\<close>), so that the properties speak of all runs from the initial state, whatever the order of
  calls, timers and resumptions. On top of that: admission and routing on the relay (one Agent per device, a phone reaches only its own Agent,
  verdicts belong to pending proofs, contexts are used once); the gate of the Agent (business only out of frames of
  sessions with approved Apps; approval only by the owner; revocation at once); the session (both ends agree on keys and transcript, frames are
  accepted in order and once, nonces never repeat); the transport (nothing but strict control on the relay while a direct
  channel is required, order kept by a switch, queues bounded); refinement of the relay's table of statuses by a roster of what was promised; conservation
  of traffic counts; files read and written only inside a workspace; the composition of an App with the Agent. Theorems of
  kind error state where the code does not do what it means to.
\<close>

section \<open>Bounds and fuel\<close>

text \<open>
  The dispatcher of the Agent calls itself on a decrypted message; its model has fuel, the length of the outer frame's ciphertext plus one, and
  \<open>GatewayFuel\<close> shows that this is enough: each decrypted message is shorter than the frame it came from. Following a path in the file
  system ends since the number of links is bounded (\<open>walk\<close>, by measures on the links left and the names left). The data loop of the
  WebSocket consumes bytes. All other loops are structural. Integers that the code keeps in doubles are unbounded here; where the code bounds
  them (sequence numbers, lengths of frames, 32-bit words of the digests) the bound is in the definition.
\<close>

section \<open>Not modelled\<close>

text \<open>
  JSON text and its schemas (messages are the variants that the handlers read; a message the schemas refuse is one of the variants), exceptions
  of registered callbacks, logging, and the numbers of the clock beyond their order and differences. The terminal, sessions, Git, probes and learning
  stores of the Agent are behind its dispatcher: which of their handlers runs, on what and with which trusted context is modelled, what they do is not.
  WebRTC is outside the code. The screens and stores of the App, the pages of the relay's administration, user accounts of the relay, mail, configuration, the
  mobile shells and scripts are glue, presentation or services around the core modelled here.
\<close>

end
